(* ===== verification/ChatX_Prelude.thy ===== *)
theory ChatX_Prelude
  imports Main "HOL-Library.Word"
begin

text \<open>
  Shared vocabulary of the development.

  \<^item> Machine integers: Rust's \<^verbatim>\<open>u64\<close>, \<^verbatim>\<open>u32\<close>, \<^verbatim>\<open>u16\<close> and \<^verbatim>\<open>u8\<close> are words of that width;
    \<^verbatim>\<open>saturating_add\<close> and \<^verbatim>\<open>saturating_sub\<close> on \<^verbatim>\<open>u64\<close> are \<open>sat_add64\<close> and \<open>sat_sub64\<close>.
    \<^verbatim>\<open>usize\<close> values (lengths and byte counters) are natural numbers, with the saturation of
    \<^verbatim>\<open>usize::saturating_add\<close> written out at 64 bits (\<open>usize_sat_add\<close>).
  \<^item> Strings: a Rust \<^verbatim>\<open>str\<close> is the list of its UTF-8 bytes, one \<open>char\<close> per byte, so \<open>length\<close> is
    \<^verbatim>\<open>str::len\<close>; operations that count code points (\<^verbatim>\<open>chars().take(n)\<close>) or look at Unicode white
    space (\<^verbatim>\<open>trim\<close>) decode the UTF-8 sequences they need.
  \<^item> \<^verbatim>\<open>HashMap\<close>: a finite partial function; \<open>map_len\<close> is \<^verbatim>\<open>len\<close>, \<open>retain\<close> is \<^verbatim>\<open>retain\<close>.
  \<^item> \<^verbatim>\<open>Result<T, E>\<close>: the sum type, \<open>Inl\<close> for \<^verbatim>\<open>Err\<close> and \<open>Inr\<close> for \<^verbatim>\<open>Ok\<close>.
  \<^item> JSON documents: the constructors of \<^verbatim>\<open>serde_json::Value\<close> that the sources match on.
\<close>

named_theorems rust_str \<open>definitions of the string operations, for evaluation\<close>
named_theorems rust_int \<open>arithmetic of saturating and widening integer operations\<close>

section \<open>Machine integers\<close>

type_synonym u8 = "8 word"
type_synonym bytes = "u8 list"
type_synonym u16 = "16 word"
type_synonym u32 = "32 word"
type_synonym u64 = "64 word"

definition sat_add64 :: "u64 \<Rightarrow> u64 \<Rightarrow> u64" where
  "sat_add64 a b = (if unat a + unat b < 2 ^ 64 then a + b else 18446744073709551615)"

definition sat_sub64 :: "u64 \<Rightarrow> u64 \<Rightarrow> u64" where
  "sat_sub64 a b = (if a < b then 0 else a - b)"

definition usize_max :: nat where
  "usize_max = 2 ^ 64 - 1"

definition usize_sat_add :: "nat \<Rightarrow> nat \<Rightarrow> nat" where
  "usize_sat_add a b = min (a + b) usize_max"

section \<open>Strings as byte sequences\<close>

definition code :: "char \<Rightarrow> nat" where
  "code c = of_char c"

definition as_bytes :: "string \<Rightarrow> u8 list" where
  "as_bytes s = map of_char s"

definition starts_with :: "string \<Rightarrow> string \<Rightarrow> bool" where
  "starts_with p s \<longleftrightarrow> take (length p) s = p"

definition strip_prefix :: "string \<Rightarrow> string \<Rightarrow> string option" where
  "strip_prefix p s = (if starts_with p s then Some (drop (length p) s) else None)"

definition ends_with_char :: "char \<Rightarrow> string \<Rightarrow> bool" where
  "ends_with_char c s \<longleftrightarrow> s \<noteq> [] \<and> last s = c"

fun split_on :: "char \<Rightarrow> string \<Rightarrow> string list" where
  "split_on d [] = [[]]"
| "split_on d (c # cs) =
     (if c = d then [] # split_on d cs
      else case split_on d cs of [] \<Rightarrow> [[c]] | w # ws \<Rightarrow> (c # w) # ws)"

text \<open>Hexadecimal digits: \<^verbatim>\<open>u8::is_ascii_hexdigit\<close>, the formatter \<^verbatim>\<open>{byte:02x}\<close> and
  \<^verbatim>\<open>u8::from_str_radix(_, 16)\<close>. The latter accepts one leading plus sign, as the standard
  library does, and fails on overflow.\<close>

definition hex_digit :: "char \<Rightarrow> nat option" where
  "hex_digit c = (let n = code c in
     if 48 \<le> n \<and> n \<le> 57 then Some (n - 48)
     else if 97 \<le> n \<and> n \<le> 102 then Some (n - 87)
     else if 65 \<le> n \<and> n \<le> 70 then Some (n - 55)
     else None)"

definition is_ascii_hexdigit :: "char \<Rightarrow> bool" where
  "is_ascii_hexdigit c \<longleftrightarrow> hex_digit c \<noteq> None"

definition hex_char :: "nat \<Rightarrow> char" where
  "hex_char n = (if n < 10 then char_of (48 + n) else char_of (87 + n))"

definition hex2 :: "u8 \<Rightarrow> string" where
  "hex2 b = [hex_char (unat b div 16), hex_char (unat b mod 16)]"

definition hex_of :: "u8 list \<Rightarrow> string" where
  "hex_of bs = concat (map hex2 bs)"

fun radix16 :: "nat \<Rightarrow> string \<Rightarrow> nat option" where
  "radix16 acc [] = Some acc"
| "radix16 acc (c # cs) =
     (case hex_digit c of
        None \<Rightarrow> None
      | Some d \<Rightarrow> (if acc * 16 + d < 256 then radix16 (acc * 16 + d) cs else None))"

definition from_str_radix16_u8 :: "string \<Rightarrow> u8 option" where
  "from_str_radix16_u8 s =
     (if s = [] \<or> s = ''+'' \<or> s = ''-'' then None
      else if hd s = CHR ''+'' then map_option of_nat (radix16 0 (tl s))
      else map_option of_nat (radix16 0 s))"

text \<open>\<^verbatim>\<open>slice::chunks_exact(2)\<close>, \<^verbatim>\<open>slice::chunks(n)\<close> and \<^verbatim>\<open>str::from_utf8\<close> of one such pair of bytes.\<close>

fun chunks_exact2 :: "'a list \<Rightarrow> 'a list list" where
  "chunks_exact2 (a # b # r) = [a, b] # chunks_exact2 r"
| "chunks_exact2 _ = []"

function chunks :: "nat \<Rightarrow> 'a list \<Rightarrow> 'a list list" where
  "chunks n xs = (if xs = [] \<or> n = 0 then [] else take n xs # chunks n (drop n xs))"
  by pat_completeness auto
termination
  by (relation "measure (\<lambda>(n, xs). length xs)") auto

declare chunks.simps [simp del]

definition utf8_pair :: "string \<Rightarrow> bool" where
  "utf8_pair p \<longleftrightarrow> (case map code p of
     [a, b] \<Rightarrow> (a < 128 \<and> b < 128) \<or> (194 \<le> a \<and> a \<le> 223 \<and> 128 \<le> b \<and> b \<le> 191)
   | _ \<Rightarrow> False)"

text \<open>ASCII case folding and \<^verbatim>\<open>chars().take(n).collect()\<close>: the bytes of the first \<open>n\<close> code
  points, a continuation byte belonging to the code point before it.\<close>

definition ascii_lower :: "char \<Rightarrow> char" where
  "ascii_lower c = (if 65 \<le> code c \<and> code c \<le> 90 then char_of (code c + 32) else c)"

definition to_ascii_lowercase :: "string \<Rightarrow> string" where
  "to_ascii_lowercase s = map ascii_lower s"

definition utf8_cont :: "char \<Rightarrow> bool" where
  "utf8_cont c \<longleftrightarrow> 128 \<le> code c \<and> code c < 192"

fun chars_take :: "nat \<Rightarrow> string \<Rightarrow> string" where
  "chars_take n [] = []"
| "chars_take n (c # cs) =
     (if utf8_cont c then c # chars_take n cs
      else case n of 0 \<Rightarrow> [] | Suc m \<Rightarrow> c # chars_take m cs)"

definition chars_count :: "string \<Rightarrow> nat" where
  "chars_count s = length (filter (\<lambda>c. \<not> utf8_cont c) s)"

text \<open>\<^verbatim>\<open>str::trim\<close>: the white space code points of Unicode in their UTF-8 encoding.
  \<open>ws_len\<close> is the number of bytes of a leading white space code point (0 for none),
  \<open>ws_len_rev\<close> the same at the end of a string given in reverse.\<close>

definition ws1 :: "nat \<Rightarrow> bool" where
  "ws1 a \<longleftrightarrow> (9 \<le> a \<and> a \<le> 13) \<or> a = 32"

definition ws2 :: "nat \<Rightarrow> nat \<Rightarrow> bool" where
  "ws2 a b \<longleftrightarrow> a = 194 \<and> (b = 133 \<or> b = 160)"

definition ws3 :: "nat \<Rightarrow> nat \<Rightarrow> nat \<Rightarrow> bool" where
  "ws3 a b c \<longleftrightarrow>
     (a = 225 \<and> b = 154 \<and> c = 128)
   \<or> (a = 226 \<and> b = 128 \<and> ((128 \<le> c \<and> c \<le> 138) \<or> c = 168 \<or> c = 169 \<or> c = 175))
   \<or> (a = 226 \<and> b = 129 \<and> c = 159)
   \<or> (a = 227 \<and> b = 128 \<and> c = 128)"

fun ws_len :: "nat list \<Rightarrow> nat" where
  "ws_len [] = 0"
| "ws_len [a] = (if ws1 a then 1 else 0)"
| "ws_len [a, b] = (if ws1 a then 1 else if ws2 a b then 2 else 0)"
| "ws_len (a # b # c # r) =
     (if ws1 a then 1 else if ws2 a b then 2 else if ws3 a b c then 3 else 0)"

fun ws_len_rev :: "nat list \<Rightarrow> nat" where
  "ws_len_rev [] = 0"
| "ws_len_rev [a] = (if ws1 a then 1 else 0)"
| "ws_len_rev [b, a] = (if ws1 b then 1 else if ws2 a b then 2 else 0)"
| "ws_len_rev (c # b # a # r) =
     (if ws1 c then 1 else if ws2 b c then 2 else if ws3 a b c then 3 else 0)"

function strip_ws :: "(nat list \<Rightarrow> nat) \<Rightarrow> string \<Rightarrow> string" where
  "strip_ws w s = (if w (map code s) = 0 \<or> s = [] then s else strip_ws w (drop (w (map code s)) s))"
  by pat_completeness auto
termination
  by (relation "measure (\<lambda>(w, s). length s)") auto

declare strip_ws.simps [simp del]

definition trim :: "string \<Rightarrow> string" where
  "trim s = rev (strip_ws ws_len_rev (rev (strip_ws ws_len s)))"

text \<open>\<^verbatim>\<open>str::parse::<usize>()\<close>: decimal digits after an optional plus sign, at most \<^verbatim>\<open>usize::MAX\<close>.\<close>

fun radix10 :: "nat \<Rightarrow> nat \<Rightarrow> string \<Rightarrow> nat option" where
  "radix10 limit acc [] = Some acc"
| "radix10 limit acc (c # cs) =
     (if 48 \<le> code c \<and> code c \<le> 57 \<and> acc * 10 + (code c - 48) \<le> limit
      then radix10 limit (acc * 10 + (code c - 48)) cs else None)"

definition parse_unsigned :: "nat \<Rightarrow> string \<Rightarrow> nat option" where
  "parse_unsigned limit s =
     (if s = [] \<or> s = ''+'' \<or> s = ''-'' then None
      else if hd s = CHR ''+'' then radix10 limit 0 (tl s) else radix10 limit 0 s)"

section \<open>HTTP headers\<close>

text \<open>A header map is the list of its fields, names in lower case as \<^verbatim>\<open>HeaderName\<close> keeps them;
  \<open>header_str\<close> is \<^verbatim>\<open>get(name)\<close> followed by \<^verbatim>\<open>to_str().ok()\<close>, which takes visible ASCII and tabs only.\<close>

type_synonym headers = "(string \<times> string) list"

definition visible_ascii :: "string \<Rightarrow> bool" where
  "visible_ascii s \<longleftrightarrow> list_all (\<lambda>c. (32 \<le> code c \<and> code c < 127) \<or> code c = 9) s"

definition to_str_ok :: "string \<Rightarrow> string option" where
  "to_str_ok v = (if visible_ascii v then Some v else None)"

definition header_str :: "string \<Rightarrow> headers \<Rightarrow> string option" where
  "header_str n hs = Option.bind (map_of hs n) to_str_ok"

section \<open>Hash maps\<close>

definition map_len :: "('k \<rightharpoonup> 'v) \<Rightarrow> nat" where
  "map_len m = card (dom m)"

definition retain :: "('k \<Rightarrow> 'v \<Rightarrow> bool) \<Rightarrow> ('k \<rightharpoonup> 'v) \<Rightarrow> ('k \<rightharpoonup> 'v)" where
  "retain P m = (\<lambda>k. case m k of None \<Rightarrow> None | Some v \<Rightarrow> if P k v then Some v else None)"

section \<open>JSON documents\<close>

datatype json =
    JNull
  | JBool bool
  | JInt int
  | JFloat string
  | JString string
  | JArray "json list"
  | JObject "(string \<times> json) list"

fun json_get :: "string \<Rightarrow> json \<Rightarrow> json option" where
  "json_get k (JObject kvs) = map_of kvs k"
| "json_get k _ = None"

fun json_as_str :: "json \<Rightarrow> string option" where
  "json_as_str (JString s) = Some s"
| "json_as_str _ = None"

fun json_as_bool :: "json \<Rightarrow> bool option" where
  "json_as_bool (JBool b) = Some b"
| "json_as_bool _ = None"

fun json_as_u64 :: "json \<Rightarrow> nat option" where
  "json_as_u64 (JInt i) = (if 0 \<le> i \<and> i < 2 ^ 64 then Some (nat i) else None)"
| "json_as_u64 _ = None"

fun json_as_object :: "json \<Rightarrow> (string \<times> json) list option" where
  "json_as_object (JObject kvs) = Some kvs"
| "json_as_object _ = None"

text \<open>\<^verbatim>\<open>value[k]\<close>: indexing by a missing key, or of something that is not an object, is \<^verbatim>\<open>null\<close>.\<close>

definition json_index :: "string \<Rightarrow> json \<Rightarrow> json" where
  "json_index k v = (case json_get k v of None \<Rightarrow> JNull | Some x \<Rightarrow> x)"

text \<open>\<^verbatim>\<open>value.get(k).and_then(Value::as_str)\<close> and its Boolean companion.\<close>

definition json_str_at :: "string \<Rightarrow> json \<Rightarrow> string option" where
  "json_str_at k v = Option.bind (json_get k v) json_as_str"

definition json_bool_at :: "string \<Rightarrow> json \<Rightarrow> bool option" where
  "json_bool_at k v = Option.bind (json_get k v) json_as_bool"

section \<open>Lemmas on integers\<close>

lemma unat_u64_bound: "unat (x :: u64) < 2 ^ 64"
  using unsigned_less[of x] by simp

lemma unat_u8_bound [simp]: "unat (b :: u8) < 256"
  using unsigned_less[of b] by simp

lemma unat_sat_add64 [rust_int]: "unat (sat_add64 a b) = min (unat a + unat b) (2 ^ 64 - 1)"
proof (cases "unat a + unat b < 2 ^ 64")
  case True
  then have "unat (a + b) = unat a + unat b"
    by (simp add: unat_word_ariths)
  with True show ?thesis by (simp add: sat_add64_def)
next
  case False
  have "unat (18446744073709551615 :: u64) = 2 ^ 64 - 1"
    by simp
  with False show ?thesis by (simp add: sat_add64_def)
qed

lemma unat_sat_sub64 [rust_int]: "unat (sat_sub64 a b) = unat a - unat b"
  by (cases "a < b") (auto simp: sat_sub64_def word_less_nat_alt unat_sub word_le_nat_alt)

lemma sat_add64_one: "unat n < 2 ^ 64 - 1 \<Longrightarrow> unat (sat_add64 n 1) = Suc (unat n)"
  by (simp add: unat_sat_add64)

lemma le_sat_add64_iff [rust_int]: "x \<le> sat_add64 a b \<longleftrightarrow> unat x \<le> unat a + unat b"
  using unat_u64_bound[of x] by (auto simp: word_le_nat_alt unat_sat_add64)

lemma sat_sub64_le_iff [rust_int]: "sat_sub64 a b \<le> x \<longleftrightarrow> unat a \<le> unat b + unat x"
  by (auto simp: word_le_nat_alt unat_sat_sub64)

lemma sat_sub64_less_iff [rust_int]: "sat_sub64 a b < x \<longleftrightarrow> unat a - unat b < unat x"
  by (simp add: word_less_nat_alt unat_sat_sub64)

lemma usize_sat_add_le_iff [rust_int]:
  "c < usize_max \<Longrightarrow> usize_sat_add a b \<le> c \<longleftrightarrow> a + b \<le> c"
  by (auto simp: usize_sat_add_def min_def)

lemma usize_sat_add_exact:
  "c < usize_max \<Longrightarrow> usize_sat_add a b \<le> c \<Longrightarrow> usize_sat_add a b = a + b"
  by (auto simp: usize_sat_add_def min_def split: if_splits)

section \<open>Lemmas on strings\<close>

lemma length_as_bytes [simp]: "length (as_bytes s) = length s"
  by (simp add: as_bytes_def)

lemma code_char_of [simp]: "n < 256 \<Longrightarrow> code (char_of n) = n"
  by (simp add: code_def)

lemma code_less_256 [simp]: "code c < 256"
proof -
  have "of_char c < (256 :: nat)" by simp
  then show ?thesis by (simp add: code_def)
qed

lemma code_inject: "code c = code d \<longleftrightarrow> c = d"
  by (simp add: code_def)

lemma as_bytes_inject: "as_bytes s = as_bytes t \<longleftrightarrow> s = t"
proof -
  have "inj (of_char :: char \<Rightarrow> u8)"
  proof (rule injI)
    fix a b :: char
    assume "(of_char a :: u8) = of_char b"
    then have "unat (of_char a :: u8) = unat (of_char b :: u8)" by simp
    moreover have "unat (of_char c :: u8) = code c" for c
    proof -
      have "(of_char c :: u8) = of_nat (code c)" by (simp only: code_def of_nat_of_char)
      then show ?thesis using code_less_256[of c] by (simp only: unat_of_nat) simp
    qed
    ultimately show "a = b" by (simp add: code_inject)
  qed
  then show ?thesis by (simp add: as_bytes_def inj_map_eq_map)
qed

lemma starts_with_append [simp]: "starts_with p (p @ s)"
  by (simp add: starts_with_def)

lemma starts_withE:
  assumes "starts_with p s"
  obtains r where "s = p @ r"
  using assms unfolding starts_with_def by (metis append_take_drop_id)

lemma strip_prefix_Some_iff: "strip_prefix p s = Some r \<longleftrightarrow> s = p @ r"
  by (auto simp: strip_prefix_def elim: starts_withE)

lemma split_on_not_Nil [simp]: "split_on d s \<noteq> []"
  by (induction s) (auto split: list.splits)

lemma split_on_no_sep: "d \<notin> set s \<Longrightarrow> split_on d s = [s]"
  by (induction s) auto

lemma split_on_append:
  "d \<notin> set s \<Longrightarrow> split_on d (s @ d # r) = s # split_on d r"
  by (induction s) auto

lemma split_on_parts_no_sep: "w \<in> set (split_on d s) \<Longrightarrow> d \<notin> set w"
  by (induction s arbitrary: w) (auto split: list.splits if_splits)

lemma hex_digit_bound: "hex_digit c = Some d \<Longrightarrow> d < 16"
  by (auto simp: hex_digit_def Let_def split: if_splits)

lemma hex_digit_hex_char [simp]: "n < 16 \<Longrightarrow> hex_digit (hex_char n) = Some n"
  by (auto simp: hex_digit_def hex_char_def Let_def)

lemma is_ascii_hexdigit_hex_char [simp]: "n < 16 \<Longrightarrow> is_ascii_hexdigit (hex_char n)"
  by (simp add: is_ascii_hexdigit_def)

lemma hex_char_neq_plus: "n < 16 \<Longrightarrow> hex_char n \<noteq> CHR ''+'' \<and> hex_char n \<noteq> CHR ''-''"
  by (rule conjI; rule notI; drule hex_digit_hex_char) (simp_all add: hex_digit_def code_def)

lemma length_hex2 [simp]: "length (hex2 b) = 2"
  by (simp add: hex2_def)

lemma length_hex_of [simp]: "length (hex_of bs) = 2 * length bs"
  by (induction bs) (simp_all add: hex_of_def)

lemma hex_of_simps [simp]: "hex_of [] = []" "hex_of (b # bs) = hex2 b @ hex_of bs"
  by (simp_all add: hex_of_def)

lemma unat_u8_nibbles [simp]: "unat (b :: u8) div 16 < 16" "unat (b :: u8) mod 16 < 16"
  using unat_u8_bound[of b] by (simp_all add: div_less_iff_less_mult)

lemma hex2_digits: "\<forall>c \<in> set (hex2 b). is_ascii_hexdigit c"
  by (simp add: hex2_def)

lemma hex_of_digits: "\<forall>c \<in> set (hex_of bs). is_ascii_hexdigit c"
  using hex2_digits by (induction bs) auto

lemma ascii_lower_hex_char [simp]: "n < 16 \<Longrightarrow> ascii_lower (hex_char n) = hex_char n"
  by (auto simp: ascii_lower_def hex_char_def)

lemma hex_char_hex_digit: "hex_digit c = Some d \<Longrightarrow> hex_char d = ascii_lower c"
proof -
  assume "hex_digit c = Some d"
  then have "code (hex_char d) = code (ascii_lower c)"
    by (auto simp: hex_digit_def hex_char_def ascii_lower_def Let_def split: if_splits)
  then show ?thesis by (simp add: code_inject)
qed

lemma radix16_two:
  assumes "hex_digit a = Some x" and "hex_digit b = Some y"
  shows "radix16 0 [a, b] = Some (x * 16 + y)"
  using assms hex_digit_bound[OF assms(1)] hex_digit_bound[OF assms(2)] by simp

lemma hexdigit_not_sign: "is_ascii_hexdigit c \<Longrightarrow> c \<noteq> CHR ''+'' \<and> c \<noteq> CHR ''-''"
  by (auto simp: is_ascii_hexdigit_def hex_digit_def code_def)

lemma from_str_radix16_hex_pair:
  assumes "hex_digit a = Some x" and "hex_digit b = Some y"
  shows "from_str_radix16_u8 [a, b] = Some (of_nat (x * 16 + y))"
proof -
  have "a \<noteq> CHR ''+''"
    using assms(1) hexdigit_not_sign[of a] by (auto simp: is_ascii_hexdigit_def)
  then show ?thesis
    using radix16_two[OF assms] by (simp add: from_str_radix16_u8_def)
qed

lemma from_str_radix16_hex2 [simp]: "from_str_radix16_u8 (hex2 b) = Some b"
proof -
  have "from_str_radix16_u8 (hex2 b) = Some (of_nat (unat b div 16 * 16 + unat b mod 16))"
    unfolding hex2_def by (rule from_str_radix16_hex_pair) simp_all
  then show ?thesis by (simp only: div_mult_mod_eq) simp
qed

lemma hex2_of_pair:
  assumes "hex_digit a = Some x" and "hex_digit b = Some y"
  shows "hex2 (of_nat (x * 16 + y)) = [ascii_lower a, ascii_lower b]"
proof -
  have b: "x < 16" "y < 16"
    using assms hex_digit_bound by blast+
  then have "(x * 16 + y) mod 256 = x * 16 + y"
    by (intro mod_less) linarith
  then have "unat (of_nat (x * 16 + y) :: u8) = x * 16 + y"
    by (simp only: unat_of_nat) simp
  then show ?thesis
    using b assms hex_char_hex_digit by (simp add: hex2_def)
qed

lemma utf8_pair_hex: "is_ascii_hexdigit a \<Longrightarrow> is_ascii_hexdigit b \<Longrightarrow> utf8_pair [a, b]"
  by (auto simp: utf8_pair_def is_ascii_hexdigit_def hex_digit_def Let_def split: if_splits)

lemma utf8_pair_hex2 [simp]: "utf8_pair (hex2 b)"
  using hex2_digits[of b] by (simp add: hex2_def utf8_pair_hex)

lemma chunks_exact2_hex_of: "chunks_exact2 (hex_of bs) = map hex2 bs"
  by (induction bs) (simp_all add: hex2_def)

lemma length_chunks_exact2: "length (chunks_exact2 xs) = length xs div 2"
  by (induction xs rule: chunks_exact2.induct) auto

lemma concat_chunks: "0 < n \<Longrightarrow> concat (chunks n xs) = xs"
proof (induction n xs rule: chunks.induct)
  case (1 n xs)
  then show ?case by (cases "xs = []") (simp_all add: chunks.simps[of n])
qed

lemma chunks_bounds: "c \<in> set (chunks n xs) \<Longrightarrow> c \<noteq> [] \<and> length c \<le> n"
proof (induction n xs rule: chunks.induct)
  case (1 n xs)
  then show ?case by (cases "xs = [] \<or> n = 0") (auto simp: chunks.simps[of n xs])
qed

section \<open>Lemmas on hash maps\<close>

lemma retain_apply: "retain P m k = (case m k of None \<Rightarrow> None | Some v \<Rightarrow> if P k v then Some v else None)"
  by (simp add: retain_def)

lemma retain_Some_iff [simp]: "retain P m k = Some v \<longleftrightarrow> m k = Some v \<and> P k v"
  by (auto simp: retain_def split: option.splits)

lemma retain_empty [simp]: "retain P Map.empty = Map.empty"
  by (simp add: retain_def)

lemma retain_upd [simp]:
  "retain P (m(k \<mapsto> v)) = (if P k v then (retain P m)(k \<mapsto> v) else (retain P m)(k := None))"
  by (auto simp: retain_def fun_eq_iff)

lemma dom_retain_subset: "dom (retain P m) \<subseteq> dom m"
  by auto

lemma finite_dom_retain [simp]: "finite (dom m) \<Longrightarrow> finite (dom (retain P m))"
  by (rule finite_subset[OF dom_retain_subset])

lemma map_len_retain: "finite (dom m) \<Longrightarrow> map_len (retain P m) \<le> map_len m"
  unfolding map_len_def by (intro card_mono dom_retain_subset)

lemma map_len_empty [simp]: "map_len Map.empty = 0"
  by (simp add: map_len_def)

lemma map_len_upd: "finite (dom m) \<Longrightarrow> map_len (m(k \<mapsto> v)) \<le> Suc (map_len m)"
  by (auto simp: map_len_def card_insert_if)

lemma map_len_upd_room: "finite (dom m) \<Longrightarrow> map_len m < n \<Longrightarrow> map_len (m(k \<mapsto> v)) \<le> n"
  using map_len_upd[of m k v] by simp

lemma map_len_delete: "finite (dom m) \<Longrightarrow> map_len (m(k := None)) \<le> map_len m"
  by (auto simp: map_len_def intro: card_mono)

section \<open>Trimming leaves printable ASCII alone\<close>

definition graphic :: "string \<Rightarrow> bool" where
  "graphic s \<longleftrightarrow> (\<forall>c \<in> set s. 33 \<le> code c \<and> code c < 127)"

lemma ws_len_printable: "list_all (\<lambda>n. 33 \<le> n \<and> n < 127) ns \<Longrightarrow> ws_len ns = 0"
  by (induction ns rule: ws_len.induct) (auto simp: ws1_def ws2_def ws3_def)

lemma ws_len_rev_printable: "list_all (\<lambda>n. 33 \<le> n \<and> n < 127) ns \<Longrightarrow> ws_len_rev ns = 0"
  by (induction ns rule: ws_len_rev.induct) (auto simp: ws1_def ws2_def ws3_def)

lemma graphic_codes: "graphic s \<Longrightarrow> list_all (\<lambda>n. 33 \<le> n \<and> n < 127) (map code s)"
  by (simp add: graphic_def list_all_iff)

lemma graphic_rev [simp]: "graphic (rev s) \<longleftrightarrow> graphic s"
  by (simp add: graphic_def)

lemma strip_ws_graphic: "graphic s \<Longrightarrow> strip_ws ws_len s = s" "graphic s \<Longrightarrow> strip_ws ws_len_rev s = s"
  by (simp_all add: strip_ws.simps[of _ s] ws_len_printable ws_len_rev_printable graphic_codes)

lemma trim_graphic: "graphic s \<Longrightarrow> trim s = s"
  by (simp add: trim_def strip_ws_graphic)

lemma hexdigit_graphic: "is_ascii_hexdigit c \<Longrightarrow> 33 \<le> code c \<and> code c < 127"
  by (auto simp: is_ascii_hexdigit_def hex_digit_def Let_def split: if_splits)

lemma hex_of_graphic [simp]: "graphic (hex_of bs)"
  using hex_of_digits hexdigit_graphic by (auto simp: graphic_def)

lemma graphic_append [simp]: "graphic (s @ t) \<longleftrightarrow> graphic s \<and> graphic t"
  by (auto simp: graphic_def)

lemma graphic_visible: "graphic s \<Longrightarrow> visible_ascii s"
  by (induction s) (auto simp: graphic_def visible_ascii_def)

lemma visible_ascii_append [simp]: "visible_ascii (s @ t) \<longleftrightarrow> visible_ascii s \<and> visible_ascii t"
  by (simp add: visible_ascii_def)

section \<open>Comparison in constant time\<close>

lemma or_eq_zero_iff: "or a b = 0 \<longleftrightarrow> a = 0 \<and> b = (0 :: u8)"
  by (auto simp: bit_eq_iff bit_simps)

lemma xor_eq_zero_iff: "xor a b = 0 \<longleftrightarrow> a = (b :: u8)"
  by (auto simp: bit_eq_iff bit_simps)

lemma foldl_diff_zero:
  "foldl (\<lambda>diff (a, b). or diff (xor a b)) acc ps = (0 :: u8) \<longleftrightarrow> acc = 0 \<and> (\<forall>(a, b) \<in> set ps. a = b)"
  by (induction ps arbitrary: acc) (auto simp: or_eq_zero_iff xor_eq_zero_iff)

lemma diff_zero_iff:
  "length l = length r \<Longrightarrow> foldl (\<lambda>diff (a, b). or diff (xor a b)) 0 (zip l r) = (0 :: u8) \<longleftrightarrow> l = r"
  by (auto simp: foldl_diff_zero list_eq_iff_zip_eq)

end
