(* ===== verification/Mcp_Stream.thy ===== *)
theory Mcp_Stream
  imports ChatX_Prelude
begin

text \<open>
  The binary framing of the MCP websocket, protocol version 2
  (\<^verbatim>\<open>relay-protocol/src/mcp_stream.rs\<close>): one kind byte, sixteen raw request-id bytes, then the
  body. The relay and the desktop use the same two functions, so the properties that matter are the
  two round-trip laws and what they give a sender that cuts a payload into frames
  (locale \<open>frame_codec\<close>).
\<close>

section \<open>The codec\<close>

definition MAX_FRAME_BODY :: nat where
  "MAX_FRAME_BODY = 64 * 1024"

definition MAX_REQUEST_BYTES :: nat where
  "MAX_REQUEST_BYTES = 64 * 1024 * 1024"

definition MAX_RESPONSE_BYTES :: nat where
  "MAX_RESPONSE_BYTES = 128 * 1024 * 1024"

definition MAX_INFLIGHT :: nat where
  "MAX_INFLIGHT = 64"

datatype kind = RequestBody | ResponseBody

fun kind_byte :: "kind \<Rightarrow> u8" where
  "kind_byte RequestBody = 1"
| "kind_byte ResponseBody = 2"

text \<open>The loop over \<^verbatim>\<open>chunks_exact(2)\<close>; either \<^verbatim>\<open>?\<close> ends the whole function.\<close>

fun push_pairs :: "string list \<Rightarrow> u8 list option" where
  "push_pairs [] = Some []"
| "push_pairs (p # ps) =
     (if \<not> utf8_pair p then None
      else case from_str_radix16_u8 p of
             None \<Rightarrow> None
           | Some b \<Rightarrow> map_option ((#) b) (push_pairs ps))"

definition encode :: "kind \<Rightarrow> string \<Rightarrow> u8 list \<Rightarrow> u8 list option" where
  "encode k request_id body =
     (if length request_id \<noteq> 32 \<or> length body > MAX_FRAME_BODY then None
      else case push_pairs (chunks_exact2 request_id) of
             None \<Rightarrow> None
           | Some raw \<Rightarrow> Some (kind_byte k # raw @ body))"

definition decode :: "u8 list \<Rightarrow> (kind \<times> string \<times> u8 list) option" where
  "decode frame =
     (if length frame < 17 \<or> length frame > 17 + MAX_FRAME_BODY then None
      else case (if frame ! 0 = 1 then Some RequestBody
                 else if frame ! 0 = 2 then Some ResponseBody
                 else None) of
             None \<Rightarrow> None
           | Some k \<Rightarrow> Some (k, hex_of (take 16 (drop 1 frame)), drop 17 frame))"

section \<open>Request identifiers\<close>

definition hex_id :: "string \<Rightarrow> bool" where
  "hex_id s \<longleftrightarrow> length s = 32 \<and> (\<forall>c \<in> set s. is_ascii_hexdigit c)"

lemma length_push_pairs: "push_pairs ps = Some raw \<Longrightarrow> length raw = length ps"
  by (induction ps arbitrary: raw) (auto split: if_splits option.splits)

lemma push_pairs_hex2 [simp]: "push_pairs (map hex2 bs) = Some bs"
  by (induction bs) simp_all

lemma push_pairs_hex:
  assumes "\<forall>c \<in> set s. is_ascii_hexdigit c" and "even (length s)"
  shows "\<exists>raw. push_pairs (chunks_exact2 s) = Some raw \<and> hex_of raw = to_ascii_lowercase s"
  using assms
proof (induction s rule: chunks_exact2.induct)
  case (1 a b r)
  from "1.prems" obtain x y where xy: "hex_digit a = Some x" "hex_digit b = Some y"
    by (auto simp: is_ascii_hexdigit_def)
  from "1.prems" obtain raw where
      "push_pairs (chunks_exact2 r) = Some raw" "hex_of raw = to_ascii_lowercase r"
    using "1.IH" by auto
  with "1.prems" xy show ?case
    using utf8_pair_hex[of a b] from_str_radix16_hex_pair[OF xy] hex2_of_pair[OF xy]
    by (auto simp: to_ascii_lowercase_def)
qed (auto simp: to_ascii_lowercase_def)

lemma hex_id_hex_of [simp]: "length bs = 16 \<Longrightarrow> hex_id (hex_of bs)"
  using hex_of_digits by (simp add: hex_id_def)

lemma to_ascii_lowercase_hex_of [simp]: "to_ascii_lowercase (hex_of bs) = hex_of bs"
  by (induction bs) (simp_all add: to_ascii_lowercase_def hex2_def)

lemma encode_Some_iff:
  "encode k i body = Some frame \<longleftrightarrow>
     length i = 32 \<and> length body \<le> MAX_FRAME_BODY \<and>
     (\<exists>raw. push_pairs (chunks_exact2 i) = Some raw \<and> frame = kind_byte k # raw @ body)"
  by (auto simp: encode_def split: option.splits)

lemma encode_shape:
  assumes "encode k i body = Some frame"
  obtains raw where "frame = kind_byte k # raw @ body" "length raw = 16"
    "push_pairs (chunks_exact2 i) = Some raw" "length body \<le> MAX_FRAME_BODY"
  using assms length_push_pairs
  by (fastforce simp: encode_Some_iff length_chunks_exact2)

lemma encode_hex_id:
  assumes "hex_id i" and "length body \<le> MAX_FRAME_BODY"
  shows "\<exists>frame. encode k i body = Some frame"
  using assms push_pairs_hex[of i] by (auto simp: encode_Some_iff hex_id_def)

lemma decode_frame:
  assumes "length raw = 16" and "length body \<le> MAX_FRAME_BODY"
  shows "decode (kind_byte k # raw @ body) = Some (k, hex_of raw, body)"
  using assms by (cases k) (simp_all add: decode_def)

lemma decode_Some_iff:
  "decode frame = Some (k, i, body) \<longleftrightarrow>
     (\<exists>raw. frame = kind_byte k # raw @ body \<and> length raw = 16 \<and> i = hex_of raw
            \<and> length body \<le> MAX_FRAME_BODY)"
proof
  assume d: "decode frame = Some (k, i, body)"
  then obtain b r where f: "frame = b # r"
    by (cases frame) (auto simp: decode_def)
  with d show "\<exists>raw. frame = kind_byte k # raw @ body \<and> length raw = 16 \<and> i = hex_of raw
            \<and> length body \<le> MAX_FRAME_BODY"
    by (intro exI[of _ "take 16 r"]) (auto simp: decode_def split: if_splits)
qed (auto simp: decode_frame)

section \<open>The interface of a frame codec\<close>

text \<open>
  What a sender relies on: with an identifier the codec accepts (\<open>good\<close>), every body up to the
  limit has a frame, and decoding that frame returns kind, canonical identifier and body.
\<close>

locale frame_codec =
  fixes enc :: "'k \<Rightarrow> 'i \<Rightarrow> 'b list \<Rightarrow> 'f option"
    and dec :: "'f \<Rightarrow> ('k \<times> 'i \<times> 'b list) option"
    and limit :: nat
    and good :: "'i \<Rightarrow> bool"
    and canon :: "'i \<Rightarrow> 'i"
  assumes enc_total: "good i \<Longrightarrow> length body \<le> limit \<Longrightarrow> \<exists>f. enc k i body = Some f"
    and dec_enc: "good i \<Longrightarrow> enc k i body = Some f \<Longrightarrow> dec f = Some (k, canon i, body)"
    and limit_pos: "0 < limit"
begin

lemma enc_inject:
  assumes "good i" "good j" "enc k i body = Some f" "enc l j body' = Some f"
  shows "k = l \<and> canon i = canon j \<and> body = body'"
  using dec_enc[OF assms(1,3)] dec_enc[OF assms(2,4)] by simp

lemma pieces_encoded:
  assumes "good i"
  shows "\<exists>fs. map (enc k i) (chunks limit payload) = map Some fs
            \<and> map dec fs = map (\<lambda>p. Some (k, canon i, p)) (chunks limit payload)"
proof -
  let ?ps = "chunks limit payload"
  have "\<forall>p \<in> set ?ps. enc k i p = Some (the (enc k i p))"
    using enc_total[OF assms] chunks_bounds by (metis option.sel)
  then have "map (enc k i) ?ps = map Some (map (\<lambda>p. the (enc k i p)) ?ps)"
    by simp
  moreover have "map dec (map (\<lambda>p. the (enc k i p)) ?ps) = map (\<lambda>p. Some (k, canon i, p)) ?ps"
    using \<open>\<forall>p \<in> set ?ps. enc k i p = Some (the (enc k i p))\<close> dec_enc[OF assms] by auto
  ultimately show ?thesis by blast
qed

lemma reassemble:
  assumes "good i"
  shows "\<exists>fs. map (enc k i) (chunks limit payload) = map Some fs
            \<and> list_all (\<lambda>f. \<exists>p. dec f = Some (k, canon i, p)) fs
            \<and> concat (map (\<lambda>f. snd (snd (the (dec f)))) fs) = payload"
proof -
  obtain fs where fs: "map (enc k i) (chunks limit payload) = map Some fs"
      "map dec fs = map (\<lambda>p. Some (k, canon i, p)) (chunks limit payload)"
    using pieces_encoded[OF assms] by blast
  have "map (\<lambda>f. snd (snd (the (dec f)))) fs = map (snd \<circ> snd \<circ> the) (map dec fs)"
    by simp
  also have "\<dots> = chunks limit payload"
    by (simp add: fs(2) comp_def)
  finally have "concat (map (\<lambda>f. snd (snd (the (dec f)))) fs) = payload"
    using limit_pos by (simp add: concat_chunks)
  moreover have "list_all (\<lambda>f. \<exists>p. dec f = Some (k, canon i, p)) fs"
  proof -
    have "\<forall>d \<in> set (map dec fs). \<exists>p. d = Some (k, canon i, p)"
      by (simp add: fs(2))
    then show ?thesis by (simp add: list_all_iff)
  qed
  ultimately show ?thesis using fs(1) by blast
qed

end

interpretation mcp: frame_codec encode decode MAX_FRAME_BODY hex_id to_ascii_lowercase
proof (unfold_locales, goal_cases)
  case (1 i body k)
  then show ?case by (rule encode_hex_id)
next
  case (2 i k body f)
  then obtain raw where "f = kind_byte k # raw @ body" "length raw = 16"
      "push_pairs (chunks_exact2 i) = Some raw" "length body \<le> MAX_FRAME_BODY"
    by (metis encode_shape)
  with 2(1) push_pairs_hex[of i] show ?case
    by (auto simp: decode_frame hex_id_def)
next
  case 3
  show ?case by (simp add: MAX_FRAME_BODY_def)
qed

section \<open>Properties\<close>

text \<open>A frame made for a hexadecimal request id decodes to the same kind, the id in lower
  case, and the same body; a body up to 64 KiB always has a frame.\<close>

theorem decode_encode:
  assumes "hex_id i" and "length body \<le> MAX_FRAME_BODY"
  shows "\<exists>frame. encode k i body = Some frame \<and> length frame = 17 + length body
           \<and> decode frame = Some (k, to_ascii_lowercase i, body)"
proof -
  obtain frame where f: "encode k i body = Some frame"
    using mcp.enc_total[OF assms] by blast
  moreover have "length frame = 17 + length body"
    using f by (auto elim: encode_shape)
  ultimately show ?thesis using mcp.dec_enc[OF assms(1) f] by blast
qed

theorem decode_encode_witness:
  "\<exists>frame. encode ResponseBody (replicate 32 (CHR ''A'')) [7, 9] = Some frame
     \<and> length frame = 17 + length [7 :: u8, 9]
     \<and> decode frame = Some (ResponseBody, to_ascii_lowercase (replicate 32 (CHR ''A'')), [7, 9])"
proof -
  have "is_ascii_hexdigit (CHR ''A'')"
    by (simp add: is_ascii_hexdigit_def hex_digit_def code_def)
  then have "hex_id (replicate 32 (CHR ''A''))"
    by (simp add: hex_id_def)
  then show ?thesis by (rule decode_encode) (simp add: MAX_FRAME_BODY_def)
qed

text \<open>Whatever \<^verbatim>\<open>decode\<close> accepts is exactly the frame \<^verbatim>\<open>encode\<close> makes of what it returns:
  no two byte sequences decode to the same frame content, and no frame exceeds the limits.\<close>

theorem encode_decode:
  assumes "decode frame = Some (k, i, body)"
  shows "encode k i body = Some frame \<and> hex_id i \<and> length body \<le> MAX_FRAME_BODY"
proof -
  obtain raw where raw: "frame = kind_byte k # raw @ body" "length raw = 16" "i = hex_of raw"
      "length body \<le> MAX_FRAME_BODY"
    using assms by (auto simp: decode_Some_iff)
  then show ?thesis
    by (simp add: encode_Some_iff chunks_exact2_hex_of)
qed

theorem encode_decode_witness:
  "encode RequestBody (hex_of (replicate 16 171)) [5] = Some (1 # replicate 16 171 @ [5])
     \<and> hex_id (hex_of (replicate 16 171)) \<and> length [5 :: u8] \<le> MAX_FRAME_BODY"
proof -
  have "decode (1 # replicate 16 171 @ [5]) = Some (RequestBody, hex_of (replicate 16 171), [5])"
    using decode_frame[of "replicate 16 171" "[5]" RequestBody] by (simp add: MAX_FRAME_BODY_def)
  then show ?thesis by (rule encode_decode)
qed

text \<open>A payload cut with \<^verbatim>\<open>chunks(MAX_FRAME_BODY)\<close>, as both ends of the websocket do, is framed
  without a failure, every frame decodes to the sender's kind and id, and the decoded bodies in
  order are the payload.\<close>

theorem framed_payload_reassembles:
  assumes "hex_id i"
  shows "\<exists>fs. map (encode k i) (chunks MAX_FRAME_BODY payload) = map Some fs
            \<and> list_all (\<lambda>f. \<exists>p. decode f = Some (k, to_ascii_lowercase i, p)) fs
            \<and> concat (map (\<lambda>f. snd (snd (the (decode f)))) fs) = payload"
  using assms by (rule mcp.reassemble)

theorem framed_payload_reassembles_witness:
  "\<exists>fs. map (encode RequestBody (hex_of (replicate 16 3))) (chunks MAX_FRAME_BODY [1, 2]) = map Some fs
     \<and> list_all (\<lambda>f. \<exists>p. decode f = Some (RequestBody, to_ascii_lowercase (hex_of (replicate 16 3)), p)) fs
     \<and> concat (map (\<lambda>f. snd (snd (the (decode f)))) fs) = [1, 2]"
  by (rule framed_payload_reassembles) simp

text \<open>The id check of \<^verbatim>\<open>encode\<close> is looser than hexadecimal: \<^verbatim>\<open>from_str_radix\<close> takes a plus
  sign, so a pair \<^verbatim>\<open>+a\<close> is read as the byte \<^verbatim>\<open>0a\<close> and two different ids share a frame. On
  hexadecimal ids, which is all the callers pass, the frame determines the id up to case.\<close>

theorem encode_plus_sign:
  "hex_digit c = Some d \<Longrightarrow> length r = 30 \<Longrightarrow>
     encode k (CHR ''+'' # c # r) body = encode k (CHR ''0'' # c # r) body"
proof -
  assume c: "hex_digit c = Some d" and r: "length r = 30"
  have "from_str_radix16_u8 [CHR ''+'', c] = Some (of_nat d)"
    using c hex_digit_bound[OF c] by (auto simp: from_str_radix16_u8_def hex_digit_def code_def)
  moreover have "from_str_radix16_u8 [CHR ''0'', c] = Some (of_nat d)"
    using from_str_radix16_hex_pair[of "CHR ''0''" 0 c d] c by (simp add: hex_digit_def code_def)
  moreover have "utf8_pair [CHR ''+'', c]" "utf8_pair [CHR ''0'', c]"
    using c by (auto simp: utf8_pair_def hex_digit_def code_def Let_def split: if_splits)
  ultimately show ?thesis
    using r by (simp add: encode_def)
qed

theorem encode_plus_sign_witness:
  "encode RequestBody (CHR ''+'' # CHR ''a'' # replicate 30 (CHR ''1'')) [] =
   encode RequestBody (CHR ''0'' # CHR ''a'' # replicate 30 (CHR ''1'')) []"
  by (rule encode_plus_sign[where d = 10]) (simp_all add: hex_digit_def code_def)

end
