(* ===== verification/Mcp_Policy.thy ===== *)
theory Mcp_Policy
  imports ChatX_Prelude
begin

text \<open>
  The vocabulary the two ends of the MCP websocket share: the discriminators of the JSON control
  messages (\<^verbatim>\<open>relay-protocol/src/mcp_control.rs\<close>) and the allow lists for forwarded paths and
  headers (\<^verbatim>\<open>relay-protocol/src/mcp_http.rs\<close>).
\<close>

section \<open>Control messages\<close>

datatype ControlKind =
    Hello | HelloAck | Ping | Pong | Request | RequestEnd | RequestCancel
  | Head | Chunk | End | CtlError

fun as_str :: "ControlKind \<Rightarrow> string" where
  "as_str Hello = ''hello''"
| "as_str HelloAck = ''hello_ack''"
| "as_str Ping = ''ping''"
| "as_str Pong = ''pong''"
| "as_str Request = ''request''"
| "as_str RequestEnd = ''request_end''"
| "as_str RequestCancel = ''request_cancel''"
| "as_str Head = ''head''"
| "as_str Chunk = ''chunk''"
| "as_str End = ''end''"
| "as_str CtlError = ''error''"

definition parse_kind :: "string \<Rightarrow> ControlKind option" where
  "parse_kind s =
     (if s = ''hello'' then Some Hello
      else if s = ''hello_ack'' then Some HelloAck
      else if s = ''ping'' then Some Ping
      else if s = ''pong'' then Some Pong
      else if s = ''request'' then Some Request
      else if s = ''request_end'' then Some RequestEnd
      else if s = ''request_cancel'' then Some RequestCancel
      else if s = ''head'' then Some Head
      else if s = ''chunk'' then Some Chunk
      else if s = ''end'' then Some End
      else if s = ''error'' then Some CtlError
      else None)"

section \<open>Forwarding policy\<close>

definition WSS_PROTOCOL_V1 :: u8 where
  "WSS_PROTOCOL_V1 = 1"

definition WSS_PROTOCOL_V2 :: u8 where
  "WSS_PROTOCOL_V2 = 2"

definition LEGACY_MAX_REQUEST_BYTES :: nat where
  "LEGACY_MAX_REQUEST_BYTES = 5 * 1024 * 1024"

definition LEGACY_MAX_RESPONSE_BYTES :: nat where
  "LEGACY_MAX_RESPONSE_BYTES = 16 * 1024 * 1024"

definition allowed_path :: "string \<Rightarrow> bool" where
  "allowed_path p \<longleftrightarrow> p \<in> set
     [''/mcp'',
      ''/chatx-oauth/authorize'', ''/chatx-oauth/approve'',
      ''/chatx-oauth/token'', ''/chatx-oauth/register'',
      ''/.well-known/oauth-authorization-server'',
      ''/.well-known/oauth-protected-resource'',
      ''/.well-known/oauth-protected-resource/mcp'']"

definition allowed_request_header :: "string \<Rightarrow> bool" where
  "allowed_request_header n \<longleftrightarrow> n \<in> set
     [''content-type'', ''accept'', ''authorization'',
      ''mcp-session-id'', ''mcp-protocol-version'', ''last-event-id'',
      ''x-forwarded-for'', ''user-agent'', ''origin'', ''accept-language'']"

definition allowed_response_header :: "string \<Rightarrow> bool" where
  "allowed_response_header n \<longleftrightarrow> n \<in> set
     [''content-type'', ''cache-control'', ''www-authenticate'',
      ''location'', ''mcp-session-id'', ''retry-after'',
      ''x-content-type-options'', ''content-security-policy'',
      ''x-frame-options'', ''referrer-policy'', ''allow'',
      ''access-control-allow-origin'', ''access-control-allow-methods'',
      ''access-control-allow-headers'', ''access-control-expose-headers'',
      ''vary'']"

section \<open>Properties\<close>

lemma parse_as_str [simp]: "parse_kind (as_str k) = Some k"
  by (cases k) (simp_all add: parse_kind_def)

lemma parse_kind_Some_iff: "parse_kind s = Some k \<longleftrightarrow> s = as_str k"
proof
  show "s = as_str k" if "parse_kind s = Some k"
    using that by (auto simp: parse_kind_def split: if_splits)
qed simp

text \<open>The discriminators are a faithful encoding: \<^verbatim>\<open>parse\<close> inverts \<^verbatim>\<open>as_str\<close>, accepts no other
  string, and no credential-bearing or hop header is on either forwarding list.\<close>

theorem control_kind_roundtrip:
  "(parse_kind s = Some k \<longleftrightarrow> s = as_str k)
   \<and> (as_str k = as_str l \<longleftrightarrow> k = l)"
  using parse_kind_Some_iff[of s k] parse_as_str[of k] parse_as_str[of l]
  by (metis option.inject)

lemma never_forwarded:
  "\<not> (\<exists>n \<in> set [''cookie'', ''set-cookie'', ''host'', ''connection'', ''x-real-ip''].
        allowed_request_header n \<or> allowed_response_header n)"
  by (simp add: allowed_request_header_def allowed_response_header_def)

end
