(* ===== verification/Registry_Store.thy ===== *)
theory Registry_Store
  imports ChatX_Prelude
begin

text \<open>
  The relay's registry (\<^verbatim>\<open>relay-server/src/registry.rs\<close>): the records kept in memory, the hashing of
  tokens and their comparison, and the way the registry is loaded from and saved to disk.

  SHA-256 is a parameter (\<open>sha\<close>, from a byte string to its digest); so are serde's serializer
  (\<open>ser\<close>) and parser (\<open>parse\<close>). The file system is modelled by what \<^verbatim>\<open>std::fs\<close> does to the three
  files a registry path stands for: the file itself, \<^verbatim>\<open>.json.bak\<close> and \<^verbatim>\<open>.json.tmp\<close>. The outcome of each
  system call is an input (\<open>save_io\<close>), and \<open>save\<close> returns every state of the file system it passes
  through, so that a crash between two calls is a state of that list.
\<close>

section \<open>Records and token hashes\<close>

record DeviceRecord =
  dv_token_hash :: string
  dv_created_at :: u64

record DesktopRecord =
  dk_token_hash :: string
  dk_device_name :: string
  dk_app_version :: string
  dk_platform :: string
  dk_created_at :: u64
  dk_devices :: "string \<rightharpoonup> DeviceRecord"

record Registry =
  desktops :: "string \<rightharpoonup> DesktopRecord"
  used_registration_invites :: "string \<rightharpoonup> u64"

definition default_registry :: Registry where
  "default_registry = \<lparr>desktops = Map.empty, used_registration_invites = Map.empty\<rparr>"

definition token_hash :: "(u8 list \<Rightarrow> u8 list) \<Rightarrow> string \<Rightarrow> string" where
  "token_hash sha token = concat (map hex2 (sha (as_bytes token)))"

text \<open>The loop \<^verbatim>\<open>diff |= a ^ b\<close> over the zipped bytes, without an early exit.\<close>

definition constant_time_hex_eq :: "string \<Rightarrow> string \<Rightarrow> bool" where
  "constant_time_hex_eq left right =
     (if length left \<noteq> length right then False
      else foldl (\<lambda>diff (a, b). or diff (xor a b)) 0 (zip (as_bytes left) (as_bytes right)) = (0 :: u8))"

definition hash_matches :: "(u8 list \<Rightarrow> u8 list) \<Rightarrow> string \<Rightarrow> string \<Rightarrow> bool" where
  "hash_matches sha token expected_hex = constant_time_hex_eq (token_hash sha token) expected_hex"

section \<open>Loading\<close>

datatype reg_file = Primary | Backup | Temp

datatype file_content = Text string | Unreadable

type_synonym fs = "reg_file \<rightharpoonup> file_content"

datatype io_error = NotFound | OtherIo

definition read_to_string :: "fs \<Rightarrow> reg_file \<Rightarrow> io_error + string" where
  "read_to_string d f =
     (case d f of None \<Rightarrow> Inl NotFound | Some Unreadable \<Rightarrow> Inl OtherIo | Some (Text t) \<Rightarrow> Inr t)"

definition fs_rename :: "fs \<Rightarrow> reg_file \<Rightarrow> reg_file \<Rightarrow> fs" where
  "fs_rename d from to = (d(to := d from))(from := None)"

datatype load_error = Corrupt | ReadFailed | ReadBackupFailed

definition parse_registry :: "(string \<Rightarrow> Registry option) \<Rightarrow> string \<Rightarrow> load_error + Registry" where
  "parse_registry parse text = (case parse text of None \<Rightarrow> Inl Corrupt | Some r \<Rightarrow> Inr r)"

text \<open>\<open>rename_ok\<close> is the (ignored) outcome of moving a recovered backup back into place.\<close>

definition load :: "(string \<Rightarrow> Registry option) \<Rightarrow> bool \<Rightarrow> fs \<Rightarrow> (load_error + Registry) \<times> fs" where
  "load parse rename_ok d =
     (case read_to_string d Primary of
        Inr text \<Rightarrow> (parse_registry parse text, d)
      | Inl NotFound \<Rightarrow>
          (case read_to_string d Backup of
             Inr text \<Rightarrow>
               (case parse_registry parse text of
                  Inl e \<Rightarrow> (Inl e, d)
                | Inr r \<Rightarrow> (Inr r, if rename_ok then fs_rename d Backup Primary else d))
           | Inl NotFound \<Rightarrow> (Inr default_registry, d)
           | Inl OtherIo \<Rightarrow> (Inl ReadBackupFailed, d))
      | Inl OtherIo \<Rightarrow> (Inl ReadFailed, d))"

section \<open>Saving\<close>

record save_io =
  mkdir_ok :: bool
  torn :: file_content            \<comment> \<open>what an interrupted or failed write leaves in the temporary file\<close>
  write_ok :: bool
  rename_ok :: bool       \<comment> \<open>temporary file over the registry\<close>
  rm_backup_ok :: bool    \<comment> \<open>Windows: removal of an old backup\<close>
  backup_ok :: bool       \<comment> \<open>Windows: registry to backup\<close>
  cleanup_ok :: bool      \<comment> \<open>Windows: removal of the backup at the end\<close>
  restore_ok :: bool      \<comment> \<open>Windows: backup back to the registry\<close>

datatype save_error =
  CreateDirFailed | SerializeFailed | WriteFailed | BackupFailed | ReplaceFailed

definition write_temp ::
  "(Registry \<Rightarrow> string option) \<Rightarrow> save_io \<Rightarrow> Registry \<Rightarrow> fs \<Rightarrow> (save_error + fs) \<times> fs list" where
  "write_temp ser io r d =
     (if \<not> mkdir_ok io then (Inl CreateDirFailed, [d])
      else case ser r of
        None \<Rightarrow> (Inl SerializeFailed, [d])
      | Some text \<Rightarrow>
          (let d1 = d(Temp \<mapsto> torn io); d2 = d(Temp \<mapsto> Text (text @ [CHR 0x0A])) in
           if \<not> write_ok io then (Inl WriteFailed, [d, d1])
           else (Inr d2, [d, d1, d2])))"

definition save_unix ::
  "(Registry \<Rightarrow> string option) \<Rightarrow> save_io \<Rightarrow> Registry \<Rightarrow> fs \<Rightarrow> (save_error + unit) \<times> fs list" where
  "save_unix ser io r d =
     (case write_temp ser io r d of
        (Inl e, ds) \<Rightarrow> (Inl e, ds)
      | (Inr d2, ds) \<Rightarrow>
          (if rename_ok io then (Inr (), ds @ [fs_rename d2 Temp Primary])
           else (Inl ReplaceFailed, ds)))"

text \<open>The Windows variant moves the old file out of the way first: \<open>win_d3\<close> after the removal of a
  stale backup, \<open>win_d4\<close> after the registry became the backup.\<close>

definition win_d3 :: "save_io \<Rightarrow> fs \<Rightarrow> fs" where
  "win_d3 io d2 = (if rm_backup_ok io then d2(Backup := None) else d2)"

definition win_d4 :: "save_io \<Rightarrow> fs \<Rightarrow> fs" where
  "win_d4 io d2 =
     (if win_d3 io d2 Primary \<noteq> None then fs_rename (win_d3 io d2) Primary Backup else win_d3 io d2)"

definition win_restore :: "save_io \<Rightarrow> fs \<Rightarrow> fs" where
  "win_restore io d4 =
     (if restore_ok io \<and> d4 Backup \<noteq> None then fs_rename d4 Backup Primary else d4)"

definition win_cleanup :: "save_io \<Rightarrow> fs \<Rightarrow> fs" where
  "win_cleanup io d5 = (if cleanup_ok io then d5(Backup := None) else d5)"

definition save_windows ::
  "(Registry \<Rightarrow> string option) \<Rightarrow> save_io \<Rightarrow> Registry \<Rightarrow> fs \<Rightarrow> (save_error + unit) \<times> fs list" where
  "save_windows ser io r d =
     (case write_temp ser io r d of
        (Inl e, ds) \<Rightarrow> (Inl e, ds)
      | (Inr d2, ds) \<Rightarrow>
          (if win_d3 io d2 Primary \<noteq> None \<and> \<not> backup_ok io
           then (Inl BackupFailed, ds @ [win_d3 io d2])
           else if rename_ok io
           then (Inr (), ds @ [win_d3 io d2, win_d4 io d2, fs_rename (win_d4 io d2) Temp Primary,
                               win_cleanup io (fs_rename (win_d4 io d2) Temp Primary)])
           else (Inl ReplaceFailed, ds @ [win_d3 io d2, win_d4 io d2, win_restore io (win_d4 io d2)])))"

section \<open>Constant-time comparison\<close>

lemma constant_time_hex_eq_iff: "constant_time_hex_eq l r \<longleftrightarrow> l = r"
  using diff_zero_iff [of "as_bytes l" "as_bytes r"] by (auto simp: constant_time_hex_eq_def as_bytes_inject)

lemma hash_matches_iff: "hash_matches sha token e \<longleftrightarrow> token_hash sha token = e"
  by (simp add: hash_matches_def constant_time_hex_eq_iff)

section \<open>What the registry's store promises\<close>

text \<open>
  The contract the handlers of the relay rely on. \<open>good r\<close> says that the parser reads back what the
  serializer wrote for \<open>r\<close>. A successful save makes \<open>r\<close> the registry a restart loads; a failed save
  leaves the one before; and at every moment in between a crash leaves one of the two. \<open>safe d\<close> is the
  state of the disk these promises need, and \<open>sane io\<close> the outcomes of the system calls that keep it.
\<close>

locale registry_store =
  fixes store :: "'io \<Rightarrow> 'r \<Rightarrow> 'd \<Rightarrow> ('e + unit) \<times> 'd list"
    and reload :: "'d \<Rightarrow> 'l + 'r"
    and good :: "'r \<Rightarrow> bool"
    and safe :: "'d \<Rightarrow> bool"
    and sane :: "'io \<Rightarrow> bool"
  assumes states_nonempty: "snd (store io r d) \<noteq> []"
    and store_ok: "good r \<Longrightarrow> store io r d = (Inr (), ds) \<Longrightarrow> reload (last ds) = Inr r"
    and store_safe: "safe d \<Longrightarrow> sane io \<Longrightarrow> store io r d = (res, ds) \<Longrightarrow> safe (last ds)"
    and store_crash: "good r \<Longrightarrow> safe d \<Longrightarrow> reload d = Inr old \<Longrightarrow> x \<in> set (snd (store io r d))
        \<Longrightarrow> reload x = Inr old \<or> reload x = Inr r"
    and store_err: "safe d \<Longrightarrow> reload d = Inr old \<Longrightarrow> store io r d = (Inl e, ds)
        \<Longrightarrow> reload (last ds) = Inr old"
begin

text \<open>A handler that replaces the registry in memory only when the save succeeded stays in step with
  the disk.\<close>

lemma commit_in_step:
  assumes "good r" "safe d" "reload d = Inr old" "store io r d = (res, ds)"
  shows "reload (last ds) = Inr (case res of Inl _ \<Rightarrow> old | Inr _ \<Rightarrow> r)"
  using assms store_ok store_err by (cases res) auto

end

text \<open>A registry path is safe when the file itself is there, or there is no backup to fall back on.\<close>

definition safe_disk :: "fs \<Rightarrow> bool" where
  "safe_disk d \<longleftrightarrow> d Primary \<noteq> None \<or> d Backup = None"

definition reads_back :: "(Registry \<Rightarrow> string option) \<Rightarrow> (string \<Rightarrow> Registry option) \<Rightarrow> Registry \<Rightarrow> bool" where
  "reads_back ser parse r \<longleftrightarrow> (\<forall>text. ser r = Some text \<longrightarrow> parse (text @ [CHR 0x0A]) = Some r)"

definition reload_of :: "(string \<Rightarrow> Registry option) \<Rightarrow> fs \<Rightarrow> load_error + Registry" where
  "reload_of parse d = fst (load parse True d)"

lemma reload_of_eq:
  "reload_of parse d =
     (case d Primary of
        Some (Text t) \<Rightarrow> parse_registry parse t
      | Some Unreadable \<Rightarrow> Inl ReadFailed
      | None \<Rightarrow> (case d Backup of
                   Some (Text t) \<Rightarrow> parse_registry parse t
                 | Some Unreadable \<Rightarrow> Inl ReadBackupFailed
                 | None \<Rightarrow> Inr default_registry))"
  by (simp add: reload_of_def load_def read_to_string_def split: option.splits file_content.splits sum.splits)

lemma load_rename_irrelevant: "fst (load parse b d) = reload_of parse d"
  by (simp add: reload_of_def load_def split: option.splits file_content.splits sum.splits io_error.splits)

lemma reload_of_cong:
  "d Primary = d' Primary \<Longrightarrow> (d Primary = None \<Longrightarrow> d Backup = d' Backup)
     \<Longrightarrow> reload_of parse d = reload_of parse d'"
  by (simp add: reload_of_eq split: option.splits)

lemma reload_of_Temp [simp]: "reload_of parse (d(Temp := x)) = reload_of parse d"
  by (rule reload_of_cong) simp_all

lemma parse_registry_reads_back:
  "reads_back ser parse r \<Longrightarrow> ser r = Some text \<Longrightarrow> parse_registry parse (text @ [CHR 0x0A]) = Inr r"
  by (simp add: reads_back_def parse_registry_def)

text \<open>Writing the temporary file never touches what a restart would read.\<close>

lemma write_temp_states:
  assumes "write_temp ser io r d = (res, ds)"
  shows "ds \<noteq> [] \<and> (\<forall>x \<in> set ds. x Primary = d Primary \<and> x Backup = d Backup)"
  using assms by (auto simp: write_temp_def Let_def split: if_splits option.splits)

lemma write_temp_Inr:
  assumes "write_temp ser io r d = (Inr d2, ds)"
  shows "\<exists>text. ser r = Some text \<and> d2 = d(Temp \<mapsto> Text (text @ [CHR 0x0A])) \<and> last ds = d2"
  using assms by (auto simp: write_temp_def Let_def split: if_splits option.splits)


definition sane_windows :: "save_io \<Rightarrow> bool" where
  "sane_windows io \<longleftrightarrow> rename_ok io \<or> restore_ok io"

lemma reload_Primary_Text:
  "d Primary = Some (Text t) \<Longrightarrow> reload_of parse d = parse_registry parse t"
  by (simp add: reload_of_eq)

lemma reload_Backup_Text:
  "d Primary = None \<Longrightarrow> d Backup = Some (Text t) \<Longrightarrow> reload_of parse d = parse_registry parse t"
  by (simp add: reload_of_eq)

lemma reload_Inr_Primary:
  "reload_of parse d = Inr r \<Longrightarrow> d Primary = Some c \<Longrightarrow> \<exists>t. c = Text t \<and> parse_registry parse t = Inr r"
  by (cases c) (auto simp: reload_of_eq)

lemma save_unix_cases:
  assumes "save_unix ser io r d = (res, ds)"
  obtains (temp) e where "res = Inl e" "write_temp ser io r d = (Inl e, ds)"
  | (replace) d2 es where "res = Inl ReplaceFailed" "write_temp ser io r d = (Inr d2, ds)"
  | (saved) d2 es where "res = Inr ()" "write_temp ser io r d = (Inr d2, es)"
      "ds = es @ [fs_rename d2 Temp Primary]"
  using assms by (auto simp: save_unix_def split: prod.splits sum.splits if_splits)

lemma unchanged_states:
  assumes "write_temp ser io r d = (res, ds)" and "x \<in> set ds"
  shows "reload_of parse x = reload_of parse d"
  using write_temp_states[OF assms(1)] assms(2) by (intro reload_of_cong) auto

lemma last_write_temp:
  assumes "write_temp ser io r d = (res, ds)"
  shows "last ds \<in> set ds"
  using write_temp_states[OF assms] by simp

lemma reload_replaced:
  assumes "reads_back ser parse r" and "write_temp ser io r d = (Inr d2, es)"
    and "x Primary = d2 Temp"
  shows "reload_of parse x = Inr r"
  using write_temp_Inr[OF assms(2)] assms(1,3)
  by (auto simp: reload_Primary_Text parse_registry_reads_back)

interpretation unix_store: registry_store "save_unix ser" "reload_of parse" "reads_back ser parse"
    "\<lambda>_. True" "\<lambda>_. True"
  for ser parse
proof (unfold_locales, goal_cases)
  case (1 io r d)
  obtain res ds where sv: "save_unix ser io r d = (res, ds)" by (cases "save_unix ser io r d")
  from sv show ?case
    by (rule save_unix_cases) (use sv in \<open>auto dest: write_temp_states\<close>)
next
  case (2 r io d ds)
  from 2(2) show ?case
    by (rule save_unix_cases) (auto intro: reload_replaced[OF 2(1)] simp: fs_rename_def)
next
  case (4 r d old x io)
  obtain res ds where sv: "save_unix ser io r d = (res, ds)" by (cases "save_unix ser io r d")
  from sv show ?case
    by (rule save_unix_cases)
      (use 4 sv in \<open>auto dest: unchanged_states[where parse = parse]
         intro: reload_replaced[OF 4(1)] simp: fs_rename_def\<close>)
next
  case (5 d old io r e ds)
  from 5(3) show ?case
    by (rule save_unix_cases)
      (metis 5(2) unchanged_states last_write_temp sum.distinct(1))+
qed simp


lemma save_windows_cases:
  assumes "save_windows ser io r d = (res, ds)"
  obtains (temp) e where "res = Inl e" "write_temp ser io r d = (Inl e, ds)"
  | (backup) d2 es where "res = Inl BackupFailed" "write_temp ser io r d = (Inr d2, es)"
      "ds = es @ [win_d3 io d2]" "win_d3 io d2 Primary \<noteq> None"
  | (saved) d2 es where "res = Inr ()" "write_temp ser io r d = (Inr d2, es)" "rename_ok io"
      "ds = es @ [win_d3 io d2, win_d4 io d2, fs_rename (win_d4 io d2) Temp Primary,
                  win_cleanup io (fs_rename (win_d4 io d2) Temp Primary)]"
  | (failed) d2 es where "res = Inl ReplaceFailed" "write_temp ser io r d = (Inr d2, es)"
      "ds = es @ [win_d3 io d2, win_d4 io d2, win_restore io (win_d4 io d2)]" "\<not> rename_ok io"
  using assms by (auto simp: save_windows_def split: prod.splits sum.splits if_splits)

lemma win_same:
  assumes "write_temp ser io r d = (Inr d2, es)" "safe_disk d" "reload_of parse d = Inr old"
  shows "reload_of parse (win_d3 io d2) = Inr old" "reload_of parse (win_d4 io d2) = Inr old"
    "win_d4 io d2 Temp = d2 Temp"
    "win_d3 io d2 Primary \<noteq> None \<Longrightarrow> safe_disk (win_d3 io d2)"
proof -
  have d2: "d2 Primary = d Primary" "d2 Backup = d Backup"
    using write_temp_Inr[OF assms(1)] by auto
  have d3: "win_d3 io d2 Primary = d Primary" "d Primary = None \<Longrightarrow> win_d3 io d2 Backup = d Backup"
    using d2 assms(2) by (auto simp: win_d3_def safe_disk_def)
  show r3: "reload_of parse (win_d3 io d2) = Inr old"
    using d3 assms(3) by (metis reload_of_cong)
  show "reload_of parse (win_d4 io d2) = Inr old"
  proof (cases "win_d3 io d2 Primary")
    case None
    then show ?thesis using r3 by (simp add: win_d4_def)
  next
    case (Some c)
    with r3 obtain t where "c = Text t" "parse_registry parse t = Inr old"
      using reload_Inr_Primary by blast
    with Some show ?thesis
      by (simp add: win_d4_def fs_rename_def reload_of_eq)
  qed
  show "win_d4 io d2 Temp = d2 Temp"
    by (simp add: win_d4_def win_d3_def fs_rename_def)
  show "safe_disk (win_d3 io d2)" if "win_d3 io d2 Primary \<noteq> None"
    using that by (simp add: safe_disk_def)
qed

lemma win_restored:
  assumes "write_temp ser io r d = (Inr d2, es)" "safe_disk d" "reload_of parse d = Inr old"
  shows "reload_of parse (win_restore io (win_d4 io d2)) = Inr old"
    "restore_ok io \<Longrightarrow> safe_disk (win_restore io (win_d4 io d2))"
proof -
  have r4: "reload_of parse (win_d4 io d2) = Inr old"
    by (rule win_same[OF assms])
  have p: "win_d4 io d2 Primary = None"
    by (simp add: win_d4_def fs_rename_def)
  show "reload_of parse (win_restore io (win_d4 io d2)) = Inr old"
    using r4 p
    by (cases "win_d4 io d2 Backup")
      (auto simp: win_restore_def fs_rename_def reload_of_eq split: file_content.splits)
  show "safe_disk (win_restore io (win_d4 io d2))" if "restore_ok io"
    using that by (auto simp: win_restore_def fs_rename_def safe_disk_def)
qed

lemma win_saved:
  assumes "reads_back ser parse r" "write_temp ser io r d = (Inr d2, es)"
    and "x = fs_rename (win_d4 io d2) Temp Primary \<or> x = win_cleanup io (fs_rename (win_d4 io d2) Temp Primary)"
  shows "reload_of parse x = Inr r" "x Primary \<noteq> None"
proof -
  have x: "x Primary = d2 Temp"
    using assms(3) by (auto simp: win_cleanup_def fs_rename_def win_d4_def win_d3_def)
  then show "reload_of parse x = Inr r"
    by (rule reload_replaced[OF assms(1,2)])
  show "x Primary \<noteq> None"
    using x write_temp_Inr[OF assms(2)] by auto
qed

interpretation windows_store: registry_store "save_windows ser" "reload_of parse" "reads_back ser parse"
    safe_disk sane_windows
  for ser parse
proof (unfold_locales, goal_cases)
  case (1 io r d)
  obtain res ds where sv: "save_windows ser io r d = (res, ds)" by (cases "save_windows ser io r d")
  from sv show ?case
    by (rule save_windows_cases) (use sv in \<open>auto dest: write_temp_states\<close>)
next
  case (2 r io d ds)
  from 2(2) show ?case
    by (rule save_windows_cases) (auto intro: win_saved(1)[OF 2(1)])
next
  case (3 d io r res ds)
  from 3(3) show ?case
  proof (rule save_windows_cases)
    fix e assume "write_temp ser io r d = (Inl e, ds)"
    then show ?thesis
      using write_temp_states last_write_temp 3(1) unfolding safe_disk_def by metis
  qed (use 3 in \<open>auto simp: safe_disk_def sane_windows_def win_restore_def win_cleanup_def fs_rename_def
      win_d3_def win_d4_def dest: write_temp_Inr split: if_splits\<close>)
next
  case (4 r d old x io)
  obtain res ds where sv: "save_windows ser io r d = (res, ds)" by (cases "save_windows ser io r d")
  from sv show ?case
  proof (rule save_windows_cases)
    fix d2 es assume w: "write_temp ser io r d = (Inr d2, es)"
    note old = unchanged_states[OF w, where parse = parse] win_same[OF w 4(2,3)] win_restored[OF w 4(2,3)]
    note new = win_saved(1)[OF 4(1) w]
    show "ds = es @ [win_d3 io d2] \<Longrightarrow> ?thesis"
      using 4(3,4) sv old by auto
    show "ds = es @ [win_d3 io d2, win_d4 io d2, fs_rename (win_d4 io d2) Temp Primary,
                  win_cleanup io (fs_rename (win_d4 io d2) Temp Primary)] \<Longrightarrow> ?thesis"
      using 4(3,4) sv old new by auto
    show "ds = es @ [win_d3 io d2, win_d4 io d2, win_restore io (win_d4 io d2)] \<Longrightarrow> ?thesis"
      using 4(3,4) sv old by auto
  next
    fix e assume "write_temp ser io r d = (Inl e, ds)"
    then show ?thesis using unchanged_states[where parse = parse] 4(3,4) sv by auto
  qed
next
  case (5 d old io r e ds)
  from 5(3) show ?case
  proof (rule save_windows_cases)
    fix e assume "write_temp ser io r d = (Inl e, ds)"
    then show ?thesis
      using unchanged_states[where parse = parse] last_write_temp 5(2) by metis
  qed (use 5 in \<open>auto intro: win_same(1) win_restored(1)\<close>)
qed


section \<open>Properties\<close>

text \<open>The comparison that runs in time independent of the contents accepts exactly equal strings, so
  a token is accepted exactly when its digest is the stored one.\<close>

theorem hash_matches_correct:
  "(constant_time_hex_eq l r \<longleftrightarrow> l = r)
   \<and> (hash_matches sha token e \<longleftrightarrow> e = hex_of (sha (as_bytes token)))"
  by (auto simp: constant_time_hex_eq_iff hash_matches_iff token_hash_def hex_of_def)


definition io_fine :: save_io where
  "io_fine = \<lparr>mkdir_ok = True, torn = Unreadable, write_ok = True, rename_ok = True, rm_backup_ok = True,
     backup_ok = True, cleanup_ok = True, restore_ok = True\<rparr>"

definition reg_a :: Registry where
  "reg_a = default_registry\<lparr>used_registration_invites := [''a'' \<mapsto> 1]\<rparr>"

lemma reg_a_neq [simp]: "reg_a \<noteq> default_registry" "default_registry \<noteq> reg_a"
proof -
  have "used_registration_invites reg_a ''a'' \<noteq> used_registration_invites default_registry ''a''"
    by (simp add: reg_a_def default_registry_def)
  then show "reg_a \<noteq> default_registry" "default_registry \<noteq> reg_a" by metis+
qed


text \<open>A registry is never silently reset: an empty registry comes out of \<^verbatim>\<open>load\<close> only when neither the
  file nor its backup exists, or when one of them says so; a corrupt or unreadable file is an error.\<close>

theorem load_never_resets:
  assumes "fst (load parse b d) = Inr r"
  shows "d Primary = None \<and> d Backup = None \<and> r = default_registry
    \<or> (\<exists>t. parse t = Some r \<and> (d Primary = Some (Text t) \<or> d Primary = None \<and> d Backup = Some (Text t)))"
  using assms unfolding load_rename_irrelevant
  by (auto simp: reload_of_eq parse_registry_def split: option.splits file_content.splits)

theorem load_never_resets_witness:
  "[Backup \<mapsto> Text ''x''] Primary = None \<and> [Backup \<mapsto> Text ''x''] Backup = None \<and> reg_a = default_registry
    \<or> (\<exists>t. (\<lambda>_. Some reg_a) t = Some reg_a
         \<and> ([Backup \<mapsto> Text ''x''] Primary = Some (Text t)
            \<or> [Backup \<mapsto> Text ''x''] Primary = None \<and> [Backup \<mapsto> Text ''x''] Backup = Some (Text t)))"
  by (rule load_never_resets[where b = False])
    (simp add: load_def read_to_string_def parse_registry_def)

text \<open>The state C9 excludes is a real one. When a restart recovered the registry from its backup and
  the (unchecked) move of the backup into place failed, the next save on Windows deletes that only
  copy before the new file is in place: a crash right there restarts with an empty registry.\<close>

theorem windows_save_drops_only_copy:
  assumes "d Primary = None" and "ser r = Some text"
    and "mkdir_ok io" and "write_ok io" and "rm_backup_ok io"
  shows "\<exists>x \<in> set (snd (save_windows ser io r d)). reload_of parse x = Inr default_registry"
proof -
  let ?d2 = "d(Temp \<mapsto> Text (text @ [CHR 0x0A]))"
  have "win_d3 io ?d2 \<in> set (snd (save_windows ser io r d))"
    using assms by (auto simp: save_windows_def write_temp_def Let_def)
  moreover have "reload_of parse (win_d3 io ?d2) = Inr default_registry"
    using assms by (simp add: win_d3_def reload_of_eq)
  ultimately show ?thesis by blast
qed

theorem windows_save_drops_only_copy_witness:
  "\<exists>x \<in> set (snd (save_windows (\<lambda>_. Some ''A'') io_fine reg_a [Backup \<mapsto> Text ''A''])).
     reload_of (\<lambda>_. Some reg_a) x = Inr default_registry"
  by (rule windows_save_drops_only_copy) (simp_all add: io_fine_def)

end
