(* ===== verification/Mcp_Gateway.thy ===== *)
theory Mcp_Gateway
  imports Mcp_Stream Mcp_Policy Registry_Store
begin

text \<open>
  The public MCP gateway of the relay (\<^verbatim>\<open>relay-server/src/mcp_gateway.rs\<close>): one desktop websocket at a
  time (\<open>gw_active\<close>), and the HTTP requests waiting for it (\<open>gw_pending\<close>).

  Every HTTP request has one request id, one reply channel and one \<^verbatim>\<open>errored\<close> flag; the flag and the
  replies the channel accepted are kept under the request id (\<open>gw_errored\<close>, \<open>gw_delivered\<close>). Whether
  \<^verbatim>\<open>try_send\<close> on a bounded reply channel succeeds depends on the HTTP reader and is an input
  (\<open>can_send\<close>). Base64, the JSON parser and the random generator are inputs too. A handler that waits
  is split where it waits: admission, the wait for the head, the body stream, and the guard's drop.
  \<open>receive\<close> is one step: its \<^verbatim>\<open>try_send\<close> comes right after the lock is released, without waiting in
  between. (A session that fails exactly there would put its error reply before this one in the channel;
  the reader stops at the error in either order.)
\<close>

section \<open>State\<close>

record Active =
  ac_session_id :: string
  ac_tx :: nat
  ac_version :: u8
  ac_credential_hash :: string
  ac_close :: nat

record Pending =
  pe_session_id :: string
  pe_bytes :: nat

datatype Reply =
    R_Head u16 "(string \<times> string) list"
  | R_Chunk "u8 list"
  | R_End
  | R_Error
  | R_UploadTooLarge
  | R_UploadFailed

record Gateway =
  gw_desktop_id :: "string option"
  gw_active :: "Active option"
  gw_pending :: "string \<rightharpoonup> Pending"
  gw_errored :: "string \<Rightarrow> bool"
  gw_delivered :: "string \<Rightarrow> Reply list"

definition LEGACY_MAX_REQUEST :: nat where
  "LEGACY_MAX_REQUEST = LEGACY_MAX_REQUEST_BYTES"

definition MAX_CHUNK :: nat where
  "MAX_CHUNK = MAX_FRAME_BODY"

definition MAX_RESPONSE :: nat where
  "MAX_RESPONSE = MAX_RESPONSE_BYTES"

definition MAX_PENDING :: nat where
  "MAX_PENDING = MAX_INFLIGHT"

definition valid_desktop_id :: "string \<Rightarrow> bool" where
  "valid_desktop_id i \<longleftrightarrow> starts_with ''d_'' i \<and> 18 \<le> length i \<and> length i \<le> 80
     \<and> list_all is_ascii_hexdigit (drop 2 i)"

definition gateway_from_env :: "string option \<Rightarrow> Gateway" where
  "gateway_from_env env_id =
     \<lparr>gw_desktop_id = (case env_id of None \<Rightarrow> None | Some i \<Rightarrow> if valid_desktop_id i then Some i else None),
      gw_active = None, gw_pending = Map.empty,
      gw_errored = (\<lambda>_. False), gw_delivered = (\<lambda>_. [])\<rparr>"

section \<open>Sessions\<close>

text \<open>\<^verbatim>\<open>fail_session\<close>: every request of the session is flagged, offered an error reply and forgotten.\<close>

definition in_session :: "string \<Rightarrow> Gateway \<Rightarrow> string \<Rightarrow> bool" where
  "in_session sid gw i \<longleftrightarrow> (case gw_pending gw i of None \<Rightarrow> False | Some p \<Rightarrow> pe_session_id p = sid)"

definition fail_session :: "(string \<Rightarrow> bool) \<Rightarrow> string \<Rightarrow> Gateway \<Rightarrow> Gateway" where
  "fail_session can_send sid gw = gw\<lparr>
     gw_pending := retain (\<lambda>_ p. pe_session_id p \<noteq> sid) (gw_pending gw),
     gw_errored := (\<lambda>i. gw_errored gw i \<or> in_session sid gw i),
     gw_delivered := (\<lambda>i. if in_session sid gw i \<and> can_send i
                          then gw_delivered gw i @ [R_Error] else gw_delivered gw i)\<rparr>"

text \<open>The second component of \<open>revoke_desktop\<close> is the session whose close signal is raised.\<close>

definition revoke_desktop ::
  "(string \<Rightarrow> bool) \<Rightarrow> string \<Rightarrow> Gateway \<Rightarrow> Gateway \<times> Active option" where
  "revoke_desktop can_send desktop_id gw =
     (if gw_desktop_id gw \<noteq> Some desktop_id then (gw, None)
      else (case gw_active gw of
              None \<Rightarrow> (gw, None)
            | Some a \<Rightarrow> (fail_session can_send (ac_session_id a) (gw\<lparr>gw_active := None\<rparr>), Some a)))"

definition disconnect :: "(string \<Rightarrow> bool) \<Rightarrow> string \<Rightarrow> Gateway \<Rightarrow> Gateway" where
  "disconnect can_send sid gw =
     (let gw' = (case gw_active gw of
                   Some a \<Rightarrow> if ac_session_id a = sid then gw\<lparr>gw_active := None\<rparr> else gw
                 | None \<Rightarrow> gw)
      in fail_session can_send sid gw')"

text \<open>The websocket upgrade: the desktop this relay serves, with its current credential. The token is
  the header value after the prefix, not trimmed.\<close>

definition desktop_authorized :: "(u8 list \<Rightarrow> u8 list) \<Rightarrow> Registry \<Rightarrow> string \<Rightarrow> string \<Rightarrow> bool" where
  "desktop_authorized sha reg desktop_id token =
     (case desktops reg desktop_id of None \<Rightarrow> False | Some d \<Rightarrow> hash_matches sha token (dk_token_hash d))"

definition mcp_websocket ::
  "(u8 list \<Rightarrow> u8 list) \<Rightarrow> Registry \<Rightarrow> Gateway \<Rightarrow> string \<Rightarrow> headers \<Rightarrow> (nat \<times> string) + string" where
  "mcp_websocket sha reg gw desktop_id hs =
     (if gw_desktop_id gw \<noteq> Some desktop_id
      then Inl (404, ''MCP gateway not enabled for this desktop'')
      else case Option.bind (header_str ''authorization'' hs) (strip_prefix ''Bearer '') of
        None \<Rightarrow> Inl (401, ''Invalid desktop credential'')
      | Some token \<Rightarrow>
          (if desktop_authorized sha reg desktop_id token then Inr (token_hash sha token)
           else Inl (401, ''Invalid desktop credential'')))"

text \<open>The hello of the desktop: \<open>Some v\<close> with the negotiated version, \<open>None\<close> to hang up.\<close>

definition mcp_hello :: "json \<Rightarrow> u8 option" where
  "mcp_hello d =
     (if parse_kind (case json_as_str (json_index ''type'' d) of None \<Rightarrow> [] | Some t \<Rightarrow> t) \<noteq> Some Hello
         \<or> json_index ''protocolVersion'' d \<noteq> JInt 1 then None
      else (case json_index ''supportedVersions'' d of
              JArray vs \<Rightarrow> if JInt 2 \<in> set vs then Some 2 else Some 1
            | _ \<Rightarrow> Some 1))"

text \<open>Installing the session, failing the one it replaces, and the check of the credential after that.
  The result says whether the session goes online; the last component is the session told to close.\<close>

definition credential_current :: "Registry \<Rightarrow> Gateway \<Rightarrow> string \<Rightarrow> bool" where
  "credential_current reg gw cred =
     (case gw_desktop_id gw of
        None \<Rightarrow> False
      | Some i \<Rightarrow> (case desktops reg i of None \<Rightarrow> False | Some d \<Rightarrow> dk_token_hash d = cred))"

definition install_session ::
  "(string \<Rightarrow> bool) \<Rightarrow> Active \<Rightarrow> Gateway \<Rightarrow> Gateway \<times> Active option" where
  "install_session can_send a gw =
     (let gw1 = gw\<lparr>gw_active := Some a\<rparr> in
      case gw_active gw of
        None \<Rightarrow> (gw1, None)
      | Some prev \<Rightarrow> (fail_session can_send (ac_session_id prev) gw1, Some prev))"

definition recheck_session ::
  "(string \<Rightarrow> bool) \<Rightarrow> Registry \<Rightarrow> string \<Rightarrow> Gateway \<Rightarrow> bool \<times> Gateway \<times> Active option" where
  "recheck_session can_send reg cred gw =
     (if credential_current reg gw cred then (True, gw, None)
      else (False, revoke_desktop can_send
                     (case gw_desktop_id gw of None \<Rightarrow> [] | Some i \<Rightarrow> i) gw))"

section \<open>Frames from the desktop\<close>

text \<open>The headers of a response head that may reach the public side.\<close>

definition response_headers :: "json \<Rightarrow> (string \<times> string) list" where
  "response_headers packet =
     (case Option.bind (json_get ''headers'' packet) json_as_object of
        None \<Rightarrow> []
      | Some kvs \<Rightarrow> List.map_filter (\<lambda>(k, v).
          case json_as_str v of
            None \<Rightarrow> None
          | Some s \<Rightarrow> if allowed_response_header k then Some (k, s) else None) kvs)"

text \<open>The reply a frame stands for and the new byte count of its request; \<open>None\<close> ignores the frame.\<close>

definition binary_reply :: "u8 \<Rightarrow> u8 list \<Rightarrow> nat \<Rightarrow> (Reply \<times> nat) option" where
  "binary_reply version body bytes =
     (if version \<noteq> 2 then None
      else if usize_sat_add bytes (length body) > MAX_RESPONSE then Some (R_Error, bytes)
      else Some (R_Chunk body, bytes + length body))"

definition packet_reply ::
  "(string \<Rightarrow> u8 list option) \<Rightarrow> u8 \<Rightarrow> json \<Rightarrow> nat \<Rightarrow> (Reply \<times> nat) option" where
  "packet_reply b64 version packet bytes =
     (case Option.bind (json_str_at ''type'' packet) parse_kind of
        Some Head \<Rightarrow>
          (case Option.bind (json_get ''status'' packet) json_as_u64 of
             None \<Rightarrow> None
           | Some status \<Rightarrow>
               if 200 \<le> status \<and> status \<le> 599
               then Some (R_Head (of_nat status) (response_headers packet), bytes) else None)
      | Some Chunk \<Rightarrow>
          (if version \<noteq> WSS_PROTOCOL_V1 then None
           else case json_str_at ''data'' packet of
             None \<Rightarrow> None
           | Some encoded \<Rightarrow>
               if length encoded > MAX_CHUNK * 4 div 3 + 8 then None
               else case b64 encoded of
                 None \<Rightarrow> None
               | Some bs \<Rightarrow>
                   if length bs > MAX_CHUNK \<or> bytes + length bs > LEGACY_MAX_RESPONSE_BYTES
                   then Some (R_Error, bytes)
                   else Some (R_Chunk bs, bytes + length bs))
      | Some End \<Rightarrow> Some (R_End, bytes)
      | Some CtlError \<Rightarrow> Some (R_Error, bytes)
      | _ \<Rightarrow> None)"

definition frame_id :: "json option \<Rightarrow> (kind \<times> string \<times> u8 list) option \<Rightarrow> string option" where
  "frame_id packet decoded =
     (case decoded of
        Some (ResponseBody, i, _) \<Rightarrow> Some i
      | _ \<Rightarrow> Option.bind packet (json_str_at ''requestId''))"

definition frame_reply ::
  "(string \<Rightarrow> u8 list option) \<Rightarrow> u8 \<Rightarrow> json option \<Rightarrow> (kind \<times> string \<times> u8 list) option
     \<Rightarrow> nat \<Rightarrow> (Reply \<times> nat) option" where
  "frame_reply b64 version packet decoded bytes =
     (case decoded of
        Some (ResponseBody, _, body) \<Rightarrow> binary_reply version body bytes
      | _ \<Rightarrow> (case packet of None \<Rightarrow> None | Some p \<Rightarrow> packet_reply b64 version p bytes))"

definition receive ::
  "(string \<Rightarrow> bool) \<Rightarrow> (string \<Rightarrow> u8 list option) \<Rightarrow> string \<Rightarrow> u8 \<Rightarrow> json option \<Rightarrow> u8 list option
     \<Rightarrow> Gateway \<Rightarrow> Gateway" where
  "receive can_send b64 sid version packet binary gw =
     (let decoded = Option.bind binary decode in
      case frame_id packet decoded of
        None \<Rightarrow> gw
      | Some i \<Rightarrow>
        if \<not> hex_id i then gw
        else case gw_pending gw i of
          None \<Rightarrow> gw
        | Some item \<Rightarrow>
          if pe_session_id item \<noteq> sid then gw
          else case frame_reply b64 version packet decoded (pe_bytes item) of
            None \<Rightarrow> gw
          | Some (reply, bytes) \<Rightarrow>
            (let gw1 = gw\<lparr>
               gw_pending := (if reply = R_End \<or> reply = R_Error then (gw_pending gw)(i := None)
                              else (gw_pending gw)(i \<mapsto> item\<lparr>pe_bytes := bytes\<rparr>)),
               gw_errored := (if reply = R_Error then (gw_errored gw)(i := True) else gw_errored gw)\<rparr>
             in if can_send i
                then gw1\<lparr>gw_delivered := (gw_delivered gw1)(i := gw_delivered gw1 i @ [reply])\<rparr>
                else gw1\<lparr>gw_errored := (gw_errored gw1)(i := True),
                         gw_pending := (gw_pending gw1)(i := None)\<rparr>))"

section \<open>Public requests\<close>

record ProxyRequest =
  px_request_id :: string
  px_method :: string
  px_path :: string
  px_headers :: headers
  px_body_base64 :: "string option"
  px_body_encoding :: "string option"

definition allowed_method :: "string \<Rightarrow> bool" where
  "allowed_method m \<longleftrightarrow> m \<in> set [''GET'', ''POST'', ''DELETE'', ''HEAD'', ''OPTIONS'']"

definition request_headers :: "headers \<Rightarrow> headers" where
  "request_headers hs = List.map_filter (\<lambda>(k, v).
     if allowed_request_header k then map_option (\<lambda>s. (k, s)) (to_str_ok v) else None) hs"

text \<open>The checks before a request is admitted: configuration, path, method, a live desktop session whose
  credential is still the registered one, and the declared length. \<open>Inr\<close> is the session as read here;
  on a rotated credential the gateway is changed as well.\<close>

definition public_check ::
  "(string \<Rightarrow> bool) \<Rightarrow> Registry \<Rightarrow> Gateway \<Rightarrow> string \<Rightarrow> string \<Rightarrow> headers
     \<Rightarrow> ((nat \<times> string) + Active) \<times> Gateway" where
  "public_check can_send reg gw method path hs =
     (if gw_desktop_id gw = None then (Inl (503, ''MCP gateway not configured''), gw)
      else if \<not> allowed_path path then (Inl (404, ''Not found''), gw)
      else if \<not> allowed_method method then (Inl (405, ''Method not allowed''), gw)
      else case gw_active gw of
        None \<Rightarrow> (Inl (503, ''Desktop MCP is offline''), gw)
      | Some a \<Rightarrow>
          (if \<not> credential_current reg gw (ac_credential_hash a)
           then (Inl (503, ''Desktop credential rotated''),
                 fst (revoke_desktop can_send
                   (case gw_desktop_id gw of None \<Rightarrow> [] | Some i \<Rightarrow> i) gw))
           else if ac_version a = 2
             \<and> (case Option.bind (header_str ''content-length'' hs) (parse_unsigned usize_max) of
                  None \<Rightarrow> False | Some n \<Rightarrow> n > MAX_REQUEST_BYTES)
           then (Inl (413, ''MCP request too large''), gw)
           else (Inr a, gw)))"

text \<open>\<^verbatim>\<open>to_bytes(body, limit)\<close>: the whole body, or an error when it is cut off or longer than the limit.\<close>

definition to_bytes :: "u8 list option \<Rightarrow> nat \<Rightarrow> u8 list option" where
  "to_bytes body limit =
     (case body of None \<Rightarrow> None | Some bs \<Rightarrow> if length bs \<le> limit then Some bs else None)"

text \<open>Admission, with the session read by \<open>public_check\<close>: a version 1 request carries its body in the
  request frame, version 2 streams it. \<open>rnd\<close> is the outcome of \<^verbatim>\<open>random_hex(16)\<close>; a new request has a
  fresh reply channel and flag.\<close>

definition public_admit ::
  "(u8 list \<Rightarrow> string) \<Rightarrow> string option \<Rightarrow> Active \<Rightarrow> string \<Rightarrow> string \<Rightarrow> headers \<Rightarrow> u8 list option
     \<Rightarrow> Gateway \<Rightarrow> ((nat \<times> string) + ProxyRequest) \<times> Gateway" where
  "public_admit b64enc rnd a method uri hs body gw =
     (if ac_version a = 1 \<and> to_bytes body LEGACY_MAX_REQUEST = None
      then (Inl (413, ''MCP request too large''), gw)
      else case rnd of
        None \<Rightarrow> (Inl (500, ''Gateway error''), gw)
      | Some i \<Rightarrow>
          (if map_len (gw_pending gw) \<ge> MAX_PENDING then (Inl (429, ''MCP gateway busy''), gw)
           else (Inr \<lparr>px_request_id = i, px_method = method, px_path = uri,
                     px_headers = request_headers hs,
                     px_body_base64 = (if ac_version a = 1
                       then map_option b64enc (to_bytes body LEGACY_MAX_REQUEST) else None),
                     px_body_encoding = (if ac_version a = 2 then Some ''binary-v2'' else None)\<rparr>,
                 gw\<lparr>gw_pending := (gw_pending gw)(i \<mapsto> \<lparr>pe_session_id = ac_session_id a, pe_bytes = 0\<rparr>),
                    gw_errored := (gw_errored gw)(i := False),
                    gw_delivered := (gw_delivered gw)(i := [])\<rparr>)))"

text \<open>Dropping the guard of a request forgets it, and asks the desktop to cancel it unless the stream
  was finished; the flag says whether that frame is sent.\<close>

definition guard_drop :: "bool \<Rightarrow> string \<Rightarrow> Gateway \<Rightarrow> bool \<times> Gateway" where
  "guard_drop finished i gw = (\<not> finished, gw\<lparr>gw_pending := (gw_pending gw)(i := None)\<rparr>)"

text \<open>What the reply channel yields to the HTTP side within its timeout.\<close>

datatype recv_outcome = Got Reply | Closed | TimedOut

definition head_response :: "recv_outcome \<Rightarrow> (nat \<times> string) + (u16 \<times> (string \<times> string) list)" where
  "head_response r = (case r of
       Got (R_Head status hs) \<Rightarrow> Inr (status, hs)
     | Got R_UploadTooLarge \<Rightarrow> Inl (413, ''MCP request exceeds 64 MiB'')
     | Got R_UploadFailed \<Rightarrow> Inl (400, ''MCP request body interrupted'')
     | Got R_Error \<Rightarrow> Inl (502, ''Desktop MCP connection lost'')
     | Closed \<Rightarrow> Inl (502, ''Desktop MCP connection lost'')
     | _ \<Rightarrow> Inl (504, ''Desktop MCP did not respond''))"

text \<open>One poll of the response body: \<open>Item bs\<close> passes bytes on, \<open>Fail\<close> is a stream error, \<open>Done\<close> the
  regular end (the flag: was the guard marked finished).\<close>

datatype body_event = Item "u8 list" | Fail | Done bool

definition body_poll :: "bool \<Rightarrow> bool \<Rightarrow> recv_outcome \<Rightarrow> body_event" where
  "body_poll reported errored r =
     (if reported then Done False
      else case r of
        Got (R_Chunk bs) \<Rightarrow> Item bs
      | Got R_End \<Rightarrow> Done True
      | Closed \<Rightarrow> (if \<not> errored then Done False else Fail)
      | _ \<Rightarrow> Fail)"

text \<open>The upload task. The body arrives as chunks, \<open>None\<close> for a broken one; \<open>room\<close> is the number of sends
  the websocket writer still accepts. The result: the frames sent, then an error reply for the HTTP
  side, the \<^verbatim>\<open>request_end\<close> message, or nothing when the writer went away.\<close>

datatype upload_end = UploadReply Reply | UploadDone | UploadAbandoned

fun send_pieces :: "string \<Rightarrow> nat \<Rightarrow> u8 list list \<Rightarrow> u8 list list \<times> nat option" where
  "send_pieces i room [] = ([], Some room)"
| "send_pieces i room (p # ps) =
     (case encode RequestBody i p of
        None \<Rightarrow> ([], None)
      | Some frame \<Rightarrow>
          (case room of
             0 \<Rightarrow> ([], None)
           | Suc r \<Rightarrow> (let (fs, k) = send_pieces i r ps in (frame # fs, k))))"

fun stream_upload :: "string \<Rightarrow> nat \<Rightarrow> nat \<Rightarrow> u8 list option list \<Rightarrow> u8 list list \<times> upload_end" where
  "stream_upload i room sofar [] = ([], if room = 0 then UploadAbandoned else UploadDone)"
| "stream_upload i room sofar (None # items) = ([], UploadReply R_UploadFailed)"
| "stream_upload i room sofar (Some c # items) =
     (let sofar' = usize_sat_add sofar (length c) in
      if sofar' > MAX_REQUEST_BYTES then ([], UploadReply R_UploadTooLarge)
      else case send_pieces i room (chunks MAX_CHUNK c) of
        (fs, None) \<Rightarrow> (fs, UploadAbandoned)
      | (fs, Some room') \<Rightarrow>
          (let (gs, e) = stream_upload i room' sofar' items in (fs @ gs, e)))"

section \<open>Reachable gateways\<close>

text \<open>
  All the ways the gateway changes, interleaved in any order. The set is the requests whose HTTP
  response is still held (their guard is not dropped). A request id is new when it is admitted: it is
  sixteen random bytes.
\<close>

inductive gw_step :: "Gateway \<times> string set \<Rightarrow> Gateway \<times> string set \<Rightarrow> bool" where
  admit: "i \<notin> live \<Longrightarrow> gw_pending gw i = None \<Longrightarrow>
     public_admit b64enc (Some i) a method uri hs body gw = (Inr req, gw') \<Longrightarrow>
     gw_step (gw, live) (gw', insert i live)"
| check: "public_check can_send reg gw method path hs = (res, gw') \<Longrightarrow> gw_step (gw, live) (gw', live)"
| receive: "gw_step (gw, live) (receive can_send b64 sid version packet binary gw, live)"
| install: "install_session can_send a gw = (gw', closed) \<Longrightarrow> gw_step (gw, live) (gw', live)"
| recheck: "recheck_session can_send reg cred gw = (ok, gw', closed) \<Longrightarrow> gw_step (gw, live) (gw', live)"
| revoke: "revoke_desktop can_send d gw = (gw', closed) \<Longrightarrow> gw_step (gw, live) (gw', live)"
| disconnect: "gw_step (gw, live) (disconnect can_send sid gw, live)"
| upload_reply: "i \<in> live \<Longrightarrow> stream_upload i room 0 items = (fs, UploadReply r) \<Longrightarrow>
     gw_step (gw, live)
       (gw\<lparr>gw_delivered := (gw_delivered gw)(i := gw_delivered gw i @ [r])\<rparr>, live)"
| drop_guard: "guard_drop finished i gw = (cancel, gw') \<Longrightarrow> gw_step (gw, live) (gw', live - {i})"

inductive gw_reachable :: "Gateway \<times> string set \<Rightarrow> bool" where
  start: "gw_reachable (gateway_from_env env_id, {})"
| step: "gw_reachable s \<Longrightarrow> gw_step s t \<Longrightarrow> gw_reachable t"

inductive_cases gw_stepE: "gw_step (gw, live) t"

section \<open>The invariant\<close>

fun from_desktop :: "Reply \<Rightarrow> bool" where
  "from_desktop R_UploadTooLarge = False"
| "from_desktop R_UploadFailed = False"
| "from_desktop _ = True"

fun terminal :: "Reply \<Rightarrow> bool" where
  "terminal R_End = True"
| "terminal R_Error = True"
| "terminal _ = False"

fun chunk_bytes :: "Reply \<Rightarrow> nat" where
  "chunk_bytes (R_Chunk bs) = length bs"
| "chunk_bytes _ = 0"

definition delivered_bytes :: "Reply list \<Rightarrow> nat" where
  "delivered_bytes rs = sum_list (map chunk_bytes rs)"

text \<open>\<open>waiting\<close>: what holds of a request the desktop may still answer. \<open>settled\<close>: what holds of one it may
  not, while its HTTP response is held. \<open>orderly\<close>: nothing comes from the desktop after an end.\<close>

definition waiting :: "Pending \<Rightarrow> bool \<Rightarrow> Reply list \<Rightarrow> bool" where
  "waiting p err rs \<longleftrightarrow> \<not> err \<and> pe_bytes p = delivered_bytes rs \<and> (\<forall>r \<in> set rs. \<not> terminal r)"

definition settled :: "bool \<Rightarrow> Reply list \<Rightarrow> bool" where
  "settled err rs \<longleftrightarrow> err \<or> R_End \<in> set rs"

definition orderly :: "Reply list \<Rightarrow> bool" where
  "orderly rs \<longleftrightarrow> (\<forall>r \<in> set (butlast (filter from_desktop rs)). \<not> terminal r)
     \<and> delivered_bytes rs \<le> MAX_RESPONSE"

definition request_inv :: "string set \<Rightarrow> Gateway \<Rightarrow> string \<Rightarrow> bool" where
  "request_inv live gw i \<longleftrightarrow>
     orderly (gw_delivered gw i)
   \<and> (\<forall>p. gw_pending gw i = Some p \<longrightarrow> i \<in> live \<and> waiting p (gw_errored gw i) (gw_delivered gw i))
   \<and> (gw_pending gw i = None \<longrightarrow> i \<in> live \<longrightarrow> settled (gw_errored gw i) (gw_delivered gw i))"

definition gw_inv :: "Gateway \<times> string set \<Rightarrow> bool" where
  "gw_inv s \<longleftrightarrow> finite (dom (gw_pending (fst s))) \<and> map_len (gw_pending (fst s)) \<le> MAX_PENDING
     \<and> (\<forall>i. request_inv (snd s) (fst s) i)"

lemmas gw_inv_unfold = request_inv_def waiting_def settled_def orderly_def

lemma delivered_bytes_simps [simp]:
  "delivered_bytes [] = 0"
  "delivered_bytes (rs @ [r]) = delivered_bytes rs + chunk_bytes r"
  by (simp_all add: delivered_bytes_def)

lemma orderly_snoc:
  assumes "orderly rs" and "\<forall>x \<in> set rs. \<not> terminal x" and "delivered_bytes rs + chunk_bytes r \<le> MAX_RESPONSE"
  shows "orderly (rs @ [r])"
  using assms by (auto simp: orderly_def dest: in_set_butlastD)

lemma orderly_upload:
  "orderly rs \<Longrightarrow> \<not> from_desktop r \<Longrightarrow> orderly (rs @ [r])"
  by (cases r) (auto simp: orderly_def)

lemma orderly_Nil [simp]: "orderly []"
  by (simp add: orderly_def)

lemma stream_upload_reply:
  "stream_upload i room sofar items = (fs, UploadReply r) \<Longrightarrow> r = R_UploadTooLarge \<or> r = R_UploadFailed"
  by (induction i room sofar items arbitrary: fs rule: stream_upload.induct)
    (auto simp: Let_def split: if_splits prod.splits option.splits)

lemma map_len_smaller:
  "finite (dom m) \<Longrightarrow> dom m' \<subseteq> dom m \<Longrightarrow> finite (dom m') \<and> map_len m' \<le> map_len m"
  by (simp add: map_len_def card_mono finite_subset)

subsection \<open>Each operation keeps it\<close>

lemma fail_session_request:
  assumes "request_inv live gw i"
  shows "request_inv live (fail_session can_send sid gw) i"
proof (cases "gw_pending gw i")
  case None
  with assms show ?thesis
    by (auto simp: fail_session_def in_session_def gw_inv_unfold retain_def)
next
  case (Some p)
  with assms have w: "orderly (gw_delivered gw i)" "waiting p (gw_errored gw i) (gw_delivered gw i)" "i \<in> live"
    by (simp_all add: request_inv_def)
  have "orderly (gw_delivered gw i @ [R_Error])"
    using w by (intro orderly_snoc) (auto simp: waiting_def orderly_def)
  with Some w show ?thesis
    by (auto simp: fail_session_def in_session_def request_inv_def settled_def retain_def)
qed

lemma fail_session_inv: "gw_inv (gw, live) \<Longrightarrow> gw_inv (fail_session can_send sid gw, live)"
  using fail_session_request[of live gw _ can_send sid] map_len_retain[of "gw_pending gw"]
  by (auto simp: gw_inv_def fail_session_def intro: order_trans)

lemma gw_inv_active [simp]: "gw_inv (gw\<lparr>gw_active := a\<rparr>, live) \<longleftrightarrow> gw_inv (gw, live)"
  by (simp add: gw_inv_def request_inv_def)

lemma revoke_desktop_inv:
  "gw_inv (gw, live) \<Longrightarrow> gw_inv (fst (revoke_desktop can_send d gw), live)"
  by (auto simp: revoke_desktop_def fail_session_inv split: option.splits)

lemma disconnect_inv: "gw_inv (gw, live) \<Longrightarrow> gw_inv (disconnect can_send sid gw, live)"
  unfolding disconnect_def Let_def by (intro fail_session_inv) (auto split: option.splits)

lemma install_session_inv:
  "gw_inv (gw, live) \<Longrightarrow> gw_inv (fst (install_session can_send a gw), live)"
  by (auto simp: install_session_def Let_def fail_session_inv split: option.splits)

lemma recheck_session_inv:
  "gw_inv (gw, live) \<Longrightarrow> gw_inv (fst (snd (recheck_session can_send reg cred gw)), live)"
  by (auto simp: recheck_session_def revoke_desktop_inv)

lemma public_check_inv:
  "gw_inv (gw, live) \<Longrightarrow> gw_inv (snd (public_check can_send reg gw method path hs), live)"
  by (auto simp: public_check_def revoke_desktop_inv split: option.splits)

lemma guard_drop_inv: "gw_inv (gw, live) \<Longrightarrow> gw_inv (snd (guard_drop finished i gw), live - {i})"
  using map_len_smaller[of "gw_pending gw" "(gw_pending gw)(i := None)"]
  by (auto simp: gw_inv_def guard_drop_def request_inv_def intro: order_trans)

lemma public_admit_inv:
  assumes "gw_inv (gw, live)" and "gw_pending gw i = None"
    and "public_admit b64enc (Some i) a method uri hs body gw = (Inr req, gw')"
  shows "gw_inv (gw', insert i live)"
  using assms
  by (auto simp: gw_inv_def public_admit_def request_inv_def waiting_def
      split: if_splits intro!: map_len_upd_room)

lemma binary_reply_bytes:
  assumes "binary_reply version body bytes = Some (reply, bytes')"
  shows "terminal reply \<or> bytes' = bytes + chunk_bytes reply \<and> bytes' \<le> MAX_RESPONSE"
proof -
  have "MAX_RESPONSE < usize_max"
    by (simp add: MAX_RESPONSE_def MAX_RESPONSE_BYTES_def usize_max_def)
  with assms show ?thesis
    by (auto simp: binary_reply_def usize_sat_add_def min_def split: if_splits)
qed

lemma packet_reply_bytes:
  assumes "packet_reply b64 version packet bytes = Some (reply, bytes')" and "bytes \<le> MAX_RESPONSE"
  shows "terminal reply \<or> bytes' = bytes + chunk_bytes reply \<and> bytes' \<le> MAX_RESPONSE"
proof -
  have "LEGACY_MAX_RESPONSE_BYTES \<le> MAX_RESPONSE"
    by (simp add: MAX_RESPONSE_def MAX_RESPONSE_BYTES_def LEGACY_MAX_RESPONSE_BYTES_def)
  with assms show ?thesis
    by (auto simp: packet_reply_def split: option.splits ControlKind.splits if_splits)
qed

lemma frame_reply_bytes:
  assumes "frame_reply b64 version packet decoded bytes = Some (reply, bytes')" and "bytes \<le> MAX_RESPONSE"
  shows "terminal reply \<or> bytes' = bytes + chunk_bytes reply \<and> bytes' \<le> MAX_RESPONSE"
  using assms binary_reply_bytes packet_reply_bytes
  by (fastforce simp: frame_reply_def split: option.splits prod.splits kind.splits)

lemma packet_reply_from_desktop:
  "frame_reply b64 version packet decoded bytes = Some (reply, bytes') \<Longrightarrow> from_desktop reply"
  by (auto simp: frame_reply_def binary_reply_def packet_reply_def
      split: option.splits prod.splits kind.splits if_splits ControlKind.splits)

lemma terminal_iff: "terminal r \<longleftrightarrow> r = R_End \<or> r = R_Error"
  by (cases r) simp_all

text \<open>What \<open>receive\<close> does: nothing, or one reply for one waiting request of the frame's session.\<close>

lemma receive_cases:
  obtains (ignored) "receive can_send b64 sid version packet binary gw = gw"
  | (replied) i item reply bytes where
      "hex_id i" "gw_pending gw i = Some item" "pe_session_id item = sid"
      "frame_id packet (Option.bind binary decode) = Some i"
      "frame_reply b64 version packet (Option.bind binary decode) (pe_bytes item) = Some (reply, bytes)"
      "receive can_send b64 sid version packet binary gw = gw\<lparr>
         gw_pending := (if terminal reply \<or> \<not> can_send i then (gw_pending gw)(i := None)
                        else (gw_pending gw)(i \<mapsto> item\<lparr>pe_bytes := bytes\<rparr>)),
         gw_errored := (if reply = R_Error \<or> \<not> can_send i then (gw_errored gw)(i := True) else gw_errored gw),
         gw_delivered := (if can_send i then (gw_delivered gw)(i := gw_delivered gw i @ [reply])
                          else gw_delivered gw)\<rparr>"
proof -
  let ?d = "Option.bind binary decode"
  let ?r = "receive can_send b64 sid version packet binary gw"
  show ?thesis
  proof (cases "frame_id packet ?d")
    case None
    then have "?r = gw" by (simp add: receive_def Let_def)
    then show ?thesis by (rule ignored)
  next
    case (Some i)
    note fid = this
    show ?thesis
    proof (cases "hex_id i \<and> in_session sid gw i")
      case False
      with fid have "?r = gw" by (auto simp: receive_def Let_def in_session_def split: option.splits)
      then show ?thesis by (rule ignored)
    next
      case True
      then obtain item where it: "hex_id i" "gw_pending gw i = Some item" "pe_session_id item = sid"
        by (auto simp: in_session_def split: option.splits)
      show ?thesis
      proof (cases "frame_reply b64 version packet ?d (pe_bytes item)")
        case None
        with fid it have "?r = gw" by (simp add: receive_def Let_def)
        then show ?thesis by (rule ignored)
      next
        case (Some rb)
        obtain reply bytes where rb: "rb = (reply, bytes)" by (cases rb)
        show ?thesis
          by (rule replied[OF it fid Some[unfolded rb]])
            (use fid it Some rb in \<open>simp add: receive_def Let_def terminal_iff\<close>)
      qed
    qed
  qed
qed

lemma receive_inv:
  assumes inv: "gw_inv (gw, live)"
  shows "gw_inv (receive can_send b64 sid version packet binary gw, live)"
proof (rule receive_cases[of can_send b64 sid version packet binary gw])
  assume "receive can_send b64 sid version packet binary gw = gw"
  with inv show ?thesis by simp
next
  fix i item reply bytes
  let ?gw = "receive can_send b64 sid version packet binary gw"
  assume p: "gw_pending gw i = Some item"
    and r: "frame_reply b64 version packet (Option.bind binary decode) (pe_bytes item) = Some (reply, bytes)"
    and g: "?gw = gw\<lparr>
         gw_pending := (if terminal reply \<or> \<not> can_send i then (gw_pending gw)(i := None)
                        else (gw_pending gw)(i \<mapsto> item\<lparr>pe_bytes := bytes\<rparr>)),
         gw_errored := (if reply = R_Error \<or> \<not> can_send i then (gw_errored gw)(i := True) else gw_errored gw),
         gw_delivered := (if can_send i then (gw_delivered gw)(i := gw_delivered gw i @ [reply])
                          else gw_delivered gw)\<rparr>"
  have w: "i \<in> live" "waiting item (gw_errored gw i) (gw_delivered gw i)" "orderly (gw_delivered gw i)"
    using inv p by (auto simp: gw_inv_def request_inv_def)
  have b: "terminal reply \<or> bytes = pe_bytes item + chunk_bytes reply \<and> bytes \<le> MAX_RESPONSE"
    using frame_reply_bytes[OF r] w by (simp add: waiting_def orderly_def)
  have o: "orderly (gw_delivered gw i @ [reply])"
    using w b by (intro orderly_snoc) (auto simp: waiting_def orderly_def terminal_iff)
  have own: "request_inv live ?gw i"
    using w b o by (auto simp: g request_inv_def waiting_def settled_def terminal_iff)
  have "request_inv live ?gw j" for j
    using own inv by (cases "j = i") (simp_all add: g gw_inv_def request_inv_def)
  moreover have "dom (gw_pending ?gw) \<subseteq> dom (gw_pending gw)"
    using p by (auto simp: g)
  then have "finite (dom (gw_pending ?gw))" "map_len (gw_pending ?gw) \<le> MAX_PENDING"
    using inv map_len_smaller[of "gw_pending gw" "gw_pending ?gw"] by (auto simp: gw_inv_def)
  ultimately show ?thesis by (simp add: gw_inv_def)
qed

lemma upload_reply_inv:
  assumes "gw_inv (gw, live)" and "\<not> from_desktop r" and "i \<in> live"
  shows "gw_inv (gw\<lparr>gw_delivered := (gw_delivered gw)(i := gw_delivered gw i @ [r])\<rparr>, live)"
  using assms by (cases r) (auto simp: gw_inv_def request_inv_def waiting_def settled_def orderly_upload)

lemma gw_step_inv: "gw_step s t \<Longrightarrow> gw_inv s \<Longrightarrow> gw_inv t"
proof (induction rule: gw_step.induct)
  case (admit i live gw b64enc a verb uri hs body req gw')
  then show ?case by (metis public_admit_inv)
next
  case (check can_send reg gw verb path hs res gw' live)
  then show ?case using public_check_inv[of gw live can_send reg verb path hs] by simp
next
  case (install can_send a gw gw' closed live)
  then show ?case using install_session_inv[of gw live can_send a] by simp
next
  case (recheck can_send reg cred gw ok gw' closed live)
  then show ?case using recheck_session_inv[of gw live can_send reg cred] by simp
next
  case (revoke can_send d gw gw' closed live)
  then show ?case using revoke_desktop_inv[of gw live can_send d] by simp
next
  case (upload_reply i live room items fs r gw)
  then show ?case using stream_upload_reply[OF upload_reply.hyps(2)] upload_reply_inv by fastforce
next
  case (drop_guard finished i gw cancel gw' live)
  then show ?case using guard_drop_inv[of gw live finished i] by simp
qed (simp_all add: receive_inv disconnect_inv)

lemma gw_inv_start: "gw_inv (gateway_from_env env_id, {})"
  by (simp add: gw_inv_def request_inv_def gateway_from_env_def)

lemma gw_reachable_inv: "gw_reachable s \<Longrightarrow> gw_inv s"
  by (induction rule: gw_reachable.induct) (auto intro: gw_inv_start gw_step_inv)

end
