(* ===== verification/Mcp_Gateway_Properties.thy ===== *)
theory Mcp_Gateway_Properties
  imports Mcp_Gateway
begin

text \<open>
  What the gateway promises the public HTTP side: bounded memory, isolation of requests and sessions,
  no request served under a replaced credential, and no truncated body passed off as a whole one. The
  last part composes the gateway with the frame codec: what one end cuts into frames, the other end of
  the relay receives whole and in order.
\<close>

section \<open>A sample run\<close>

definition sample_id :: string where
  "sample_id = replicate 32 (CHR ''a'')"

definition sample_active :: Active where
  "sample_active = \<lparr>ac_session_id = ''s'', ac_tx = 0, ac_version = 2, ac_credential_hash = ''h'', ac_close = 0\<rparr>"

definition sample_waiting :: Gateway where
  "sample_waiting = \<lparr>gw_desktop_id = Some ''d'', gw_active = Some sample_active,
     gw_pending = [sample_id \<mapsto> \<lparr>pe_session_id = ''s'', pe_bytes = 0\<rparr>],
     gw_errored = (\<lambda>_. False), gw_delivered = (\<lambda>_. [])\<rparr>"

definition sample_run :: "nat option \<Rightarrow> Reply list \<Rightarrow> Gateway" where
  "sample_run bytes rs = \<lparr>gw_desktop_id = None, gw_active = Some sample_active,
     gw_pending = Map.empty(sample_id := map_option (\<lambda>n. \<lparr>pe_session_id = ''s'', pe_bytes = n\<rparr>) bytes),
     gw_errored = (\<lambda>_. False), gw_delivered = (\<lambda>_. [])(sample_id := rs)\<rparr>"

definition sample_packet :: "string \<Rightarrow> json" where
  "sample_packet kind = JObject [(''type'', JString kind), (''requestId'', JString sample_id), (''status'', JInt 200)]"

definition sample_registry :: Registry where
  "sample_registry = \<lparr>desktops = [''d'' \<mapsto> \<lparr>dk_token_hash = ''h'', dk_device_name = [], dk_app_version = [],
     dk_platform = [], dk_created_at = 0, dk_devices = Map.empty\<rparr>], used_registration_invites = Map.empty\<rparr>"

lemma hex_id_sample [simp]: "hex_id sample_id"
  by (simp add: hex_id_def sample_id_def is_ascii_hexdigit_def hex_digit_def code_def)

lemma sample_lower [simp]: "to_ascii_lowercase sample_id = sample_id"
  by (simp add: sample_id_def to_ascii_lowercase_def ascii_lower_def code_def)

lemma sample_admitted: "gw_reachable (sample_run (Some 0) [], {sample_id})"
proof -
  let ?g0 = "gateway_from_env None"
  let ?g1 = "?g0\<lparr>gw_active := Some sample_active\<rparr>"
  have "install_session (\<lambda>_. True) sample_active ?g0 = (?g1, None)"
    by (simp add: install_session_def gateway_from_env_def)
  then have "gw_reachable (?g1, {})"
    by (metis gw_reachable.start gw_reachable.step gw_step.install)
  moreover have "public_admit (\<lambda>_. []) (Some sample_id) sample_active [] [] [] None ?g1
      = (Inr \<lparr>px_request_id = sample_id, px_method = [], px_path = [], px_headers = [],
              px_body_base64 = None, px_body_encoding = Some ''binary-v2''\<rparr>, sample_run (Some 0) [])"
    by (auto simp: public_admit_def gateway_from_env_def sample_run_def sample_active_def fun_eq_iff
        MAX_PENDING_def MAX_INFLIGHT_def request_headers_def List.map_filter_def)
  then have "gw_step (?g1, {}) (sample_run (Some 0) [], insert sample_id {})"
    by (intro gw_step.admit) (simp_all add: gateway_from_env_def)
  ultimately show ?thesis by (auto intro: gw_reachable.step)
qed

lemma sample_receive:
  "receive (\<lambda>_. True) (\<lambda>_. None) ''s'' 2 (Some (sample_packet ''head'')) None (sample_run (Some n) rs)
     = sample_run (Some n) (rs @ [R_Head 200 []])"
  "receive (\<lambda>_. True) (\<lambda>_. None) ''s'' 2 (Some (sample_packet ''end'')) None (sample_run (Some n) rs)
     = sample_run None (rs @ [R_End])"
  by (simp_all add: receive_def sample_run_def sample_packet_def frame_id_def json_str_at_def frame_reply_def
      packet_reply_def parse_kind_def response_headers_def)

lemma sample_headed: "gw_reachable (sample_run (Some 0) [R_Head 200 []], {sample_id})"
  using gw_reachable.step[OF sample_admitted gw_step.receive] sample_receive(1)[of 0 "[]"]
  by (metis append_Nil)

lemma sample_ended: "gw_reachable (sample_run None [R_Head 200 [], R_End], {sample_id})"
  using gw_reachable.step[OF sample_headed gw_step.receive] sample_receive(2)[of 0 "[R_Head 200 []]"]
  by (metis append_Cons append_Nil)

section \<open>Bounds and whole bodies\<close>



text \<open>The response stream the HTTP client reads: the replies after the head, then the closed channel.\<close>

fun read_body :: "bool \<Rightarrow> Reply list \<Rightarrow> u8 list \<times> body_event" where
  "read_body errored [] = ([], body_poll False errored Closed)"
| "read_body errored (r # rs) =
     (case body_poll False errored (Got r) of
        Item bs \<Rightarrow> (let (more, e) = read_body errored rs in (bs @ more, e))
      | e \<Rightarrow> ([], e))"

lemma read_body_Done:
  assumes "read_body errored rs = (bs, Done b)"
  shows "(\<exists>pre post. rs = map R_Chunk pre @ R_End # post \<and> bs = concat pre \<and> b) \<or> (\<not> errored \<and> R_End \<notin> set rs)"
  using assms
proof (induction rs arbitrary: bs)
  case Nil
  then show ?case by (auto simp: body_poll_def split: if_splits)
next
  case (Cons r rs)
  show ?case
  proof (cases r)
    case (R_Chunk c)
    then obtain more where "read_body errored rs = (more, Done b)" and bs: "bs = c @ more"
      using Cons.prems by (auto simp: body_poll_def split: prod.splits)
    from Cons.IH[OF this(1)] show ?thesis
    proof
      assume "\<exists>pre post. rs = map R_Chunk pre @ R_End # post \<and> more = concat pre \<and> b"
      then obtain pre post where "rs = map R_Chunk pre @ R_End # post" "more = concat pre" b by blast
      then have "r # rs = map R_Chunk (c # pre) @ R_End # post \<and> bs = concat (c # pre) \<and> b"
        using R_Chunk bs by simp
      then show ?thesis by blast
    qed (use R_Chunk in simp)
  next
    case R_End
    with Cons.prems have "r # rs = map R_Chunk [] @ R_End # rs \<and> bs = concat [] \<and> b"
      by (simp add: body_poll_def)
    then show ?thesis by blast
  qed (use Cons.prems in \<open>simp_all add: body_poll_def\<close>)
qed

text \<open>C6: a response body that ends regularly is whole. When every sender of the reply channel is gone
  and the client reads to the end without an error, the desktop has sent its end frame, the client got
  exactly the chunks before it, and the request is marked finished. A session that is lost, replaced or
  revoked, a slow reader and a size limit all end the body with an error instead.\<close>

theorem no_silent_truncation:
  assumes "gw_reachable (gw, live)" and "i \<in> live" and "gw_pending gw i = None"
    and "gw_delivered gw i = R_Head status hs # rs"
    and "read_body (gw_errored gw i) rs = (bs, Done b)"
  shows "b \<and> (\<exists>pre post. rs = map R_Chunk pre @ R_End # post \<and> bs = concat pre)"
proof -
  have "settled (gw_errored gw i) (gw_delivered gw i)"
    using gw_reachable_inv[OF assms(1)] assms(2,3) by (simp add: gw_inv_def request_inv_def)
  then show ?thesis
    using read_body_Done[OF assms(5)] assms(4) by (auto simp: settled_def)
qed

theorem no_silent_truncation_witness:
  "True \<and> (\<exists>pre post. [R_End] = map R_Chunk pre @ R_End # post \<and> [] = concat pre)"
  by (rule no_silent_truncation[OF sample_ended, of sample_id 200 "[]"])
    (simp_all add: sample_run_def body_poll_def)

section \<open>Isolation and authority\<close>

text \<open>C7: a frame of one session touches nothing but the request it names, and that one only while it
  waits for this very session: a frame that arrives late from a replaced session, or names another
  session's request, changes nothing at all for it.\<close>

theorem receive_isolated:
  assumes "frame_id packet (Option.bind binary decode) \<noteq> Some i \<or> \<not> in_session sid gw i"
  shows "let gw' = receive can_send b64 sid version packet binary gw in
       gw_pending gw' i = gw_pending gw i \<and> gw_errored gw' i = gw_errored gw i
     \<and> gw_delivered gw' i = gw_delivered gw i \<and> gw_active gw' = gw_active gw"
proof (rule receive_cases[of can_send b64 sid version packet binary gw])
  fix j item reply bytes
  assume p: "gw_pending gw j = Some item" "pe_session_id item = sid"
    and f: "frame_id packet (Option.bind binary decode) = Some j"
    and g: "receive can_send b64 sid version packet binary gw = gw\<lparr>
         gw_pending := (if terminal reply \<or> \<not> can_send j then (gw_pending gw)(j := None)
                        else (gw_pending gw)(j \<mapsto> item\<lparr>pe_bytes := bytes\<rparr>)),
         gw_errored := (if reply = R_Error \<or> \<not> can_send j then (gw_errored gw)(j := True) else gw_errored gw),
         gw_delivered := (if can_send j then (gw_delivered gw)(j := gw_delivered gw j @ [reply])
                          else gw_delivered gw)\<rparr>"
  have "i \<noteq> j"
    using assms p f by (auto simp: in_session_def)
  then show ?thesis by (simp add: g)
qed (simp add: Let_def)

theorem receive_isolated_witness:
  "let gw' = receive (\<lambda>_. True) (\<lambda>_. None) ''old'' 2 (Some (sample_packet ''end'')) None sample_waiting in
     gw_pending gw' sample_id = gw_pending sample_waiting sample_id
   \<and> gw_errored gw' sample_id = gw_errored sample_waiting sample_id
   \<and> gw_delivered gw' sample_id = gw_delivered sample_waiting sample_id
   \<and> gw_active gw' = gw_active sample_waiting"
  by (rule receive_isolated) (simp add: in_session_def sample_waiting_def)



text \<open>Revoking the desktop, or finding its credential rotated, takes the session down completely: it
  is no longer active, none of its requests waits any more, each of them is flagged so that its body
  ends in an error, and requests of other sessions are untouched.\<close>

theorem revoke_desktop_complete:
  assumes "gw_desktop_id gw = Some d" and "gw_active gw = Some a"
    and "revoke_desktop can_send d gw = (gw', closed)"
  shows "closed = Some a \<and> gw_active gw' = None
     \<and> (if in_session (ac_session_id a) gw i
         then gw_pending gw' i = None \<and> gw_errored gw' i
              \<and> gw_delivered gw' i = gw_delivered gw i @ (if can_send i then [R_Error] else [])
         else gw_pending gw' i = gw_pending gw i \<and> gw_errored gw' i = gw_errored gw i
              \<and> gw_delivered gw' i = gw_delivered gw i)"
proof -
  have "gw' = fail_session can_send (ac_session_id a) (gw\<lparr>gw_active := None\<rparr>) \<and> closed = Some a"
    using assms by (simp add: revoke_desktop_def)
  then show ?thesis
    by (cases "gw_pending gw i") (simp_all add: fail_session_def in_session_def retain_def)
qed

theorem revoke_desktop_complete_witness:
  "Some sample_active = Some sample_active \<and> gw_active (fst (revoke_desktop (\<lambda>_. True) ''d'' sample_waiting)) = None
     \<and> (let gw' = fst (revoke_desktop (\<lambda>_. True) ''d'' sample_waiting) in
         gw_pending gw' sample_id = None \<and> gw_errored gw' sample_id)"
  using revoke_desktop_complete[of sample_waiting "''d''" sample_active "\<lambda>_. True"
      "fst (revoke_desktop (\<lambda>_. True) ''d'' sample_waiting)"
      "snd (revoke_desktop (\<lambda>_. True) ''d'' sample_waiting)" sample_id]
  by (simp add: sample_waiting_def in_session_def sample_active_def)

text \<open>A request rejected for a rotated credential leaves no request of the replaced session behind.\<close>

theorem rotated_credential_clears_session:
  assumes "gw_desktop_id gw \<noteq> None" and "allowed_path path" and "allowed_method method"
    and "gw_active gw = Some a" and "\<not> credential_current reg gw (ac_credential_hash a)"
  shows "\<exists>gw'. public_check can_send reg gw method path hs = (Inl (503, ''Desktop credential rotated''), gw')
     \<and> gw_active gw' = None \<and> (\<forall>i. \<not> in_session (ac_session_id a) gw' i)"
  using assms
  by (auto simp: public_check_def revoke_desktop_def fail_session_def in_session_def retain_def split: option.splits)

theorem rotated_credential_clears_session_witness:
  "\<exists>gw'. public_check (\<lambda>_. True) default_registry sample_waiting ''GET'' ''/mcp'' []
      = (Inl (503, ''Desktop credential rotated''), gw')
    \<and> gw_active gw' = None \<and> (\<forall>i. \<not> in_session (ac_session_id sample_active) gw' i)"
  by (rule rotated_credential_clears_session)
    (simp_all add: sample_waiting_def allowed_path_def allowed_method_def credential_current_def default_registry_def)

text \<open>Only headers of the allow lists pass the gateway, each with the value it came with: those of
  the request that reach the desktop, and those of the response that reach the client. Cookies and hop
  headers are on neither list.\<close>

theorem only_listed_headers_pass:
  assumes "(k, v) \<in> set (request_headers hs)" and "(k', v') \<in> set (response_headers packet)"
  shows "allowed_request_header k \<and> (k, v) \<in> set hs \<and> visible_ascii v
     \<and> allowed_response_header k'
     \<and> (\<exists>kvs. json_get ''headers'' packet = Some (JObject kvs) \<and> (k', JString v') \<in> set kvs)
     \<and> k \<noteq> ''cookie'' \<and> k' \<noteq> ''set-cookie'' \<and> k \<noteq> ''connection'' \<and> k' \<noteq> ''connection''"
proof -
  have j: "json_as_str x = Some s \<longleftrightarrow> x = JString s" "json_as_object x = Some kvs \<longleftrightarrow> x = JObject kvs" for x s kvs
    by (cases x; auto)+
  have "allowed_request_header k \<and> (k, v) \<in> set hs \<and> visible_ascii v"
    using assms(1) by (auto simp: request_headers_def List.map_filter_def to_str_ok_def split: if_splits)
  moreover have "allowed_response_header k'
     \<and> (\<exists>kvs. json_get ''headers'' packet = Some (JObject kvs) \<and> (k', JString v') \<in> set kvs)"
  proof -
    obtain kvs where k: "Option.bind (json_get ''headers'' packet) json_as_object = Some kvs"
      using assms(2) by (cases "Option.bind (json_get ''headers'' packet) json_as_object")
        (simp_all add: response_headers_def)
    then have "json_get ''headers'' packet = Some (JObject kvs)"
      by (auto simp: bind_eq_Some_conv j)
    moreover have "(k', JString v') \<in> set kvs" "allowed_response_header k'"
      using assms(2) k
      by (auto simp: response_headers_def List.map_filter_def j split: if_splits option.splits)
    ultimately show ?thesis by blast
  qed
  ultimately show ?thesis
    by (auto simp: allowed_request_header_def allowed_response_header_def)
qed

theorem only_listed_headers_pass_witness:
  "allowed_request_header ''accept'' \<and> (''accept'', ''a'') \<in> set [(''cookie'', ''x''), (''accept'', ''a'')] \<and> visible_ascii ''a''
     \<and> allowed_response_header ''vary''
     \<and> (\<exists>kvs. json_get ''headers'' (JObject [(''headers'', JObject [(''vary'', JString ''b'')])]) = Some (JObject kvs)
            \<and> (''vary'', JString ''b'') \<in> set kvs)
     \<and> ''accept'' \<noteq> ''cookie'' \<and> ''vary'' \<noteq> ''set-cookie'' \<and> ''accept'' \<noteq> ''connection'' \<and> ''vary'' \<noteq> ''connection''"
  by (rule only_listed_headers_pass)
    (simp_all add: request_headers_def response_headers_def List.map_filter_def to_str_ok_def visible_ascii_def
      allowed_request_header_def allowed_response_header_def code_def)

section \<open>Bodies through the frame codec\<close>

definition frame_body :: "u8 list \<Rightarrow> u8 list" where
  "frame_body f = snd (snd (the (decode f)))"

definition frames_of :: "kind \<Rightarrow> string \<Rightarrow> u8 list list \<Rightarrow> bool" where
  "frames_of k i fs \<longleftrightarrow> list_all (\<lambda>f. \<exists>p. decode f = Some (k, to_ascii_lowercase i, p)) fs"

lemma frames_of_append [simp]: "frames_of k i (fs @ gs) \<longleftrightarrow> frames_of k i fs \<and> frames_of k i gs"
  by (simp add: frames_of_def)

lemma send_pieces_complete:
  "send_pieces i room ps = (fs, Some room') \<Longrightarrow>
     map (encode RequestBody i) ps = map Some fs \<and> room = room' + length fs"
  by (induction i room ps arbitrary: fs rule: send_pieces.induct)
    (auto split: option.splits nat.splits prod.splits)

lemma send_pieces_enough:
  "map (encode RequestBody i) ps = map Some fs \<Longrightarrow> length ps \<le> room \<Longrightarrow>
     send_pieces i room ps = (fs, Some (room - length ps))"
  by (induction ps arbitrary: room fs) (auto split: nat.splits)

lemma pieces_reassemble:
  assumes "hex_id i" and "map (encode k i) (chunks MAX_FRAME_BODY payload) = map Some fs"
  shows "frames_of k i fs \<and> concat (map frame_body fs) = payload"
proof -
  obtain gs where g: "map (encode k i) (chunks MAX_FRAME_BODY payload) = map Some gs"
      "list_all (\<lambda>f. \<exists>p. decode f = Some (k, to_ascii_lowercase i, p)) gs"
      "concat (map (\<lambda>f. snd (snd (the (decode f)))) gs) = payload"
    using mcp.reassemble[OF assms(1)] by blast
  have "inj (Some :: u8 list \<Rightarrow> _)"
    by (simp add: inj_on_def)
  with g(1) assms(2) have "gs = fs"
    by (metis list.inj_map_strong option.inject)
  with g show ?thesis by (simp add: frames_of_def frame_body_def[abs_def])
qed

lemma stream_upload_done:
  assumes "stream_upload i room sofar items = (fs, UploadDone)" and "hex_id i" and "sofar \<le> MAX_REQUEST_BYTES"
  shows "\<exists>cs. items = map Some cs \<and> frames_of RequestBody i fs
     \<and> concat (map frame_body fs) = concat cs \<and> sofar + length (concat cs) \<le> MAX_REQUEST_BYTES"
  using assms
proof (induction i room sofar items arbitrary: fs rule: stream_upload.induct)
  case (1 i room sofar)
  then have "fs = []" by (auto split: if_splits)
  with 1 show ?case by (simp add: frames_of_def)
next
  case (3 i room sofar c items)
  have "MAX_REQUEST_BYTES < usize_max"
    by (simp add: MAX_REQUEST_BYTES_def usize_max_def)
  moreover have le: "usize_sat_add sofar (length c) \<le> MAX_REQUEST_BYTES"
    using "3.prems"(1) by (auto simp: Let_def split: if_splits)
  ultimately have sum: "usize_sat_add sofar (length c) = sofar + length c"
    by (rule usize_sat_add_exact)
  obtain hs room' where s: "send_pieces i room (chunks MAX_CHUNK c) = (hs, Some room')"
    using "3.prems"(1) le by (auto simp: Let_def split: prod.splits option.splits)
  then obtain gs where g: "stream_upload i room' (sofar + length c) items = (gs, UploadDone)" "fs = hs @ gs"
    using "3.prems"(1) le sum by (auto simp: Let_def split: prod.splits)
  obtain cs where cs: "items = map Some cs" "frames_of RequestBody i gs"
      "concat (map frame_body gs) = concat cs" "sofar + length c + length (concat cs) \<le> MAX_REQUEST_BYTES"
    using "3.IH"[OF refl _ s[symmetric] refl, unfolded sum, OF _ g(1) "3.prems"(2)] le sum by auto
  have "frames_of RequestBody i hs \<and> concat (map frame_body hs) = c"
    using send_pieces_complete[OF s]
    by (intro pieces_reassemble[OF "3.prems"(2)]) (simp add: MAX_CHUNK_def)
  with cs g(2) have "Some c # items = map Some (c # cs) \<and> frames_of RequestBody i fs
     \<and> concat (map frame_body fs) = concat (c # cs) \<and> sofar + length (concat (c # cs)) \<le> MAX_REQUEST_BYTES"
    by simp
  then show ?case by (intro exI[of _ "c # cs"])
qed simp

text \<open>The upload is all or nothing. When the relay tells the desktop that the request body is over
  (\<^verbatim>\<open>request_end\<close>), no chunk of it was broken, it is at most 64 MiB, every frame sent decodes to this
  request's id, and the decoded bodies in order are the HTTP body, byte for byte.\<close>

theorem upload_end_means_whole_body:
  assumes "stream_upload i room 0 items = (fs, UploadDone)" and "hex_id i"
  shows "\<exists>cs. items = map Some cs \<and> length (concat cs) \<le> MAX_REQUEST_BYTES
     \<and> frames_of RequestBody i fs \<and> concat (map frame_body fs) = concat cs"
  using stream_upload_done[OF assms] by auto

lemma sample_frame: "encode k sample_id [7] = Some (the (encode k sample_id [7]))"
proof -
  have "length [7 :: u8] \<le> MAX_FRAME_BODY" by (simp add: MAX_FRAME_BODY_def)
  then show ?thesis using encode_hex_id[OF hex_id_sample] by (metis option.sel)
qed

lemma sample_chunks: "chunks MAX_FRAME_BODY [7 :: u8] = [[7]]" "chunks MAX_CHUNK [7 :: u8] = [[7]]"
  by (simp_all add: chunks.simps MAX_CHUNK_def MAX_FRAME_BODY_def)

theorem upload_end_means_whole_body_witness:
  "\<exists>cs. [Some [7]] = map Some cs \<and> length (concat cs) \<le> MAX_REQUEST_BYTES
     \<and> frames_of RequestBody sample_id [the (encode RequestBody sample_id [7])]
     \<and> concat (map frame_body [the (encode RequestBody sample_id [7])]) = concat cs"
proof (rule upload_end_means_whole_body[of sample_id 9])
  show "stream_upload sample_id 9 0 [Some [7]] = ([the (encode RequestBody sample_id [7])], UploadDone)"
  proof -
    obtain f where "encode RequestBody sample_id [7] = Some f"
      using sample_frame by blast
    then show ?thesis
      by (simp add: sample_chunks usize_sat_add_def usize_max_def MAX_REQUEST_BYTES_def)
  qed
qed simp

text \<open>No upload fails without cause: with a healthy client, a body of at most 64 MiB and a websocket
  that keeps taking frames, the upload runs to its end.\<close>

theorem upload_completes:
  assumes "hex_id i" and "sofar + length (concat cs) \<le> MAX_REQUEST_BYTES"
    and "length (concat (map (chunks MAX_CHUNK) cs)) < room"
  shows "snd (stream_upload i room sofar (map Some cs)) = UploadDone"
  using assms
proof (induction cs arbitrary: sofar room)
  case (Cons c cs)
  have "usize_sat_add sofar (length c) = sofar + length c"
    using Cons.prems(2) by (simp add: usize_sat_add_def usize_max_def MAX_REQUEST_BYTES_def)
  moreover obtain fs where fs: "map (encode RequestBody i) (chunks MAX_CHUNK c) = map Some fs"
    using mcp.reassemble[OF assms(1)] by (auto simp: MAX_CHUNK_def)
  then have "send_pieces i room (chunks MAX_CHUNK c) = (fs, Some (room - length (chunks MAX_CHUNK c)))"
    using Cons.prems(3) by (intro send_pieces_enough) simp_all
  ultimately show ?case
    using Cons.prems Cons.IH[of "sofar + length c" "room - length (chunks MAX_CHUNK c)"]
    by (auto split: prod.splits)
qed simp

theorem upload_completes_witness:
  "snd (stream_upload sample_id 3 0 (map Some [[7], [7]])) = UploadDone"
  by (rule upload_completes) (simp_all add: MAX_REQUEST_BYTES_def sample_chunks)

text \<open>The desktop's response frames as the relay takes them in, each reply channel being read in time.\<close>

definition receive_frames :: "string \<Rightarrow> u8 list list \<Rightarrow> Gateway \<Rightarrow> Gateway" where
  "receive_frames sid fs gw =
     foldl (\<lambda>gw f. receive (\<lambda>_. True) (\<lambda>_. None) sid 2 None (Some f) gw) gw fs"

lemma receive_frame:
  assumes "decode f = Some (ResponseBody, i, p)" and "hex_id i"
    and "gw_pending gw i = Some item" and "pe_bytes item + length p \<le> MAX_RESPONSE"
  shows "receive (\<lambda>_. True) (\<lambda>_. None) (pe_session_id item) 2 None (Some f) gw
     = gw\<lparr>gw_pending := (gw_pending gw)(i \<mapsto> item\<lparr>pe_bytes := pe_bytes item + length p\<rparr>),
          gw_delivered := (gw_delivered gw)(i := gw_delivered gw i @ [R_Chunk p])\<rparr>"
proof -
  have "usize_sat_add (pe_bytes item) (length p) \<le> MAX_RESPONSE"
    using assms(4) by (simp add: usize_sat_add_def)
  then show ?thesis
    using assms by (simp add: receive_def frame_id_def frame_reply_def binary_reply_def)
qed

lemma receive_frames_run:
  assumes "map decode fs = map (\<lambda>p. Some (ResponseBody, i, p)) ps" and "hex_id i"
    and "gw_pending gw i = Some item" and "pe_bytes item + length (concat ps) \<le> MAX_RESPONSE"
  shows "gw_pending (receive_frames (pe_session_id item) fs gw) i
           = Some (item\<lparr>pe_bytes := pe_bytes item + length (concat ps)\<rparr>)
       \<and> gw_delivered (receive_frames (pe_session_id item) fs gw) i = gw_delivered gw i @ map R_Chunk ps
       \<and> gw_errored (receive_frames (pe_session_id item) fs gw) = gw_errored gw"
  using assms
proof (induction ps arbitrary: fs gw item)
  case (Cons p ps)
  then obtain f gs where fs: "fs = f # gs" "decode f = Some (ResponseBody, i, p)"
      "map decode gs = map (\<lambda>p. Some (ResponseBody, i, p)) ps"
    by auto
  let ?item = "item\<lparr>pe_bytes := pe_bytes item + length p\<rparr>"
  let ?gw = "receive (\<lambda>_. True) (\<lambda>_. None) (pe_session_id item) 2 None (Some f) gw"
  have g: "?gw = gw\<lparr>gw_pending := (gw_pending gw)(i \<mapsto> ?item),
          gw_delivered := (gw_delivered gw)(i := gw_delivered gw i @ [R_Chunk p])\<rparr>"
    by (rule receive_frame[OF fs(2)]) (use Cons.prems in simp_all)
  have "receive_frames (pe_session_id item) fs gw = receive_frames (pe_session_id ?item) gs ?gw"
    by (simp add: receive_frames_def fs(1))
  then show ?case
    using Cons.IH[OF fs(3), of ?gw ?item] Cons.prems by (simp add: g add.assoc)
qed (simp add: receive_frames_def)

text \<open>A response crosses the relay unchanged. Take a payload the desktop cuts with \<^verbatim>\<open>chunks\<close> and
  encodes for a request that waits for its session: encoding never fails, and after the frames and the
  end message are received the client that reads the replies gets exactly the payload and a regular
  end, as long as the response stays within 128 MiB.\<close>

theorem response_crosses_unchanged:
  assumes "hex_id i" and "to_ascii_lowercase i = i" and "gw_pending gw i = Some item"
    and "pe_bytes item + length payload \<le> MAX_RESPONSE"
  shows "\<exists>fs. map (encode ResponseBody i) (chunks MAX_FRAME_BODY payload) = map Some fs
     \<and> (let gw1 = receive_frames (pe_session_id item) fs gw;
            gw2 = receive (\<lambda>_. True) (\<lambda>_. None) (pe_session_id item) 2
                    (Some (JObject [(''type'', JString (as_str End)), (''requestId'', JString i)])) None gw1
        in gw_pending gw2 i = None
         \<and> (\<exists>rs. gw_delivered gw2 i = gw_delivered gw i @ rs
              \<and> read_body (gw_errored gw2 i) rs = (payload, Done True)))"
proof -
  obtain fs where fs: "map (encode ResponseBody i) (chunks MAX_FRAME_BODY payload) = map Some fs"
      "map decode fs = map (\<lambda>p. Some (ResponseBody, i, p)) (chunks MAX_FRAME_BODY payload)"
    using mcp.pieces_encoded[OF assms(1), of ResponseBody payload] assms(2) by auto
  have whole: "concat (chunks MAX_FRAME_BODY payload) = payload"
    by (rule concat_chunks) (simp add: MAX_FRAME_BODY_def)
  let ?ps = "chunks MAX_FRAME_BODY payload"
  let ?gw1 = "receive_frames (pe_session_id item) fs gw"
  let ?gw2 = "receive (\<lambda>_. True) (\<lambda>_. None) (pe_session_id item) 2
                    (Some (JObject [(''type'', JString (as_str End)), (''requestId'', JString i)])) None ?gw1"
  have run: "gw_pending ?gw1 i = Some (item\<lparr>pe_bytes := pe_bytes item + length payload\<rparr>)"
      "gw_delivered ?gw1 i = gw_delivered gw i @ map R_Chunk ?ps"
    using receive_frames_run[OF fs(2) assms(1,3)] assms(4) by (simp_all add: whole)
  have g2: "gw_pending ?gw2 i = None" "gw_delivered ?gw2 i = gw_delivered gw i @ (map R_Chunk ?ps @ [R_End])"
    using run assms(1)
    by (simp_all add: receive_def frame_id_def json_str_at_def frame_reply_def packet_reply_def parse_kind_def)
  have "read_body e (map R_Chunk ps @ [R_End]) = (concat ps, Done True)" for e and ps
    by (induction ps) (simp_all add: body_poll_def)
  then have "read_body (gw_errored ?gw2 i) (map R_Chunk ?ps @ [R_End]) = (payload, Done True)"
    by (simp add: whole)
  with fs(1) g2 show ?thesis unfolding Let_def by blast
qed

theorem response_crosses_unchanged_witness:
  "\<exists>fs. map (encode ResponseBody sample_id) (chunks MAX_FRAME_BODY [7, 8]) = map Some fs
     \<and> (let gw1 = receive_frames (pe_session_id \<lparr>pe_session_id = ''s'', pe_bytes = 0\<rparr>) fs sample_waiting;
            gw2 = receive (\<lambda>_. True) (\<lambda>_. None) (pe_session_id \<lparr>pe_session_id = ''s'', pe_bytes = 0\<rparr>) 2
                    (Some (JObject [(''type'', JString (as_str End)), (''requestId'', JString sample_id)])) None gw1
        in gw_pending gw2 sample_id = None
         \<and> (\<exists>rs. gw_delivered gw2 sample_id = gw_delivered sample_waiting sample_id @ rs
              \<and> read_body (gw_errored gw2 sample_id) rs = ([7, 8], Done True)))"
  by (rule response_crosses_unchanged)
    (simp_all add: sample_waiting_def MAX_RESPONSE_def MAX_RESPONSE_BYTES_def)

end
