(* ===== verification/Desktop_Wss.thy ===== *)
theory Desktop_Wss
  imports Mcp_Stream Mcp_Policy
begin

text \<open>
  The desktop's end of the MCP websocket (\<^verbatim>\<open>src-tauri/src/https_mcp_wss.rs\<close>): it takes the requests the
  relay forwards to the bridge on the loopback interface and sends the responses back.

  Two tasks of the session are modelled. The receive loop (\<open>wss_text\<close>, \<open>wss_binary\<close>, \<open>enqueue_upload\<close>)
  is a function on the session's state whose effects (\<open>wss_effect\<close>) say what happens to the local
  requests; whether the bounded channel of an upload takes a chunk is an input. A local request is its
  checks (\<open>local_checks\<close>) and the frames it sends (\<open>local_response\<close>); when the session goes down its last
  frames are lost, so what was sent is a prefix of that list.

  Parameters: \<open>b64\<close> and \<open>b64enc\<close> for Base64, \<open>parse_url\<close> for \<^verbatim>\<open>reqwest::Url::parse\<close> (host, port and path of the
  URL), \<open>valid_method\<close> and \<open>header_ok\<close> for the syntax checks of the HTTP library.
\<close>

section \<open>The session\<close>

definition WSS_LEGACY_MAX_REQUEST :: nat where
  "WSS_LEGACY_MAX_REQUEST = LEGACY_MAX_REQUEST_BYTES"

definition CHUNK_BYTES :: nat where
  "CHUNK_BYTES = MAX_FRAME_BODY"

definition RETRY_SECONDS :: "nat list" where
  "RETRY_SECONDS = [1, 2, 5, 10, 30]"

definition retry_delay :: "nat \<Rightarrow> nat" where
  "retry_delay attempts = RETRY_SECONDS ! min attempts (length RETRY_SECONDS - 1)"

record WssSession =
  ws_accepted :: bool
  ws_version :: u8
  ws_uploads :: "string \<rightharpoonup> nat"   \<comment> \<open>bytes received so far\<close>
  ws_jobs :: "string set"
  ws_permits :: nat

definition wss_start :: WssSession where
  "wss_start = \<lparr>ws_accepted = False, ws_version = 1, ws_uploads = Map.empty, ws_jobs = {}, ws_permits = MAX_INFLIGHT\<rparr>"

datatype wss_effect =
    StartJob string json bool   \<comment> \<open>a local request, with or without an upload stream\<close>
  | Feed string "u8 list"       \<comment> \<open>bytes handed to the upload stream\<close>
  | EndBody string              \<comment> \<open>the stream's sender is dropped, the body ends here\<close>
  | Abort string                \<comment> \<open>the local request is aborted\<close>
  | SendError string            \<comment> \<open>an error message to the relay\<close>

datatype send_outcome = Sent | Full | Gone

definition enqueue_upload :: "send_outcome \<Rightarrow> string \<Rightarrow> u8 list \<Rightarrow> WssSession \<Rightarrow> WssSession \<times> wss_effect list" where
  "enqueue_upload outcome i data s =
     (case ws_uploads s i of
        None \<Rightarrow> (s, [])
      | Some n \<Rightarrow>
          (let bytes = usize_sat_add n (length data);
               s1 = s\<lparr>ws_uploads := (ws_uploads s)(i \<mapsto> bytes)\<rparr>;
               s2 = s1\<lparr>ws_uploads := (ws_uploads s1)(i := None)\<rparr>
           in if \<not> bytes > MAX_REQUEST_BYTES \<and> outcome = Sent then (s1, [Feed i data])
              else if \<not> bytes > MAX_REQUEST_BYTES \<and> outcome = Gone then (s2, [EndBody i])
              else (s2\<lparr>ws_jobs := ws_jobs s2 - {i}\<rparr>,
                    (if i \<in> ws_jobs s2 then [Abort i] else [EndBody i]) @ [SendError i])))"

text \<open>One text frame: \<open>None\<close> ends the session. \<open>finished\<close> are the jobs found finished by \<^verbatim>\<open>retain\<close>.\<close>

definition wss_text :: "string set \<Rightarrow> json \<Rightarrow> WssSession \<Rightarrow> (WssSession \<times> wss_effect list) option" where
  "wss_text finished packet s =
     (case Option.bind (json_as_str (json_index ''type'' packet)) parse_kind of
        Some HelloAck \<Rightarrow>
          (case json_as_str (json_index ''sessionId'' packet) of
             None \<Rightarrow> None
           | Some _ \<Rightarrow> Some (s\<lparr>ws_version := (if json_index ''protocolVersion'' packet = JInt 2 then 2 else 1),
                              ws_accepted := True\<rparr>, []))
      | Some Request \<Rightarrow>
          (if \<not> ws_accepted s then Some (s, [])
           else case json_as_str (json_index ''requestId'' packet) of
             None \<Rightarrow> Some (s, [])
           | Some i \<Rightarrow>
               (if \<not> hex_id i then Some (s, [])
                else if ws_permits s = 0 then Some (s, [SendError i])
                else let streamed = (ws_version s = 2 \<and> json_index ''bodyEncoding'' packet = JString ''binary-v2'') in
                  Some (s\<lparr>ws_permits := ws_permits s - 1,
                          ws_uploads := (if streamed then (ws_uploads s)(i \<mapsto> 0) else ws_uploads s),
                          ws_jobs := insert i (ws_jobs s - finished)\<rparr>,
                        [StartJob i packet streamed])))
      | Some RequestEnd \<Rightarrow>
          (if ws_version s \<noteq> WSS_PROTOCOL_V2 then Some (s, [])
           else case json_as_str (json_index ''requestId'' packet) of
             None \<Rightarrow> Some (s, [])
           | Some i \<Rightarrow> Some (s\<lparr>ws_uploads := (ws_uploads s)(i := None)\<rparr>,
                            if ws_uploads s i \<noteq> None then [EndBody i] else []))
      | Some RequestCancel \<Rightarrow>
          (if ws_version s \<noteq> WSS_PROTOCOL_V2 then Some (s, [])
           else case json_as_str (json_index ''requestId'' packet) of
             None \<Rightarrow> Some (s, [])
           | Some i \<Rightarrow> Some (s\<lparr>ws_uploads := (ws_uploads s)(i := None), ws_jobs := ws_jobs s - {i}\<rparr>,
                            if i \<in> ws_jobs s then [Abort i] else []))
      | _ \<Rightarrow> Some (s, []))"

definition wss_binary :: "send_outcome \<Rightarrow> u8 list \<Rightarrow> WssSession \<Rightarrow> (WssSession \<times> wss_effect list) option" where
  "wss_binary outcome frame s =
     (if \<not> (ws_accepted s \<and> ws_version s = 2) then Some (s, [])
      else case decode frame of
        Some (RequestBody, i, data) \<Rightarrow> Some (enqueue_upload outcome i data s)
      | _ \<Rightarrow> None)"

section \<open>Local requests\<close>

record LocalRequest =
  lr_method :: string
  lr_url_path :: string
  lr_headers :: headers
  lr_body :: "u8 list option"   \<comment> \<open>\<open>None\<close>: the upload stream\<close>

definition local_method :: "string \<Rightarrow> bool" where
  "local_method m \<longleftrightarrow> m \<in> set [''GET'', ''POST'', ''DELETE'', ''HEAD'', ''OPTIONS'']"

definition local_headers :: "(string \<Rightarrow> string \<Rightarrow> bool) \<Rightarrow> json \<Rightarrow> headers" where
  "local_headers header_ok packet =
     (case json_as_object (json_index ''headers'' packet) of
        None \<Rightarrow> []
      | Some kvs \<Rightarrow> List.map_filter (\<lambda>(name, raw).
          if \<not> allowed_request_header name then None
          else case json_as_str raw of
            None \<Rightarrow> None
          | Some v \<Rightarrow> if header_ok name v then Some (name, v) else None) kvs)"

definition local_body ::
  "(string \<Rightarrow> u8 list option) \<Rightarrow> u8 \<Rightarrow> bool \<Rightarrow> json \<Rightarrow> string + u8 list option" where
  "local_body b64 version upload packet =
     (if version = 2 then
        (if \<not> upload then Inl ''Missing binary request stream''
         else if json_index ''bodyEncoding'' packet \<noteq> JString ''binary-v2'' then Inl ''Invalid upload encoding''
         else Inr None)
      else case json_as_str (json_index ''bodyBase64'' packet) of
        None \<Rightarrow> Inl ''Missing body''
      | Some encoded \<Rightarrow>
          (if length encoded > WSS_LEGACY_MAX_REQUEST * 4 div 3 + 8 then Inl ''Request too large''
           else case b64 encoded of
             None \<Rightarrow> Inl ''Invalid body''
           | Some body \<Rightarrow>
               if length body > WSS_LEGACY_MAX_REQUEST then Inl ''Request too large'' else Inr (Some body)))"

definition local_checks ::
  "(string \<Rightarrow> bool) \<Rightarrow> (string \<Rightarrow> (string option \<times> nat option \<times> string) option) \<Rightarrow> (string \<Rightarrow> u8 list option)
     \<Rightarrow> (string \<Rightarrow> string \<Rightarrow> bool) \<Rightarrow> (nat \<Rightarrow> string) \<Rightarrow> u8 \<Rightarrow> nat \<Rightarrow> bool \<Rightarrow> json \<Rightarrow> string + LocalRequest" where
  "local_checks valid_method parse_url b64 header_ok show_port version local_port upload packet =
     (case json_as_str (json_index ''requestId'' packet) of
        None \<Rightarrow> Inl ''''
      | Some request_id \<Rightarrow>
      if \<not> hex_id request_id then Inl ''Invalid request ID''
      else case json_as_str (json_index ''method'' packet) of
        None \<Rightarrow> Inl ''Missing method''
      | Some m \<Rightarrow>
      if \<not> valid_method m then Inl ''Invalid method''
      else if \<not> local_method m then Inl ''Method not allowed''
      else case json_as_str (json_index ''path'' packet) of
        None \<Rightarrow> Inl ''Missing path''
      | Some path \<Rightarrow>
      if \<not> starts_with ''/'' path \<or> starts_with ''//'' path \<or> CHR 0x5C \<in> set path \<or> CHR ''#'' \<in> set path
      then Inl ''Invalid target''
      else case parse_url (''http://127.0.0.1:'' @ show_port local_port @ path) of
        None \<Rightarrow> Inl ''Invalid target''
      | Some (host, port, url_path) \<Rightarrow>
      if host \<noteq> Some ''127.0.0.1'' \<or> port \<noteq> Some local_port \<or> \<not> allowed_path url_path
      then Inl ''Target is not allowed''
      else case local_body b64 version upload packet of
        Inl e \<Rightarrow> Inl e
      | Inr body \<Rightarrow> Inr \<lparr>lr_method = m, lr_url_path = url_path,
                        lr_headers = local_headers header_ok packet, lr_body = body\<rparr>)"

text \<open>The frames of a response, as JSON text or binary: the head, the body in pieces, the end, or an error
  in place of the rest. The body arrives in chunks, \<open>None\<close> for a broken stream.\<close>

datatype outgoing = OText json | OBinary "u8 list"

definition end_packet :: "string \<Rightarrow> json" where
  "end_packet i = JObject [(''type'', JString ''end''), (''requestId'', JString i)]"

definition error_packet :: "string \<Rightarrow> json" where
  "error_packet i = JObject [(''type'', JString ''error''), (''requestId'', JString i)]"

definition head_packet :: "string \<Rightarrow> nat \<Rightarrow> headers \<Rightarrow> json" where
  "head_packet i status hs = JObject [(''type'', JString ''head''), (''requestId'', JString i),
     (''status'', JInt (int status)), (''headers'', JObject (map (\<lambda>(k, v). (k, JString v)) hs))]"

definition piece_frame :: "(u8 list \<Rightarrow> string) \<Rightarrow> u8 \<Rightarrow> string \<Rightarrow> u8 list \<Rightarrow> outgoing option" where
  "piece_frame b64enc version i piece =
     (if version = 2 then map_option OBinary (encode ResponseBody i piece)
      else Some (OText (JObject [(''type'', JString ''chunk''), (''requestId'', JString i),
                                 (''data'', JString (b64enc piece))])))"

fun piece_frames :: "(u8 list \<Rightarrow> string) \<Rightarrow> u8 \<Rightarrow> string \<Rightarrow> u8 list list \<Rightarrow> outgoing list \<times> bool" where
  "piece_frames b64enc version i [] = ([], True)"
| "piece_frames b64enc version i (p # ps) =
     (case piece_frame b64enc version i p of
        None \<Rightarrow> ([], False)
      | Some f \<Rightarrow> (let (fs, ok) = piece_frames b64enc version i ps in (f # fs, ok)))"

fun body_frames :: "(u8 list \<Rightarrow> string) \<Rightarrow> u8 \<Rightarrow> string \<Rightarrow> nat \<Rightarrow> u8 list option list \<Rightarrow> outgoing list" where
  "body_frames b64enc version i sofar [] = [OText (end_packet i)]"
| "body_frames b64enc version i sofar (None # rest) = [OText (error_packet i)]"
| "body_frames b64enc version i sofar (Some c # rest) =
     (let sofar' = usize_sat_add sofar (length c) in
      if sofar' > (if version = 2 then MAX_RESPONSE_BYTES else LEGACY_MAX_RESPONSE_BYTES)
      then [OText (error_packet i)]
      else case piece_frames b64enc version i (chunks CHUNK_BYTES c) of
        (fs, False) \<Rightarrow> fs @ [OText (error_packet i)]
      | (fs, True) \<Rightarrow> fs @ body_frames b64enc version i sofar' rest)"

definition response_head_headers :: "headers \<Rightarrow> headers" where
  "response_head_headers hs = List.map_filter (\<lambda>(k, v).
     if allowed_response_header k then map_option (\<lambda>s. (k, s)) (to_str_ok v) else None) hs"

definition local_response ::
  "(u8 list \<Rightarrow> string) \<Rightarrow> u8 \<Rightarrow> string \<Rightarrow> nat \<Rightarrow> headers \<Rightarrow> u8 list option list \<Rightarrow> outgoing list" where
  "local_response b64enc version i status hs body =
     OText (head_packet i status (response_head_headers hs)) # body_frames b64enc version i 0 body"

section \<open>Lemmas\<close>

lemma enqueue_other: "j \<noteq> i \<Longrightarrow> ws_uploads (fst (enqueue_upload outcome i data s)) j = ws_uploads s j"
  by (simp add: enqueue_upload_def Let_def split: option.split)

lemma enqueue_sent:
  assumes "ws_uploads s i = Some n" and "n + length data \<le> MAX_REQUEST_BYTES"
  shows "enqueue_upload Sent i data s = (s\<lparr>ws_uploads := (ws_uploads s)(i \<mapsto> n + length data)\<rparr>, [Feed i data])"
proof -
  have "usize_sat_add n (length data) = n + length data"
    using assms(2) by (simp add: usize_sat_add_def usize_max_def MAX_REQUEST_BYTES_def)
  with assms show ?thesis by (simp add: enqueue_upload_def not_less)
qed

lemma chunks_encoded:
  assumes "hex_id i"
  shows "\<exists>frames. map (encode k i) (chunks CHUNK_BYTES c) = map Some frames
     \<and> map decode frames = map (\<lambda>p. Some (k, to_ascii_lowercase i, p)) (chunks CHUNK_BYTES c)"
  using mcp.pieces_encoded[OF assms, of k c] by (simp add: CHUNK_BYTES_def)

lemma piece_frames_encoded:
  "map (encode ResponseBody i) ps = map Some frames \<Longrightarrow>
     piece_frames b64enc 2 i ps = (map OBinary frames, True)"
  by (induction ps arbitrary: frames) (auto simp: piece_frame_def)

section \<open>Properties\<close>

text \<open>C13: the desktop forwards to its own bridge and nowhere else. Whatever packet the relay sends, a
  request is made only with one of five methods, to an allowed path on the loopback address and the
  configured port, with a target that cannot smuggle another authority or a fragment, and only with
  headers of the allow list.\<close>

theorem local_target_confined:
  assumes "local_checks valid_method parse_url b64 header_ok show_port version local_port upload packet = Inr r"
  shows "allowed_path (lr_url_path r) \<and> local_method (lr_method r)
     \<and> (\<exists>path. json_as_str (json_index ''path'' packet) = Some path
          \<and> starts_with ''/'' path \<and> \<not> starts_with ''//'' path \<and> CHR 0x5C \<notin> set path \<and> CHR ''#'' \<notin> set path
          \<and> parse_url (''http://127.0.0.1:'' @ show_port local_port @ path)
              = Some (Some ''127.0.0.1'', Some local_port, lr_url_path r))
     \<and> list_all (\<lambda>(k, _). allowed_request_header k) (lr_headers r)"
proof -
  have "list_all (\<lambda>(k, _). allowed_request_header k) (local_headers header_ok packet)"
    by (auto simp: local_headers_def list_all_iff List.map_filter_def split: option.splits if_splits)
  with assms show ?thesis
    by (auto simp: local_checks_def split: option.splits if_splits sum.splits prod.splits)
qed

definition sample_request :: json where
  "sample_request = JObject [(''type'', JString ''request''), (''requestId'', JString (replicate 32 (CHR ''a''))),
     (''method'', JString ''POST''), (''path'', JString ''/mcp''), (''bodyEncoding'', JString ''binary-v2''),
     (''headers'', JObject [(''cookie'', JString ''x''), (''accept'', JString ''y'')])]"

lemma sample_request_accepted:
  "local_checks (\<lambda>_. True) (\<lambda>_. Some (Some ''127.0.0.1'', Some 3000, ''/mcp'')) (\<lambda>_. None) (\<lambda>_ _. True) (\<lambda>_. ''3000'')
     2 3000 True sample_request
   = Inr \<lparr>lr_method = ''POST'', lr_url_path = ''/mcp'', lr_headers = [(''accept'', ''y'')], lr_body = None\<rparr>"
  by (simp add: local_checks_def sample_request_def json_index_def hex_id_def is_ascii_hexdigit_def hex_digit_def
      code_def local_method_def starts_with_def allowed_path_def local_body_def local_headers_def
      List.map_filter_def allowed_request_header_def)

theorem local_target_confined_witness:
  "allowed_path ''/mcp'' \<and> local_method ''POST''
     \<and> list_all (\<lambda>(k, _). allowed_request_header k) [(''accept'', ''y'')]"
  using local_target_confined[OF sample_request_accepted] by simp

text \<open>An upload the desktop cannot keep up with is aborted, never cut short. While the local request
  runs, a body chunk either reaches it, or the request is aborted and the relay is told; the body is
  ended early only when the reader itself is gone. Other requests are not touched.\<close>

theorem no_truncated_upload:
  assumes "i \<in> ws_jobs s" and "ws_uploads s i = Some n"
  shows "case enqueue_upload outcome i data s of (s', es) \<Rightarrow>
       (es = [Feed i data] \<and> ws_uploads s' i = Some (n + length data) \<and> n + length data \<le> MAX_REQUEST_BYTES
        \<or> es = [EndBody i] \<and> outcome = Gone \<and> ws_uploads s' i = None
        \<or> es = [Abort i, SendError i] \<and> ws_uploads s' i = None \<and> i \<notin> ws_jobs s')
     \<and> ws_jobs s - {i} = ws_jobs s' - {i}
     \<and> (ws_uploads s')(i := None) = (ws_uploads s)(i := None)"
proof -
  have "usize_sat_add n (length data) \<le> MAX_REQUEST_BYTES \<Longrightarrow> usize_sat_add n (length data) = n + length data"
    by (rule usize_sat_add_exact) (simp_all add: MAX_REQUEST_BYTES_def usize_max_def)
  then show ?thesis
    using assms by (cases outcome) (auto simp: enqueue_upload_def Let_def not_less)
qed

theorem no_truncated_upload_witness:
  "case enqueue_upload Full ''i'' [1, 2] (wss_start\<lparr>ws_jobs := {''i''}, ws_uploads := [''i'' \<mapsto> 7]\<rparr>) of (s', es) \<Rightarrow>
     es = [Abort ''i'', SendError ''i''] \<and> ws_uploads s' ''i'' = None"
  using no_truncated_upload[of "''i''" "wss_start\<lparr>ws_jobs := {''i''}, ws_uploads := [''i'' \<mapsto> 7]\<rparr>" 7 "[1, 2]" Full]
  by (auto simp: enqueue_upload_def Let_def wss_start_def)

end
