(* ===== verification/Relay_Messages.thy ===== *)
theory Relay_Messages
  imports ChatX_Prelude
begin

text \<open>
  The messages of the monitor relay (\<^verbatim>\<open>relay-protocol/src/lib.rs\<close>), one datatype per enum of the
  source, constructors in its order: \<open>D_\<close> desktop to relay, \<open>DS_\<close> relay to desktop, \<open>V_\<close> device to
  relay, \<open>VS_\<close> relay to device, \<open>P_\<close> and \<open>PS_\<close> the pairing socket. Ciphertexts stay opaque strings.
\<close>

definition PROTOCOL_VERSION :: u32 where
  "PROTOCOL_VERSION = 1"

definition CAPABILITY_SNAPSHOT :: string where
  "CAPABILITY_SNAPSHOT = ''snapshot''"

definition CAPABILITY_CONTROL_REFRESH :: string where
  "CAPABILITY_CONTROL_REFRESH = ''control.refresh_snapshot''"

definition CAPABILITY_CONTROL_RECONNECT :: string where
  "CAPABILITY_CONTROL_RECONNECT = ''control.reconnect_tunnel''"

definition CAPABILITY_REVOKE_SYNC :: string where
  "CAPABILITY_REVOKE_SYNC = ''revoke.sync''"

definition device_capabilities :: "string list" where
  "device_capabilities =
     [CAPABILITY_SNAPSHOT, CAPABILITY_CONTROL_REFRESH, CAPABILITY_CONTROL_RECONNECT,
      CAPABILITY_REVOKE_SYNC]"

record DesktopRegisterRequest =
  rq_desktop_id :: string
  rq_device_name :: string
  rq_app_version :: string
  rq_platform :: string

record DesktopRegisterResponse =
  rs_desktop_id :: string
  rs_desktop_token :: string

record DeviceAuthorizeRequest =
  au_token_hash :: string

record EncryptedSnapshot =
  sn_session_id :: string
  sn_sequence :: u64
  sn_generated_at :: u64
  sn_nonce :: string
  sn_ciphertext :: string

record EncryptedPairingPayload =
  pp_nonce :: string
  pp_ciphertext :: string

record EncryptedControlPayload =
  cp_request_id :: string
  cp_issued_at :: u64
  cp_expires_at :: u64
  cp_nonce :: string
  cp_ciphertext :: string

record PairingRouteOpenRequest =
  po_token_hash :: string
  po_expires_at :: u64

text \<open>Fields in the order of the source: \<open>D_Hello protocol_version desktop_id app_version platform
  capabilities\<close>, and so on.\<close>

datatype DesktopWsMessage =
    D_Hello u32 string string string "string list"
  | D_Ping u64
  | D_Snapshot string EncryptedSnapshot
  | D_PairingResponse string string EncryptedPairingPayload
  | D_PairingError string string string
  | D_ControlResponse string EncryptedControlPayload
  | D_ControlError string string string
  | D_RevokeResult string string
  | D_RevokeError string string string

datatype DesktopServerMessage =
    DS_HelloAck string u64 "string list"
  | DS_Pong u64
  | DS_PairingRequest string string EncryptedPairingPayload
  | DS_DeviceRevoked string
  | DS_DeviceRevoke string string
  | DS_DeviceControl string EncryptedControlPayload
  | DS_Error string

datatype DeviceWsMessage =
    V_Hello u32 string string
  | V_Ping u64
  | V_RevokeSelf
  | V_Control EncryptedControlPayload

datatype DeviceServerMessage =
    VS_HelloAck string u64 bool "string list"
  | VS_Pong u64
  | VS_DesktopPresence bool u64
  | VS_Snapshot u64 EncryptedSnapshot
  | VS_Revoked string
  | VS_ControlResult EncryptedControlPayload
  | VS_Error string

datatype PairingWsMessage =
    P_Pair string EncryptedPairingPayload

datatype PairingServerMessage =
    PS_PairResult string EncryptedPairingPayload
  | PS_Error string

end
