(* ===== verification/Registration.thy ===== *)
theory Registration
  imports ChatX_Prelude
begin

text \<open>
  Enrollment codes (\<^verbatim>\<open>relay-protocol/src/registration.rs\<close>): \<^verbatim>\<open>cxr1.<hex of a JSON invite>.<hex of a
  signature>\<close>. The JSON deserializer is a parameter (\<open>from_json\<close>); the localized error texts are the
  constructors of \<open>code_error\<close>. Parsing does not authenticate a code, the relay checks the signature
  over the returned signing text.
\<close>

section \<open>Parsing\<close>

record RegistrationInvite =
  base_url :: string
  invite_expires_at :: u64
  nonce :: string

definition CODE_PREFIX :: string where
  "CODE_PREFIX = ''cxr1''"

definition SIGNING_CONTEXT :: string where
  "SIGNING_CONTEXT = ''chatx-registration-v1:''"

definition MAX_INVITE_LIFETIME_MS :: u64 where
  "MAX_INVITE_LIFETIME_MS = 10 * 60 * 1000"

datatype code_error = BadFormat | BadEncoding | TooLong | BadContent | NotHttps | BadDestination

fun collect_bytes :: "string list \<Rightarrow> code_error + u8 list" where
  "collect_bytes [] = Inr []"
| "collect_bytes (p # ps) =
     (if \<not> utf8_pair p then Inl BadEncoding
      else case from_str_radix16_u8 p of
             None \<Rightarrow> Inl BadEncoding
           | Some b \<Rightarrow> (case collect_bytes ps of Inl e \<Rightarrow> Inl e | Inr bs \<Rightarrow> Inr (b # bs)))"

definition decode_hex :: "string \<Rightarrow> code_error + u8 list" where
  "decode_hex v =
     (if length v mod 2 \<noteq> 0 \<or> \<not> list_all is_ascii_hexdigit v then Inl BadFormat
      else collect_bytes (chunks_exact2 v))"

definition is_ascii_alphanumeric :: "char \<Rightarrow> bool" where
  "is_ascii_alphanumeric c \<longleftrightarrow>
     (48 \<le> code c \<and> code c \<le> 57) \<or> (65 \<le> code c \<and> code c \<le> 90) \<or> (97 \<le> code c \<and> code c \<le> 122)"

definition label_ok :: "string \<Rightarrow> bool" where
  "label_ok l \<longleftrightarrow> l \<noteq> [] \<and> length l \<le> 63 \<and> \<not> starts_with ''-'' l \<and> \<not> ends_with_char (CHR ''-'') l
     \<and> list_all (\<lambda>b. is_ascii_alphanumeric b \<or> b = CHR ''-'') l"

definition host_ok :: "string \<Rightarrow> bool" where
  "host_ok host \<longleftrightarrow> host \<noteq> [] \<and> length host \<le> 253 \<and> list_all label_ok (split_on (CHR ''.'') host)"

definition parse_code ::
  "(u8 list \<Rightarrow> RegistrationInvite option) \<Rightarrow> string
     \<Rightarrow> code_error + (RegistrationInvite \<times> string \<times> u8 list)" where
  "parse_code from_json raw_code =
     (let c = trim raw_code in
      if length c > 2048 then Inl TooLong
      else let parts = split_on (CHR ''.'') c in
      if length parts \<noteq> 3 \<or> parts ! 0 \<noteq> CODE_PREFIX \<or> length (parts ! 2) \<noteq> 64 then Inl BadFormat
      else case decode_hex (parts ! 1) of
        Inl e \<Rightarrow> Inl e
      | Inr bytes \<Rightarrow>
        (case from_json bytes of
           None \<Rightarrow> Inl BadContent
         | Some invite \<Rightarrow>
           (case strip_prefix ''https://'' (base_url invite) of
              None \<Rightarrow> Inl NotHttps
            | Some host \<Rightarrow>
              if \<not> host_ok host \<or> length (nonce invite) \<noteq> 32
                 \<or> \<not> list_all is_ascii_hexdigit (nonce invite)
              then Inl BadDestination
              else (case decode_hex (parts ! 2) of
                      Inl e \<Rightarrow> Inl e
                    | Inr signature \<Rightarrow> Inr (invite, SIGNING_CONTEXT @ parts ! 1, signature)))))"

section \<open>Hexadecimal decoding\<close>

lemma collect_bytes_hex2 [simp]: "collect_bytes (map hex2 bs) = Inr bs"
  by (induction bs) simp_all

lemma decode_hex_hex_of [simp]: "decode_hex (hex_of bs) = Inr bs"
  using hex_of_digits[of bs]
  by (simp add: decode_hex_def chunks_exact2_hex_of list_all_iff)

lemma collect_bytes_digits:
  assumes "list_all is_ascii_hexdigit s" and "even (length s)"
  shows "\<exists>bs. collect_bytes (chunks_exact2 s) = Inr bs \<and> hex_of bs = to_ascii_lowercase s"
  using assms
proof (induction s rule: chunks_exact2.induct)
  case (1 a b r)
  from "1.prems" obtain x y where xy: "hex_digit a = Some x" "hex_digit b = Some y"
    by (auto simp: is_ascii_hexdigit_def)
  from "1.prems" obtain bs where
      "collect_bytes (chunks_exact2 r) = Inr bs" "hex_of bs = to_ascii_lowercase r"
    using "1.IH" by auto
  with "1.prems" xy show ?case
    using utf8_pair_hex[of a b] from_str_radix16_hex_pair[OF xy] hex2_of_pair[OF xy]
    by (auto simp: to_ascii_lowercase_def)
qed (auto simp: to_ascii_lowercase_def)

lemma decode_hex_Inr_iff:
  "(\<exists>bs. decode_hex s = Inr bs) \<longleftrightarrow> even (length s) \<and> list_all is_ascii_hexdigit s"
  using collect_bytes_digits[of s] by (auto simp: decode_hex_def odd_iff_mod_2_eq_one)

lemma decode_hex_lower: "decode_hex s = Inr bs \<Longrightarrow> hex_of bs = to_ascii_lowercase s"
  using collect_bytes_digits[of s] by (auto simp: decode_hex_def odd_iff_mod_2_eq_one split: if_splits)

lemma graphic_code_text: "graphic (CODE_PREFIX @ ''.'' @ hex_of a @ ''.'' @ hex_of b)"
proof -
  have "graphic CODE_PREFIX" and "graphic ''.''"
    by (simp_all add: CODE_PREFIX_def graphic_def code_def)
  then show ?thesis by (simp only: graphic_append hex_of_graphic simp_thms)
qed

lemma dot_notin_hex_of [simp]: "CHR ''.'' \<notin> set (hex_of bs)"
  using hex_of_digits[of bs] by (auto simp: is_ascii_hexdigit_def hex_digit_def code_def)

lemma split_code_text:
  "split_on (CHR ''.'') (CODE_PREFIX @ ''.'' @ hex_of a @ ''.'' @ hex_of b) = [CODE_PREFIX, hex_of a, hex_of b]"
proof -
  have "CHR ''.'' \<notin> set CODE_PREFIX"
    by (simp add: CODE_PREFIX_def)
  then show ?thesis
    using split_on_append[of "CHR ''.''" "hex_of a" "hex_of b"]
    by (simp add: split_on_append split_on_no_sep)
qed

lemma parse_code_text:
  assumes "length sig = 32" and "length js \<le> 989"
  shows "parse_code from_json (CODE_PREFIX @ ''.'' @ hex_of js @ ''.'' @ hex_of sig) =
    (case from_json js of
       None \<Rightarrow> Inl BadContent
     | Some invite \<Rightarrow>
       (case strip_prefix ''https://'' (base_url invite) of
          None \<Rightarrow> Inl NotHttps
        | Some host \<Rightarrow>
          if \<not> host_ok host \<or> length (nonce invite) \<noteq> 32
             \<or> \<not> list_all is_ascii_hexdigit (nonce invite)
          then Inl BadDestination
          else Inr (invite, SIGNING_CONTEXT @ hex_of js, sig)))"
proof -
  let ?c = "CODE_PREFIX @ ''.'' @ hex_of js @ ''.'' @ hex_of sig"
  have tr: "trim ?c = ?c" by (rule trim_graphic) (rule graphic_code_text)
  have len: "length ?c \<le> 2048" "length (hex_of sig) = 64"
    using assms by (simp_all add: CODE_PREFIX_def)
  have parts: "[CODE_PREFIX, hex_of js, hex_of sig] ! 0 = CODE_PREFIX"
    "[CODE_PREFIX, hex_of js, hex_of sig] ! 1 = hex_of js"
    "[CODE_PREFIX, hex_of js, hex_of sig] ! 2 = hex_of sig"
    "length [CODE_PREFIX, hex_of js, hex_of sig] = 3"
    by (simp_all add: numeral_2_eq_2)
  have "\<not> 2048 < length ?c" using len(1) by (simp only: not_less)
  then show ?thesis
    unfolding parse_code_def tr Let_def split_code_text parts
    by (simp only: len(2) decode_hex_hex_of if_False simp_thms sum.case cong: option.case_cong)
qed

section \<open>Properties\<close>

definition https_origin :: "string \<Rightarrow> bool" where
  "https_origin url \<longleftrightarrow> (\<exists>host. url = ''https://'' @ host \<and> host \<noteq> [] \<and> length host \<le> 253
     \<and> (\<forall>c \<in> set host. is_ascii_alphanumeric c \<or> c = CHR ''-'' \<or> c = CHR ''.''))"

lemma split_on_chars:
  "list_all (list_all P) (split_on d s) \<Longrightarrow> \<forall>c \<in> set s. P c \<or> c = d"
  by (induction s) (auto split: list.splits if_splits)

lemma host_ok_chars:
  assumes "host_ok host"
  shows "\<forall>c \<in> set host. is_ascii_alphanumeric c \<or> c = CHR ''-'' \<or> c = CHR ''.''"
proof -
  have "list_all (list_all (\<lambda>b. is_ascii_alphanumeric b \<or> b = CHR ''-'')) (split_on (CHR ''.'') host)"
    using assms by (auto simp: host_ok_def label_ok_def list_all_iff)
  then show ?thesis using split_on_chars by blast
qed


text \<open>The code the relay panel prints for a valid invite is accepted and gives back the invite,
  its signing text and the signature bytes.\<close>

theorem parse_code_complete:
  assumes "from_json js = Some invite" and "base_url invite = ''https://'' @ host" and "host_ok host"
    and "length (nonce invite) = 32" and "list_all is_ascii_hexdigit (nonce invite)"
    and "length signature = 32" and "2 * length js \<le> 1978"
  shows "parse_code from_json (CODE_PREFIX @ ''.'' @ hex_of js @ ''.'' @ hex_of signature)
           = Inr (invite, SIGNING_CONTEXT @ hex_of js, signature)"
proof -
  have host: "strip_prefix ''https://'' (base_url invite) = Some host"
    by (simp only: strip_prefix_Some_iff assms(2))
  have js: "length js \<le> 989" using assms(7) by simp
  show ?thesis
    using assms(1,3,4,5) host by (simp only: parse_code_text[OF assms(6) js]) simp
qed

definition sample_invite :: RegistrationInvite where
  "sample_invite = \<lparr>base_url = ''https://relay.example.com'', invite_expires_at = 42,
     nonce = replicate 32 (CHR ''a'')\<rparr>"

lemma sample_host_ok: "host_ok ''relay.example.com''"
  by (simp add: host_ok_def label_ok_def starts_with_def ends_with_char_def
      is_ascii_alphanumeric_def code_def)

theorem parse_code_complete_witness:
  "parse_code (\<lambda>_. Some sample_invite)
     (CODE_PREFIX @ ''.'' @ hex_of [1] @ ''.'' @ hex_of (replicate 32 7))
     = Inr (sample_invite, SIGNING_CONTEXT @ hex_of [1], replicate 32 7)"
  by (rule parse_code_complete[where host = "''relay.example.com''"])
    (simp_all add: sample_invite_def sample_host_ok list_all_iff is_ascii_hexdigit_def
      hex_digit_def code_def)

lemma sample_code_accepted:
  "parse_code (\<lambda>_. Some sample_invite)
     (CODE_PREFIX @ ''.'' @ hex_of [1] @ ''.'' @ hex_of (replicate 32 7))
     = Inr (sample_invite, SIGNING_CONTEXT @ hex_of [1], replicate 32 7)"
proof -
  have "strip_prefix ''https://'' (base_url sample_invite) = Some ''relay.example.com''"
    by (simp add: strip_prefix_Some_iff sample_invite_def)
  then show ?thesis
    by (subst parse_code_text) (simp_all add: sample_host_ok sample_invite_def
        list_all_iff is_ascii_hexdigit_def hex_digit_def code_def)
qed


end
