(* ===== verification/Relay_State.thy ===== *)
theory Relay_State
  imports Relay_Messages Registration Mcp_Gateway
begin

text \<open>
  The state all handlers of the relay share and the operations on it (\<^verbatim>\<open>relay-server/src/main.rs\<close>,
  \<^verbatim>\<open>web_utils.rs\<close>). Each field of \<open>AppState\<close> is behind a lock of its own; an operation here is one
  stretch of code that holds the locks it needs, and a handler that waits in between is split there.

  Channel endpoints are handles (natural numbers): creating a channel takes a handle as input, sending
  is an \<open>effect\<close>, and whether a broadcast channel still has a receiver is the input \<open>alive\<close>. The clock,
  the random generator and the save of the registry are inputs too. A \<^verbatim>\<open>Mutex\<close> is poisoned only when a
  thread panics while it holds it, which no code here does, so the poisoned branches are left out.
\<close>

section \<open>Requests and small helpers\<close>

definition random_hex :: "u8 list option \<Rightarrow> string + string" where
  "random_hex rnd =
     (case rnd of None \<Rightarrow> Inl ''secure random generation failed'' | Some bytes \<Rightarrow> Inr (concat (map hex2 bytes)))"

definition bearer :: "headers \<Rightarrow> string option" where
  "bearer hs =
     Option.bind (header_str ''authorization'' hs) (\<lambda>v.
     Option.bind (strip_prefix ''Bearer '' v) (\<lambda>t.
       if trim t = [] then None else Some (trim t)))"

text \<open>HTTP answers: \<open>Fail\<close> is \<^verbatim>\<open>json_error\<close>, \<open>SaveFailed\<close> the same with the text of a failed save.\<close>

datatype 'a answer = Fail nat string | SaveFailed nat save_error | Ok 'a

section \<open>The state\<close>

type_synonym route_key = "string \<times> string"
type_synonym control_key = "string \<times> string \<times> string"

record SnapshotRecord =
  sr_received_at :: u64
  sr_snapshot :: EncryptedSnapshot

record PairingRoute =
  pr_token_hash :: string
  pr_expires_at :: u64

record DesktopRoute =
  dr_session_id :: string
  dr_sender :: nat
  dr_capabilities :: "string list"

record AppState =
  st_registry :: Registry
  st_disk :: fs
  st_bootstrap_token_hash :: "string option"
  st_online_desktops :: "string \<rightharpoonup> string"
  st_desktop_channels :: "string \<rightharpoonup> DesktopRoute"
  st_device_channels :: "route_key \<rightharpoonup> nat"
  st_snapshots :: "route_key \<rightharpoonup> SnapshotRecord"
  st_pairing_routes :: "route_key \<rightharpoonup> PairingRoute"
  st_pairing_connections :: "string \<rightharpoonup> nat"
  st_control_connections :: "control_key \<rightharpoonup> nat"
  st_revoke_connections :: "control_key \<rightharpoonup> nat"
  st_control_last_at :: "route_key \<rightharpoonup> u64"
  st_mcp_gateway :: Gateway

datatype effect =
    ToDevice nat DeviceServerMessage
  | ToDesktop nat DesktopServerMessage
  | ToPairing nat PairingServerMessage
  | ToControl nat "string + EncryptedControlPayload"
  | ToRevoke nat "string + unit"

definition SNAPSHOT_TTL_MS :: u64 where
  "SNAPSHOT_TTL_MS = 180000"

definition MAX_DESKTOP_WS :: nat where
  "MAX_DESKTOP_WS = 64"

definition MAX_DEVICE_WS :: nat where
  "MAX_DEVICE_WS = 512"

definition MAX_PAIRING_WS :: nat where
  "MAX_PAIRING_WS = 64"

definition MAX_PAIRING_ROUTES :: nat where
  "MAX_PAIRING_ROUTES = 256"

definition MAX_PENDING_CONTROLS :: nat where
  "MAX_PENDING_CONTROLS = 128"

definition MAX_PENDING_REVOKES :: nat where
  "MAX_PENDING_REVOKES = 128"

definition CONTROL_MIN_INTERVAL_MS :: u64 where
  "CONTROL_MIN_INTERVAL_MS = 500"

text \<open>The state after a start: the registry from disk, everything else empty.\<close>

definition app_load ::
  "(u8 list \<Rightarrow> u8 list) \<Rightarrow> (string \<Rightarrow> Registry option) \<Rightarrow> bool \<Rightarrow> string option \<Rightarrow> string option \<Rightarrow> fs
     \<Rightarrow> load_error + AppState" where
  "app_load sha parse rename_done bootstrap_token env_id disk =
     (case load parse rename_done disk of
        (Inl e, _) \<Rightarrow> Inl e
      | (Inr registry, disk') \<Rightarrow> Inr \<lparr>
          st_registry = registry, st_disk = disk',
          st_bootstrap_token_hash =
            (case bootstrap_token of
               None \<Rightarrow> None
             | Some value \<Rightarrow> if trim value = [] then None else Some (token_hash sha (trim value))),
          st_online_desktops = Map.empty, st_desktop_channels = Map.empty,
          st_device_channels = Map.empty, st_snapshots = Map.empty,
          st_pairing_routes = Map.empty, st_pairing_connections = Map.empty,
          st_control_connections = Map.empty, st_revoke_connections = Map.empty,
          st_control_last_at = Map.empty, st_mcp_gateway = gateway_from_env env_id\<rparr>)"

text \<open>A save as the handlers call it: which variant of \<open>save\<close> and how its system calls end is fixed in
  \<open>save\<close>; the disk afterwards is the last state the save passed through.\<close>

type_synonym saver = "Registry \<Rightarrow> fs \<Rightarrow> (save_error + unit) \<times> fs list"

definition save_registry :: "saver \<Rightarrow> Registry \<Rightarrow> AppState \<Rightarrow> (save_error + unit) \<times> AppState" where
  "save_registry save registry st =
     (case save registry (st_disk st) of (res, ds) \<Rightarrow> (res, st\<lparr>st_disk := last ds\<rparr>))"

section \<open>Capabilities of a desktop session\<close>

definition routed_device_capabilities :: "DesktopRoute option \<Rightarrow> string list" where
  "routed_device_capabilities route =
     (case route of
        None \<Rightarrow> [CAPABILITY_SNAPSHOT]
      | Some r \<Rightarrow> CAPABILITY_SNAPSHOT # filter (\<lambda>capability.
          capability \<noteq> CAPABILITY_SNAPSHOT \<and> capability \<in> set (dr_capabilities r)) device_capabilities)"

definition route_supports_control :: "DesktopRoute \<Rightarrow> bool" where
  "route_supports_control r \<longleftrightarrow> list_ex (\<lambda>capability.
     capability = CAPABILITY_CONTROL_REFRESH \<or> capability = CAPABILITY_CONTROL_RECONNECT) (dr_capabilities r)"

definition route_supports_revoke :: "DesktopRoute \<Rightarrow> bool" where
  "route_supports_revoke r \<longleftrightarrow> list_ex (\<lambda>capability. capability = CAPABILITY_REVOKE_SYNC) (dr_capabilities r)"

section \<open>Authorization\<close>

definition st_desktop_authorized :: "(u8 list \<Rightarrow> u8 list) \<Rightarrow> AppState \<Rightarrow> string \<Rightarrow> string \<Rightarrow> bool" where
  "st_desktop_authorized sha st desktop_id token = desktop_authorized sha (st_registry st) desktop_id token"

definition device_authorized :: "(u8 list \<Rightarrow> u8 list) \<Rightarrow> AppState \<Rightarrow> string \<Rightarrow> string \<Rightarrow> string \<Rightarrow> bool" where
  "device_authorized sha st desktop_id device_id token =
     (case Option.bind (desktops (st_registry st) desktop_id) (\<lambda>desktop. dk_devices desktop device_id) of
        None \<Rightarrow> False
      | Some device \<Rightarrow> hash_matches sha token (dv_token_hash device))"

definition device_exists :: "AppState \<Rightarrow> string \<Rightarrow> string \<Rightarrow> bool" where
  "device_exists st desktop_id device_id =
     (case desktops (st_registry st) desktop_id of
        None \<Rightarrow> False
      | Some desktop \<Rightarrow> dk_devices desktop device_id \<noteq> None)"

text \<open>The prefix of every authenticated HTTP handler of a desktop or a device.\<close>

definition desktop_guard :: "(u8 list \<Rightarrow> u8 list) \<Rightarrow> AppState \<Rightarrow> string \<Rightarrow> headers \<Rightarrow> (nat \<times> string) option" where
  "desktop_guard sha st desktop_id hs =
     (case bearer hs of
        None \<Rightarrow> Some (401, ''missing bearer token'')
      | Some token \<Rightarrow>
          if \<not> st_desktop_authorized sha st desktop_id token then Some (401, ''invalid desktop credential'')
          else None)"

definition device_guard ::
  "(u8 list \<Rightarrow> u8 list) \<Rightarrow> AppState \<Rightarrow> string \<Rightarrow> string \<Rightarrow> headers \<Rightarrow> (nat \<times> string) option" where
  "device_guard sha st desktop_id device_id hs =
     (case bearer hs of
        None \<Rightarrow> Some (401, ''missing bearer token'')
      | Some token \<Rightarrow>
          if \<not> device_authorized sha st desktop_id device_id token then Some (401, ''invalid device credential'')
          else None)"

section \<open>Snapshots and presence\<close>

definition route_sender :: "nat \<Rightarrow> string \<Rightarrow> string \<Rightarrow> AppState \<Rightarrow> nat \<times> AppState" where
  "route_sender fresh desktop_id device_id st =
     (case st_device_channels st (desktop_id, device_id) of
        Some sender \<Rightarrow> (sender, st)
      | None \<Rightarrow> (fresh, st\<lparr>st_device_channels := (st_device_channels st)((desktop_id, device_id) \<mapsto> fresh)\<rparr>))"

text \<open>\<open>keys\<close> is the order in which the hash map is iterated.\<close>

definition broadcast_desktop_presence ::
  "route_key list \<Rightarrow> u64 \<Rightarrow> string \<Rightarrow> bool \<Rightarrow> AppState \<Rightarrow> effect list" where
  "broadcast_desktop_presence keys now desktop_id online st =
     List.map_filter (\<lambda>k. if fst k = desktop_id
       then map_option (\<lambda>sender. ToDevice sender (VS_DesktopPresence online now)) (st_device_channels st k)
       else None) keys"

definition cache_and_route_snapshot ::
  "u64 \<Rightarrow> nat \<Rightarrow> string \<Rightarrow> string \<Rightarrow> EncryptedSnapshot \<Rightarrow> AppState
     \<Rightarrow> (string + unit) \<times> AppState \<times> effect list" where
  "cache_and_route_snapshot now fresh desktop_id device_id snapshot st =
     (if \<not> device_exists st desktop_id device_id then (Inl ''device not authorized'', st, [])
      else if length (sn_nonce snapshot) > 64 \<or> length (sn_ciphertext snapshot) > 96 * 1024
      then (Inl ''snapshot too large'', st, [])
      else if (case st_snapshots st (desktop_id, device_id) of
                 None \<Rightarrow> False
               | Some previous \<Rightarrow>
                   sn_session_id (sr_snapshot previous) = sn_session_id snapshot
                   \<and> sn_sequence snapshot \<le> sn_sequence (sr_snapshot previous))
      then (Inl ''snapshot sequence is not increasing'', st, [])
      else (let st1 = st\<lparr>st_snapshots := (st_snapshots st)((desktop_id, device_id) \<mapsto>
                          \<lparr>sr_received_at = now, sr_snapshot = snapshot\<rparr>)\<rparr>;
                (sender, st2) = route_sender fresh desktop_id device_id st1
            in (Inr (), st2, [ToDevice sender (VS_Snapshot now snapshot)])))"

definition latest_snapshot ::
  "u64 \<Rightarrow> string \<Rightarrow> string \<Rightarrow> AppState \<Rightarrow> SnapshotRecord option \<times> AppState" where
  "latest_snapshot now desktop_id device_id st =
     (let key = (desktop_id, device_id);
          stale = (case st_snapshots st key of None \<Rightarrow> False
                   | Some record \<Rightarrow> sat_sub64 now (sr_received_at record) > SNAPSHOT_TTL_MS);
          st1 = (if stale then st\<lparr>st_snapshots := (st_snapshots st)(key := None)\<rparr> else st)
      in (st_snapshots st1 key, st1))"

section \<open>Devices in the registry\<close>

definition with_devices ::
  "string \<Rightarrow> (string \<rightharpoonup> DeviceRecord) \<Rightarrow> Registry \<Rightarrow> Registry" where
  "with_devices desktop_id devices registry =
     (case desktops registry desktop_id of
        None \<Rightarrow> registry
      | Some desktop \<Rightarrow> registry\<lparr>desktops := (desktops registry)(desktop_id \<mapsto> desktop\<lparr>dk_devices := devices\<rparr>)\<rparr>)"

text \<open>Change the devices of a desktop and save; when the save fails the previous devices are put back.\<close>

definition update_devices ::
  "saver \<Rightarrow> string \<Rightarrow> (string \<rightharpoonup> DeviceRecord) \<Rightarrow> (string \<rightharpoonup> DeviceRecord) \<Rightarrow> AppState
     \<Rightarrow> (save_error + unit) \<times> AppState" where
  "update_devices save desktop_id previous devices st =
     (let registry = with_devices desktop_id devices (st_registry st) in
      case save_registry save registry st of
        (Inl e, st1) \<Rightarrow> (Inl e, st1\<lparr>st_registry := with_devices desktop_id previous registry\<rparr>)
      | (Inr _, st1) \<Rightarrow> (Inr (), st1\<lparr>st_registry := registry\<rparr>))"

definition revoke_device_record ::
  "saver \<Rightarrow> string \<Rightarrow> string \<Rightarrow> AppState \<Rightarrow> (save_error + bool) \<times> AppState" where
  "revoke_device_record save desktop_id device_id st =
     (case desktops (st_registry st) desktop_id of
        None \<Rightarrow> (Inr False, st)
      | Some desktop \<Rightarrow>
          (if dk_devices desktop device_id = None then (Inr False, st)
           else case update_devices save desktop_id (dk_devices desktop)
                       ((dk_devices desktop)(device_id := None)) st of
             (Inl e, st1) \<Rightarrow> (Inl e, st1)
           | (Inr _, st1) \<Rightarrow> (Inr True, st1)))"

section \<open>Answers of the desktop to control and revoke requests\<close>

definition complete_revoke ::
  "string \<Rightarrow> string \<Rightarrow> string \<Rightarrow> string + unit \<Rightarrow> AppState \<Rightarrow> AppState \<times> effect list" where
  "complete_revoke desktop_id device_id request_id result st =
     (let key = (desktop_id, device_id, request_id) in
      case st_revoke_connections st key of
        None \<Rightarrow> (st, [])
      | Some sender \<Rightarrow> (st\<lparr>st_revoke_connections := (st_revoke_connections st)(key := None)\<rparr>,
                        [ToRevoke sender result]))"

definition complete_control ::
  "string \<Rightarrow> string \<Rightarrow> string \<Rightarrow> string + EncryptedControlPayload \<Rightarrow> AppState \<Rightarrow> AppState \<times> effect list" where
  "complete_control desktop_id device_id request_id result st =
     (let key = (desktop_id, device_id, request_id) in
      case st_control_connections st key of
        None \<Rightarrow> (st, [])
      | Some sender \<Rightarrow> (st\<lparr>st_control_connections := (st_control_connections st)(key := None)\<rparr>,
                        [ToControl sender result]))"

text \<open>\<^verbatim>\<open>request_desktop_revoke\<close> up to its wait, and what follows it; \<open>reply\<close> is what the oneshot channel
  gave within the timeout.\<close>

definition request_revoke_begin ::
  "(nat \<Rightarrow> bool) \<Rightarrow> u8 list option \<Rightarrow> nat \<Rightarrow> string \<Rightarrow> string \<Rightarrow> AppState
     \<Rightarrow> (string + control_key) \<times> AppState \<times> effect list" where
  "request_revoke_begin alive rnd fresh desktop_id device_id st =
     (case st_desktop_channels st desktop_id of
        None \<Rightarrow> (Inl ''desktop offline; synchronized revoke unavailable'', st, [])
      | Some route \<Rightarrow>
          (if \<not> route_supports_revoke route
           then (Inl ''desktop synchronized revoke capability unavailable'', st, [])
           else case random_hex rnd of
             Inl e \<Rightarrow> (Inl e, st, [])
           | Inr r \<Rightarrow>
               (let request_id = ''r_'' @ r; key = (desktop_id, device_id, request_id) in
                if map_len (st_revoke_connections st) \<ge> MAX_PENDING_REVOKES
                then (Inl ''revoke capacity reached'', st, [])
                else if \<not> alive (dr_sender route)
                then (Inl ''desktop revoke channel unavailable'',
                      st\<lparr>st_revoke_connections := (st_revoke_connections st)(key := None)\<rparr>, [])
                else (Inr key,
                      st\<lparr>st_revoke_connections := (st_revoke_connections st)(key \<mapsto> fresh)\<rparr>,
                      [ToDesktop (dr_sender route) (DS_DeviceRevoke device_id request_id)]))))"

definition request_revoke_finish ::
  "(string + unit) option \<Rightarrow> control_key \<Rightarrow> AppState \<Rightarrow> (string + unit) \<times> AppState" where
  "request_revoke_finish reply key st =
     (case reply of Some result \<Rightarrow> result | None \<Rightarrow> Inl ''desktop revoke timeout'',
      st\<lparr>st_revoke_connections := (st_revoke_connections st)(key := None)\<rparr>)"

definition finalize_device_revoke ::
  "saver \<Rightarrow> string \<Rightarrow> string \<Rightarrow> AppState \<Rightarrow> (save_error + unit) \<times> AppState \<times> effect list" where
  "finalize_device_revoke save desktop_id device_id st =
     (let key = (desktop_id, device_id);
          st1 = st\<lparr>st_snapshots := (st_snapshots st)(key := None)\<rparr>
      in case revoke_device_record save desktop_id device_id st1 of
           (Inl e, st2) \<Rightarrow> (Inl e, st2, [])
         | (Inr _, st2) \<Rightarrow>
             (Inr (), st2\<lparr>st_device_channels := (st_device_channels st2)(key := None)\<rparr>,
              (case st_device_channels st2 key of
                 None \<Rightarrow> []
               | Some sender \<Rightarrow> [ToDevice sender (VS_Revoked device_id)])))"

section \<open>Lemmas\<close>

lemma with_devices_back [simp]:
  assumes "desktops registry desktop_id = Some desktop"
  shows "with_devices desktop_id (dk_devices desktop) (with_devices desktop_id devices registry) = registry"
proof -
  have "(desktops registry)(desktop_id \<mapsto> desktop) = desktops registry"
    using assms by (auto simp: fun_eq_iff)
  with assms show ?thesis by (simp add: with_devices_def)
qed

lemma update_devices_cases:
  assumes "desktops (st_registry st) desktop_id = Some desktop"
    and "save (with_devices desktop_id devices (st_registry st)) (st_disk st) = (res, ds)"
  shows "update_devices save desktop_id (dk_devices desktop) devices st =
     (res, st\<lparr>st_disk := last ds,
              st_registry := (case res of Inl _ \<Rightarrow> st_registry st
                              | Inr _ \<Rightarrow> with_devices desktop_id devices (st_registry st))\<rparr>)"
proof (cases res)
  case (Inl e)
  then show ?thesis
    using assms by (simp add: update_devices_def save_registry_def Let_def)
next
  case (Inr u)
  then show ?thesis
    using assms by (simp add: update_devices_def save_registry_def Let_def)
qed

lemma hash_matches_unique:
  "hash_matches sha t h \<Longrightarrow> hash_matches sha t' h \<Longrightarrow> token_hash sha t = token_hash sha t'"
  by (simp add: hash_matches_iff)

lemma desktop_guard_None_iff:
  "desktop_guard sha st d hs = None \<longleftrightarrow>
     (\<exists>token r. bearer hs = Some token \<and> desktops (st_registry st) d = Some r
        \<and> dk_token_hash r = token_hash sha token)"
  by (auto simp: desktop_guard_def st_desktop_authorized_def desktop_authorized_def hash_matches_iff
      split: option.splits)

lemma device_guard_None_iff:
  "device_guard sha st d v hs = None \<longleftrightarrow>
     (\<exists>token r x. bearer hs = Some token \<and> desktops (st_registry st) d = Some r \<and> dk_devices r v = Some x
        \<and> dv_token_hash x = token_hash sha token)"
  by (auto simp: device_guard_def device_authorized_def hash_matches_iff bind_eq_Some_conv split: option.splits)

end
