(* ===== verification/Registry_Routes.thy ===== *)
theory Registry_Routes
  imports Relay_State
begin

text \<open>
  Enrollment of desktops and authorization of devices over HTTP
  (\<^verbatim>\<open>relay-server/src/registry_routes.rs\<close>). \<^verbatim>\<open>register_desktop\<close> is split where it takes the registry
  lock: \<open>register_check\<close> before, \<open>register_commit\<close> while it is held, \<open>register_reply\<close> after. The invite is
  checked before the lock, so another registration may come in between.

  Parameters: \<open>sha\<close> is SHA-256, \<open>verify\<close> is \<^verbatim>\<open>hmac::verify\<close> with HMAC-SHA256 (key, message, tag), \<open>from_json\<close>
  the deserializer of invites, \<open>save\<close> the save of the registry. The clock is read several times:
  \<open>now\<close> at the check, \<open>now_at k\<close> for the entry \<open>k\<close> of the retained map, \<open>created\<close> for a new record.
\<close>

section \<open>The handlers\<close>

definition registration_invite ::
  "(u8 list \<Rightarrow> u8 list) \<Rightarrow> (u8 list \<Rightarrow> u8 list \<Rightarrow> u8 list \<Rightarrow> bool) \<Rightarrow> (u8 list \<Rightarrow> RegistrationInvite option)
     \<Rightarrow> string \<Rightarrow> string \<Rightarrow> u64 \<Rightarrow> string + (string \<times> u64) option" where
  "registration_invite sha verify from_json token expected now =
     (if hash_matches sha token expected then Inr None
      else case parse_code from_json token of
        Inl _ \<Rightarrow> Inl ''invalid registration code''
      | Inr (invite, signed_text, signature) \<Rightarrow>
          (if \<not> verify (as_bytes expected) (as_bytes signed_text) signature
           then Inl ''invalid registration code''
           else if invite_expires_at invite \<le> now
             \<or> invite_expires_at invite > sat_add64 now MAX_INVITE_LIFETIME_MS
           then Inl ''registration code expired; generate a new code in the Relay panel''
           else Inr (Some (token_hash sha (nonce invite), invite_expires_at invite))))"

definition desktop_registration_record ::
  "(u8 list \<Rightarrow> u8 list) \<Rightarrow> u64 \<Rightarrow> DesktopRecord option \<Rightarrow> string \<Rightarrow> DesktopRegisterRequest \<Rightarrow> DesktopRecord" where
  "desktop_registration_record sha created existing desktop_token payload = \<lparr>
     dk_token_hash = token_hash sha desktop_token,
     dk_device_name = chars_take 128 (rq_device_name payload),
     dk_app_version = chars_take 64 (rq_app_version payload),
     dk_platform = chars_take 64 (rq_platform payload),
     dk_created_at = (case existing of None \<Rightarrow> created | Some record \<Rightarrow> dk_created_at record),
     dk_devices = (case existing of None \<Rightarrow> Map.empty | Some record \<Rightarrow> dk_devices record)\<rparr>"

definition register_check ::
  "(u8 list \<Rightarrow> u8 list) \<Rightarrow> (u8 list \<Rightarrow> u8 list \<Rightarrow> u8 list \<Rightarrow> bool) \<Rightarrow> (u8 list \<Rightarrow> RegistrationInvite option)
     \<Rightarrow> u64 \<Rightarrow> u8 list option \<Rightarrow> headers \<Rightarrow> DesktopRegisterRequest \<Rightarrow> AppState
     \<Rightarrow> (nat \<times> string) + ((string \<times> u64) option \<times> string \<times> string)" where
  "register_check sha verify from_json now rnd hs payload st =
     (case st_bootstrap_token_hash st of
        None \<Rightarrow> Inl (503, ''desktop registration is disabled'')
      | Some expected \<Rightarrow>
        (case bearer hs of
           None \<Rightarrow> Inl (401, ''missing bearer token'')
         | Some token \<Rightarrow>
           (case registration_invite sha verify from_json token expected now of
              Inl error \<Rightarrow> Inl (401, error)
            | Inr invite \<Rightarrow>
                (let desktop_id = trim (rq_desktop_id payload) in
                 if \<not> valid_desktop_id desktop_id then Inl (400, ''invalid desktop id'')
                 else case random_hex rnd of
                   Inl error \<Rightarrow> Inl (500, error)
                 | Inr desktop_token \<Rightarrow> Inr (invite, desktop_id, desktop_token)))))"

definition register_commit ::
  "(u8 list \<Rightarrow> u8 list) \<Rightarrow> saver \<Rightarrow> (string \<Rightarrow> u64) \<Rightarrow> u64 \<Rightarrow> (string \<times> u64) option \<Rightarrow> string \<Rightarrow> string
     \<Rightarrow> DesktopRegisterRequest \<Rightarrow> AppState \<Rightarrow> DesktopRegisterResponse answer \<times> AppState" where
  "register_commit sha save now_at created invite desktop_id desktop_token payload st =
     (let registry = st_registry st;
          previous = desktops registry desktop_id;
          previous_invites = used_registration_invites registry in
      if (case invite of None \<Rightarrow> False | Some (i, _) \<Rightarrow> previous_invites i \<noteq> None)
      then (Fail 401 ''registration code already used; generate a new code'', st)
      else
        (let invites = (case invite of None \<Rightarrow> previous_invites
                        | Some (i, expires_at) \<Rightarrow>
                            (retain (\<lambda>k expiry. expiry > now_at k) previous_invites)(i \<mapsto> expires_at));
             replacement = desktop_registration_record sha created previous desktop_token payload;
             changed = \<lparr>desktops = (desktops registry)(desktop_id \<mapsto> replacement),
                        used_registration_invites = invites\<rparr>
         in case save_registry save changed st of
              (Inl e, st1) \<Rightarrow>
                (SaveFailed 500 e, st1\<lparr>st_registry :=
                   (case previous of
                      Some record \<Rightarrow> changed\<lparr>used_registration_invites := previous_invites,
                                        desktops := (desktops changed)(desktop_id \<mapsto> record)\<rparr>
                    | None \<Rightarrow> changed\<lparr>used_registration_invites := previous_invites,
                                 desktops := (desktops changed)(desktop_id := None)\<rparr>)\<rparr>)
            | (Inr _, st1) \<Rightarrow>
                (Ok \<lparr>rs_desktop_id = desktop_id, rs_desktop_token = desktop_token\<rparr>,
                 st1\<lparr>st_registry := changed\<rparr>)))"

text \<open>After the lock is released a successful registration revokes the MCP session of the desktop.\<close>

definition register_reply ::
  "(string \<Rightarrow> bool) \<Rightarrow> string \<Rightarrow> DesktopRegisterResponse answer \<times> AppState \<Rightarrow> DesktopRegisterResponse answer \<times> AppState" where
  "register_reply can_send desktop_id r =
     (case r of
        (Ok response, st) \<Rightarrow>
          (Ok response, st\<lparr>st_mcp_gateway := fst (revoke_desktop can_send desktop_id (st_mcp_gateway st))\<rparr>)
      | (other, st) \<Rightarrow> (other, st))"

definition register_desktop ::
  "(u8 list \<Rightarrow> u8 list) \<Rightarrow> (u8 list \<Rightarrow> u8 list \<Rightarrow> u8 list \<Rightarrow> bool) \<Rightarrow> (u8 list \<Rightarrow> RegistrationInvite option)
     \<Rightarrow> saver \<Rightarrow> (string \<Rightarrow> bool) \<Rightarrow> u64 \<Rightarrow> (string \<Rightarrow> u64) \<Rightarrow> u64 \<Rightarrow> u8 list option
     \<Rightarrow> headers \<Rightarrow> DesktopRegisterRequest \<Rightarrow> AppState \<Rightarrow> DesktopRegisterResponse answer \<times> AppState" where
  "register_desktop sha verify from_json save can_send now now_at created rnd hs payload st =
     (case register_check sha verify from_json now rnd hs payload st of
        Inl (status, message) \<Rightarrow> (Fail status message, st)
      | Inr (invite, desktop_id, desktop_token) \<Rightarrow>
          register_reply can_send desktop_id
            (register_commit sha save now_at created invite desktop_id desktop_token payload st))"

definition authorize_device ::
  "(u8 list \<Rightarrow> u8 list) \<Rightarrow> saver \<Rightarrow> u64 \<Rightarrow> string \<Rightarrow> string \<Rightarrow> headers \<Rightarrow> DeviceAuthorizeRequest \<Rightarrow> AppState
     \<Rightarrow> unit answer \<times> AppState" where
  "authorize_device sha save now desktop_id device_id hs payload st =
     (case desktop_guard sha st desktop_id hs of
        Some (status, message) \<Rightarrow> (Fail status message, st)
      | None \<Rightarrow>
          (if length (au_token_hash payload) \<noteq> 64 \<or> \<not> list_all is_ascii_hexdigit (au_token_hash payload)
           then (Fail 400 ''invalid device token hash'', st)
           else case desktops (st_registry st) desktop_id of
             None \<Rightarrow> (Fail 404 ''desktop not found'', st)
           | Some desktop \<Rightarrow>
               (case update_devices save desktop_id (dk_devices desktop)
                       ((dk_devices desktop)(device_id \<mapsto>
                          \<lparr>dv_token_hash = to_ascii_lowercase (au_token_hash payload), dv_created_at = now\<rparr>)) st of
                  (Inl e, st1) \<Rightarrow> (SaveFailed 500 e, st1)
                | (Inr _, st1) \<Rightarrow> (Ok (), st1))))"

definition revoke_device ::
  "(u8 list \<Rightarrow> u8 list) \<Rightarrow> saver \<Rightarrow> string \<Rightarrow> string \<Rightarrow> headers \<Rightarrow> AppState \<Rightarrow> unit answer \<times> AppState" where
  "revoke_device sha save desktop_id device_id hs st =
     (case desktop_guard sha st desktop_id hs of
        Some (status, message) \<Rightarrow> (Fail status message, st)
      | None \<Rightarrow>
          (case desktops (st_registry st) desktop_id of
             None \<Rightarrow> (Fail 404 ''desktop not found'', st)
           | Some desktop \<Rightarrow>
               (case update_devices save desktop_id (dk_devices desktop)
                       ((dk_devices desktop)(device_id := None)) st of
                  (Inl e, st1) \<Rightarrow> (SaveFailed 500 e, st1)
                | (Inr _, st1) \<Rightarrow>
                    (Ok (), st1\<lparr>st_snapshots := (st_snapshots st1)((desktop_id, device_id) := None),
                               st_device_channels := (st_device_channels st1)((desktop_id, device_id) := None)\<rparr>))))"

section \<open>Saving on either platform\<close>

datatype platform = Unix | Windows

fun save_on :: "platform \<Rightarrow> (Registry \<Rightarrow> string option) \<Rightarrow> save_io \<Rightarrow> saver" where
  "save_on Unix ser io = save_unix ser io"
| "save_on Windows ser io = save_windows ser io"

fun safe_on :: "platform \<Rightarrow> fs \<Rightarrow> bool" where
  "safe_on Unix d = True"
| "safe_on Windows d = safe_disk d"

fun sane_on :: "platform \<Rightarrow> save_io \<Rightarrow> bool" where
  "sane_on Unix io = True"
| "sane_on Windows io = sane_windows io"

interpretation platform_store: registry_store "save_on p ser" "reload_of parse" "reads_back ser parse"
    "safe_on p" "sane_on p"
  for p ser parse
proof (cases p)
  case Unix
  have "save_on p ser = save_unix ser" "safe_on p = (\<lambda>_. True)" "sane_on p = (\<lambda>_. True)"
    by (simp_all add: Unix fun_eq_iff)
  then show "registry_store (save_on p ser) (reload_of parse) (reads_back ser parse) (safe_on p) (sane_on p)"
    by (simp only: unix_store.registry_store_axioms)
next
  case Windows
  have "save_on p ser = save_windows ser" "safe_on p = safe_disk" "sane_on p = sane_windows"
    by (simp_all add: Windows fun_eq_iff)
  then show "registry_store (save_on p ser) (reload_of parse) (reads_back ser parse) (safe_on p) (sane_on p)"
    by (simp only: windows_store.registry_store_axioms)
qed

section \<open>Memory and disk stay in step\<close>

text \<open>A restart would load exactly the registry the relay holds in memory.\<close>

definition in_step :: "platform \<Rightarrow> (string \<Rightarrow> Registry option) \<Rightarrow> AppState \<Rightarrow> bool" where
  "in_step p parse st \<longleftrightarrow> safe_on p (st_disk st) \<and> reload_of parse (st_disk st) = Inr (st_registry st)"

lemma in_step_cong:
  "st_disk st' = st_disk st \<Longrightarrow> st_registry st' = st_registry st \<Longrightarrow> in_step p parse st' = in_step p parse st"
  by (simp add: in_step_def)

lemma in_step_commit:
  assumes "in_step p parse st" and "reads_back ser parse r" and "sane_on p io"
    and "save_on p ser io r (st_disk st) = (res, ds)"
    and "st_disk st' = last ds" and "st_registry st' = (case res of Inl _ \<Rightarrow> st_registry st | Inr _ \<Rightarrow> r)"
  shows "in_step p parse st'"
  using assms platform_store.commit_in_step[of ser parse r p "st_disk st" "st_registry st" io res ds]
    platform_store.store_safe[of p "st_disk st" io ser r res ds]
  by (simp add: in_step_def)

lemma update_devices_in_step:
  assumes "in_step p parse st" and "\<And>r. reads_back ser parse r" and "sane_on p io"
    and "desktops (st_registry st) d = Some desktop"
    and "update_devices (save_on p ser io) d (dk_devices desktop) devices st = (res, st')"
  shows "in_step p parse st'"
proof -
  obtain r ds where sv: "save_on p ser io (with_devices d devices (st_registry st)) (st_disk st) = (r, ds)"
    by (cases "save_on p ser io (with_devices d devices (st_registry st)) (st_disk st)")
  have "st' = st\<lparr>st_disk := last ds, st_registry := (case r of Inl _ \<Rightarrow> st_registry st
                              | Inr _ \<Rightarrow> with_devices d devices (st_registry st))\<rparr>"
    using update_devices_cases[where save = "save_on p ser io", OF assms(4) sv] assms(5) by simp
  then show ?thesis
    using in_step_commit[OF assms(1,2,3) sv] by simp
qed

lemma update_devices_Inl:
  assumes "desktops (st_registry st) d = Some desktop"
    and "update_devices save d (dk_devices desktop) devices st = (Inl e, st')"
  shows "st_registry st' = st_registry st"
proof -
  obtain r ds where sv: "save (with_devices d devices (st_registry st)) (st_disk st) = (r, ds)"
    by (cases "save (with_devices d devices (st_registry st)) (st_disk st)")
  show ?thesis
    using update_devices_cases[where save = save, OF assms(1) sv] assms(2) by auto
qed

text \<open>What \<open>register_commit\<close> does, by the outcome of the save.\<close>

definition registered ::
  "(u8 list \<Rightarrow> u8 list) \<Rightarrow> (string \<Rightarrow> u64) \<Rightarrow> u64 \<Rightarrow> (string \<times> u64) option \<Rightarrow> string \<Rightarrow> string
     \<Rightarrow> DesktopRegisterRequest \<Rightarrow> Registry \<Rightarrow> Registry" where
  "registered sha now_at created invite d token payload r = \<lparr>
     desktops = (desktops r)(d \<mapsto> desktop_registration_record sha created (desktops r d) token payload),
     used_registration_invites = (case invite of None \<Rightarrow> used_registration_invites r
       | Some (i, e) \<Rightarrow> (retain (\<lambda>k expiry. expiry > now_at k) (used_registration_invites r))(i \<mapsto> e))\<rparr>"

definition invite_used :: "(string \<times> u64) option \<Rightarrow> Registry \<Rightarrow> bool" where
  "invite_used invite r \<longleftrightarrow> (case invite of None \<Rightarrow> False | Some (i, _) \<Rightarrow> used_registration_invites r i \<noteq> None)"

lemma register_commit_cases:
  assumes "register_commit sha save now_at created invite d token payload st = (res, st')"
  obtains (used) m where "invite_used invite (st_registry st)" "res = Fail 401 m" "st' = st"
  | (failed) e ds where "\<not> invite_used invite (st_registry st)"
      "save (registered sha now_at created invite d token payload (st_registry st)) (st_disk st) = (Inl e, ds)"
      "res = SaveFailed 500 e" "st' = st\<lparr>st_disk := last ds\<rparr>"
  | (saved) ds where "\<not> invite_used invite (st_registry st)"
      "save (registered sha now_at created invite d token payload (st_registry st)) (st_disk st) = (Inr (), ds)"
      "res = Ok \<lparr>rs_desktop_id = d, rs_desktop_token = token\<rparr>"
      "st' = st\<lparr>st_disk := last ds,
                st_registry := registered sha now_at created invite d token payload (st_registry st)\<rparr>"
proof (cases "invite_used invite (st_registry st)")
  case True
  then show ?thesis
    using assms by (intro used) (auto simp: register_commit_def invite_used_def Let_def)
next
  case False
  let ?r = "registered sha now_at created invite d token payload (st_registry st)"
  obtain sres ds where sv: "save ?r (st_disk st) = (sres, ds)" by (cases "save ?r (st_disk st)")
  have restored: "(desktops r)(d \<mapsto> x) = desktops r" if "desktops r d = Some x" for r x
    using that by (auto simp: fun_eq_iff)
  have gone: "(desktops r)(d := None) = desktops r" if "desktops r d = None" for r
    using that by (auto simp: fun_eq_iff)
  show ?thesis
  proof (cases sres)
    case (Inl e)
    have "register_commit sha save now_at created invite d token payload st =
        (SaveFailed 500 e, st\<lparr>st_disk := last ds\<rparr>)"
      using False sv Inl
      by (cases "desktops (st_registry st) d")
        (simp_all add: register_commit_def Let_def registered_def[symmetric] invite_used_def[symmetric]
          save_registry_def, simp_all add: registered_def restored gone)
    with assms Inl sv False show ?thesis by (intro failed[of e ds]) simp_all
  next
    case (Inr u)
    have "register_commit sha save now_at created invite d token payload st =
        (Ok \<lparr>rs_desktop_id = d, rs_desktop_token = token\<rparr>, st\<lparr>st_disk := last ds, st_registry := ?r\<rparr>)"
      using False sv Inr
      by (simp add: register_commit_def Let_def registered_def[symmetric] invite_used_def[symmetric]
          save_registry_def)
    with assms Inr sv False show ?thesis by (intro saved[of ds]) simp_all
  qed
qed

lemma register_commit_in_step:
  assumes "in_step p parse st" and "\<And>r. reads_back ser parse r" and "sane_on p io"
    and "register_commit sha (save_on p ser io) now_at created invite d token payload st = (res, st')"
  shows "in_step p parse st'"
  using assms(4)
proof (rule register_commit_cases)
  fix e ds
  assume "save_on p ser io (registered sha now_at created invite d token payload (st_registry st)) (st_disk st)
      = (Inl e, ds)" "st' = st\<lparr>st_disk := last ds\<rparr>"
  then show ?thesis using in_step_commit[OF assms(1-3)] by simp
next
  fix ds
  assume "save_on p ser io (registered sha now_at created invite d token payload (st_registry st)) (st_disk st)
      = (Inr (), ds)"
    "st' = st\<lparr>st_disk := last ds,
              st_registry := registered sha now_at created invite d token payload (st_registry st)\<rparr>"
  then show ?thesis using in_step_commit[OF assms(1-3)] by simp
qed (simp add: assms(1))

lemma authorize_device_cases:
  assumes "authorize_device sha save now d v hs payload st = (res, st')"
  obtains (refused) "st' = st" "\<And>u. res \<noteq> Ok u"
  | (changed) desktop r where "desktop_guard sha st d hs = None" "desktops (st_registry st) d = Some desktop"
      "length (au_token_hash payload) = 64" "list_all is_ascii_hexdigit (au_token_hash payload)"
      "update_devices save d (dk_devices desktop) ((dk_devices desktop)(v \<mapsto>
         \<lparr>dv_token_hash = to_ascii_lowercase (au_token_hash payload), dv_created_at = now\<rparr>)) st = (r, st')"
      "res = (case r of Inl e \<Rightarrow> SaveFailed 500 e | Inr _ \<Rightarrow> Ok ())"
  using assms
  by (fastforce simp: authorize_device_def split: option.splits prod.splits sum.splits if_splits)

lemma revoke_device_cases:
  assumes "revoke_device sha save d v hs st = (res, st')"
  obtains (refused) "st' = st" "\<And>u. res \<noteq> Ok u"
  | (failed) desktop e where "desktop_guard sha st d hs = None" "desktops (st_registry st) d = Some desktop"
      "update_devices save d (dk_devices desktop) ((dk_devices desktop)(v := None)) st = (Inl e, st')"
      "res = SaveFailed 500 e"
  | (changed) desktop st1 where "desktop_guard sha st d hs = None" "desktops (st_registry st) d = Some desktop"
      "update_devices save d (dk_devices desktop) ((dk_devices desktop)(v := None)) st = (Inr (), st1)"
      "st' = st1\<lparr>st_snapshots := (st_snapshots st1)((d, v) := None),
                 st_device_channels := (st_device_channels st1)((d, v) := None)\<rparr>" "res = Ok ()"
  using assms
  by (fastforce simp: revoke_device_def split: option.splits prod.splits sum.splits if_splits)

lemma authorize_device_in_step:
  assumes "in_step p parse st" and "\<And>r. reads_back ser parse r" and "sane_on p io"
    and "authorize_device sha (save_on p ser io) now d v hs payload st = (res, st')"
  shows "in_step p parse st'"
  using assms(4)
  by (rule authorize_device_cases) (use assms(1-3) update_devices_in_step in \<open>blast+\<close>)

lemma revoke_device_in_step:
  assumes "in_step p parse st" and "\<And>r. reads_back ser parse r" and "sane_on p io"
    and "revoke_device sha (save_on p ser io) d v hs st = (res, st')"
  shows "in_step p parse st'"
  using assms(4)
proof (rule revoke_device_cases)
  fix desktop e
  assume "desktops (st_registry st) d = Some desktop"
    "update_devices (save_on p ser io) d (dk_devices desktop) ((dk_devices desktop)(v := None)) st = (Inl e, st')"
  then show ?thesis using update_devices_in_step[OF assms(1-3)] by blast
next
  fix desktop st1
  assume "desktops (st_registry st) d = Some desktop"
    "update_devices (save_on p ser io) d (dk_devices desktop) ((dk_devices desktop)(v := None)) st = (Inr (), st1)"
    and st': "st' = st1\<lparr>st_snapshots := (st_snapshots st1)((d, v) := None),
                 st_device_channels := (st_device_channels st1)((d, v) := None)\<rparr>"
  then have "in_step p parse st1" using update_devices_in_step[OF assms(1-3)] by blast
  then show ?thesis by (simp add: st' in_step_def)
qed (use assms(1) in simp)

lemma revoke_device_record_in_step:
  assumes "in_step p parse st" and "\<And>r. reads_back ser parse r" and "sane_on p io"
    and "revoke_device_record (save_on p ser io) d v st = (res, st')"
  shows "in_step p parse st'"
proof (cases "\<exists>desktop r. desktops (st_registry st) d = Some desktop \<and>
    update_devices (save_on p ser io) d (dk_devices desktop) ((dk_devices desktop)(v := None)) st = (r, st')")
  case True
  then show ?thesis using update_devices_in_step[OF assms(1-3)] by blast
next
  case False
  then have "st' = st"
    using assms(4) by (auto simp: revoke_device_record_def split: option.splits if_splits prod.splits sum.splits)
  with assms(1) show ?thesis by simp
qed

text \<open>An update of devices touches the devices of one desktop and nothing else.\<close>

lemma update_devices_other:
  assumes "desktops (st_registry st) d = Some desktop"
    and "update_devices save d (dk_devices desktop) devices st = (r, st')"
  shows "(d' \<noteq> d \<longrightarrow> desktops (st_registry st') d' = desktops (st_registry st) d')
     \<and> (\<exists>x. desktops (st_registry st') d = Some x \<and> dk_token_hash x = dk_token_hash desktop
          \<and> dk_devices x = (case r of Inl _ \<Rightarrow> dk_devices desktop | Inr _ \<Rightarrow> devices))
     \<and> used_registration_invites (st_registry st') = used_registration_invites (st_registry st)"
proof -
  obtain sr ds where sv: "save (with_devices d devices (st_registry st)) (st_disk st) = (sr, ds)"
    by (cases "save (with_devices d devices (st_registry st)) (st_disk st)")
  show ?thesis
    using update_devices_cases[where save = save, OF assms(1) sv] assms
    by (auto simp: with_devices_def split: sum.splits)
qed

section \<open>Runs of enrollments\<close>

text \<open>
  The registrations of one relay over time, interleaved with device changes and restarts. \<open>now\<close> is a time
  that has passed on the relay's clock, \<open>acc\<close> the invites (hash of the nonce, expiry) accepted so far.
  A commit may follow its check after any delay and any other step, as long as the invite has not
  expired when the lock is taken; every reading of the clock under the lock is at least \<open>now\<close>.
\<close>

definition accepted :: "'a answer \<Rightarrow> (string \<times> u64) option \<Rightarrow> (string \<times> u64) list \<Rightarrow> (string \<times> u64) list" where
  "accepted res invite acc = (case (res, invite) of (Ok _, Some x) \<Rightarrow> x # acc | _ \<Rightarrow> acc)"

inductive enrolled ::
  "platform \<Rightarrow> (Registry \<Rightarrow> string option) \<Rightarrow> (string \<Rightarrow> Registry option) \<Rightarrow> (u8 list \<Rightarrow> u8 list)
     \<Rightarrow> AppState \<Rightarrow> u64 \<Rightarrow> (string \<times> u64) list \<Rightarrow> bool"
  for p ser parse sha where
  start: "in_step p parse st \<Longrightarrow> enrolled p ser parse sha st now []"
| tick: "enrolled p ser parse sha st now acc \<Longrightarrow> now \<le> later \<Longrightarrow> enrolled p ser parse sha st later acc"
| commit: "enrolled p ser parse sha st now acc \<Longrightarrow> sane_on p io \<Longrightarrow>
     (case invite of None \<Rightarrow> True | Some (_, e) \<Rightarrow> now < e) \<Longrightarrow> (\<And>k. now \<le> now_at k \<and> now_at k \<le> later) \<Longrightarrow>
     now \<le> later \<Longrightarrow>
     register_commit sha (save_on p ser io) now_at created invite d token payload st = (res, st') \<Longrightarrow>
     enrolled p ser parse sha st' later (accepted res invite acc)"
| authorize: "enrolled p ser parse sha st now acc \<Longrightarrow> sane_on p io \<Longrightarrow>
     authorize_device sha (save_on p ser io) t d v hs au st = (ares, st') \<Longrightarrow> enrolled p ser parse sha st' now acc"
| revoke: "enrolled p ser parse sha st now acc \<Longrightarrow> sane_on p io \<Longrightarrow>
     revoke_device sha (save_on p ser io) d v hs st = (ares, st') \<Longrightarrow> enrolled p ser parse sha st' now acc"
| restart: "enrolled p ser parse sha st now acc \<Longrightarrow>
     app_load sha parse rename_done bootstrap env_id (st_disk st) = Inr st' \<Longrightarrow> enrolled p ser parse sha st' now acc"

definition remembered :: "AppState \<Rightarrow> u64 \<Rightarrow> (string \<times> u64) list \<Rightarrow> bool" where
  "remembered st now acc \<longleftrightarrow>
     (\<forall>(i, e) \<in> set acc. used_registration_invites (st_registry st) i = Some e \<or> e \<le> now)"

lemma authorize_device_invites:
  assumes "authorize_device sha save t d v hs au st = (res, st')"
  shows "used_registration_invites (st_registry st') = used_registration_invites (st_registry st)"
  using assms by (rule authorize_device_cases) (use update_devices_other in \<open>fastforce+\<close>)

lemma revoke_device_invites:
  assumes "revoke_device sha save d v hs st = (res, st')"
  shows "used_registration_invites (st_registry st') = used_registration_invites (st_registry st)"
  using assms by (rule revoke_device_cases) (use update_devices_other in \<open>fastforce+\<close>)

lemma app_load_registry:
  assumes "app_load sha parse rename_done bootstrap env_id disk = Inr st'"
  shows "reload_of parse disk = Inr (st_registry st')"
  using assms load_rename_irrelevant[of parse rename_done disk]
  by (auto simp: app_load_def split: prod.splits sum.splits)

lemma app_load_in_step:
  assumes "in_step p parse st" and "app_load sha parse rename_done bootstrap env_id (st_disk st) = Inr st'"
  shows "in_step p parse st'"
proof (cases "st_disk st Primary = None \<and> st_disk st Backup \<noteq> None \<and> rename_done")
  case False
  then have "st_disk st' = st_disk st"
    using assms(2) by (auto simp: app_load_def load_def read_to_string_def
        split: option.splits file_content.splits sum.splits io_error.splits if_splits prod.splits)
  then show ?thesis
    using assms app_load_registry[OF assms(2)] by (simp add: in_step_def)
next
  case True
  then obtain t where t: "st_disk st Backup = Some (Text t)" "parse_registry parse t = Inr (st_registry st)"
    using assms(1) by (auto simp: in_step_def reload_of_eq split: file_content.splits)
  then have d: "st_disk st' = fs_rename (st_disk st) Backup Primary"
    using True assms(2) by (auto simp: app_load_def load_def read_to_string_def)
  have "st_registry st' = st_registry st"
    using app_load_registry[OF assms(2)] assms(1) by (simp add: in_step_def)
  moreover have "st_disk st' Primary = Some (Text t)"
    using t by (simp add: d fs_rename_def)
  ultimately show ?thesis
    using t by (cases p) (simp_all add: in_step_def reload_Primary_Text safe_disk_def)
qed

lemma remembered_commit:
  assumes "remembered st now acc" and "distinct acc"
    and "case invite of None \<Rightarrow> True | Some (_, e) \<Rightarrow> now < e"
    and "\<And>k. now \<le> now_at k \<and> now_at k \<le> later" and "now \<le> later"
    and "register_commit sha save now_at created invite d token payload st = (res, st')"
  shows "remembered st' later (accepted res invite acc) \<and> distinct (accepted res invite acc)"
  using assms(6)
proof (rule register_commit_cases)
  fix ds
  assume fresh: "\<not> invite_used invite (st_registry st)"
    and res: "res = Ok \<lparr>rs_desktop_id = d, rs_desktop_token = token\<rparr>"
    and st': "st' = st\<lparr>st_disk := last ds,
        st_registry := registered sha now_at created invite d token payload (st_registry st)\<rparr>"
  show ?thesis
  proof (cases invite)
    case None
    then show ?thesis
      using assms(1,2,5) by (force simp: st' remembered_def registered_def accepted_def res intro: order_trans)
  next
    case (Some ie)
    obtain i e where ie: "ie = (i, e)" by (cases ie)
    have new: "used_registration_invites (st_registry st) i = None" "now < e"
      using fresh assms(3) by (simp_all add: Some ie invite_used_def)
    have old: "(i, e') \<in> set acc \<Longrightarrow> e' \<le> now" for e'
      using assms(1) new(1) by (auto simp: remembered_def)
    have keep: "j = i \<and> x = e \<or> used_registration_invites (st_registry st') j = Some x \<or> x \<le> later"
      if "(j, x) \<in> set acc" for j x
    proof (cases "x \<le> later")
      case False
      then have "x > now_at j" "x > now"
        using assms(4)[of j] assms(5) by (auto simp: not_le intro: le_less_trans)
      moreover from this have "used_registration_invites (st_registry st) j = Some x"
        using assms(1) that by (auto simp: remembered_def)
      ultimately show ?thesis
        using new(1) by (auto simp: st' registered_def Some ie)
    qed simp
    have "(i, e) \<notin> set acc"
      using old[of e] new(2) by auto
    moreover have "used_registration_invites (st_registry st') i = Some e"
      by (simp add: st' registered_def Some ie)
    ultimately show ?thesis
      using keep assms(2) by (auto simp: remembered_def accepted_def res Some ie)
  qed
qed (use assms(1,2,5) in \<open>auto simp: remembered_def accepted_def intro: order_trans\<close>)

lemma enrolled_inv:
  assumes "enrolled p ser parse sha st now acc" and rb: "\<And>r. reads_back ser parse r"
  shows "in_step p parse st \<and> remembered st now acc \<and> distinct acc"
  using assms(1)
proof (induction rule: enrolled.induct)
  case (start st now)
  then show ?case by (simp add: remembered_def)
next
  case (tick st now acc later)
  then show ?case by (auto simp: remembered_def intro: order_trans)
next
  case (commit st now acc io invite now_at later created d token payload res st')
  note ih = conjunct1[OF commit.IH] conjunct1[OF conjunct2[OF commit.IH]] conjunct2[OF conjunct2[OF commit.IH]]
  show ?case
    using register_commit_in_step[OF ih(1) rb commit.hyps(2,6)]
      remembered_commit[OF ih(2,3) commit.hyps(3-6)] by blast
next
  case (authorize st now acc io t d v hs au ares st')
  then show ?case
    using authorize_device_in_step[OF _ rb] authorize_device_invites[OF authorize.hyps(3)]
    by (auto simp: remembered_def)
next
  case (revoke st now acc io d v hs ares st')
  then show ?case
    using revoke_device_in_step[OF _ rb] revoke_device_invites[OF revoke.hyps(3)]
    by (auto simp: remembered_def)
next
  case (restart st now acc rename_done bootstrap env_id st')
  then show ?case
    using app_load_in_step[of p parse st] app_load_registry[OF restart.hyps(2)]
    by (auto simp: remembered_def in_step_def)
qed

section \<open>A sample registration\<close>

definition sample_payload :: DesktopRegisterRequest where
  "sample_payload = \<lparr>rq_desktop_id = ''d_'' @ replicate 16 (CHR ''1''), rq_device_name = [],
     rq_app_version = [], rq_platform = []\<rparr>"

definition sample_state :: AppState where
  "sample_state = \<lparr>st_registry = default_registry, st_disk = Map.empty, st_bootstrap_token_hash = Some ''x'',
     st_online_desktops = Map.empty, st_desktop_channels = Map.empty, st_device_channels = Map.empty,
     st_snapshots = Map.empty, st_pairing_routes = Map.empty, st_pairing_connections = Map.empty,
     st_control_connections = Map.empty, st_revoke_connections = Map.empty, st_control_last_at = Map.empty,
     st_mcp_gateway = gateway_from_env None\<rparr>"

definition sample_registered :: Registry where
  "sample_registered =
     registered (\<lambda>_. []) (\<lambda>_. 7) 7 (Some (''i'', 9)) ''d'' ''t'' sample_payload default_registry"

definition sample_ser :: "Registry \<Rightarrow> string option" where
  "sample_ser r = (if r = sample_registered then Some ''1'' else None)"

definition sample_parse :: "string \<Rightarrow> Registry option" where
  "sample_parse text = (if text = ''1'' @ [CHR 0x0A] then Some sample_registered else None)"

definition sample_io :: save_io where
  "sample_io = \<lparr>mkdir_ok = True, torn = Unreadable, write_ok = True, rename_ok = True, rm_backup_ok = True,
     backup_ok = True, cleanup_ok = True, restore_ok = True\<rparr>"

lemma sample_reads_back: "reads_back sample_ser sample_parse r"
  by (simp add: reads_back_def sample_ser_def sample_parse_def)

lemma sample_in_step: "in_step Unix sample_parse sample_state"
  by (simp add: in_step_def sample_state_def reload_of_eq)

lemma sample_commit:
  "\<exists>st'. register_commit (\<lambda>_. []) (save_on Unix sample_ser sample_io) (\<lambda>_. 7) 7 (Some (''i'', 9)) ''d'' ''t''
       sample_payload sample_state = (Ok \<lparr>rs_desktop_id = ''d'', rs_desktop_token = ''t''\<rparr>, st')
     \<and> st_registry st' = sample_registered"
proof -
  have "fst (save_on Unix sample_ser sample_io sample_registered Map.empty) = Inr ()"
    by (simp add: save_unix_def write_temp_def sample_io_def sample_ser_def Let_def)
  then obtain ds where sv: "save_on Unix sample_ser sample_io sample_registered Map.empty = (Inr (), ds)"
    by (metis prod.collapse)
  obtain res st' where c: "register_commit (\<lambda>_. []) (save_on Unix sample_ser sample_io) (\<lambda>_. 7) 7
      (Some (''i'', 9)) ''d'' ''t'' sample_payload sample_state = (res, st')"
    by fastforce
  then show ?thesis
  proof (rule register_commit_cases)
    assume "invite_used (Some (''i'', 9)) (st_registry sample_state)"
    then show ?thesis by (simp add: invite_used_def sample_state_def default_registry_def)
  qed (use c sv in \<open>auto simp: sample_state_def sample_registered_def[symmetric]\<close>)
qed

lemma sample_started: "enrolled Unix sample_ser sample_parse (\<lambda>_. []) sample_state 7 []"
  by (rule enrolled.start[OF sample_in_step])

lemma sample_enrolled:
  "\<exists>st'. enrolled Unix sample_ser sample_parse (\<lambda>_. []) st' 7 [(''i'', 9)]"
proof -
  obtain st' where c: "register_commit (\<lambda>_. []) (save_on Unix sample_ser sample_io) (\<lambda>_. 7) 7 (Some (''i'', 9))
      ''d'' ''t'' sample_payload sample_state = (Ok \<lparr>rs_desktop_id = ''d'', rs_desktop_token = ''t''\<rparr>, st')"
    using sample_commit by blast
  have "enrolled Unix sample_ser sample_parse (\<lambda>_. []) st' 7
      (accepted (Ok \<lparr>rs_desktop_id = ''d'', rs_desktop_token = ''t''\<rparr>) (Some (''i'', 9)) [])"
    by (rule enrolled.commit[OF sample_started _ _ _ _ c]) simp_all
  then show ?thesis by (auto simp: accepted_def)
qed

section \<open>Properties\<close>



text \<open>The registry file and the registry in memory never part: whatever registrations, device
  changes, failed saves and restarts happen, a restart at this point loads exactly what is in memory.\<close>

theorem registry_in_step:
  assumes "enrolled p ser parse sha st now acc" and "\<And>r. reads_back ser parse r"
  shows "reload_of parse (st_disk st) = Inr (st_registry st)"
  using enrolled_inv[OF assms] by (simp add: in_step_def)

theorem registry_in_step_witness: "reload_of sample_parse (st_disk sample_state) = Inr (st_registry sample_state)"
  by (rule registry_in_step[OF sample_started sample_reads_back])

text \<open>A registration whose save fails changes nothing: neither the desktops nor the used invites in
  memory, so the code can be used again, and the answer is an error.\<close>

theorem failed_registration_changes_nothing:
  assumes "register_commit sha save now_at created invite d token payload st = (res, st')"
  shows "(\<exists>response. res = Ok response) \<or> st_registry st' = st_registry st \<and> st_mcp_gateway st' = st_mcp_gateway st"
  using assms by (rule register_commit_cases) auto

theorem failed_registration_changes_nothing_witness:
  "\<exists>st'. register_commit (\<lambda>_. []) (save_on Windows (\<lambda>_. None) sample_io) (\<lambda>_. 7) 7 None ''d'' ''t'' sample_payload
       sample_state = (SaveFailed 500 SerializeFailed, st')
     \<and> st_registry st' = default_registry"
proof -
  let ?c = "register_commit (\<lambda>_. []) (save_on Windows (\<lambda>_. None) sample_io) (\<lambda>_. 7) 7 None ''d'' ''t'' sample_payload
       sample_state"
  have "fst ?c = SaveFailed 500 SerializeFailed"
    by (simp add: register_commit_def save_registry_def save_windows_def write_temp_def sample_io_def Let_def
        sample_state_def default_registry_def)
  then have c: "?c = (SaveFailed 500 SerializeFailed, snd ?c)"
    by (metis prod.collapse)
  show ?thesis
    using failed_registration_changes_nothing[OF c] c by (auto simp: sample_state_def)
qed

text \<open>The single use does depend on that condition. The handler checks the expiry before it takes the
  lock and not again: a registration that passed its check and waits until its invite has expired is
  accepted a second time if some other registration pruned the used entry in the meantime.\<close>

theorem late_commit_reuses_invite:
  assumes "\<And>r d. save r d = (Inr (), [d])"
    and "used_registration_invites (st_registry st) i = None" and "used_registration_invites (st_registry st) j = None"
    and "i \<noteq> j" and "e \<le> t2"
    and "st1 = snd (register_commit sha save now_at created (Some (i, e)) d1 tok1 payload1 st)"
    and "st2 = snd (register_commit sha save (\<lambda>_. t2) created (Some (j, f)) d2 tok2 payload2 st1)"
  shows "fst (register_commit sha save now_at created (Some (i, e)) d1 tok1 payload1 st)
           = Ok \<lparr>rs_desktop_id = d1, rs_desktop_token = tok1\<rparr>
     \<and> fst (register_commit sha save (\<lambda>_. t2) created (Some (i, e)) d3 tok3 payload3 st2)
           = Ok \<lparr>rs_desktop_id = d3, rs_desktop_token = tok3\<rparr>"
  using assms by (simp add: register_commit_def save_registry_def Let_def not_less)

theorem late_commit_reuses_invite_witness:
  "let save = (\<lambda>r d. (Inr (), [d]));
       commit = (\<lambda>t invite d. register_commit (\<lambda>_. []) save (\<lambda>_. t) 0 invite d ''tok'' sample_payload);
       st1 = snd (commit 5 (Some (''i'', 9)) ''d1'' sample_state);
       st2 = snd (commit 10 (Some (''j'', 20)) ''d2'' st1)
   in fst (commit 5 (Some (''i'', 9)) ''d1'' sample_state) = Ok \<lparr>rs_desktop_id = ''d1'', rs_desktop_token = ''tok''\<rparr>
    \<and> fst (commit 10 (Some (''i'', 9)) ''d3'' st2) = Ok \<lparr>rs_desktop_id = ''d3'', rs_desktop_token = ''tok''\<rparr>"
  unfolding Let_def
  by (rule late_commit_reuses_invite[OF _ _ _ _ _ refl refl])
    (simp_all add: sample_state_def default_registry_def)

text \<open>Registration needs the administrator. A request passes the checks only when the relay has a
  bootstrap token and the bearer token either is that token or is an enrollment code with a valid
  signature under it, which has not expired and is not valid for longer than ten minutes from now; and
  only for a well-formed desktop id.\<close>

theorem registration_needs_admin:
  assumes "register_check sha verify from_json now rnd hs payload st = Inr (invite, desktop_id, desktop_token)"
  shows "\<exists>expected token. st_bootstrap_token_hash st = Some expected \<and> bearer hs = Some token
     \<and> valid_desktop_id desktop_id
     \<and> (case invite of
          None \<Rightarrow> token_hash sha token = expected
        | Some (i, e) \<Rightarrow> (\<exists>inv text sig. parse_code from_json token = Inr (inv, text, sig)
            \<and> verify (as_bytes expected) (as_bytes text) sig
            \<and> i = token_hash sha (nonce inv) \<and> e = invite_expires_at inv
            \<and> now < e \<and> unat e \<le> unat now + 600000))"
  using assms
  by (auto simp: register_check_def registration_invite_def hash_matches_iff Let_def not_less not_le
      le_sat_add64_iff MAX_INVITE_LIFETIME_MS_def split: option.splits sum.splits if_splits prod.splits)

definition sample_headers :: headers where
  "sample_headers = [(''authorization'', ''Bearer '' @ CODE_PREFIX @ ''.'' @ hex_of [1] @ ''.'' @ hex_of (replicate 32 7))]"

lemma sample_bearer:
  "bearer sample_headers = Some (CODE_PREFIX @ ''.'' @ hex_of [1] @ ''.'' @ hex_of (replicate 32 7))"
proof -
  let ?c = "CODE_PREFIX @ ''.'' @ hex_of [1] @ ''.'' @ hex_of (replicate 32 7)"
  have g: "graphic ?c" by (rule graphic_code_text)
  have "visible_ascii ''Bearer ''" by (simp add: visible_ascii_def code_def)
  then have "visible_ascii (''Bearer '' @ ?c)"
    using graphic_visible[OF g] by (simp only: visible_ascii_append simp_thms)
  then have "header_str ''authorization'' sample_headers = Some (''Bearer '' @ ?c)"
    by (simp only: sample_headers_def header_str_def map_of.simps fst_conv snd_conv fun_upd_same to_str_ok_def
        bind.simps if_True)
  moreover have "strip_prefix ''Bearer '' (''Bearer '' @ ?c) = Some ?c"
    by (simp only: strip_prefix_Some_iff)
  moreover have "?c \<noteq> []" by (simp add: CODE_PREFIX_def)
  ultimately show ?thesis
    using trim_graphic[OF g] by (simp only: bearer_def bind.simps if_False)
qed

lemma sample_check:
  "register_check (\<lambda>_. []) (\<lambda>_ _ _. True) (\<lambda>_. Some sample_invite) 41 (Some []) sample_headers sample_payload sample_state
     = Inr (Some ([], 42), rq_desktop_id sample_payload, [])"
proof -
  have id: "trim (rq_desktop_id sample_payload) = rq_desktop_id sample_payload"
    by (rule trim_graphic) (simp add: sample_payload_def graphic_def code_def)
  have valid: "valid_desktop_id (rq_desktop_id sample_payload)"
    by (simp add: valid_desktop_id_def sample_payload_def starts_with_def list_all_iff is_ascii_hexdigit_def
        hex_digit_def code_def)
  have "sat_add64 41 MAX_INVITE_LIFETIME_MS \<ge> 42"
    by (simp add: le_sat_add64_iff MAX_INVITE_LIFETIME_MS_def)
  then have "registration_invite (\<lambda>_. []) (\<lambda>_ _ _. True) (\<lambda>_. Some sample_invite)
      (CODE_PREFIX @ ''.'' @ hex_of [1] @ ''.'' @ hex_of (replicate 32 7)) ''x'' 41 = Inr (Some ([], 42))"
    unfolding registration_invite_def sample_code_accepted
    by (simp add: hash_matches_iff token_hash_def sample_invite_def not_less)
  then show ?thesis
    using sample_bearer id valid
    by (simp add: register_check_def sample_state_def random_hex_def Let_def)
qed

theorem registration_needs_admin_witness:
  "\<exists>expected token. st_bootstrap_token_hash sample_state = Some expected \<and> bearer sample_headers = Some token
     \<and> valid_desktop_id (rq_desktop_id sample_payload)
     \<and> (case Some ([], 42) of
          None \<Rightarrow> token_hash (\<lambda>_. []) token = expected
        | Some (i, e) \<Rightarrow> (\<exists>inv text sig. parse_code (\<lambda>_. Some sample_invite) token = Inr (inv, text, sig)
            \<and> (\<lambda>_ _ _. True) (as_bytes expected) (as_bytes text) sig
            \<and> i = token_hash (\<lambda>_. []) (nonce inv) \<and> e = invite_expires_at inv
            \<and> 41 < e \<and> unat e \<le> unat (41 :: u64) + 600000))"
  by (rule registration_needs_admin[OF sample_check])

text \<open>A successful registration replaces the credential and nothing else that matters: the new token
  is the only one accepted for the desktop from then on, the devices paired with it and the creation
  time survive, other desktops are untouched, and the MCP session opened with the old token is gone.\<close>

theorem registration_rotates_credential:
  assumes "register_desktop sha verify from_json save can_send now now_at created rnd hs payload st = (Ok response, st')"
  shows "\<exists>r. desktops (st_registry st') (rs_desktop_id response) = Some r
     \<and> (\<forall>t. st_desktop_authorized sha st' (rs_desktop_id response) t
            \<longleftrightarrow> token_hash sha t = token_hash sha (rs_desktop_token response))
     \<and> (case desktops (st_registry st) (rs_desktop_id response) of
          None \<Rightarrow> dk_devices r = Map.empty \<and> dk_created_at r = created
        | Some old \<Rightarrow> dk_devices r = dk_devices old \<and> dk_created_at r = dk_created_at old)
     \<and> (\<forall>d. d = rs_desktop_id response \<or> desktops (st_registry st') d = desktops (st_registry st) d)
     \<and> (gw_desktop_id (st_mcp_gateway st) \<noteq> Some (rs_desktop_id response) \<or> gw_active (st_mcp_gateway st') = None)"
proof -
  obtain invite d token st1 where c:
      "register_commit sha save now_at created invite d token payload st = (Ok response, st1)"
    and st': "st' = st1\<lparr>st_mcp_gateway := fst (revoke_desktop can_send d (st_mcp_gateway st1))\<rparr>"
    using assms by (auto simp: register_desktop_def register_reply_def split: sum.splits prod.splits answer.splits)
  from c show ?thesis
  proof (rule register_commit_cases)
    fix ds
    assume "Ok response = Ok \<lparr>rs_desktop_id = d, rs_desktop_token = token\<rparr>"
      "st1 = st\<lparr>st_disk := last ds,
         st_registry := registered sha now_at created invite d token payload (st_registry st)\<rparr>"
    then show ?thesis
      by (auto simp: st' registered_def desktop_registration_record_def st_desktop_authorized_def
          desktop_authorized_def hash_matches_iff revoke_desktop_def fail_session_def split: option.splits)
  qed simp_all
qed

theorem registration_rotates_credential_witness:
  "\<exists>st' r. register_desktop (\<lambda>_. []) (\<lambda>_ _ _. True) (\<lambda>_. Some sample_invite) (\<lambda>r d. (Inr (), [d])) (\<lambda>_. True)
       41 (\<lambda>_. 41) 41 (Some []) sample_headers sample_payload sample_state
     = (Ok \<lparr>rs_desktop_id = rq_desktop_id sample_payload, rs_desktop_token = []\<rparr>, st')
     \<and> desktops (st_registry st') (rq_desktop_id sample_payload) = Some r \<and> dk_created_at r = 41"
proof -
  let ?r = "register_desktop (\<lambda>_. []) (\<lambda>_ _ _. True) (\<lambda>_. Some sample_invite) (\<lambda>r d. (Inr (), [d])) (\<lambda>_. True)
       41 (\<lambda>_. 41) 41 (Some []) sample_headers sample_payload sample_state"
  have "fst ?r = Ok \<lparr>rs_desktop_id = rq_desktop_id sample_payload, rs_desktop_token = []\<rparr>"
    unfolding register_desktop_def sample_check
    by (simp add: register_reply_def register_commit_def save_registry_def sample_state_def default_registry_def)
  then have r: "?r = (Ok \<lparr>rs_desktop_id = rq_desktop_id sample_payload, rs_desktop_token = []\<rparr>, snd ?r)"
    by (metis prod.collapse)
  show ?thesis
    using registration_rotates_credential[OF r] r by (auto simp: sample_state_def default_registry_def)
qed

lemma device_authorized_iff:
  "device_authorized sha st d v t \<longleftrightarrow>
     (\<exists>r x. desktops (st_registry st) d = Some r \<and> dk_devices r v = Some x \<and> dv_token_hash x = token_hash sha t)"
  by (auto simp: device_authorized_def hash_matches_iff bind_eq_Some_conv split: option.splits)

lemma device_authorized_cong:
  assumes "\<And>r. desktops (st_registry st) d = Some r \<Longrightarrow> \<exists>r'. desktops (st_registry st') d = Some r' \<and> dk_devices r' v = dk_devices r v"
    and "desktops (st_registry st) d = None \<Longrightarrow> desktops (st_registry st') d = None"
  shows "device_authorized sha st' d v t = device_authorized sha st d v t"
  using assms by (cases "desktops (st_registry st) d") (auto simp: device_authorized_iff)

lemma update_devices_authorized:
  assumes "desktops (st_registry st) d = Some desktop"
    and "update_devices save d (dk_devices desktop) ((dk_devices desktop)(v := x)) st = (Inr u, st')"
  shows "device_authorized sha st' d v t \<longleftrightarrow> (case x of None \<Rightarrow> False | Some y \<Rightarrow> dv_token_hash y = token_hash sha t)"
    and "(d', v') \<noteq> (d, v) \<Longrightarrow> device_authorized sha st' d' v' t = device_authorized sha st d' v' t"
proof -
  obtain y where y: "desktops (st_registry st') d = Some y" "dk_devices y = (dk_devices desktop)(v := x)"
    and other: "\<And>e. e \<noteq> d \<Longrightarrow> desktops (st_registry st') e = desktops (st_registry st) e"
    using update_devices_other[OF assms] by auto
  show "device_authorized sha st' d v t \<longleftrightarrow> (case x of None \<Rightarrow> False | Some y \<Rightarrow> dv_token_hash y = token_hash sha t)"
    using y by (auto simp: device_authorized_iff split: option.splits)
  show "(d', v') \<noteq> (d, v) \<Longrightarrow> device_authorized sha st' d' v' t = device_authorized sha st d' v' t"
    using y other assms(1) by (cases "d' = d") (auto simp: device_authorized_iff)
qed

text \<open>A device is authorized by its desktop and only there. A successful request carried the current
  credential of the desktop named in the path; afterwards exactly the tokens with the given hash open
  that device, and what opens any other device, of this or another desktop, has not changed.\<close>

theorem authorize_device_exact:
  assumes "authorize_device sha save now d v hs payload st = (Ok u, st')"
  shows "(\<exists>token. bearer hs = Some token \<and> st_desktop_authorized sha st d token)
     \<and> device_authorized sha st' d v t = (token_hash sha t = to_ascii_lowercase (au_token_hash payload))
     \<and> ((d', v') = (d, v) \<or> device_authorized sha st' d' v' t = device_authorized sha st d' v' t)"
  using assms
proof (rule authorize_device_cases)
  fix desktop r
  assume g: "desktop_guard sha st d hs = None" and d: "desktops (st_registry st) d = Some desktop"
    and up: "update_devices save d (dk_devices desktop) ((dk_devices desktop)(v \<mapsto>
         \<lparr>dv_token_hash = to_ascii_lowercase (au_token_hash payload), dv_created_at = now\<rparr>)) st = (r, st')"
    and "Ok u = (case r of Inl e \<Rightarrow> SaveFailed 500 e | Inr _ \<Rightarrow> Ok ())"
  then obtain w where "r = Inr w" by (cases r) auto
  note up' = update_devices_authorized[OF d up[unfolded this]]
  have "\<exists>token. bearer hs = Some token \<and> st_desktop_authorized sha st d token"
    using g by (auto simp: desktop_guard_def split: option.splits if_splits)
  moreover have "device_authorized sha st' d v t = (token_hash sha t = to_ascii_lowercase (au_token_hash payload))"
    by (auto simp: up'(1))
  ultimately show ?thesis using up'(2)[of d' v' sha t] by blast
qed simp

text \<open>A revoked device is locked out at once: its token opens nothing any more, the cached snapshot
  and the channel to its sockets are gone, and no other device is affected. When the save fails
  nothing changes in memory.\<close>

theorem revoke_device_exact:
  assumes "revoke_device sha save d v hs st = (res, st')"
  shows "(case res of
       Ok _ \<Rightarrow> (\<exists>token. bearer hs = Some token \<and> st_desktop_authorized sha st d token)
         \<and> \<not> device_authorized sha st' d v t \<and> \<not> device_exists st' d v
         \<and> st_snapshots st' (d, v) = None \<and> st_device_channels st' (d, v) = None
         \<and> ((d', v') = (d, v) \<or> device_authorized sha st' d' v' t = device_authorized sha st d' v' t)
     | _ \<Rightarrow> st_registry st' = st_registry st)"
  using assms
proof (rule revoke_device_cases)
  fix desktop st1
  assume g: "desktop_guard sha st d hs = None" and d: "desktops (st_registry st) d = Some desktop"
    and up: "update_devices save d (dk_devices desktop) ((dk_devices desktop)(v := None)) st = (Inr (), st1)"
    and st': "st' = st1\<lparr>st_snapshots := (st_snapshots st1)((d, v) := None),
                 st_device_channels := (st_device_channels st1)((d, v) := None)\<rparr>"
    and r: "res = Ok ()"
  have eq: "device_authorized sha st' a b t = device_authorized sha st1 a b t" for a b
    by (simp add: device_authorized_def st')
  have "\<exists>token. bearer hs = Some token \<and> st_desktop_authorized sha st d token"
    using g by (auto simp: desktop_guard_def split: option.splits if_splits)
  moreover have "\<not> device_exists st' d v"
    using update_devices_other[OF d up, of d] by (auto simp: device_exists_def st')
  moreover have "\<not> device_authorized sha st' d v t"
    by (simp add: eq update_devices_authorized(1)[OF d up])
  moreover have "(d', v') = (d, v) \<or> device_authorized sha st' d' v' t = device_authorized sha st d' v' t"
    unfolding eq using update_devices_authorized(2)[OF d up] by blast
  moreover have "st_snapshots st' (d, v) = None" "st_device_channels st' (d, v) = None"
    by (simp_all add: st')
  ultimately show ?thesis by (simp add: r)
next
  assume "st' = st" "\<And>u. res \<noteq> Ok u"
  then show ?thesis by (cases res) auto
next
  fix desktop e
  assume "desktops (st_registry st) d = Some desktop"
    "update_devices save d (dk_devices desktop) ((dk_devices desktop)(v := None)) st = (Inl e, st')"
    "res = SaveFailed 500 e"
  then show ?thesis using update_devices_Inl by simp
qed

definition sample_paired :: AppState where
  "sample_paired = sample_state\<lparr>st_registry := \<lparr>desktops = [''d'' \<mapsto> \<lparr>dk_token_hash = [], dk_device_name = [],
     dk_app_version = [], dk_platform = [], dk_created_at = 0,
     dk_devices = [''v'' \<mapsto> \<lparr>dv_token_hash = [], dv_created_at = 0\<rparr>]\<rparr>], used_registration_invites = Map.empty\<rparr>\<rparr>"

lemma sample_guard: "desktop_guard (\<lambda>_. []) sample_paired ''d'' sample_headers = None"
  using sample_bearer by (simp add: desktop_guard_None_iff sample_paired_def token_hash_def)

theorem authorize_device_exact_witness:
  "\<exists>st'. authorize_device (\<lambda>_. []) (\<lambda>r d. (Inr (), [d])) 5 ''d'' ''w'' sample_headers
       \<lparr>au_token_hash = replicate 64 (CHR ''0'')\<rparr> sample_paired = (Ok (), st')
     \<and> \<not> device_authorized (\<lambda>_. []) st' ''d'' ''w'' ''t''
     \<and> device_authorized (\<lambda>_. []) st' ''d'' ''v'' ''t''"
proof -
  let ?r = "authorize_device (\<lambda>_. []) (\<lambda>r d. (Inr (), [d])) 5 ''d'' ''w'' sample_headers
       \<lparr>au_token_hash = replicate 64 (CHR ''0'')\<rparr> sample_paired"
  have "fst ?r = Ok ()"
    using sample_guard
    by (simp add: authorize_device_def sample_paired_def update_devices_def save_registry_def list_all_iff
        is_ascii_hexdigit_def hex_digit_def code_def)
  then have r: "?r = (Ok (), snd ?r)" by (metis prod.collapse)
  have "device_authorized (\<lambda>_. []) sample_paired ''d'' ''v'' ''t''"
    by (simp add: device_authorized_iff sample_paired_def token_hash_def)
  then show ?thesis
    using authorize_device_exact[OF r, of "''t''" "''d''" "''v''"] r
    by (auto simp: token_hash_def to_ascii_lowercase_def)
qed

theorem revoke_device_exact_witness:
  "\<exists>st'. revoke_device (\<lambda>_. []) (\<lambda>r d. (Inr (), [d])) ''d'' ''v'' sample_headers sample_paired = (Ok (), st')
     \<and> \<not> device_authorized (\<lambda>_. []) st' ''d'' ''v'' ''t'' \<and> \<not> device_exists st' ''d'' ''v''"
proof -
  let ?r = "revoke_device (\<lambda>_. []) (\<lambda>r d. (Inr (), [d])) ''d'' ''v'' sample_headers sample_paired"
  have "fst ?r = Ok ()"
    using sample_guard
    by (simp add: revoke_device_def sample_paired_def update_devices_def save_registry_def)
  then have r: "?r = (Ok (), snd ?r)" by (metis prod.collapse)
  show ?thesis
    using revoke_device_exact[OF r, of "''t''" "''d''" "''v''"] r by auto
qed

end
