(* ===== verification/Pairing_Session.thy ===== *)
theory Pairing_Session
  imports Registry_Routes
begin

text \<open>
  Pairing a device through the relay (\<^verbatim>\<open>relay-server/src/pairing_session.rs\<close>). A desktop opens a route
  for a limited time; whoever holds the route's token may send one encrypted message through it, which
  the desktop answers. \<^verbatim>\<open>pairing_socket\<close> waits twice: for the message (\<open>pairing_request\<close> handles it) and
  for the desktop's answer (\<open>pairing_finish\<close>).
\<close>

section \<open>Routes\<close>

definition prepare_pairing_route_insert ::
  "(route_key \<rightharpoonup> PairingRoute) \<Rightarrow> string \<Rightarrow> u64 \<Rightarrow> (string + unit) \<times> (route_key \<rightharpoonup> PairingRoute)" where
  "prepare_pairing_route_insert routes desktop_id now =
     (let routes1 = retain (\<lambda>_ route. pr_expires_at route > now) routes;
          routes2 = retain (\<lambda>(candidate_desktop, _) _. candidate_desktop \<noteq> desktop_id) routes1
      in if map_len routes2 \<ge> MAX_PAIRING_ROUTES then (Inl ''pairing route capacity reached'', routes2)
         else (Inr (), routes2))"

definition open_pairing_route ::
  "(u8 list \<Rightarrow> u8 list) \<Rightarrow> u64 \<Rightarrow> string \<Rightarrow> string \<Rightarrow> headers \<Rightarrow> PairingRouteOpenRequest \<Rightarrow> AppState
     \<Rightarrow> unit answer \<times> AppState" where
  "open_pairing_route sha now desktop_id pairing_id hs payload st =
     (case desktop_guard sha st desktop_id hs of
        Some (status, message) \<Rightarrow> (Fail status message, st)
      | None \<Rightarrow>
          (if \<not> starts_with ''p_'' pairing_id \<or> length (po_token_hash payload) \<noteq> 64
             \<or> \<not> list_all is_ascii_hexdigit (po_token_hash payload)
           then (Fail 400 ''invalid pairing route'', st)
           else if po_expires_at payload \<le> now \<or> po_expires_at payload > sat_add64 now (10 * 60000)
           then (Fail 400 ''invalid pairing expiry'', st)
           else case prepare_pairing_route_insert (st_pairing_routes st) desktop_id now of
             (Inl error, routes) \<Rightarrow> (Fail 429 error, st\<lparr>st_pairing_routes := routes\<rparr>)
           | (Inr _, routes) \<Rightarrow>
               (Ok (), st\<lparr>st_pairing_routes := routes((desktop_id, pairing_id) \<mapsto>
                   \<lparr>pr_token_hash = to_ascii_lowercase (po_token_hash payload),
                    pr_expires_at = po_expires_at payload\<rparr>)\<rparr>)))"

definition delete_pairing_route ::
  "(u8 list \<Rightarrow> u8 list) \<Rightarrow> string \<Rightarrow> string \<Rightarrow> headers \<Rightarrow> AppState \<Rightarrow> unit answer \<times> AppState" where
  "delete_pairing_route sha desktop_id pairing_id hs st =
     (case desktop_guard sha st desktop_id hs of
        Some (status, message) \<Rightarrow> (Fail status message, st)
      | None \<Rightarrow> (Ok (), st\<lparr>st_pairing_routes := (st_pairing_routes st)((desktop_id, pairing_id) := None)\<rparr>))"

section \<open>The pairing socket\<close>

text \<open>The upgrade; \<open>slot\<close> tells whether one of the websocket permits was free.\<close>

definition pairing_ws ::
  "(u8 list \<Rightarrow> u8 list) \<Rightarrow> u64 \<Rightarrow> bool \<Rightarrow> string \<Rightarrow> string \<Rightarrow> headers \<Rightarrow> AppState \<Rightarrow> unit answer \<times> AppState" where
  "pairing_ws sha now slot desktop_id pairing_id hs st =
     (case bearer hs of
        None \<Rightarrow> (Fail 401 ''missing bearer token'', st)
      | Some token \<Rightarrow>
          (let key = (desktop_id, pairing_id) in
           case st_pairing_routes st key of
             None \<Rightarrow> (Fail 404 ''pairing route not found'', st)
           | Some route \<Rightarrow>
               (if now > pr_expires_at route
                then (Fail 410 ''pairing route expired'',
                      st\<lparr>st_pairing_routes := (st_pairing_routes st)(key := None)\<rparr>)
                else if \<not> hash_matches sha token (pr_token_hash route)
                then (Fail 401 ''invalid pairing route token'', st)
                else if \<not> slot then (Fail 503 ''pairing websocket capacity reached'', st)
                else (Ok (), st))))"

text \<open>The first message on the socket: \<open>incoming\<close> is the parsed text, \<open>None\<close> when it is not a pairing
  message. The result is the error sent back, or the connection to wait on; \<open>Inl None\<close> hangs up silently.\<close>

definition pairing_request ::
  "u64 \<Rightarrow> (nat \<Rightarrow> bool) \<Rightarrow> u8 list option \<Rightarrow> nat \<Rightarrow> string \<Rightarrow> string \<Rightarrow> PairingWsMessage option \<Rightarrow> AppState
     \<Rightarrow> (string option + string) \<times> AppState \<times> effect list" where
  "pairing_request now alive rnd fresh desktop_id pairing_id incoming st =
     (case incoming of
        None \<Rightarrow> (Inl (Some ''invalid pairing message''), st, [])
      | Some (P_Pair message_pairing_id payload) \<Rightarrow>
        (if message_pairing_id \<noteq> pairing_id then (Inl (Some ''pairing route mismatch''), st, [])
         else let route_key = (desktop_id, pairing_id) in
         if \<not> (case st_pairing_routes st route_key of None \<Rightarrow> False | Some route \<Rightarrow> pr_expires_at route > now)
         then (Inl (Some ''pairing route is no longer active''),
               st\<lparr>st_pairing_routes := (st_pairing_routes st)(route_key := None)\<rparr>, [])
         else case st_desktop_channels st desktop_id of
           None \<Rightarrow> (Inl (Some ''desktop offline''), st, [])
         | Some route \<Rightarrow>
           (case random_hex rnd of
              Inl _ \<Rightarrow> (Inl None, st, [])
            | Inr value \<Rightarrow>
              (let connection_id = ''pc_'' @ value in
               if \<not> alive (dr_sender route)
               then (Inl (Some ''desktop offline''),
                     st\<lparr>st_pairing_connections := (st_pairing_connections st)(connection_id := None)\<rparr>, [])
               else (Inr connection_id,
                     st\<lparr>st_pairing_connections := (st_pairing_connections st)(connection_id \<mapsto> fresh)\<rparr>,
                     [ToDesktop (dr_sender route) (DS_PairingRequest pairing_id connection_id payload)])))))"

text \<open>After the wait: \<open>response\<close> is what the desktop's side sent on the oneshot channel in time. The second
  component is what goes to the device.\<close>

fun is_pair_result :: "PairingServerMessage \<Rightarrow> bool" where
  "is_pair_result (PS_PairResult _ _) = True"
| "is_pair_result (PS_Error _) = False"

definition pairing_finish ::
  "PairingServerMessage option \<Rightarrow> string \<Rightarrow> string \<Rightarrow> string \<Rightarrow> AppState \<Rightarrow> AppState \<times> PairingServerMessage" where
  "pairing_finish response connection_id desktop_id pairing_id st =
     (let st1 = st\<lparr>st_pairing_connections := (st_pairing_connections st)(connection_id := None)\<rparr> in
      case response of
        None \<Rightarrow> (st1, PS_Error ''desktop pairing response timed out'')
      | Some message \<Rightarrow>
          (if is_pair_result message
           then st1\<lparr>st_pairing_routes := (st_pairing_routes st1)((desktop_id, pairing_id) := None)\<rparr>
           else st1, message))"

section \<open>The invariant of the routes\<close>

text \<open>One open route per desktop, and never more than 256 routes.\<close>

definition routes_ok :: "(route_key \<rightharpoonup> PairingRoute) \<Rightarrow> bool" where
  "routes_ok routes \<longleftrightarrow> finite (dom routes) \<and> map_len routes \<le> MAX_PAIRING_ROUTES
     \<and> (\<forall>d p q. routes (d, p) \<noteq> None \<longrightarrow> routes (d, q) \<noteq> None \<longrightarrow> p = q)"

lemma routes_ok_empty [simp]: "routes_ok Map.empty"
  by (simp add: routes_ok_def)

lemma routes_ok_smaller: "routes_ok m \<Longrightarrow> (\<And>k. m' k \<noteq> None \<Longrightarrow> m k \<noteq> None) \<Longrightarrow> routes_ok m'"
proof -
  assume ok: "routes_ok m" and sub: "\<And>k. m' k \<noteq> None \<Longrightarrow> m k \<noteq> None"
  have "dom m' \<subseteq> dom m" using sub by auto
  with ok have "finite (dom m') \<and> map_len m' \<le> MAX_PAIRING_ROUTES"
    using map_len_smaller[of m m'] by (auto simp: routes_ok_def)
  with ok sub show ?thesis unfolding routes_ok_def by blast
qed

lemma routes_ok_delete [simp]: "routes_ok m \<Longrightarrow> routes_ok (m(k := None))"
  by (erule routes_ok_smaller) (auto split: if_splits)

lemma prepared_routes:
  assumes "prepare_pairing_route_insert routes d now = (res, routes')"
  shows "routes' k = (case routes k of None \<Rightarrow> None
           | Some r \<Rightarrow> if pr_expires_at r > now \<and> fst k \<noteq> d then Some r else None)"
    and "res = Inr () \<longleftrightarrow> map_len routes' < MAX_PAIRING_ROUTES"
  using assms by (auto simp: prepare_pairing_route_insert_def Let_def retain_def split: if_splits option.splits)

lemma routes_ok_prepared:
  assumes "prepare_pairing_route_insert routes d now = (res, routes')" and "routes_ok routes"
  shows "routes_ok routes'"
  using assms(2) by (rule routes_ok_smaller) (auto simp: prepared_routes(1)[OF assms(1)] split: option.splits)

lemma open_pairing_route_ok:
  assumes "routes_ok (st_pairing_routes st)"
  shows "routes_ok (st_pairing_routes (snd (open_pairing_route sha now d p hs payload st)))"
proof -
  obtain res routes where pre: "prepare_pairing_route_insert (st_pairing_routes st) d now = (res, routes)"
    by (cases "prepare_pairing_route_insert (st_pairing_routes st) d now")
  have ok: "routes_ok routes" by (rule routes_ok_prepared[OF pre assms])
  have none: "routes (d, q) = None" for q
    by (simp add: prepared_routes(1)[OF pre] split: option.splits)
  have upd: "routes_ok (routes((d, p) \<mapsto> r))" if "map_len routes < MAX_PAIRING_ROUTES" for r
    using ok none that map_len_upd_room[of routes MAX_PAIRING_ROUTES "(d, p)" r]
    by (auto simp: routes_ok_def)
  show ?thesis
    using assms ok upd prepared_routes(2)[OF pre]
    by (cases res) (auto simp: open_pairing_route_def pre split: option.splits)
qed

lemma delete_pairing_route_ok:
  "routes_ok (st_pairing_routes st) \<Longrightarrow> routes_ok (st_pairing_routes (snd (delete_pairing_route sha d p hs st)))"
  by (auto simp: delete_pairing_route_def split: option.splits)

lemma pairing_ws_ok:
  "routes_ok (st_pairing_routes st) \<Longrightarrow> routes_ok (st_pairing_routes (snd (pairing_ws sha now slot d p hs st)))"
  by (auto simp: pairing_ws_def Let_def split: option.splits)

lemma pairing_request_ok:
  "routes_ok (st_pairing_routes st) \<Longrightarrow>
     routes_ok (st_pairing_routes (fst (snd (pairing_request now alive rnd fresh d p m st))))"
  by (auto simp: pairing_request_def Let_def split: option.splits PairingWsMessage.splits sum.splits)

lemma pairing_finish_ok:
  "routes_ok (st_pairing_routes st) \<Longrightarrow> routes_ok (st_pairing_routes (fst (pairing_finish r c d p st)))"
  by (auto simp: pairing_finish_def Let_def split: option.splits)

section \<open>Properties\<close>

lemma pairing_request_Inr:
  assumes "pairing_request now alive rnd fresh d p incoming st = (Inr c, st', es)"
  shows "\<exists>payload route session. incoming = Some (P_Pair p payload)
     \<and> st_pairing_routes st (d, p) = Some route \<and> now < pr_expires_at route
     \<and> st_desktop_channels st d = Some session \<and> alive (dr_sender session)
     \<and> es = [ToDesktop (dr_sender session) (DS_PairingRequest p c payload)]
     \<and> st' = st\<lparr>st_pairing_connections := (st_pairing_connections st)(c \<mapsto> fresh)\<rparr>"
  using assms
  by (auto simp: pairing_request_def Let_def split: option.splits PairingWsMessage.splits if_splits sum.splits)

text \<open>A pairing message reaches a desktop only through an open route: the socket names the route it
  was opened for, the route has not expired, the desktop is connected, and the encrypted payload goes
  unchanged to that desktop's session, with a connection id on which the answer is awaited.\<close>

theorem pairing_needs_open_route:
  assumes "pairing_request now alive rnd fresh d p incoming st = (Inr c, st', es)"
  shows "\<exists>payload route session. incoming = Some (P_Pair p payload)
     \<and> st_pairing_routes st (d, p) = Some route \<and> now < pr_expires_at route
     \<and> st_desktop_channels st d = Some session
     \<and> es = [ToDesktop (dr_sender session) (DS_PairingRequest p c payload)]
     \<and> st_pairing_connections st' c = Some fresh"
  using pairing_request_Inr[OF assms] by auto

definition sample_pairing :: AppState where
  "sample_pairing = \<lparr>st_registry = default_registry, st_disk = Map.empty, st_bootstrap_token_hash = None,
     st_online_desktops = Map.empty,
     st_desktop_channels = [''d'' \<mapsto> \<lparr>dr_session_id = ''s'', dr_sender = 3, dr_capabilities = []\<rparr>],
     st_device_channels = Map.empty, st_snapshots = Map.empty,
     st_pairing_routes = [(''d'', ''p'') \<mapsto> \<lparr>pr_token_hash = [], pr_expires_at = 10\<rparr>],
     st_pairing_connections = Map.empty, st_control_connections = Map.empty, st_revoke_connections = Map.empty,
     st_control_last_at = Map.empty, st_mcp_gateway = gateway_from_env None\<rparr>"

theorem pairing_needs_open_route_witness:
  "\<exists>st'. pairing_request 9 (\<lambda>_. True) (Some []) 4 ''d'' ''p'' (Some (P_Pair ''p'' \<lparr>pp_nonce = [], pp_ciphertext = []\<rparr>))
        sample_pairing = (Inr ''pc_'', st',
          [ToDesktop 3 (DS_PairingRequest ''p'' ''pc_'' \<lparr>pp_nonce = [], pp_ciphertext = []\<rparr>)])
     \<and> st_pairing_connections st' ''pc_'' = Some 4"
proof -
  let ?r = "pairing_request 9 (\<lambda>_. True) (Some []) 4 ''d'' ''p'' (Some (P_Pair ''p'' \<lparr>pp_nonce = [], pp_ciphertext = []\<rparr>))
        sample_pairing"
  have r: "?r = (Inr ''pc_'', fst (snd ?r),
      [ToDesktop 3 (DS_PairingRequest ''p'' ''pc_'' \<lparr>pp_nonce = [], pp_ciphertext = []\<rparr>)])"
    by (simp add: pairing_request_def sample_pairing_def random_hex_def Let_def)
  show ?thesis using pairing_needs_open_route[OF r] r by blast
qed

text \<open>A route serves one successful pairing. Once the desktop's positive answer has been handed on, the
  route is gone: no new socket is admitted to it, and a socket that was admitted before can no longer
  send its message.\<close>

theorem pairing_route_consumed:
  "let (st', m) = pairing_finish (Some (PS_PairResult q payload)) c d p st in
     m = PS_PairResult q payload
   \<and> fst (pairing_ws sha now slot d p hs st') \<noteq> Ok ()
   \<and> (\<exists>e. fst (pairing_request now alive rnd fresh d p incoming st') = Inl e)"
  by (auto simp: pairing_finish_def pairing_ws_def pairing_request_def Let_def
      split: option.splits PairingWsMessage.splits)

text \<open>Opening a route replaces the desktop's previous one and drops the expired ones; it lives for
  at most ten minutes, and the unexpired routes of other desktops stay.\<close>

theorem open_route_exact:
  assumes "open_pairing_route sha now d p hs payload st = (Ok u, st')"
  shows "(\<exists>token. bearer hs = Some token \<and> st_desktop_authorized sha st d token)
     \<and> now < po_expires_at payload \<and> unat (po_expires_at payload) \<le> unat now + 600000
     \<and> st_pairing_routes st' (e, q) =
         (if e = d then (if q = p then Some \<lparr>pr_token_hash = to_ascii_lowercase (po_token_hash payload),
                                         pr_expires_at = po_expires_at payload\<rparr> else None)
          else (case st_pairing_routes st (e, q) of None \<Rightarrow> None
                | Some r \<Rightarrow> if pr_expires_at r > now then Some r else None))"
proof -
  obtain res routes where pre: "prepare_pairing_route_insert (st_pairing_routes st) d now = (res, routes)"
    by (cases "prepare_pairing_route_insert (st_pairing_routes st) d now")
  have g: "desktop_guard sha st d hs = None"
    using assms by (auto simp: open_pairing_route_def split: option.splits)
  then have "\<exists>token. bearer hs = Some token \<and> st_desktop_authorized sha st d token"
    by (auto simp: desktop_guard_def split: option.splits if_splits)
  moreover have "now < po_expires_at payload \<and> unat (po_expires_at payload) \<le> unat now + 600000"
    using assms g by (auto simp: open_pairing_route_def not_le not_less le_sat_add64_iff split: if_splits)
  moreover have "st_pairing_routes st' = routes((d, p) \<mapsto>
      \<lparr>pr_token_hash = to_ascii_lowercase (po_token_hash payload), pr_expires_at = po_expires_at payload\<rparr>)"
    using assms g pre by (auto simp: open_pairing_route_def split: if_splits sum.splits)
  ultimately show ?thesis
    by (auto simp: prepared_routes(1)[OF pre] split: option.splits)
qed

theorem open_route_exact_witness:
  "\<exists>st'. open_pairing_route (\<lambda>_. []) 100 ''d'' ''p_1'' sample_headers
        \<lparr>po_token_hash = replicate 64 (CHR ''0''), po_expires_at = 200\<rparr> sample_paired = (Ok (), st')
     \<and> st_pairing_routes st' (''d'', ''p_1'') = Some \<lparr>pr_token_hash = replicate 64 (CHR ''0''), pr_expires_at = 200\<rparr>"
proof -
  let ?r = "open_pairing_route (\<lambda>_. []) 100 ''d'' ''p_1'' sample_headers
        \<lparr>po_token_hash = replicate 64 (CHR ''0''), po_expires_at = 200\<rparr> sample_paired"
  have "\<not> sat_add64 100 600000 < 200"
    by (simp add: not_less le_sat_add64_iff)
  moreover have "st_pairing_routes sample_paired = Map.empty"
    by (simp add: sample_paired_def sample_state_def)
  ultimately have "fst ?r = Ok ()"
    using sample_guard
    by (simp add: open_pairing_route_def starts_with_def list_all_iff is_ascii_hexdigit_def hex_digit_def code_def
        prepare_pairing_route_insert_def MAX_PAIRING_ROUTES_def Let_def)
  then have r: "?r = (Ok (), snd ?r)" by (metis prod.collapse)
  have "to_ascii_lowercase (replicate 64 (CHR ''0'')) = replicate 64 (CHR ''0'')"
    by (simp add: to_ascii_lowercase_def ascii_lower_def code_def)
  then show ?thesis
    using open_route_exact[OF r, of "''d''" "''p_1''"] r by auto
qed

end
