(* ===== verification/Desktop_Session.thy ===== *)
theory Desktop_Session
  imports Relay_State
begin

text \<open>
  The websocket of a desktop (\<^verbatim>\<open>relay-server/src/desktop_session.rs\<close>): the upgrade, the hello, the messages
  and the end of a session. The two maps a session appears in, \<^verbatim>\<open>online_desktops\<close> and \<^verbatim>\<open>desktop_channels\<close>,
  have locks of their own: the session enters them in two steps (\<open>session_online\<close>, \<open>session_channel\<close>)
  and leaves them in two (\<open>leave_online\<close>, \<open>leave_channel\<close>), and other sessions may run in between.
\<close>

section \<open>Opening\<close>

definition desktop_ws ::
  "(u8 list \<Rightarrow> u8 list) \<Rightarrow> bool \<Rightarrow> string \<Rightarrow> headers \<Rightarrow> AppState \<Rightarrow> unit answer" where
  "desktop_ws sha slot desktop_id hs st =
     (case desktop_guard sha st desktop_id hs of
        Some (status, message) \<Rightarrow> Fail status message
      | None \<Rightarrow> if \<not> slot then Fail 503 ''desktop websocket capacity reached'' else Ok ())"

text \<open>The hello: the capabilities of the session, \<open>None\<close> to hang up.\<close>

definition desktop_hello :: "string \<Rightarrow> DesktopWsMessage option \<Rightarrow> string list option" where
  "desktop_hello desktop_id m =
     (case m of
        Some (D_Hello protocol_version hello_id _ _ capabilities) \<Rightarrow>
          if protocol_version \<noteq> PROTOCOL_VERSION \<or> hello_id \<noteq> desktop_id then None else Some capabilities
      | _ \<Rightarrow> None)"

definition session_online :: "string \<Rightarrow> string \<Rightarrow> AppState \<Rightarrow> AppState" where
  "session_online desktop_id session_id st =
     st\<lparr>st_online_desktops := (st_online_desktops st)(desktop_id \<mapsto> session_id)\<rparr>"

definition session_channel :: "string \<Rightarrow> string \<Rightarrow> nat \<Rightarrow> string list \<Rightarrow> AppState \<Rightarrow> AppState" where
  "session_channel desktop_id session_id sender capabilities st =
     st\<lparr>st_desktop_channels := (st_desktop_channels st)(desktop_id \<mapsto>
          \<lparr>dr_session_id = session_id, dr_sender = sender, dr_capabilities = capabilities\<rparr>)\<rparr>"

definition open_session ::
  "route_key list \<Rightarrow> u64 \<Rightarrow> string \<Rightarrow> string \<Rightarrow> nat \<Rightarrow> string list \<Rightarrow> AppState
     \<Rightarrow> AppState \<times> effect list \<times> DesktopServerMessage" where
  "open_session keys now desktop_id session_id sender capabilities st =
     (let st1 = session_channel desktop_id session_id sender capabilities (session_online desktop_id session_id st)
      in (st1, broadcast_desktop_presence keys now desktop_id True st1,
          DS_HelloAck session_id now device_capabilities))"

section \<open>Closing\<close>

definition leave_online :: "string \<Rightarrow> string \<Rightarrow> AppState \<Rightarrow> bool \<times> AppState" where
  "leave_online desktop_id session_id st =
     (if st_online_desktops st desktop_id = Some session_id
      then (True, st\<lparr>st_online_desktops := (st_online_desktops st)(desktop_id := None)\<rparr>)
      else (False, st))"

definition leave_channel :: "string \<Rightarrow> string \<Rightarrow> AppState \<Rightarrow> AppState" where
  "leave_channel desktop_id session_id st =
     (case st_desktop_channels st desktop_id of
        None \<Rightarrow> st
      | Some route \<Rightarrow>
          if dr_session_id route = session_id
          then st\<lparr>st_desktop_channels := (st_desktop_channels st)(desktop_id := None)\<rparr> else st)"

definition remove_online_if_current ::
  "route_key list \<Rightarrow> u64 \<Rightarrow> string \<Rightarrow> string \<Rightarrow> AppState \<Rightarrow> AppState \<times> effect list" where
  "remove_online_if_current keys now desktop_id session_id st =
     (case leave_online desktop_id session_id st of
        (False, st1) \<Rightarrow> (st1, [])
      | (True, st1) \<Rightarrow>
          (let st2 = leave_channel desktop_id session_id st1
           in (st2, broadcast_desktop_presence keys now desktop_id False st2)))"

section \<open>Messages\<close>

text \<open>One text message: whether the session goes on, the state, what is sent to others, what is answered.
  \<open>None\<close> is a text that does not parse.\<close>

definition answer_pairing ::
  "string \<Rightarrow> PairingServerMessage \<Rightarrow> AppState \<Rightarrow> AppState \<times> effect list" where
  "answer_pairing connection_id message st =
     (case st_pairing_connections st connection_id of
        None \<Rightarrow> (st, [])
      | Some sender \<Rightarrow>
          (st\<lparr>st_pairing_connections := (st_pairing_connections st)(connection_id := None)\<rparr>,
           [ToPairing sender message]))"

definition desktop_message ::
  "u64 \<Rightarrow> nat \<Rightarrow> string \<Rightarrow> DesktopWsMessage option \<Rightarrow> AppState
     \<Rightarrow> bool \<times> AppState \<times> effect list \<times> DesktopServerMessage list" where
  "desktop_message now fresh desktop_id m st =
     (case m of
        None \<Rightarrow> (True, st, [], [DS_Error ''invalid websocket message''])
      | Some (D_Hello protocol_version hello_id _ _ _) \<Rightarrow>
          (\<not> (protocol_version \<noteq> PROTOCOL_VERSION \<or> hello_id \<noteq> desktop_id), st, [], [])
      | Some (D_Ping _) \<Rightarrow> (True, st, [], [DS_Pong now])
      | Some (D_Snapshot device_id snapshot) \<Rightarrow>
          (case cache_and_route_snapshot now fresh desktop_id device_id snapshot st of
             (Inl error, st1, es) \<Rightarrow> (True, st1, es, [DS_Error error])
           | (Inr _, st1, es) \<Rightarrow> (True, st1, es, []))
      | Some (D_PairingResponse pairing_id connection_id payload) \<Rightarrow>
          (case answer_pairing connection_id (PS_PairResult pairing_id payload) st of
             (st1, es) \<Rightarrow> (True, st1, es, []))
      | Some (D_PairingError _ connection_id message) \<Rightarrow>
          (case answer_pairing connection_id (PS_Error (chars_take 240 message)) st of
             (st1, es) \<Rightarrow> (True, st1, es, []))
      | Some (D_ControlResponse device_id response) \<Rightarrow>
          (case complete_control desktop_id device_id (cp_request_id response) (Inr response) st of
             (st1, es) \<Rightarrow> (True, st1, es, []))
      | Some (D_ControlError device_id request_id message) \<Rightarrow>
          (case complete_control desktop_id device_id request_id (Inl (chars_take 240 message)) st of
             (st1, es) \<Rightarrow> (True, st1, es, []))
      | Some (D_RevokeResult device_id request_id) \<Rightarrow>
          (case complete_revoke desktop_id device_id request_id (Inr ()) st of
             (st1, es) \<Rightarrow> (True, st1, es, []))
      | Some (D_RevokeError device_id request_id message) \<Rightarrow>
          (case complete_revoke desktop_id device_id request_id (Inl (chars_take 240 message)) st of
             (st1, es) \<Rightarrow> (True, st1, es, [])))"

text \<open>The other arms of the session's \<^verbatim>\<open>select!\<close>: the heartbeat, a message routed to the desktop, and what
  the socket yields. Every arm says whether the loop goes on; \<open>sent\<close> is whether the write worked.\<close>

datatype 'm routed = Message 'm | Lagged | ChannelClosed

datatype 'm incoming = TextFrame 'm | PingFrame | PongFrame | CloseFrame | OtherFrame | SocketEnd

definition heartbeat_arm :: "bool \<Rightarrow> bool \<Rightarrow> bool" where
  "heartbeat_arm idle sent = (if idle then False else sent)"

definition desktop_routed_arm :: "DesktopServerMessage routed \<Rightarrow> bool \<Rightarrow> bool \<times> DesktopServerMessage list" where
  "desktop_routed_arm r sent =
     (case r of Message m \<Rightarrow> (sent, [m]) | Lagged \<Rightarrow> (True, []) | ChannelClosed \<Rightarrow> (False, []))"

definition desktop_incoming_arm ::
  "u64 \<Rightarrow> nat \<Rightarrow> string \<Rightarrow> bool \<Rightarrow> DesktopWsMessage option incoming \<Rightarrow> AppState
     \<Rightarrow> bool \<times> AppState \<times> effect list \<times> DesktopServerMessage list" where
  "desktop_incoming_arm now fresh desktop_id sent i st =
     (case i of
        TextFrame m \<Rightarrow> desktop_message now fresh desktop_id m st
      | PingFrame \<Rightarrow> (sent, st, [], [])
      | PongFrame \<Rightarrow> (True, st, [], [])
      | CloseFrame \<Rightarrow> (False, st, [], [])
      | OtherFrame \<Rightarrow> (True, st, [], [])
      | SocketEnd \<Rightarrow> (False, st, [], []))"

section \<open>What a desktop session may touch\<close>

text \<open>Keys a message of one desktop can reach in the maps indexed by desktop.\<close>

lemma complete_control_other:
  "fst k \<noteq> d \<Longrightarrow> st_control_connections (fst (complete_control d v r res st)) k = st_control_connections st k"
  by (cases k) (auto simp: complete_control_def Let_def split: option.splits)

lemma complete_revoke_other:
  "fst k \<noteq> d \<Longrightarrow> st_revoke_connections (fst (complete_revoke d v r res st)) k = st_revoke_connections st k"
  by (cases k) (auto simp: complete_revoke_def Let_def split: option.splits)

text \<open>The parts of the state no message handler writes.\<close>

definition same_authority :: "AppState \<Rightarrow> AppState \<Rightarrow> bool" where
  "same_authority st st' \<longleftrightarrow> st_registry st' = st_registry st \<and> st_disk st' = st_disk st
     \<and> st_bootstrap_token_hash st' = st_bootstrap_token_hash st
     \<and> st_online_desktops st' = st_online_desktops st \<and> st_desktop_channels st' = st_desktop_channels st
     \<and> st_pairing_routes st' = st_pairing_routes st \<and> st_mcp_gateway st' = st_mcp_gateway st
     \<and> st_control_last_at st' = st_control_last_at st"

definition same_other_desktops :: "string \<Rightarrow> AppState \<Rightarrow> AppState \<Rightarrow> bool" where
  "same_other_desktops d st st' \<longleftrightarrow> (\<forall>e v. e \<noteq> d \<longrightarrow>
       st_snapshots st' (e, v) = st_snapshots st (e, v)
     \<and> st_device_channels st' (e, v) = st_device_channels st (e, v)
     \<and> (\<forall>r. st_control_connections st' (e, v, r) = st_control_connections st (e, v, r))
     \<and> (\<forall>r. st_revoke_connections st' (e, v, r) = st_revoke_connections st (e, v, r)))"

lemmas session_frame = same_authority_def same_other_desktops_def

lemma cache_and_route_frame:
  "cache_and_route_snapshot now fresh d v snapshot st = (res, st', es) \<Longrightarrow>
     same_authority st st' \<and> same_other_desktops d st st'"
  by (auto simp: cache_and_route_snapshot_def route_sender_def Let_def session_frame
      split: if_splits option.splits prod.splits)

lemma complete_control_frame:
  "complete_control d v r res st = (st', es) \<Longrightarrow> same_authority st st' \<and> same_other_desktops d st st'"
  by (auto simp: complete_control_def Let_def session_frame split: option.splits)

lemma complete_revoke_frame:
  "complete_revoke d v r res st = (st', es) \<Longrightarrow> same_authority st st' \<and> same_other_desktops d st st'"
  by (auto simp: complete_revoke_def Let_def session_frame split: option.splits)

lemma answer_pairing_frame:
  "answer_pairing c m st = (st', es) \<Longrightarrow> same_authority st st' \<and> same_other_desktops d st st'"
  by (auto simp: answer_pairing_def session_frame split: option.splits)

lemma same_frame_refl [simp]: "same_authority st st" "same_other_desktops d st st"
  by (simp_all add: session_frame)

lemma desktop_message_frame:
  assumes "desktop_message now fresh d m st = (go, st', es, answers)"
  shows "same_authority st st' \<and> same_other_desktops d st st'"
proof (cases m)
  case (Some a)
  show ?thesis
    by (cases a)
      (use assms Some cache_and_route_frame complete_control_frame complete_revoke_frame answer_pairing_frame
        in \<open>fastforce simp: desktop_message_def split: prod.splits sum.splits\<close>)+
qed (use assms in \<open>simp add: desktop_message_def\<close>)

section \<open>Properties\<close>

text \<open>A desktop's websocket is confined to its desktop. No message it can send changes the registry,
  the sessions, the pairing routes or the MCP gateway, nor any snapshot, channel, pending control or
  pending revoke of another desktop.\<close>

theorem desktop_message_confined:
  assumes "desktop_message now fresh d m st = (go, st', es, answers)" and "e \<noteq> d"
  shows "st_registry st' = st_registry st \<and> st_disk st' = st_disk st
     \<and> st_online_desktops st' = st_online_desktops st \<and> st_desktop_channels st' = st_desktop_channels st
     \<and> st_pairing_routes st' = st_pairing_routes st \<and> st_mcp_gateway st' = st_mcp_gateway st
     \<and> st_snapshots st' (e, v) = st_snapshots st (e, v)
     \<and> st_device_channels st' (e, v) = st_device_channels st (e, v)
     \<and> st_control_connections st' (e, v, r) = st_control_connections st (e, v, r)
     \<and> st_revoke_connections st' (e, v, r) = st_revoke_connections st (e, v, r)"
  using desktop_message_frame[OF assms(1)] assms(2) by (simp add: session_frame)

definition sample_session_state :: AppState where
  "sample_session_state = \<lparr>st_registry = default_registry, st_disk = Map.empty, st_bootstrap_token_hash = None,
     st_online_desktops = Map.empty, st_desktop_channels = Map.empty, st_device_channels = Map.empty,
     st_snapshots = Map.empty, st_pairing_routes = Map.empty, st_pairing_connections = Map.empty,
     st_control_connections = [(''e'', ''v'', ''c'') \<mapsto> 1, (''d'', ''v'', ''c'') \<mapsto> 2],
     st_revoke_connections = Map.empty, st_control_last_at = Map.empty, st_mcp_gateway = gateway_from_env None\<rparr>"

theorem desktop_message_confined_witness:
  "\<exists>st'. desktop_message 0 9 ''d'' (Some (D_ControlError ''v'' ''c'' ''no'')) sample_session_state
       = (True, st', [ToControl 2 (Inl ''no'')], [])
     \<and> st_control_connections st' (''e'', ''v'', ''c'') = Some 1"
proof -
  let ?r = "desktop_message 0 9 ''d'' (Some (D_ControlError ''v'' ''c'' ''no'')) sample_session_state"
  have r: "?r = (True, fst (snd ?r), [ToControl 2 (Inl ''no'')], [])"
    by (simp add: desktop_message_def complete_control_def sample_session_state_def utf8_cont_def code_def)
  show ?thesis
    using desktop_message_confined[OF r, of "''e''" "''v''" "''c''"] r
    by (auto simp: sample_session_state_def)
qed

text \<open>Both maps name the same session of every desktop.\<close>

definition sessions_agree :: "AppState \<Rightarrow> bool" where
  "sessions_agree st \<longleftrightarrow> (\<forall>d. st_online_desktops st d = map_option dr_session_id (st_desktop_channels st d))"

lemma broadcast_presence_cong:
  "st_device_channels st' = st_device_channels st \<Longrightarrow>
     broadcast_desktop_presence keys now d online st' = broadcast_desktop_presence keys now d online st"
  by (simp only: broadcast_desktop_presence_def)

lemma open_session_agree:
  "sessions_agree st \<Longrightarrow> sessions_agree (fst (open_session keys now d s n caps st))"
  by (simp add: sessions_agree_def open_session_def session_channel_def session_online_def Let_def)

lemma remove_agree:
  assumes "sessions_agree st"
  shows "sessions_agree (fst (remove_online_if_current keys now d s st))"
proof (cases "st_online_desktops st d = Some s")
  case True
  then obtain r where "st_desktop_channels st d = Some r" "dr_session_id r = s"
    using assms by (auto simp: sessions_agree_def)
  with True assms show ?thesis
    by (auto simp: remove_online_if_current_def leave_online_def leave_channel_def sessions_agree_def Let_def)
qed (use assms in \<open>simp add: remove_online_if_current_def leave_online_def\<close>)

text \<open>A session that ends takes only itself off the maps. When sessions open and close one after the
  other, both maps keep naming the same session of a desktop, and the end of a session that was
  replaced meanwhile changes nothing, so the newer session stays reachable.\<close>

theorem sessions_close_their_own:
  assumes "sessions_agree st" and "st_online_desktops st d = Some current"
  shows "remove_online_if_current keys now d s st = (if s = current
       then (st\<lparr>st_online_desktops := (st_online_desktops st)(d := None),
               st_desktop_channels := (st_desktop_channels st)(d := None)\<rparr>,
             broadcast_desktop_presence keys now d False st)
       else (st, []))
     \<and> sessions_agree (fst (remove_online_if_current keys now d s st))
     \<and> sessions_agree (fst (open_session keys now d t n caps st))"
proof -
  obtain r where r: "st_desktop_channels st d = Some r" "dr_session_id r = current"
    using assms by (auto simp: sessions_agree_def)
  let ?gone = "st\<lparr>st_online_desktops := (st_online_desktops st)(d := None),
               st_desktop_channels := (st_desktop_channels st)(d := None)\<rparr>"
  have "remove_online_if_current keys now d s st
      = (if s = current then (?gone, broadcast_desktop_presence keys now d False st) else (st, []))"
  proof (cases "s = current")
    case True
    have "leave_online d s st = (True, st\<lparr>st_online_desktops := (st_online_desktops st)(d := None)\<rparr>)"
      using assms(2) True by (simp add: leave_online_def)
    moreover have "leave_channel d s (st\<lparr>st_online_desktops := (st_online_desktops st)(d := None)\<rparr>) = ?gone"
      using r True by (simp add: leave_channel_def)
    moreover have "broadcast_desktop_presence keys now d False ?gone = broadcast_desktop_presence keys now d False st"
      by (rule broadcast_presence_cong) simp
    ultimately show ?thesis using True by (simp add: remove_online_if_current_def)
  qed (use assms(2) in \<open>simp add: remove_online_if_current_def leave_online_def\<close>)
  then show ?thesis
    using remove_agree[OF assms(1)] open_session_agree[OF assms(1)] by blast
qed

theorem sessions_close_their_own_witness:
  "let st = fst (open_session [] 0 ''d'' ''new'' 1 [] (fst (open_session [] 0 ''d'' ''old'' 0 [] sample_session_state)))
   in remove_online_if_current [] 0 ''d'' ''old'' st = (st, [])"
proof -
  let ?st = "fst (open_session [] 0 ''d'' ''new'' 1 [] (fst (open_session [] 0 ''d'' ''old'' 0 [] sample_session_state)))"
  have "sessions_agree ?st"
    by (intro open_session_agree) (simp add: sessions_agree_def sample_session_state_def)
  moreover have "st_online_desktops ?st ''d'' = Some ''new''"
    by (simp add: open_session_def Let_def session_channel_def session_online_def)
  ultimately show ?thesis
    using sessions_close_their_own[of ?st "''d''" "''new''" "[]" 0 "''old''"] by simp
qed

text \<open>Entering the two maps under two locks lets two sessions of one desktop cross. If the older session
  enters the channels after the newer one, the maps disagree; when both have ended the desktop is
  offline in one map and still has a route, to a sender nobody reads, in the other: devices are told
  that the desktop is online until it connects again.\<close>

theorem crossed_sessions_leave_a_route:
  assumes "s1 \<noteq> s2"
  shows "let st = session_channel d s1 n1 caps1 (session_channel d s2 n2 caps2
                    (session_online d s2 (session_online d s1 st0)));
             st1 = fst (remove_online_if_current keys t1 d s1 st);
             st2 = fst (remove_online_if_current keys t2 d s2 st1)
         in st_online_desktops st d = Some s2
          \<and> st_online_desktops st2 d = None
          \<and> st_desktop_channels st2 d = Some \<lparr>dr_session_id = s1, dr_sender = n1, dr_capabilities = caps1\<rparr>"
  using assms by (simp add: session_channel_def session_online_def remove_online_if_current_def leave_online_def
      leave_channel_def Let_def)

theorem crossed_sessions_leave_a_route_witness:
  "let st = session_channel ''d'' ''old'' 1 [] (session_channel ''d'' ''new'' 2 []
              (session_online ''d'' ''new'' (session_online ''d'' ''old'' sample_session_state)));
       st1 = fst (remove_online_if_current [] 0 ''d'' ''old'' st);
       st2 = fst (remove_online_if_current [] 0 ''d'' ''new'' st1)
   in st_online_desktops st ''d'' = Some ''new''
    \<and> st_online_desktops st2 ''d'' = None
    \<and> st_desktop_channels st2 ''d'' = Some \<lparr>dr_session_id = ''old'', dr_sender = 1, dr_capabilities = []\<rparr>"
  by (rule crossed_sessions_leave_a_route) simp

end
