(* ===== verification/Device_Session.thy ===== *)
theory Device_Session
  imports Desktop_Session Registry_Routes
begin

text \<open>
  The side of a paired device (\<^verbatim>\<open>relay-server/src/device_session.rs\<close>): the snapshot and revoke requests
  over HTTP, and the websocket with its control and revoke messages. A control request and a revoke
  wait for the desktop, so each is a beginning (which ends with the key waited on) and a finish, which
  takes what came back within the timeout.
\<close>

section \<open>HTTP\<close>

definition device_ws ::
  "(u8 list \<Rightarrow> u8 list) \<Rightarrow> bool \<Rightarrow> string \<Rightarrow> string \<Rightarrow> headers \<Rightarrow> AppState \<Rightarrow> unit answer" where
  "device_ws sha slot desktop_id device_id hs st =
     (case device_guard sha st desktop_id device_id hs of
        Some (status, message) \<Rightarrow> Fail status message
      | None \<Rightarrow> if \<not> slot then Fail 503 ''device websocket capacity reached'' else Ok ())"

definition desktop_snapshot_http ::
  "(u8 list \<Rightarrow> u8 list) \<Rightarrow> u64 \<Rightarrow> nat \<Rightarrow> string \<Rightarrow> string \<Rightarrow> headers \<Rightarrow> EncryptedSnapshot \<Rightarrow> AppState
     \<Rightarrow> unit answer \<times> AppState \<times> effect list" where
  "desktop_snapshot_http sha now fresh desktop_id device_id hs snapshot st =
     (case desktop_guard sha st desktop_id hs of
        Some (status, message) \<Rightarrow> (Fail status message, st, [])
      | None \<Rightarrow>
          (case cache_and_route_snapshot now fresh desktop_id device_id snapshot st of
             (Inr _, st1, es) \<Rightarrow> (Ok (), st1, es)
           | (Inl error, st1, es) \<Rightarrow>
               (if error = ''device not authorized'' then Fail 404 error else Fail 400 error, st1, es)))"

text \<open>The answer: is the desktop online, and the snapshot if there is a current one.\<close>

definition device_snapshot_http ::
  "(u8 list \<Rightarrow> u8 list) \<Rightarrow> u64 \<Rightarrow> string \<Rightarrow> string \<Rightarrow> headers \<Rightarrow> AppState
     \<Rightarrow> (bool \<times> SnapshotRecord option) answer \<times> AppState" where
  "device_snapshot_http sha now desktop_id device_id hs st =
     (case device_guard sha st desktop_id device_id hs of
        Some (status, message) \<Rightarrow> (Fail status message, st)
      | None \<Rightarrow>
          (case latest_snapshot now desktop_id device_id st of
             (record, st1) \<Rightarrow> (Ok (st_online_desktops st desktop_id \<noteq> None, record), st1)))"

definition device_revoke_http_begin ::
  "(u8 list \<Rightarrow> u8 list) \<Rightarrow> (nat \<Rightarrow> bool) \<Rightarrow> u8 list option \<Rightarrow> nat \<Rightarrow> string \<Rightarrow> string \<Rightarrow> headers \<Rightarrow> AppState
     \<Rightarrow> control_key answer \<times> AppState \<times> effect list" where
  "device_revoke_http_begin sha alive rnd fresh desktop_id device_id hs st =
     (case device_guard sha st desktop_id device_id hs of
        Some (status, message) \<Rightarrow> (Fail status message, st, [])
      | None \<Rightarrow>
          (case request_revoke_begin alive rnd fresh desktop_id device_id st of
             (Inl error, st1, es) \<Rightarrow> (Fail 409 error, st1, es)
           | (Inr key, st1, es) \<Rightarrow> (Ok key, st1, es)))"

definition device_revoke_http_finish ::
  "saver \<Rightarrow> (string + unit) option \<Rightarrow> control_key \<Rightarrow> string \<Rightarrow> string \<Rightarrow> AppState
     \<Rightarrow> unit answer \<times> AppState \<times> effect list" where
  "device_revoke_http_finish save reply key desktop_id device_id st =
     (case request_revoke_finish reply key st of
        (Inl error, st1) \<Rightarrow> (Fail 409 error, st1, [])
      | (Inr _, st1) \<Rightarrow>
          (case finalize_device_revoke save desktop_id device_id st1 of
             (Inl e, st2, es) \<Rightarrow> (SaveFailed 500 e, st2, es)
           | (Inr _, st2, es) \<Rightarrow> (Ok (), st2, es)))"

section \<open>The websocket\<close>

definition device_hello :: "string \<Rightarrow> string \<Rightarrow> DeviceWsMessage option \<Rightarrow> bool" where
  "device_hello desktop_id device_id m =
     (case m of
        Some (V_Hello protocol_version hello_desktop hello_device) \<Rightarrow>
          \<not> (protocol_version \<noteq> PROTOCOL_VERSION \<or> hello_desktop \<noteq> desktop_id \<or> hello_device \<noteq> device_id)
      | _ \<Rightarrow> False)"

text \<open>After the hello: the channel the socket subscribes to, and what it is sent first.\<close>

definition open_device_session ::
  "u64 \<Rightarrow> nat \<Rightarrow> string \<Rightarrow> string \<Rightarrow> string \<Rightarrow> AppState \<Rightarrow> nat \<times> AppState \<times> DeviceServerMessage list" where
  "open_device_session now fresh session_id desktop_id device_id st =
     (let desktop_route = st_desktop_channels st desktop_id;
          ack = VS_HelloAck session_id now (desktop_route \<noteq> None) (routed_device_capabilities desktop_route);
          (sender, st1) = route_sender fresh desktop_id device_id st;
          (record, st2) = latest_snapshot now desktop_id device_id st1
      in (sender, st2, ack # (case record of None \<Rightarrow> []
            | Some r \<Rightarrow> [VS_Snapshot (sr_received_at r) (sr_snapshot r)])))"

text \<open>The top of the loop: a device that was revoked is told so and the socket ends.\<close>

definition device_loop_top :: "string \<Rightarrow> string \<Rightarrow> AppState \<Rightarrow> bool \<times> DeviceServerMessage list" where
  "device_loop_top desktop_id device_id st =
     (if \<not> device_exists st desktop_id device_id then (False, [VS_Revoked device_id]) else (True, []))"

definition device_routed_arm ::
  "u64 \<Rightarrow> string \<Rightarrow> string \<Rightarrow> DeviceServerMessage routed \<Rightarrow> bool \<Rightarrow> AppState
     \<Rightarrow> bool \<times> AppState \<times> DeviceServerMessage list" where
  "device_routed_arm now desktop_id device_id r sent st =
     (case r of
        Message m \<Rightarrow> ((case m of VS_Revoked _ \<Rightarrow> False | _ \<Rightarrow> sent), st, [m])
      | Lagged \<Rightarrow>
          (case latest_snapshot now desktop_id device_id st of
             (None, st1) \<Rightarrow> (True, st1, [])
           | (Some record, st1) \<Rightarrow> (sent, st1, [VS_Snapshot (sr_received_at record) (sr_snapshot record)]))
      | ChannelClosed \<Rightarrow> (False, st, []))"

section \<open>Control requests\<close>

definition valid_control_id :: "string \<Rightarrow> bool" where
  "valid_control_id i \<longleftrightarrow> starts_with ''c_'' i \<and> 18 \<le> length i \<and> length i \<le> 80
     \<and> list_all is_ascii_hexdigit (drop 2 i)"

definition valid_control_time :: "u64 \<Rightarrow> EncryptedControlPayload \<Rightarrow> bool" where
  "valid_control_time now request \<longleftrightarrow>
     cp_issued_at request \<le> sat_add64 now 30000 \<and> now \<le> cp_expires_at request
     \<and> cp_expires_at request \<le> sat_add64 (cp_issued_at request) 60000"

definition control_rate ::
  "u64 \<Rightarrow> route_key \<Rightarrow> (route_key \<rightharpoonup> u64) \<Rightarrow> bool \<times> (route_key \<rightharpoonup> u64)" where
  "control_rate now rate_key values =
     (let values1 = retain (\<lambda>_ at. sat_sub64 now at \<le> 60000) values;
          limited = (case values1 rate_key of None \<Rightarrow> False
                     | Some at \<Rightarrow> sat_sub64 now at < CONTROL_MIN_INTERVAL_MS)
      in (limited, if limited then values1 else values1(rate_key \<mapsto> now)))"

definition control_begin ::
  "u64 \<Rightarrow> (nat \<Rightarrow> bool) \<Rightarrow> nat \<Rightarrow> string \<Rightarrow> string \<Rightarrow> EncryptedControlPayload \<Rightarrow> AppState
     \<Rightarrow> (string + control_key) \<times> AppState \<times> effect list" where
  "control_begin now alive fresh desktop_id device_id request st =
     (if \<not> valid_control_id (cp_request_id request) \<or> \<not> valid_control_time now request
      then (Inl ''invalid control request'', st, [])
      else let (rate_limited, values) = control_rate now (desktop_id, device_id) (st_control_last_at st);
               st1 = st\<lparr>st_control_last_at := values\<rparr> in
      if rate_limited then (Inl ''control request rate limited'', st1, [])
      else case st_desktop_channels st1 desktop_id of
        None \<Rightarrow> (Inl ''desktop offline; control unavailable'', st1, [])
      | Some desktop_route \<Rightarrow>
        (if \<not> route_supports_control desktop_route
         then (Inl ''desktop control capability unavailable'', st1, [])
         else let control_key = (desktop_id, device_id, cp_request_id request) in
         if map_len (st_control_connections st1) \<ge> MAX_PENDING_CONTROLS
         then (Inl ''control capacity reached'', st1, [])
         else if st_control_connections st1 control_key \<noteq> None
         then (Inl ''duplicate control request'', st1, [])
         else let st2 = st1\<lparr>st_control_connections := (st_control_connections st1)(control_key \<mapsto> fresh)\<rparr> in
         if \<not> alive (dr_sender desktop_route)
         then (Inl ''desktop control channel unavailable'',
               st2\<lparr>st_control_connections := (st_control_connections st2)(control_key := None)\<rparr>, [])
         else (Inr control_key, st2, [ToDesktop (dr_sender desktop_route) (DS_DeviceControl device_id request)])))"

definition control_finish ::
  "(string + EncryptedControlPayload) option \<Rightarrow> control_key \<Rightarrow> AppState \<Rightarrow> AppState \<times> DeviceServerMessage" where
  "control_finish result key st =
     (st\<lparr>st_control_connections := (st_control_connections st)(key := None)\<rparr>,
      case result of
        Some (Inr response) \<Rightarrow> VS_ControlResult response
      | Some (Inl message) \<Rightarrow> VS_Error message
      | None \<Rightarrow> VS_Error ''desktop control timeout'')"

text \<open>\<^verbatim>\<open>RevokeSelf\<close> after its wait; the socket ends in every case.\<close>

definition revoke_self_finish ::
  "saver \<Rightarrow> (save_error \<Rightarrow> string) \<Rightarrow> (string + unit) option \<Rightarrow> control_key \<Rightarrow> string \<Rightarrow> string \<Rightarrow> AppState
     \<Rightarrow> AppState \<times> effect list \<times> DeviceServerMessage" where
  "revoke_self_finish save text reply key desktop_id device_id st =
     (case request_revoke_finish reply key st of
        (Inl error, st1) \<Rightarrow> (st1, [], VS_Error error)
      | (Inr _, st1) \<Rightarrow>
          (case finalize_device_revoke save desktop_id device_id st1 of
             (Inl e, st2, es) \<Rightarrow> (st2, es, VS_Error (text e))
           | (Inr _, st2, es) \<Rightarrow> (st2, es, VS_Revoked device_id)))"

text \<open>One text message of the device: go on, end, or wait for the desktop.\<close>

datatype device_next = GoOn | HangUp | AwaitControl control_key | AwaitRevoke control_key

definition device_message ::
  "u64 \<Rightarrow> (nat \<Rightarrow> bool) \<Rightarrow> u8 list option \<Rightarrow> nat \<Rightarrow> string \<Rightarrow> string \<Rightarrow> DeviceWsMessage option \<Rightarrow> AppState
     \<Rightarrow> device_next \<times> AppState \<times> effect list \<times> DeviceServerMessage list" where
  "device_message now alive rnd fresh desktop_id device_id m st =
     (case m of
        None \<Rightarrow> (GoOn, st, [], [VS_Error ''invalid websocket message''])
      | Some (V_Hello protocol_version hello_desktop hello_device) \<Rightarrow>
          (if protocol_version \<noteq> PROTOCOL_VERSION \<or> hello_desktop \<noteq> desktop_id \<or> hello_device \<noteq> device_id
           then HangUp else GoOn, st, [], [])
      | Some (V_Ping _) \<Rightarrow> (GoOn, st, [], [VS_Pong now])
      | Some (V_Control request) \<Rightarrow>
          (case control_begin now alive fresh desktop_id device_id request st of
             (Inl error, st1, es) \<Rightarrow> (GoOn, st1, es, [VS_Error error])
           | (Inr key, st1, es) \<Rightarrow> (AwaitControl key, st1, es, []))
      | Some V_RevokeSelf \<Rightarrow>
          (case request_revoke_begin alive rnd fresh desktop_id device_id st of
             (Inl error, st1, es) \<Rightarrow> (HangUp, st1, es, [VS_Error error])
           | (Inr key, st1, es) \<Rightarrow> (AwaitRevoke key, st1, es, [])))"

section \<open>Lemmas\<close>

lemma control_rate_limited_iff:
  "fst (control_rate now k values) \<longleftrightarrow>
     (\<exists>at. values k = Some at \<and> unat now - unat at < 500)"
  by (auto simp: control_rate_def Let_def retain_def sat_sub64_less_iff sat_sub64_le_iff
      CONTROL_MIN_INTERVAL_MS_def split: option.splits if_splits)

lemma control_rate_values:
  "snd (control_rate now k values) j =
     (if \<not> fst (control_rate now k values) \<and> j = k then Some now
      else retain (\<lambda>_ at. sat_sub64 now at \<le> 60000) values j)"
  by (auto simp: control_rate_def Let_def)

lemma latest_snapshot_cases:
  assumes "latest_snapshot now d v st = (record, st')"
  shows "record = (case st_snapshots st (d, v) of None \<Rightarrow> None
           | Some r \<Rightarrow> if unat now - unat (sr_received_at r) \<le> 180000 then Some r else None)"
    and "st' = st\<lparr>st_snapshots := (st_snapshots st)((d, v) := record)\<rparr>"
proof -
  have same: "s\<lparr>st_snapshots := (st_snapshots s)(k := x)\<rparr> = s" if "st_snapshots s k = x" for s :: AppState and k x
    using that by auto
  have ttl: "sat_sub64 now (sr_received_at r) > SNAPSHOT_TTL_MS \<longleftrightarrow> \<not> unat now - unat (sr_received_at r) \<le> 180000" for r
    by (simp add: SNAPSHOT_TTL_MS_def not_le[symmetric] word_le_nat_alt unat_sat_sub64)
  show "record = (case st_snapshots st (d, v) of None \<Rightarrow> None
           | Some r \<Rightarrow> if unat now - unat (sr_received_at r) \<le> 180000 then Some r else None)"
    using assms by (auto simp: latest_snapshot_def Let_def ttl split: option.splits if_splits)
  show "st' = st\<lparr>st_snapshots := (st_snapshots st)((d, v) := record)\<rparr>"
    using assms by (auto simp: latest_snapshot_def Let_def ttl intro!: same[symmetric] split: option.splits if_splits)
qed

lemma control_begin_Inr:
  assumes "control_begin now alive fresh d v request st = (Inr key, st', es)"
  obtains route where "valid_control_id (cp_request_id request)" "valid_control_time now request"
    "\<not> fst (control_rate now (d, v) (st_control_last_at st))"
    "st_desktop_channels st d = Some route" "route_supports_control route" "alive (dr_sender route)"
    "map_len (st_control_connections st) < MAX_PENDING_CONTROLS"
    "key = (d, v, cp_request_id request)" "st_control_connections st key = None"
    "st' = st\<lparr>st_control_last_at := snd (control_rate now (d, v) (st_control_last_at st)),
              st_control_connections := (st_control_connections st)(key \<mapsto> fresh)\<rparr>"
    "es = [ToDesktop (dr_sender route) (DS_DeviceControl v request)]"
  using assms
  by (auto simp: control_begin_def Let_def not_le split: if_splits option.splits prod.splits)

lemma revoke_device_record_gone:
  assumes "revoke_device_record save d v st = (Inr b, st')"
  shows "\<not> device_exists st' d v"
proof (cases "desktops (st_registry st) d")
  case None
  with assms show ?thesis by (auto simp: revoke_device_record_def device_exists_def)
next
  case (Some desktop)
  show ?thesis
  proof (cases "dk_devices desktop v")
    case None
    with Some assms show ?thesis by (auto simp: revoke_device_record_def device_exists_def)
  next
    case (Some x)
    with \<open>desktops (st_registry st) d = Some desktop\<close> assms
    have "update_devices save d (dk_devices desktop) ((dk_devices desktop)(v := None)) st = (Inr (), st')"
      by (auto simp: revoke_device_record_def split: prod.splits sum.splits)
    from update_devices_other[OF \<open>desktops (st_registry st) d = Some desktop\<close> this, of d]
    show ?thesis by (auto simp: device_exists_def)
  qed
qed

lemma revoke_device_record_error:
  assumes "revoke_device_record save d v st = (Inl e, st')"
  shows "st_registry st' = st_registry st"
proof -
  obtain desktop where d: "desktops (st_registry st) d = Some desktop"
    using assms by (auto simp: revoke_device_record_def split: option.splits)
  moreover have "update_devices save d (dk_devices desktop) ((dk_devices desktop)(v := None)) st = (Inl e, st')"
    using assms d by (auto simp: revoke_device_record_def split: if_splits prod.splits sum.splits)
  ultimately show ?thesis by (rule update_devices_Inl)
qed

lemma update_devices_frame:
  "\<exists>disk registry. snd (update_devices save d previous devices st) = st\<lparr>st_disk := disk, st_registry := registry\<rparr>"
proof -
  obtain res ds where "save (with_devices d devices (st_registry st)) (st_disk st) = (res, ds)"
    by (cases "save (with_devices d devices (st_registry st)) (st_disk st)")
  then show ?thesis
    by (cases res) (auto simp: update_devices_def save_registry_def)
qed

lemma revoke_device_record_frame:
  assumes "revoke_device_record save d v st = (res, st')"
  shows "\<exists>disk registry. st' = st\<lparr>st_disk := disk, st_registry := registry\<rparr>"
proof (cases "desktops (st_registry st) d")
  case None
  with assms show ?thesis
    by (intro exI[of _ "st_disk st"] exI[of _ "st_registry st"]) (auto simp: revoke_device_record_def)
next
  case (Some desktop)
  let ?u = "update_devices save d (dk_devices desktop) ((dk_devices desktop)(v := None)) st"
  have "st' = st \<or> st' = snd ?u"
    using assms Some by (cases ?u; cases "fst ?u") (auto simp: revoke_device_record_def split: if_splits)
  then show ?thesis
  proof
    assume "st' = st"
    then show ?thesis by (intro exI[of _ "st_disk st"] exI[of _ "st_registry st"]) simp
  qed (use update_devices_frame in \<open>simp only:\<close>)
qed

lemma finalize_device_revoke_cases:
  assumes "finalize_device_revoke save d v st = (res, st', es)"
  obtains (failed) e where "res = Inl e" "st_registry st' = st_registry st" "es = []"
  | (gone) "res = Inr ()" "\<not> device_exists st' d v"
      "st_snapshots st' (d, v) = None" "st_device_channels st' (d, v) = None"
proof -
  let ?st1 = "st\<lparr>st_snapshots := (st_snapshots st)((d, v) := None)\<rparr>"
  obtain r st2 where r: "revoke_device_record save d v ?st1 = (r, st2)" by fastforce
  have snap: "st_snapshots st2 = st_snapshots ?st1"
    using revoke_device_record_frame[OF r] by auto
  show ?thesis
  proof (cases r)
    case (Inl e)
    have "finalize_device_revoke save d v st = (Inl e, st2, [])"
      using r Inl by (simp add: finalize_device_revoke_def Let_def)
    moreover have "st_registry st2 = st_registry st"
      using revoke_device_record_error r Inl by fastforce
    ultimately show ?thesis using assms by (intro failed[of e]) simp_all
  next
    case (Inr b)
    have "\<not> device_exists st2 d v"
      using revoke_device_record_gone r Inr by blast
    moreover have "res = Inr () \<and> st' = st2\<lparr>st_device_channels := (st_device_channels st2)((d, v) := None)\<rparr>"
      using assms r Inr by (simp add: finalize_device_revoke_def Let_def)
    ultimately show ?thesis
      using snap by (intro gone) (simp_all add: device_exists_def)
  qed
qed

section \<open>Properties\<close>

text \<open>A device's own revoke is synchronized. The relay forgets the device only after the desktop has
  confirmed in time; a timeout, a refusal and a failed save leave the registry as it was, and when the
  answer is positive the device, its snapshot and its channel are gone.\<close>

theorem revoke_waits_for_desktop:
  "case device_revoke_http_finish save reply key d v st of (res, st', es) \<Rightarrow>
     (case res of
        Ok _ \<Rightarrow> reply = Some (Inr ()) \<and> \<not> device_exists st' d v
          \<and> st_snapshots st' (d, v) = None \<and> st_device_channels st' (d, v) = None
      | _ \<Rightarrow> st_registry st' = st_registry st)"
proof (cases "reply = Some (Inr ())")
  case False
  then have "\<exists>e. device_revoke_http_finish save reply key d v st = (Fail 409 e,
      st\<lparr>st_revoke_connections := (st_revoke_connections st)(key := None)\<rparr>, [])"
    by (auto simp: device_revoke_http_finish_def request_revoke_finish_def split: option.splits sum.splits)
  then show ?thesis by auto
next
  case True
  let ?st1 = "st\<lparr>st_revoke_connections := (st_revoke_connections st)(key := None)\<rparr>"
  obtain r st2 es where f: "finalize_device_revoke save d v ?st1 = (r, st2, es)"
    by (cases "finalize_device_revoke save d v ?st1")
  then have eq: "device_revoke_http_finish save reply key d v st
      = (case r of Inl e \<Rightarrow> (SaveFailed 500 e, st2, es) | Inr _ \<Rightarrow> (Ok (), st2, es))"
    using True by (simp add: device_revoke_http_finish_def request_revoke_finish_def split: sum.splits)
  from f show ?thesis
    by (rule finalize_device_revoke_cases) (use eq True in simp_all)
qed

text \<open>A control request is passed on unchanged, to the current session of the device's own desktop,
  at most once at a time per request id, and only if its id is well formed, it is inside its time
  window, the device has not sent another in the last half second, the desktop's session takes
  controls and fewer than 128 requests are pending.\<close>

theorem control_forwarded_under_guards:
  assumes "control_begin now alive fresh d v request st = (Inr key, st', es)"
  shows "key = (d, v, cp_request_id request) \<and> valid_control_id (cp_request_id request)
     \<and> unat now \<le> unat (cp_expires_at request) \<and> unat (cp_issued_at request) \<le> unat now + 30000
     \<and> unat (cp_expires_at request) \<le> unat (cp_issued_at request) + 60000
     \<and> (case st_control_last_at st (d, v) of None \<Rightarrow> True | Some at \<Rightarrow> 500 \<le> unat now - unat at)
     \<and> map_len (st_control_connections st) < MAX_PENDING_CONTROLS
     \<and> st_control_connections st key = None \<and> st_control_connections st' key = Some fresh
     \<and> (\<exists>route. st_desktop_channels st d = Some route \<and> route_supports_control route
           \<and> es = [ToDesktop (dr_sender route) (DS_DeviceControl v request)])"
  using assms
proof (rule control_begin_Inr)
  fix route
  assume t: "valid_control_time now request"
    and r: "\<not> fst (control_rate now (d, v) (st_control_last_at st))"
    and rest: "valid_control_id (cp_request_id request)" "st_desktop_channels st d = Some route"
      "route_supports_control route" "map_len (st_control_connections st) < MAX_PENDING_CONTROLS"
      "key = (d, v, cp_request_id request)" "st_control_connections st key = None"
      "st' = st\<lparr>st_control_last_at := snd (control_rate now (d, v) (st_control_last_at st)),
              st_control_connections := (st_control_connections st)(key \<mapsto> fresh)\<rparr>"
      "es = [ToDesktop (dr_sender route) (DS_DeviceControl v request)]"
  have "unat now \<le> unat (cp_expires_at request) \<and> unat (cp_issued_at request) \<le> unat now + 30000
     \<and> unat (cp_expires_at request) \<le> unat (cp_issued_at request) + 60000"
    using t by (simp add: valid_control_time_def word_le_nat_alt unat_sat_add64)
  moreover have "case st_control_last_at st (d, v) of None \<Rightarrow> True | Some at \<Rightarrow> 500 \<le> unat now - unat at"
    using r by (auto simp: control_rate_limited_iff not_less split: option.splits)
  ultimately show ?thesis using rest by simp
qed

definition sample_control :: EncryptedControlPayload where
  "sample_control = \<lparr>cp_request_id = ''c_'' @ replicate 16 (CHR ''0''), cp_issued_at = 1000, cp_expires_at = 2000,
     cp_nonce = [], cp_ciphertext = []\<rparr>"

definition sample_online :: AppState where
  "sample_online = sample_session_state\<lparr>st_desktop_channels := [''d'' \<mapsto>
     \<lparr>dr_session_id = ''s'', dr_sender = 3, dr_capabilities = device_capabilities\<rparr>],
     st_control_connections := Map.empty\<rparr>"

lemma sample_control_begin:
  "\<exists>st'. control_begin 1500 (\<lambda>_. True) 8 ''d'' ''v'' sample_control sample_online
     = (Inr (''d'', ''v'', cp_request_id sample_control), st', [ToDesktop 3 (DS_DeviceControl ''v'' sample_control)])"
proof -
  have "valid_control_id (cp_request_id sample_control)"
    by (simp add: valid_control_id_def sample_control_def starts_with_def list_all_iff is_ascii_hexdigit_def
        hex_digit_def code_def)
  moreover have "valid_control_time 1500 sample_control"
    by (simp add: valid_control_time_def sample_control_def le_sat_add64_iff)
  moreover have "control_rate 1500 (''d'', ''v'') Map.empty = (False, [(''d'', ''v'') \<mapsto> 1500])"
    by (simp add: control_rate_def Let_def)
  moreover have "route_supports_control \<lparr>dr_session_id = ''s'', dr_sender = 3, dr_capabilities = device_capabilities\<rparr>"
    by (simp add: route_supports_control_def device_capabilities_def)
  ultimately show ?thesis
    by (simp add: control_begin_def sample_online_def sample_session_state_def MAX_PENDING_CONTROLS_def Let_def)
qed

theorem control_forwarded_under_guards_witness:
  "valid_control_id (cp_request_id sample_control)
     \<and> unat (1500 :: u64) \<le> unat (cp_expires_at sample_control)
     \<and> map_len (st_control_connections sample_online) < MAX_PENDING_CONTROLS"
proof -
  obtain st' where c: "control_begin 1500 (\<lambda>_. True) 8 ''d'' ''v'' sample_control sample_online
     = (Inr (''d'', ''v'', cp_request_id sample_control), st', [ToDesktop 3 (DS_DeviceControl ''v'' sample_control)])"
    using sample_control_begin by blast
  show ?thesis using control_forwarded_under_guards[OF c] by simp
qed

text \<open>The answer to a control request reaches the socket that asked. While the request is pending, the
  answer of the same desktop for the same device and request id goes to exactly that waiter and ends
  the wait; an answer for any other device or request leaves it waiting.\<close>

theorem control_answer_correlated:
  assumes "control_begin now alive fresh d v request st = (Inr key, st', es)"
  shows "complete_control d v (cp_request_id request) result st'
       = (st'\<lparr>st_control_connections := (st_control_connections st')(key := None)\<rparr>, [ToControl fresh result])
     \<and> ((d', v', r') = key \<or> st_control_connections (fst (complete_control d' v' r' result st')) key = Some fresh)"
  using assms
proof (rule control_begin_Inr)
  assume k: "key = (d, v, cp_request_id request)"
    and st': "st' = st\<lparr>st_control_last_at := snd (control_rate now (d, v) (st_control_last_at st)),
              st_control_connections := (st_control_connections st)(key \<mapsto> fresh)\<rparr>"
  have "st_control_connections st' key = Some fresh"
    by (simp add: st')
  then show ?thesis
    using k by (auto simp: complete_control_def Let_def split: option.splits)
qed

theorem control_answer_correlated_witness:
  "\<exists>st'. complete_control ''d'' ''v'' (cp_request_id sample_control) (Inl ''no'') st'
       = (st'\<lparr>st_control_connections := (st_control_connections st')((''d'', ''v'', cp_request_id sample_control) := None)\<rparr>,
          [ToControl 8 (Inl ''no'')])"
proof -
  obtain st' where c: "control_begin 1500 (\<lambda>_. True) 8 ''d'' ''v'' sample_control sample_online
     = (Inr (''d'', ''v'', cp_request_id sample_control), st', [ToDesktop 3 (DS_DeviceControl ''v'' sample_control)])"
    using sample_control_begin by blast
  show ?thesis using control_answer_correlated[OF c] by blast
qed

text \<open>The requests, in the order they reach the limiter, that it lets through.\<close>

fun rate_run :: "(route_key \<times> u64) list \<Rightarrow> (route_key \<rightharpoonup> u64) \<Rightarrow> (route_key \<times> u64) list" where
  "rate_run [] vs = []"
| "rate_run ((k, now) # rs) vs =
     (case control_rate now k vs of (limited, vs') \<Rightarrow>
        if limited then rate_run rs vs' else (k, now) # rate_run rs vs')"

lemma rate_run_subset: "set (rate_run rs vs) \<subseteq> set rs"
proof (induction rs arbitrary: vs)
  case (Cons r rs)
  then show ?case by (cases r) (auto split: prod.splits)
qed simp

lemma rate_run_after:
  assumes "sorted (map (unat \<circ> snd) rs)" and "vs k = Some at" and "\<And>r. r \<in> set rs \<Longrightarrow> unat at \<le> unat (snd r)"
    and "(k, t) \<in> set (rate_run rs vs)"
  shows "unat at + 500 \<le> unat t"
  using assms
proof (induction rs arbitrary: vs at)
  case (Cons r rs)
  obtain j now where r: "r = (j, now)" by fastforce
  obtain limited vs' where c: "control_rate now j vs = (limited, vs')" by fastforce
  have limited: "limited \<longleftrightarrow> (\<exists>at. vs j = Some at \<and> unat now - unat at < 500)"
    using control_rate_limited_iff[of now j vs] c by simp
  have past: "unat at \<le> unat now" using Cons.prems(3)[of "(j, now)"] r by simp
  have ord: "sorted (map (unat \<circ> snd) rs)" "\<And>x. x \<in> set rs \<Longrightarrow> unat now \<le> unat (snd x)"
    using Cons.prems(1) by (auto simp: comp_def r)
  show ?case
  proof (cases "(k, t) = (j, now) \<and> \<not> limited")
    case True
    then show ?thesis using limited Cons.prems(2) past by auto
  next
    case False
    then have rest: "(k, t) \<in> set (rate_run rs vs')"
      using Cons.prems(4) c by (auto simp: r split: if_splits)
    have "vs' k = (if \<not> limited \<and> k = j then Some now
        else if unat now - unat at \<le> 60000 then Some at else None)"
      using control_rate_values[of now j vs k] c Cons.prems(2)
      by (auto simp: retain_def sat_sub64_le_iff)
    then consider (new) "vs' k = Some now" | (old) "vs' k = Some at" | (gone) "60000 < unat now - unat at"
      by (auto split: if_splits)
    then show ?thesis
    proof cases
      case new
      from Cons.IH[OF ord(1) new ord(2) rest] show ?thesis using past by simp
    next
      case old
      show ?thesis by (rule Cons.IH[OF ord(1) old _ rest]) (use Cons.prems(3) in auto)
    next
      case gone
      have "(k, t) \<in> set rs" using rest rate_run_subset by blast
      then show ?thesis using ord(2)[of "(k, t)"] gone by simp
    qed
  qed
qed simp

text \<open>However the requests of all devices interleave, the limiter lets two requests of the same device
  through only half a second or more apart, as long as the clock does not run backwards. The pruning of
  old entries never opens a gap.\<close>

theorem control_spacing:
  assumes "sorted (map (unat \<circ> snd) rs)"
  shows "sorted_wrt (\<lambda>a b. if fst a = fst b then unat (snd a) + 500 \<le> unat (snd b) else True) (rate_run rs vs)"
  using assms
proof (induction rs arbitrary: vs)
  case (Cons r rs)
  obtain k now where r: "r = (k, now)" by fastforce
  obtain limited vs' where c: "control_rate now k vs = (limited, vs')" by fastforce
  have ord: "sorted (map (unat \<circ> snd) rs)" "\<And>x. x \<in> set rs \<Longrightarrow> unat now \<le> unat (snd x)"
    using Cons.prems by (auto simp: comp_def r)
  show ?case
  proof (cases limited)
    case False
    then have "vs' k = Some now"
      using control_rate_values[of now k vs k] c by simp
    then have "unat now + 500 \<le> unat t" if "(k, t) \<in> set (rate_run rs vs')" for t
      using rate_run_after[of rs vs' k now t] ord that by blast
    then show ?thesis
      using Cons.IH[OF ord(1), of vs'] c False by (auto simp: r)
  qed (use Cons.IH[OF ord(1)] c in \<open>simp add: r\<close>)
qed simp

theorem control_spacing_witness:
  "sorted_wrt (\<lambda>a b. if fst a = fst b then unat (snd a) + 500 \<le> unat (snd b) else True)
     (rate_run [((''d'', ''v''), 1000), ((''d'', ''v''), 1400), ((''d'', ''w''), 1450), ((''d'', ''v''), 1500)] Map.empty)"
  by (rule control_spacing) simp

text \<open>The cache of snapshots only moves forward. A snapshot is taken over only for a device of the
  registry, within the size limits, and, inside one desktop session, only with a greater sequence
  number; it then is the cached one and goes to the device's channel. A rejected one changes nothing.\<close>

theorem snapshots_advance:
  "case cache_and_route_snapshot now fresh d v snapshot st of (res, st', es) \<Rightarrow>
     (case res of
        Inl _ \<Rightarrow> st' = st \<and> es = []
      | Inr _ \<Rightarrow> device_exists st d v
          \<and> length (sn_nonce snapshot) \<le> 64 \<and> length (sn_ciphertext snapshot) \<le> 98304
          \<and> (case st_snapshots st (d, v) of None \<Rightarrow> True
             | Some p \<Rightarrow> if sn_session_id (sr_snapshot p) = sn_session_id snapshot
                 then sn_sequence (sr_snapshot p) < sn_sequence snapshot else True)
          \<and> st_snapshots st' (d, v) = Some \<lparr>sr_received_at = now, sr_snapshot = snapshot\<rparr>
          \<and> (\<exists>c. st_device_channels st' (d, v) = Some c \<and> es = [ToDevice c (VS_Snapshot now snapshot)]))"
proof -
  let ?st1 = "st\<lparr>st_snapshots := (st_snapshots st)((d, v) \<mapsto> \<lparr>sr_received_at = now, sr_snapshot = snapshot\<rparr>)\<rparr>"
  obtain c st2 where r: "route_sender fresh d v ?st1 = (c, st2)" by fastforce
  then have "st_device_channels st2 (d, v) = Some c \<and> st_snapshots st2 = st_snapshots ?st1"
    by (auto simp: route_sender_def split: option.splits)
  with r show ?thesis
    by (auto simp: cache_and_route_snapshot_def Let_def not_le not_less split: option.splits)
qed

text \<open>A snapshot is handed out over HTTP only to a bearer of the device's current token, and it is
  the cached one of exactly this device, not older than three minutes.\<close>

theorem snapshot_only_to_its_device:
  assumes "device_snapshot_http sha now d v hs st = (Ok (online, Some record), st')"
  shows "(\<exists>token. bearer hs = Some token \<and> device_authorized sha st d v token)
     \<and> st_snapshots st (d, v) = Some record \<and> unat now - unat (sr_received_at record) \<le> 180000
     \<and> (online \<longleftrightarrow> st_online_desktops st d \<noteq> None)"
proof -
  have g: "device_guard sha st d v hs = None"
    and l: "latest_snapshot now d v st = (Some record, st')" and o: "online = (st_online_desktops st d \<noteq> None)"
    using assms by (auto simp: device_snapshot_http_def split: option.splits prod.splits)
  have "\<exists>token. bearer hs = Some token \<and> device_authorized sha st d v token"
    using g by (auto simp: device_guard_def split: option.splits if_splits)
  then show ?thesis
    using latest_snapshot_cases(1)[OF l] o by (auto split: option.splits if_splits)
qed

definition sample_cached :: AppState where
  "sample_cached = sample_paired\<lparr>st_snapshots := [(''d'', ''v'') \<mapsto> \<lparr>sr_received_at = 5, sr_snapshot =
     \<lparr>sn_session_id = [], sn_sequence = 1, sn_generated_at = 0, sn_nonce = [], sn_ciphertext = []\<rparr>\<rparr>]\<rparr>"

theorem snapshot_only_to_its_device_witness:
  "\<exists>record. st_snapshots sample_cached (''d'', ''v'') = Some record
     \<and> unat (100 :: u64) - unat (sr_received_at record) \<le> 180000"
proof -
  have g: "device_guard (\<lambda>_. []) sample_cached ''d'' ''v'' sample_headers = None"
    using sample_bearer by (simp add: device_guard_None_iff sample_cached_def sample_paired_def token_hash_def)
  obtain cached st' where l: "latest_snapshot 100 ''d'' ''v'' sample_cached = (cached, st')" by fastforce
  have "cached = st_snapshots sample_cached (''d'', ''v'')"
    using latest_snapshot_cases(1)[OF l] by (simp add: sample_cached_def)
  then have "\<exists>x. cached = Some x"
    by (simp add: sample_cached_def)
  then obtain x where x: "cached = Some x" by blast
  have "device_snapshot_http (\<lambda>_. []) 100 ''d'' ''v'' sample_headers sample_cached
      = (Ok (st_online_desktops sample_cached ''d'' \<noteq> None, Some x), st')"
    using g l x by (simp add: device_snapshot_http_def)
  from snapshot_only_to_its_device[OF this] show ?thesis by blast
qed

end
