(* ===== verification/Relay_Safety.thy ===== *)
theory Relay_Safety
  imports Pairing_Session Device_Session
begin

text \<open>
  The relay as a whole: every handler of the server as a step on the shared state, interleaved in any
  order and with any inputs, and what holds in every state it can reach. The second component of a
  state is the set of public MCP requests whose HTTP response is still held.

  A handler that waits contributes one step per stretch between its waits. A step ends no later than
  the code would let another task in with the state half written, with one exception: reading a map
  and writing it under a second lock right after, which the handlers do only to drop expired entries.
\<close>

section \<open>Steps\<close>

type_synonym relay = "AppState \<times> string set"

inductive relay_step ::
  "platform \<Rightarrow> (Registry \<Rightarrow> string option) \<Rightarrow> (string \<Rightarrow> Registry option) \<Rightarrow> (u8 list \<Rightarrow> u8 list)
     \<Rightarrow> relay \<Rightarrow> relay \<Rightarrow> bool"
  for p ser parse sha where
  register: "sane_on p io \<Longrightarrow>
     register_desktop sha verify from_json (save_on p ser io) can_send now now_at created rnd hs payload st = (a, st') \<Longrightarrow>
     relay_step p ser parse sha (st, live) (st', live)"
| register_late: "sane_on p io \<Longrightarrow>
     register_commit sha (save_on p ser io) now_at created invite d token payload st = (a, st') \<Longrightarrow>
     relay_step p ser parse sha (st, live) (st', live)"
| authorize: "sane_on p io \<Longrightarrow> authorize_device sha (save_on p ser io) now d v hs au st = (u, st') \<Longrightarrow>
     relay_step p ser parse sha (st, live) (st', live)"
| revoke: "sane_on p io \<Longrightarrow> revoke_device sha (save_on p ser io) d v hs st = (u, st') \<Longrightarrow>
     relay_step p ser parse sha (st, live) (st', live)"
| open_route: "relay_step p ser parse sha (st, live) (snd (open_pairing_route sha now d pid hs route st), live)"
| delete_route: "relay_step p ser parse sha (st, live) (snd (delete_pairing_route sha d pid hs st), live)"
| pair_ws: "relay_step p ser parse sha (st, live) (snd (pairing_ws sha now slot d pid hs st), live)"
| pair_request: "pairing_request now alive rnd fresh d pid m st = (r, st', es) \<Longrightarrow>
     relay_step p ser parse sha (st, live) (st', live)"
| pair_finish: "relay_step p ser parse sha (st, live) (fst (pairing_finish response c d pid st), live)"
| online: "relay_step p ser parse sha (st, live) (session_online d s st, live)"
| channel: "relay_step p ser parse sha (st, live) (session_channel d s n caps st, live)"
| offline: "relay_step p ser parse sha (st, live) (snd (leave_online d s st), live)"
| unchannel: "relay_step p ser parse sha (st, live) (leave_channel d s st, live)"
| desktop: "desktop_message now fresh d dm st = (go, st', es, answers) \<Longrightarrow>
     relay_step p ser parse sha (st, live) (st', live)"
| snapshot: "cache_and_route_snapshot now fresh d v snap st = (cr, st', es) \<Longrightarrow>
     relay_step p ser parse sha (st, live) (st', live)"
| read_snapshot: "relay_step p ser parse sha (st, live) (snd (latest_snapshot now d v st), live)"
| subscribe: "relay_step p ser parse sha (st, live) (snd (route_sender fresh d v st), live)"
| device: "device_message now alive rnd fresh d v vm st = (nx, st', es, vs) \<Longrightarrow>
     relay_step p ser parse sha (st, live) (st', live)"
| control_end: "relay_step p ser parse sha (st, live) (fst (control_finish cres key st), live)"
| revoke_begin: "request_revoke_begin alive rnd fresh d v st = (rr, st', es) \<Longrightarrow>
     relay_step p ser parse sha (st, live) (st', live)"
| revoke_end: "relay_step p ser parse sha (st, live) (snd (request_revoke_finish reply key st), live)"
| finalize: "sane_on p io \<Longrightarrow> finalize_device_revoke (save_on p ser io) d v st = (fr, st', es) \<Longrightarrow>
     relay_step p ser parse sha (st, live) (st', live)"
| gateway: "gw_step (st_mcp_gateway st, live) (gw, live') \<Longrightarrow>
     relay_step p ser parse sha (st, live) (st\<lparr>st_mcp_gateway := gw\<rparr>, live')"
| restart: "app_load sha parse rename_done bootstrap env_id (st_disk st) = Inr st' \<Longrightarrow>
     relay_step p ser parse sha (st, live) (st', {})"

inductive relay_reachable ::
  "platform \<Rightarrow> (Registry \<Rightarrow> string option) \<Rightarrow> (string \<Rightarrow> Registry option) \<Rightarrow> (u8 list \<Rightarrow> u8 list)
     \<Rightarrow> relay \<Rightarrow> bool"
  for p ser parse sha where
  start: "safe_on p disk \<Longrightarrow> app_load sha parse rename_done bootstrap env_id disk = Inr st \<Longrightarrow>
     relay_reachable p ser parse sha (st, {})"
| step: "relay_reachable p ser parse sha s \<Longrightarrow> relay_step p ser parse sha s t \<Longrightarrow>
     relay_reachable p ser parse sha t"

section \<open>The invariant\<close>

definition bounded_by :: "nat \<Rightarrow> ('k \<rightharpoonup> 'v) \<Rightarrow> bool" where
  "bounded_by n m \<longleftrightarrow> finite (dom m) \<and> map_len m \<le> n"

definition relay_inv :: "platform \<Rightarrow> (string \<Rightarrow> Registry option) \<Rightarrow> relay \<Rightarrow> bool" where
  "relay_inv p parse s \<longleftrightarrow> (case s of (st, live) \<Rightarrow>
     in_step p parse st \<and> routes_ok (st_pairing_routes st)
   \<and> bounded_by MAX_PENDING_CONTROLS (st_control_connections st)
   \<and> bounded_by MAX_PENDING_REVOKES (st_revoke_connections st)
   \<and> gw_inv (st_mcp_gateway st, live))"

text \<open>Two states that differ only in parts the invariant does not mention.\<close>

definition same_core :: "AppState \<Rightarrow> AppState \<Rightarrow> bool" where
  "same_core st st' \<longleftrightarrow> st_registry st' = st_registry st \<and> st_disk st' = st_disk st
     \<and> st_pairing_routes st' = st_pairing_routes st
     \<and> st_control_connections st' = st_control_connections st
     \<and> st_revoke_connections st' = st_revoke_connections st
     \<and> st_mcp_gateway st' = st_mcp_gateway st"

lemma bounded_by_empty [simp]: "bounded_by n Map.empty"
  by (simp add: bounded_by_def)

lemma bounded_by_delete [simp]: "bounded_by n m \<Longrightarrow> bounded_by n (m(k := None))"
  using map_len_delete[of m k] by (simp add: bounded_by_def)

lemma bounded_by_room: "bounded_by n m \<Longrightarrow> map_len m < n \<Longrightarrow> bounded_by n (m(k \<mapsto> v))"
  using map_len_upd_room[of m n k v] by (simp add: bounded_by_def)

lemma same_core_inv: "same_core st st' \<Longrightarrow> relay_inv p parse (st, live) \<Longrightarrow> relay_inv p parse (st', live)"
  by (simp add: relay_inv_def same_core_def in_step_def)

text \<open>Steps that change one part of the invariant's state.\<close>

lemma relay_inv_routes:
  assumes "relay_inv p parse (st, live)" and "same_core st (st'\<lparr>st_pairing_routes := st_pairing_routes st\<rparr>)"
    and "routes_ok (st_pairing_routes st')"
  shows "relay_inv p parse (st', live)"
  using assms by (simp add: relay_inv_def same_core_def in_step_def)

lemma relay_inv_controls:
  assumes "relay_inv p parse (st, live)" and "same_core st (st'\<lparr>st_control_connections := st_control_connections st\<rparr>)"
    and "bounded_by MAX_PENDING_CONTROLS (st_control_connections st')"
  shows "relay_inv p parse (st', live)"
  using assms by (simp add: relay_inv_def same_core_def in_step_def)

lemma relay_inv_revokes:
  assumes "relay_inv p parse (st, live)" and "same_core st (st'\<lparr>st_revoke_connections := st_revoke_connections st\<rparr>)"
    and "bounded_by MAX_PENDING_REVOKES (st_revoke_connections st')"
  shows "relay_inv p parse (st', live)"
  using assms by (simp add: relay_inv_def same_core_def in_step_def)

lemma relay_inv_registry:
  assumes "relay_inv p parse (st, live)" and "in_step p parse st'"
    and "\<exists>disk registry gw. same_core (st\<lparr>st_disk := disk, st_registry := registry, st_mcp_gateway := gw\<rparr>) st'"
    and "gw_inv (st_mcp_gateway st', live)"
  shows "relay_inv p parse (st', live)"
  using assms by (auto simp: relay_inv_def same_core_def)

subsection \<open>Frames\<close>

lemma update_devices_core:
  "update_devices save d previous devices st = (r, st') \<Longrightarrow>
     \<exists>disk registry. st' = st\<lparr>st_disk := disk, st_registry := registry\<rparr>"
  using update_devices_frame[of save d previous devices st] by simp

lemma authorize_device_core:
  assumes "authorize_device sha save now d v hs au st = (u, st')"
  shows "\<exists>disk registry. st' = st\<lparr>st_disk := disk, st_registry := registry\<rparr>"
  using assms
proof (rule authorize_device_cases)
  assume "st' = st"
  then show ?thesis by (intro exI[of _ "st_disk st"] exI[of _ "st_registry st"]) simp
qed (rule update_devices_core)

lemma register_commit_core:
  assumes "register_commit sha save now_at created invite d token payload st = (a, st')"
  shows "\<exists>disk registry. st' = st\<lparr>st_disk := disk, st_registry := registry\<rparr>"
  using assms
proof (rule register_commit_cases)
  assume "st' = st"
  then show ?thesis by (intro exI[of _ "st_disk st"] exI[of _ "st_registry st"]) simp
next
  fix ds assume "st' = st\<lparr>st_disk := last ds\<rparr>"
  then show ?thesis by (intro exI[of _ "last ds"] exI[of _ "st_registry st"]) simp
qed blast

lemma route_sender_core: "same_core st (snd (route_sender fresh d v st))"
  by (simp add: route_sender_def same_core_def split: option.splits)

lemma latest_snapshot_core: "same_core st (snd (latest_snapshot now d v st))"
  by (simp add: latest_snapshot_def same_core_def Let_def)

lemma cache_and_route_core:
  assumes "cache_and_route_snapshot now fresh d v snap st = (r, st', es)"
  shows "same_core st st'"
proof -
  let ?st1 = "st\<lparr>st_snapshots := (st_snapshots st)((d, v) \<mapsto> \<lparr>sr_received_at = now, sr_snapshot = snap\<rparr>)\<rparr>"
  have "st' = st \<or> st' = snd (route_sender fresh d v ?st1)"
    using assms by (simp add: cache_and_route_snapshot_def Let_def split: if_splits prod.splits)
  then show ?thesis
    using route_sender_core[of ?st1 fresh d v] by (auto simp: same_core_def)
qed

subsection \<open>Each step keeps it\<close>

lemma complete_control_inv:
  assumes "relay_inv p parse (st, live)" and "complete_control d v r res st = (st', es)"
  shows "relay_inv p parse (st', live)"
proof -
  have "st' = st \<or> st' = st\<lparr>st_control_connections := (st_control_connections st)((d, v, r) := None)\<rparr>"
    using assms(2) by (auto simp: complete_control_def Let_def split: option.splits)
  then show ?thesis using assms(1) by (auto simp: relay_inv_def in_step_def)
qed

lemma complete_revoke_inv:
  assumes "relay_inv p parse (st, live)" and "complete_revoke d v r res st = (st', es)"
  shows "relay_inv p parse (st', live)"
proof -
  have "st' = st \<or> st' = st\<lparr>st_revoke_connections := (st_revoke_connections st)((d, v, r) := None)\<rparr>"
    using assms(2) by (auto simp: complete_revoke_def Let_def split: option.splits)
  then show ?thesis using assms(1) by (auto simp: relay_inv_def in_step_def)
qed

lemma answer_pairing_core: "answer_pairing c m st = (st', es) \<Longrightarrow> same_core st st'"
  by (auto simp: answer_pairing_def same_core_def split: option.splits)

lemma same_core_refl [simp]: "same_core st st"
  by (simp add: same_core_def)

lemma desktop_message_inv:
  assumes inv: "relay_inv p parse (st, live)" and m: "desktop_message now fresh d m st = (go, st', es, answers)"
  shows "relay_inv p parse (st', live)"
proof (cases m)
  case None
  with m inv show ?thesis by (simp add: desktop_message_def)
next
  case (Some a)
  show ?thesis
  proof (cases a)
    case (D_Snapshot v snapshot)
    obtain r st1 es1 where c: "cache_and_route_snapshot now fresh d v snapshot st = (r, st1, es1)"
      by (cases "cache_and_route_snapshot now fresh d v snapshot st")
    with m Some D_Snapshot have "st' = st1" by (cases r) (simp_all add: desktop_message_def)
    then show ?thesis using same_core_inv[OF cache_and_route_core[OF c] inv] by simp
  qed (use m Some inv same_core_inv[OF answer_pairing_core inv] complete_control_inv[OF inv] complete_revoke_inv[OF inv]
      in \<open>fastforce simp: desktop_message_def split: prod.splits\<close>)+
qed

lemma control_begin_inv:
  "relay_inv p parse (st, live) \<Longrightarrow> relay_inv p parse (fst (snd (control_begin now alive fresh d v request st)), live)"
  by (simp add: control_begin_def Let_def relay_inv_def in_step_def bounded_by_room split: prod.split option.split)

lemma request_revoke_begin_inv:
  "relay_inv p parse (st, live) \<Longrightarrow> relay_inv p parse (fst (snd (request_revoke_begin alive rnd fresh d v st)), live)"
  by (simp add: request_revoke_begin_def Let_def relay_inv_def in_step_def bounded_by_room split: option.split sum.split)

lemma device_message_inv:
  assumes inv: "relay_inv p parse (st, live)"
    and m: "device_message now alive rnd fresh d v m st = (nx, st', es, vs)"
  shows "relay_inv p parse (st', live)"
proof (cases m)
  case None
  with m inv show ?thesis by (simp add: device_message_def)
next
  case (Some a)
  show ?thesis
  proof (cases a)
    case (V_Control request)
    then have "st' = fst (snd (control_begin now alive fresh d v request st))"
      using m Some by (auto simp: device_message_def split: prod.splits sum.splits)
    then show ?thesis using control_begin_inv[OF inv] by simp
  next
    case V_RevokeSelf
    then have "st' = fst (snd (request_revoke_begin alive rnd fresh d v st))"
      using m Some by (auto simp: device_message_def split: prod.splits sum.splits)
    then show ?thesis using request_revoke_begin_inv[OF inv] by simp
  qed (use m Some inv in \<open>simp_all add: device_message_def\<close>)
qed

lemma pairing_request_core:
  "same_core st (fst (snd (pairing_request now alive rnd fresh d pid m st))\<lparr>st_pairing_routes := st_pairing_routes st\<rparr>)"
  by (simp add: pairing_request_def same_core_def Let_def split: option.split PairingWsMessage.split sum.split)

lemma open_pairing_route_core:
  "same_core st (snd (open_pairing_route sha now d pid hs route st)\<lparr>st_pairing_routes := st_pairing_routes st\<rparr>)"
  by (simp add: open_pairing_route_def same_core_def split: option.split sum.split prod.split)

lemma delete_pairing_route_core:
  "same_core st (snd (delete_pairing_route sha d pid hs st)\<lparr>st_pairing_routes := st_pairing_routes st\<rparr>)"
  by (simp add: delete_pairing_route_def same_core_def split: option.split)

lemma pairing_ws_core:
  "same_core st (snd (pairing_ws sha now slot d pid hs st)\<lparr>st_pairing_routes := st_pairing_routes st\<rparr>)"
  by (simp add: pairing_ws_def same_core_def Let_def split: option.split)

lemma pairing_finish_core:
  "same_core st (fst (pairing_finish response c d pid st)\<lparr>st_pairing_routes := st_pairing_routes st\<rparr>)"
  by (simp add: pairing_finish_def same_core_def Let_def split: option.split)

lemma relay_inv_disk:
  assumes "relay_inv p parse (st, live)" and "in_step p parse st'"
    and "\<exists>disk registry. st' = st\<lparr>st_disk := disk, st_registry := registry\<rparr>"
  shows "relay_inv p parse (st', live)"
  using assms by (auto simp: relay_inv_def)

lemma in_step_of: "relay_inv p parse (st, live) \<Longrightarrow> in_step p parse st"
  by (simp add: relay_inv_def)

lemma register_desktop_inv:
  assumes inv: "relay_inv p parse (st, live)" and rb: "\<And>r. reads_back ser parse r" and io: "sane_on p io"
    and r: "register_desktop sha verify from_json (save_on p ser io) can_send now now_at created rnd hs payload st = (a, st')"
  shows "relay_inv p parse (st', live)"
proof (cases "register_check sha verify from_json now rnd hs payload st")
  case (Inl x)
  with r inv show ?thesis by (cases x) (simp add: register_desktop_def)
next
  case (Inr x)
  obtain invite d token where x: "x = (invite, d, token)" by (cases x)
  obtain b st1 where c: "register_commit sha (save_on p ser io) now_at created invite d token payload st = (b, st1)"
    by fastforce
  have inv1: "relay_inv p parse (st1, live)"
    using relay_inv_disk[OF inv register_commit_in_step[OF in_step_of[OF inv] rb io c] register_commit_core[OF c]] .
  have "st' = st1 \<or> st' = st1\<lparr>st_mcp_gateway := fst (revoke_desktop can_send d (st_mcp_gateway st1))\<rparr>"
    using r Inr x c by (cases b) (auto simp: register_desktop_def register_reply_def)
  then show ?thesis
    using inv1 revoke_desktop_inv[of "st_mcp_gateway st1" live can_send d]
    by (auto simp: relay_inv_def in_step_def)
qed

lemma finalize_inv:
  assumes inv: "relay_inv p parse (st, live)" and rb: "\<And>r. reads_back ser parse r" and io: "sane_on p io"
    and f: "finalize_device_revoke (save_on p ser io) d v st = (r, st', es)"
  shows "relay_inv p parse (st', live)"
proof -
  let ?st1 = "st\<lparr>st_snapshots := (st_snapshots st)((d, v) := None)\<rparr>"
  obtain b st2 where c: "revoke_device_record (save_on p ser io) d v ?st1 = (b, st2)" by fastforce
  have inv1: "relay_inv p parse (?st1, live)"
    by (rule same_core_inv[OF _ inv]) (simp add: same_core_def)
  have inv2: "relay_inv p parse (st2, live)"
    using relay_inv_disk[OF inv1 revoke_device_record_in_step[OF in_step_of[OF inv1] rb io c] revoke_device_record_frame[OF c]] .
  have "same_core st2 st'"
    using f c by (cases b) (auto simp: finalize_device_revoke_def Let_def same_core_def)
  then show ?thesis by (rule same_core_inv[OF _ inv2])
qed

lemma revoke_device_inv:
  assumes inv: "relay_inv p parse (st, live)" and rb: "\<And>r. reads_back ser parse r" and io: "sane_on p io"
    and f: "revoke_device sha (save_on p ser io) d v hs st = (r, st')"
  shows "relay_inv p parse (st', live)"
proof -
  note step = revoke_device_in_step[OF in_step_of[OF inv] rb io f]
  have "\<exists>disk registry. same_core (st\<lparr>st_disk := disk, st_registry := registry\<rparr>) st'"
    using f
  proof (rule revoke_device_cases)
    assume "st' = st"
    then show ?thesis by (intro exI[of _ "st_disk st"] exI[of _ "st_registry st"]) simp
  next
    fix desktop e
    assume "update_devices (save_on p ser io) d (dk_devices desktop) ((dk_devices desktop)(v := None)) st = (Inl e, st')"
    then obtain disk registry where "st' = st\<lparr>st_disk := disk, st_registry := registry\<rparr>"
      using update_devices_core by blast
    then show ?thesis by (intro exI[of _ disk] exI[of _ registry]) simp
  next
    fix desktop st1
    assume "update_devices (save_on p ser io) d (dk_devices desktop) ((dk_devices desktop)(v := None)) st = (Inr (), st1)"
      and st': "st' = st1\<lparr>st_snapshots := (st_snapshots st1)((d, v) := None),
                 st_device_channels := (st_device_channels st1)((d, v) := None)\<rparr>"
    then obtain disk registry where "st1 = st\<lparr>st_disk := disk, st_registry := registry\<rparr>"
      using update_devices_core by blast
    then show ?thesis
      by (intro exI[of _ disk] exI[of _ registry]) (simp add: st' same_core_def)
  qed
  then obtain disk registry where "same_core (st\<lparr>st_disk := disk, st_registry := registry\<rparr>) st'" by blast
  with step inv show ?thesis by (simp add: relay_inv_def same_core_def)
qed

lemma app_load_inv:
  assumes "in_step p parse st" and "app_load sha parse rename_done bootstrap env_id (st_disk st) = Inr st'"
  shows "relay_inv p parse (st', {})"
proof -
  have "st_pairing_routes st' = Map.empty \<and> st_control_connections st' = Map.empty
      \<and> st_revoke_connections st' = Map.empty \<and> st_mcp_gateway st' = gateway_from_env env_id"
    using assms(2) by (auto simp: app_load_def split: prod.splits sum.splits)
  then show ?thesis
    using app_load_in_step[OF assms] gw_inv_start[of env_id] by (simp add: relay_inv_def)
qed

lemma relay_step_inv:
  assumes "relay_step p ser parse sha s t" and "relay_inv p parse s" and rb: "\<And>r. reads_back ser parse r"
  shows "relay_inv p parse t"
  using assms(1,2)
proof (induction rule: relay_step.induct)
  case (register_late io now_at created invite d token payload st a st' live)
  then show ?case
    using relay_inv_disk[OF register_late.prems
        register_commit_in_step[OF in_step_of[OF register_late.prems] rb register_late.hyps] register_commit_core[OF register_late.hyps(2)]]
    by simp
next
  case (authorize io now d v hs au st u st' live)
  then show ?case
    using relay_inv_disk[OF authorize.prems
        authorize_device_in_step[OF in_step_of[OF authorize.prems] rb authorize.hyps] authorize_device_core[OF authorize.hyps(2)]]
    by simp
next
  case (open_route st live now d pid hs route)
  then show ?case
    by (intro relay_inv_routes[OF _ open_pairing_route_core] open_pairing_route_ok) (simp_all add: relay_inv_def)
next
  case (delete_route st live d pid hs)
  then show ?case
    by (intro relay_inv_routes[OF _ delete_pairing_route_core] delete_pairing_route_ok) (simp_all add: relay_inv_def)
next
  case (pair_ws st live now slot d pid hs)
  then show ?case
    by (intro relay_inv_routes[OF _ pairing_ws_core] pairing_ws_ok) (simp_all add: relay_inv_def)
next
  case (pair_request now alive rnd fresh d pid m st r st' es live)
  have "st' = fst (snd (pairing_request now alive rnd fresh d pid m st))"
    using pair_request.hyps by simp
  then show ?case
    using pair_request.prems
    by (simp only:) (intro relay_inv_routes[OF _ pairing_request_core] pairing_request_ok, simp_all add: relay_inv_def)
next
  case (pair_finish st live response c d pid)
  then show ?case
    by (intro relay_inv_routes[OF _ pairing_finish_core] pairing_finish_ok) (simp_all add: relay_inv_def)
next
  case (online st live d s)
  then show ?case by (rule same_core_inv[rotated]) (simp add: same_core_def session_online_def)
next
  case (channel st live d s n caps)
  then show ?case by (rule same_core_inv[rotated]) (simp add: same_core_def session_channel_def)
next
  case (offline st live d s)
  then show ?case by (rule same_core_inv[rotated]) (simp add: same_core_def leave_online_def)
next
  case (unchannel st live d s)
  then show ?case by (rule same_core_inv[rotated]) (simp add: same_core_def leave_channel_def split: option.split)
next
  case (desktop now fresh d dm st go st' es answers live)
  then show ?case using desktop_message_inv by blast
next
  case (snapshot now fresh d v snap st cr st' es live)
  then show ?case using same_core_inv[OF cache_and_route_core] by blast
next
  case (read_snapshot st live now d v)
  then show ?case by (rule same_core_inv[OF latest_snapshot_core])
next
  case (subscribe st live fresh d v)
  then show ?case by (rule same_core_inv[OF route_sender_core])
next
  case (device now alive rnd fresh d v vm st nx st' es vs live)
  then show ?case using device_message_inv by blast
next
  case (control_end st live cres key)
  then show ?case by (simp add: control_finish_def relay_inv_def in_step_def)
next
  case (revoke_begin alive rnd fresh d v st rr st' es live)
  then show ?case using request_revoke_begin_inv[of p parse st live alive rnd fresh d v] by simp
next
  case (revoke_end st live reply key)
  then show ?case by (simp add: request_revoke_finish_def relay_inv_def in_step_def)
next
  case (gateway st live gw live')
  then show ?case using gw_step_inv by (auto simp: relay_inv_def in_step_def)
next
  case (restart rename_done bootstrap env_id st st' live)
  then show ?case using app_load_inv in_step_of by blast
next
  case (register io verify from_json can_send now now_at created rnd hs payload st a st' live)
  show ?case by (rule register_desktop_inv[OF register.prems rb register.hyps])
next
  case (revoke io d v hs st u st' live)
  show ?case by (rule revoke_device_inv[OF revoke.prems rb revoke.hyps])
next
  case (finalize io d v st fr st' es live)
  show ?case by (rule finalize_inv[OF finalize.prems rb finalize.hyps])
qed

lemma relay_reachable_inv:
  assumes "relay_reachable p ser parse sha s" and "\<And>r. reads_back ser parse r"
  shows "relay_inv p parse s"
  using assms(1)
proof (induction rule: relay_reachable.induct)
  case (start disk rename_done bootstrap env_id st)
  have "reload_of parse disk = Inr (st_registry st)"
    by (rule app_load_registry[OF start(2)])
  then have "in_step p parse (st\<lparr>st_disk := disk\<rparr>)"
    using start(1) by (simp add: in_step_def)
  then show ?case using app_load_inv[of p parse "st\<lparr>st_disk := disk\<rparr>"] start(2) by simp
qed (use relay_step_inv[OF _ _ assms(2)] in blast)

section \<open>Properties\<close>


lemma sample_loaded:
  "\<exists>st. app_load (\<lambda>_. []) sample_parse True (Some ''x'') None Map.empty = Inr st \<and> st_registry st = default_registry"
  by (simp add: app_load_def load_def read_to_string_def)


end
