(* ===== verification/Tunnel_Status.thy ===== *)
theory Tunnel_Status
  imports ChatX_Prelude
begin

text \<open>
  What the desktop knows of the Secure MCP Tunnel (\<^verbatim>\<open>src-tauri/src/tunnel_status.rs\<close>, with the projection
  to the monitor's snapshot from \<^verbatim>\<open>monitor_status.rs\<close>).

  The tunnel client is another program: its answer to the status command is a parameter (\<open>outcome\<close>), its
  JSON parser (\<open>parse\<close>) another one, and so is what can be read of its log file (\<open>log_access\<close>). The texts
  of the messages are given in English.
\<close>

section \<open>The status document\<close>

definition json_pointer :: "string list \<Rightarrow> json \<Rightarrow> json option" where
  "json_pointer ks v = fold (\<lambda>k r. Option.bind r (json_get k)) ks (Some v)"

lemma map_of_size [termination_simp]:
  "map_of kvs k = Some v \<Longrightarrow> size v < Suc (size_list (\<lambda>x. Suc (size (snd x))) kvs)"
  by (induction kvs) (auto split: if_splits)

definition unhealthy_words :: "string list" where
  "unhealthy_words = [''down'', ''error'', ''failed'', ''failure'', ''stale'', ''unhealthy'', ''disconnected'']"

fun health_value_unhealthy :: "json \<Rightarrow> bool" where
  "health_value_unhealthy (JBool ok) = (\<not> ok)"
| "health_value_unhealthy (JString text) = (to_ascii_lowercase text \<in> set unhealthy_words)"
| "health_value_unhealthy (JObject kvs) =
     (Option.bind (map_of kvs ''healthy'') json_as_bool = Some False
    \<or> Option.bind (map_of kvs ''ready'') json_as_bool = Some False
    \<or> Option.bind (map_of kvs ''ok'') json_as_bool = Some False
    \<or> (case map_of kvs ''state'' of None \<Rightarrow> False | Some v \<Rightarrow> health_value_unhealthy v)
    \<or> (case map_of kvs ''status'' of None \<Rightarrow> False | Some v \<Rightarrow> health_value_unhealthy v))"
| "health_value_unhealthy _ = False"

definition runtime_state_lower :: "json \<Rightarrow> string" where
  "runtime_state_lower payload =
     to_ascii_lowercase (case json_str_at ''runtime_state'' payload of None \<Rightarrow> [] | Some s \<Rightarrow> s)"

definition runtime_payload_alive :: "json \<Rightarrow> bool" where
  "runtime_payload_alive payload =
     (if json_bool_at ''process_running'' payload = Some False \<or> json_bool_at ''healthy'' payload = Some False then False
      else if json_bool_at ''process_running'' payload = Some True \<or> json_bool_at ''healthy'' payload = Some True then True
      else runtime_state_lower payload \<in> {''ready'', ''running'', ''healthy'', ''connected'', ''live''})"

definition control_plane_health_value :: "json \<Rightarrow> json option" where
  "control_plane_health_value payload =
     (case json_get ''control_plane_poll_health'' payload of
        Some v \<Rightarrow> Some v
      | None \<Rightarrow> json_pointer [''local'', ''control_plane_poll_health''] payload)"

definition runtime_payload_active :: "json \<Rightarrow> bool" where
  "runtime_payload_active payload =
     (if json_bool_at ''process_running'' payload = Some False then False
      else if (case control_plane_health_value payload of None \<Rightarrow> False | Some v \<Rightarrow> health_value_unhealthy v) then False
      else let ready = json_bool_at ''ready'' payload; healthy = json_bool_at ''healthy'' payload in
        if ready = Some False \<or> healthy = Some False then False
        else case ready of
          Some r \<Rightarrow> r
        | None \<Rightarrow> if healthy = Some True then True
                  else runtime_state_lower payload \<in> {''ready'', ''connected'', ''live''})"

section \<open>The control plane\<close>

record ControlPlaneObservation =
  co_state :: string
  co_reason :: string
  co_failures :: u32

definition default_control_plane :: ControlPlaneObservation where
  "default_control_plane = \<lparr>co_state = ''unknown'', co_reason = [], co_failures = 0\<rparr>"

definition control_plane_fallback :: "json \<Rightarrow> ControlPlaneObservation" where
  "control_plane_fallback payload =
     (case control_plane_health_value payload of
        Some (JString text) \<Rightarrow> default_control_plane\<lparr>co_state := to_ascii_lowercase text\<rparr>
      | Some (JBool ok) \<Rightarrow> default_control_plane\<lparr>co_state := (if ok then ''healthy'' else ''down'')\<rparr>
      | Some (JObject kvs) \<Rightarrow> default_control_plane\<lparr>
          co_state := to_ascii_lowercase
            (case Option.bind (map_of kvs ''state'') json_as_str of Some s \<Rightarrow> s
             | None \<Rightarrow> case Option.bind (map_of kvs ''status'') json_as_str of Some s \<Rightarrow> s | None \<Rightarrow> ''unknown''),
          co_reason := chars_take 300
            (case Option.bind (map_of kvs ''reason'') json_as_str of Some s \<Rightarrow> s | None \<Rightarrow> [])\<rparr>
      | _ \<Rightarrow> default_control_plane)"

text \<open>The log's events, latest first: only the control plane's, and only those of the client instance
  that the latest event carrying an instance id names.\<close>

fun keep_events :: "string option \<Rightarrow> json list \<Rightarrow> json list" where
  "keep_events instance_id [] = []"
| "keep_events instance_id (event # rest) =
     (if json_str_at ''component'' event \<noteq> Some ''controlplane'' then keep_events instance_id rest
      else let current = (case json_str_at ''client_instance_id'' event of None \<Rightarrow> [] | Some s \<Rightarrow> s);
               expected = (if instance_id = None \<and> current \<noteq> [] then Some current else instance_id)
           in if expected \<noteq> None \<and> current \<noteq> [] \<and> expected \<noteq> Some current
              then keep_events expected rest
              else event # keep_events expected rest)"

text \<open>\<^verbatim>\<open>monitor_status::read_history_tail\<close>: the last \<open>max_bytes\<close> bytes, without the line they cut. \<open>read\<close> is
  what can be read of a file, \<open>lossy\<close> is \<^verbatim>\<open>String::from_utf8_lossy\<close>.\<close>

definition read_history_tail :: "(string \<Rightarrow> string) \<Rightarrow> (string \<Rightarrow> string option) \<Rightarrow> string \<Rightarrow> nat \<Rightarrow> string" where
  "read_history_tail lossy read path max_bytes =
     (case read path of
        None \<Rightarrow> []
      | Some content \<Rightarrow>
         (let start = length content - max_bytes;
              text = lossy (drop start content);
              rest = dropWhile (\<lambda>c. code c \<noteq> 10) text
          in if start > 0 \<and> rest \<noteq> [] then tl rest else text))"

definition drop_cr :: "string \<Rightarrow> string" where
  "drop_cr l = (if l \<noteq> [] \<and> code (last l) = 13 then butlast l else l)"

definition text_lines :: "string \<Rightarrow> string list" where
  "text_lines s = (let ls = split_on (CHR 0x0A) s in
     map drop_cr (butlast ls) @ (if last ls = [] then [] else [last ls]))"

type_synonym log_access = "(string \<Rightarrow> string) \<times> (string \<Rightarrow> string option)"

definition runtime_control_plane_events :: "log_access \<Rightarrow> (string \<Rightarrow> json option) \<Rightarrow> json \<Rightarrow> json list" where
  "runtime_control_plane_events log parse payload =
     (case Option.bind (json_pointer [''local'', ''log'', ''path''] payload) json_as_str of
        None \<Rightarrow> []
      | Some path \<Rightarrow>
         (let tail = read_history_tail (fst log) (snd log) path (512 * 1024) in
          if tail = [] then [] else keep_events None (List.map_filter parse (rev (text_lines tail)))))"

fun runtime_proxy_source_from_events :: "json list \<Rightarrow> string" where
  "runtime_proxy_source_from_events [] = []"
| "runtime_proxy_source_from_events (event # rest) =
     (if json_str_at ''msg'' event = Some ''control-plane route resolved''
      then (case json_str_at ''proxy_source'' event of None \<Rightarrow> ''unknown'' | Some s \<Rightarrow> s)
      else runtime_proxy_source_from_events rest)"

definition poll_failure :: "string \<Rightarrow> bool" where
  "poll_failure m \<longleftrightarrow> m = ''poll failed; backing off'' \<or> m = ''poll timed out; backing off''"

definition poll_recovery :: "string \<Rightarrow> bool" where
  "poll_recovery m \<longleftrightarrow> m = ''poller recovered; polling operational'' \<or> m = ''tunnel metadata fetched''"

definition poll_start :: "string \<Rightarrow> bool" where
  "poll_start m \<longleftrightarrow> m = ''starting control-plane poller'' \<or> m = ''poller started''"

definition event_message :: "json \<Rightarrow> string" where
  "event_message event = (case json_str_at ''msg'' event of None \<Rightarrow> [] | Some s \<Rightarrow> s)"

text \<open>The loop over the events: \<open>None\<close> is the early return (recovered, nothing failed since), else the
  failures counted, the reason and whether a start was seen when the loop was left.\<close>

fun scan_events :: "json list \<Rightarrow> u32 \<Rightarrow> string \<Rightarrow> bool \<Rightarrow> (u32 \<times> string \<times> bool) option" where
  "scan_events [] failures reason saw_start = Some (failures, reason, saw_start)"
| "scan_events (event # rest) failures reason saw_start =
     (let message = event_message event in
      if poll_failure message then
        scan_events rest (if failures = -1 then failures else failures + 1)
          (if reason = [] then chars_take 300
             (case json_str_at ''error'' event of None \<Rightarrow> message | Some s \<Rightarrow> s) else reason) saw_start
      else if poll_recovery message then
        (if failures = 0 then None else Some (failures, reason, saw_start))
      else if poll_start message then
        (if failures = 0 then Some (failures, reason, True) else scan_events rest failures reason True)
      else scan_events rest failures reason saw_start)"

definition control_plane_observation_from_events ::
  "ControlPlaneObservation \<Rightarrow> json list \<Rightarrow> ControlPlaneObservation" where
  "control_plane_observation_from_events fallback events =
     (case scan_events events 0 [] False of
        None \<Rightarrow> \<lparr>co_state = ''healthy'', co_reason = [], co_failures = 0\<rparr>
      | Some (failures, reason, saw_start) \<Rightarrow>
          if failures \<ge> 3 then \<lparr>co_state = ''down'', co_reason = reason, co_failures = failures\<rparr>
          else if failures > 0 then \<lparr>co_state = ''suspect'', co_reason = reason, co_failures = failures\<rparr>
          else if saw_start \<and> co_state fallback = ''unknown'' then fallback\<lparr>co_state := ''starting''\<rparr>
          else fallback)"

section \<open>The status command\<close>

record RuntimeObservation =
  ro_state :: string
  ro_active :: bool
  ro_runtime_alive :: bool
  ro_payload :: "json option"
  ro_error :: string
  ro_control_plane :: ControlPlaneObservation
  ro_proxy_source :: string

definition idle_observation :: "string \<Rightarrow> string \<Rightarrow> RuntimeObservation" where
  "idle_observation state error = \<lparr>ro_state = state, ro_active = False, ro_runtime_alive = False, ro_payload = None,
     ro_error = error, ro_control_plane = default_control_plane, ro_proxy_source = []\<rparr>"

record Output =
  out_success :: bool
  out_stdout :: string
  out_stderr :: string

definition output_text :: "Output \<Rightarrow> string" where
  "output_text out =
     (let stdout = trim (out_stdout out); stderr = trim (out_stderr out) in
      if stdout = [] then stderr else if stderr = [] then stdout else stdout @ [CHR 0x0A] @ stderr)"

fun contains_text :: "string \<Rightarrow> string \<Rightarrow> bool" where
  "contains_text p [] \<longleftrightarrow> p = []"
| "contains_text p (c # s) \<longleftrightarrow> starts_with p (c # s) \<or> contains_text p s"

definition ends_with :: "string \<Rightarrow> string \<Rightarrow> bool" where
  "ends_with p s \<longleftrightarrow> starts_with (rev p) (rev s)"

definition runtime_not_running :: "string \<Rightarrow> bool" where
  "runtime_not_running text0 =
     (let text = to_ascii_lowercase text0;
          unknown_alias = (starts_with ''alias '' (trim text)
            \<and> ends_with '' is not known; run create or connect first'' (trim text))
      in unknown_alias \<or> contains_text ''not found'' text \<or> contains_text ''no runtime'' text
         \<or> contains_text ''stopped'' text)"

definition runtime_status ::
  "log_access \<Rightarrow> (string \<Rightarrow> json option) \<Rightarrow> string + Output \<Rightarrow> RuntimeObservation" where
  "runtime_status log parse outcome =
     (case outcome of
        Inl error \<Rightarrow> idle_observation ''error'' error
      | Inr out \<Rightarrow>
         (if out_success out then
            (case parse (out_stdout out) of
               None \<Rightarrow>
                 (let text = output_text out in idle_observation ''error''
                    (if text = [] then ''empty or invalid JSON'' else ''invalid JSON: '' @ text))
             | Some parsed \<Rightarrow>
                 (let events = runtime_control_plane_events log parse parsed;
                      control_plane = control_plane_observation_from_events (control_plane_fallback parsed) events;
                      active = (runtime_payload_active parsed
                        \<and> co_state control_plane \<notin> {''down'', ''suspect'', ''starting''})
                  in \<lparr>ro_state = (case json_str_at ''runtime_state'' parsed of Some s \<Rightarrow> s
                                 | None \<Rightarrow> if active then ''ready'' else ''unknown''),
                      ro_active = active, ro_runtime_alive = runtime_payload_alive parsed, ro_payload = Some parsed,
                      ro_error = [], ro_control_plane = control_plane,
                      ro_proxy_source = runtime_proxy_source_from_events events\<rparr>))
          else
            (let text = output_text out in
             if runtime_not_running text then idle_observation ''stopped'' []
             else idle_observation ''error'' text)))"

section \<open>The monitor's snapshot of the tunnel\<close>

record TunnelSnapshot =
  ts_state :: string
  ts_health :: string
  ts_active :: bool
  ts_last_error :: string
  ts_updated_at :: u64
  ts_last_probe_at :: u64
  ts_last_successful_probe_at :: u64
  ts_consecutive_failures :: u32
  ts_control_plane_state :: string
  ts_control_plane_reason :: string
  ts_control_plane_failures :: u32
  ts_proxy_mode :: string
  ts_proxy_source :: string

definition default_snapshot :: TunnelSnapshot where
  "default_snapshot = \<lparr>ts_state = ''unknown'', ts_health = ''unknown'', ts_active = False, ts_last_error = [],
     ts_updated_at = 0, ts_last_probe_at = 0, ts_last_successful_probe_at = 0, ts_consecutive_failures = 0,
     ts_control_plane_state = ''unknown'', ts_control_plane_reason = [], ts_control_plane_failures = 0,
     ts_proxy_mode = ''direct'', ts_proxy_source = []\<rparr>"

definition sat_inc :: "u32 \<Rightarrow> u32" where
  "sat_inc n = (if n = -1 then n else n + 1)"

definition project_runtime_snapshot ::
  "u64 \<Rightarrow> TunnelSnapshot \<Rightarrow> RuntimeObservation \<Rightarrow> bool \<Rightarrow> string \<Rightarrow> bool \<Rightarrow> TunnelSnapshot" where
  "project_runtime_snapshot now current ob desired proxy_mode advance =
     (let cp = ro_control_plane ob;
          local_failures = (if ro_active ob \<or> \<not> desired then 0
            else if advance then sat_inc (ts_consecutive_failures current) else ts_consecutive_failures current);
          failures = (if co_failures cp > 0 then co_failures cp else local_failures);
          snapshot = current\<lparr>ts_state := ro_state ob, ts_active := ro_active ob, ts_last_error := ro_error ob,
            ts_updated_at := now, ts_last_probe_at := now, ts_consecutive_failures := failures,
            ts_control_plane_state := co_state cp, ts_control_plane_reason := co_reason cp,
            ts_control_plane_failures := co_failures cp, ts_proxy_mode := proxy_mode,
            ts_proxy_source := ro_proxy_source ob\<rparr>
      in if \<not> desired then snapshot\<lparr>ts_health := ''stopped''\<rparr>
         else if co_state cp = ''down'' then snapshot\<lparr>ts_health := ''down''\<rparr>
         else if co_state cp = ''suspect'' \<or> co_state cp = ''starting'' then snapshot\<lparr>ts_health := ''suspect''\<rparr>
         else if ro_active ob then snapshot\<lparr>ts_last_successful_probe_at := now, ts_health := ''healthy''\<rparr>
         else if failures \<ge> (if ro_runtime_alive ob then 8 else 2) then snapshot\<lparr>ts_health := ''down''\<rparr>
         else snapshot\<lparr>ts_health := ''suspect''\<rparr>)"

section \<open>Lemmas and properties\<close>

lemma idle_observation_sel [simp]:
  "ro_active (idle_observation st e) = False" "ro_runtime_alive (idle_observation st e) = False"
  "ro_state (idle_observation st e) = st" "ro_payload (idle_observation st e) = None"
  by (simp_all add: idle_observation_def)

lemma runtime_status_cases:
  obtains (idle) st e where "runtime_status log parse outcome = idle_observation st e"
  | (parsed) out p where "outcome = Inr out" "out_success out" "parse (out_stdout out) = Some p"
      "ro_payload (runtime_status log parse outcome) = Some p"
      "ro_active (runtime_status log parse outcome) =
         (runtime_payload_active p \<and> co_state (ro_control_plane (runtime_status log parse outcome)) \<notin> {''down'', ''suspect'', ''starting''})"
      "ro_runtime_alive (runtime_status log parse outcome) = runtime_payload_alive p"
      "ro_control_plane (runtime_status log parse outcome) = control_plane_observation_from_events
         (control_plane_fallback p) (runtime_control_plane_events log parse p)"
proof (cases outcome)
  case (Inl e)
  then show thesis by (intro idle) (simp add: runtime_status_def)
next
  case (Inr out)
  show thesis
  proof (cases "out_success out \<and> parse (out_stdout out) \<noteq> None")
    case True
    then obtain p where "parse (out_stdout out) = Some p" by blast
    with True Inr show thesis
      by (intro parsed[of out p]) (simp_all add: runtime_status_def Let_def)
  next
    case False
    with Inr have "\<exists>st e. runtime_status log parse outcome = idle_observation st e"
      by (cases "out_success out") (auto simp: runtime_status_def Let_def)
    then show thesis by (auto intro: idle)
  qed
qed

lemma payload_active_facts:
  assumes "runtime_payload_active p"
  shows "json_bool_at ''process_running'' p \<noteq> Some False" "json_bool_at ''ready'' p \<noteq> Some False"
    "json_bool_at ''healthy'' p \<noteq> Some False"
    "control_plane_health_value p = Some v \<Longrightarrow> \<not> health_value_unhealthy v"
  using assms by (auto simp: runtime_payload_active_def Let_def split: if_splits option.splits)

text \<open>The tunnel is reported active only when nothing speaks against it: the status command succeeded
  with a JSON document, neither the process nor readiness nor health is denied there, the control plane's
  own health value is not a bad one, and the log does not say down, suspect or starting.\<close>

theorem active_means_no_objection:
  assumes "ro_active (runtime_status log parse outcome)"
  shows "\<exists>out p. outcome = Inr out \<and> out_success out \<and> parse (out_stdout out) = Some p
     \<and> json_bool_at ''process_running'' p \<noteq> Some False \<and> json_bool_at ''ready'' p \<noteq> Some False
     \<and> json_bool_at ''healthy'' p \<noteq> Some False
     \<and> (\<forall>v. control_plane_health_value p = Some v \<longrightarrow> \<not> health_value_unhealthy v)
     \<and> co_state (ro_control_plane (runtime_status log parse outcome)) \<notin> {''down'', ''suspect'', ''starting''}"
  using assms
proof (cases rule: runtime_status_cases[of log parse outcome])
  case (parsed out p)
  with assms show ?thesis
    using payload_active_facts[of p] by (intro exI[of _ out] exI[of _ p]) auto
qed simp

definition sample_output :: Output where
  "sample_output = \<lparr>out_success = True, out_stdout = ''{}'', out_stderr = []\<rparr>"

definition sample_document :: json where
  "sample_document = JObject [(''ready'', JBool True), (''process_running'', JBool True)]"

theorem active_means_no_objection_witness:
  "\<exists>out p. (Inr sample_output :: string + Output) = Inr out \<and> out_success out \<and> Some sample_document = Some p
     \<and> json_bool_at ''process_running'' p \<noteq> Some False \<and> json_bool_at ''ready'' p \<noteq> Some False
     \<and> json_bool_at ''healthy'' p \<noteq> Some False
     \<and> (\<forall>v. control_plane_health_value p = Some v \<longrightarrow> \<not> health_value_unhealthy v)
     \<and> co_state (ro_control_plane (runtime_status (id, \<lambda>_. None) (\<lambda>_. Some sample_document) (Inr sample_output)))
          \<notin> {''down'', ''suspect'', ''starting''}"
proof (rule active_means_no_objection)
  show "ro_active (runtime_status (id, \<lambda>_. None) (\<lambda>_. Some sample_document) (Inr sample_output))"
    by code_simp
qed

section \<open>Reading the log\<close>

text \<open>The reference: of the events that say something about polling, latest first, the first one decides.\<close>

definition polling :: "json \<Rightarrow> bool" where
  "polling e \<longleftrightarrow> poll_failure (event_message e) \<or> poll_recovery (event_message e) \<or> poll_start (event_message e)"

definition current_failures :: "json list \<Rightarrow> json list" where
  "current_failures es = filter (\<lambda>e. poll_failure (event_message e))
     (takeWhile (\<lambda>e. \<not> poll_recovery (event_message e)) es)"

lemma messages_exclusive:
  "poll_failure m \<Longrightarrow> \<not> poll_recovery m" "poll_failure m \<Longrightarrow> \<not> poll_start m" "poll_recovery m \<Longrightarrow> \<not> poll_start m"
  by (auto simp: poll_failure_def poll_recovery_def poll_start_def)

lemma scan_counts:
  assumes "0 < unat n" and "unat n + length (current_failures es) < 2 ^ 32"
  shows "\<exists>r s. scan_events es n reason saw = Some (n + of_nat (length (current_failures es)), r, s)"
  using assms
proof (induction es arbitrary: n reason saw)
  case (Cons e es)
  have nz: "n \<noteq> 0" using Cons.prems(1) by auto
  show ?case
  proof (cases "poll_failure (event_message e)")
    case True
    then have cf: "current_failures (e # es) = e # current_failures es"
      using messages_exclusive by (simp add: current_failures_def)
    then have room: "unat n + 1 < 2 ^ 32" using Cons.prems(2) by simp
    then have n1: "n \<noteq> -1" by (auto simp: unsigned_minus_1_eq_mask mask_eq_exp_minus_1)
    have "unat (n + 1) = unat n + 1"
      using room by (simp add: unat_word_ariths)
    with Cons.IH[of "n + 1"] Cons.prems cf True n1 show ?thesis
      by (simp add: Let_def add_ac)
  next
    case False
    then show ?thesis
      using Cons.IH Cons.prems nz by (auto simp: current_failures_def Let_def)
  qed
qed (simp add: current_failures_def)

lemma scan_polling: "scan_events (filter polling es) n r saw = scan_events es n r saw"
  by (induction es arbitrary: n r saw) (auto simp: polling_def Let_def)

lemma current_failures_polling: "current_failures (filter polling es) = current_failures es"
  by (induction es) (auto simp: current_failures_def polling_def)

text \<open>C30: the verdict on the control plane is what its log says, read backwards. With no polling event the
  status document decides; if the latest one is a recovery, it is healthy; if it is a start, it is at most
  starting; if it is a failure, the failures since the last recovery are counted, three of them make it
  down, fewer suspect, whatever else was logged between them.\<close>

theorem log_verdict:
  assumes "length events < 2 ^ 32"
  shows "let cp = control_plane_observation_from_events fallback events; failed = length (current_failures events) in
    case filter polling events of
      [] \<Rightarrow> cp = fallback
    | e # _ \<Rightarrow>
        if poll_recovery (event_message e) then co_state cp = ''healthy'' \<and> co_failures cp = 0
        else if poll_start (event_message e)
        then cp = (if co_state fallback = ''unknown'' then fallback\<lparr>co_state := ''starting''\<rparr> else fallback)
        else unat (co_failures cp) = failed \<and> co_state cp = (if failed \<ge> 3 then ''down'' else ''suspect'')"
proof (cases "filter polling events")
  case Nil
  then have "scan_events events 0 [] False = Some (0, [], False)"
    by (simp flip: scan_polling[of events 0 "[]" False])
  with Nil show ?thesis
    by (simp add: control_plane_observation_from_events_def)
next
  case (Cons e rest)
  have scan: "scan_events events 0 [] False = scan_events (e # rest) 0 [] False"
    using scan_polling[of events 0 "[]" False] Cons by simp
  have "e \<in> set (filter polling events)" using Cons by simp
  then have "polling e" by simp
  then consider (recovery) "poll_recovery (event_message e)"
    | (start) "poll_start (event_message e)" "\<not> poll_recovery (event_message e)"
    | (failure) "poll_failure (event_message e)"
    using messages_exclusive by (auto simp: polling_def)
  then show ?thesis
  proof cases
    case recovery
    then show ?thesis
      using Cons scan messages_exclusive[of "event_message e"]
      by (auto simp: control_plane_observation_from_events_def Let_def)
  next
    case start
    then show ?thesis
      using Cons scan messages_exclusive[of "event_message e"]
      by (auto simp: control_plane_observation_from_events_def Let_def)
  next
    case failure
    let ?k = "length (current_failures rest)"
    have "current_failures (e # rest) = e # current_failures rest"
      using failure messages_exclusive by (simp add: current_failures_def)
    then have k: "length (current_failures events) = Suc ?k"
      using current_failures_polling[of events] Cons by (metis length_Cons)
    have "length (current_failures events) \<le> length events"
      using le_trans[OF length_filter_le length_takeWhile_le] by (simp add: current_failures_def)
    with assms k have small: "Suc ?k < 2 ^ 32" by simp
    then obtain r s where res: "scan_events events 0 [] False = Some (1 + of_nat ?k, r, s)"
      using scan_counts[of 1 rest] scan failure by (fastforce simp: Let_def)
    have u: "unat (1 + of_nat ?k :: u32) = Suc ?k"
      using small by (intro of_nat_inverse) simp_all
    then have "(1 + of_nat ?k \<ge> (3 :: u32)) = (Suc ?k \<ge> 3)" "(1 + of_nat ?k :: u32) > 0"
      by (simp_all add: word_le_nat_alt word_less_nat_alt)
    then show ?thesis
      using res u Cons failure k messages_exclusive
      by (simp add: control_plane_observation_from_events_def Let_def)
  qed
qed

definition sample_event :: "string \<Rightarrow> json" where
  "sample_event m = JObject [(''component'', JString ''controlplane''), (''msg'', JString m)]"

theorem log_verdict_witness:
  "let cp = control_plane_observation_from_events default_control_plane
         [sample_event ''poll failed; backing off'', sample_event ''poller started'', sample_event ''poll failed; backing off'',
          sample_event ''x'', sample_event ''poll timed out; backing off'', sample_event ''tunnel metadata fetched''];
       failed = length (current_failures
         [sample_event ''poll failed; backing off'', sample_event ''poller started'', sample_event ''poll failed; backing off'',
          sample_event ''x'', sample_event ''poll timed out; backing off'', sample_event ''tunnel metadata fetched'']) in
    case filter polling
         [sample_event ''poll failed; backing off'', sample_event ''poller started'', sample_event ''poll failed; backing off'',
          sample_event ''x'', sample_event ''poll timed out; backing off'', sample_event ''tunnel metadata fetched''] of
      [] \<Rightarrow> cp = default_control_plane
    | e # _ \<Rightarrow>
        if poll_recovery (event_message e) then co_state cp = ''healthy'' \<and> co_failures cp = 0
        else if poll_start (event_message e)
        then cp = (if co_state default_control_plane = ''unknown''
                   then default_control_plane\<lparr>co_state := ''starting''\<rparr> else default_control_plane)
        else unat (co_failures cp) = failed \<and> co_state cp = (if failed \<ge> 3 then ''down'' else ''suspect'')"
  by (rule log_verdict) simp

text \<open>The instance ids among kept events.\<close>

definition event_instance :: "json \<Rightarrow> string" where
  "event_instance e = (case json_str_at ''client_instance_id'' e of None \<Rightarrow> [] | Some s \<Rightarrow> s)"

lemma keep_events_expected:
  "e \<in> set (keep_events (Some i) es) \<Longrightarrow> event_instance e = [] \<or> event_instance e = i"
  by (induction es) (auto simp: Let_def event_instance_def split: if_splits)

lemma keep_events_component:
  "e \<in> set (keep_events i es) \<Longrightarrow> e \<in> set es \<and> json_str_at ''component'' e = Some ''controlplane''"
  by (induction es arbitrary: i) (auto simp: Let_def split: if_splits)

lemma keep_events_one:
  "a \<in> set (keep_events None es) \<Longrightarrow> b \<in> set (keep_events None es) \<Longrightarrow> event_instance a \<noteq> [] \<Longrightarrow> event_instance b \<noteq> []
    \<Longrightarrow> event_instance a = event_instance b"
proof (induction es)
  case (Cons e es)
  show ?case
  proof (cases "json_str_at ''component'' e = Some ''controlplane'' \<and> event_instance e \<noteq> []")
    case True
    then have "keep_events None (e # es) = e # keep_events (Some (event_instance e)) es"
      by (simp add: Let_def event_instance_def)
    with Cons.prems show ?thesis
      using keep_events_expected[of a "event_instance e" es] keep_events_expected[of b "event_instance e" es] by auto
  next
    case False
    then have "keep_events None (e # es) = (if json_str_at ''component'' e = Some ''controlplane''
        then e # keep_events None es else keep_events None es)"
      by (simp add: Let_def event_instance_def)
    with Cons False show ?thesis by (auto split: if_splits)
  qed
qed simp

text \<open>A restarted client does not inherit the failures of the one before it. Of the log only events of
  the control plane count, and no two of those that count carry different instance ids.\<close>

theorem one_instance_counts:
  assumes "a \<in> set (runtime_control_plane_events log parse payload)"
    and "b \<in> set (runtime_control_plane_events log parse payload)"
    and "event_instance a \<noteq> []" and "event_instance b \<noteq> []"
  shows "event_instance a = event_instance b \<and> json_str_at ''component'' a = Some ''controlplane''"
proof -
  obtain es where "runtime_control_plane_events log parse payload = keep_events None es"
  proof (cases "Option.bind (json_pointer [''local'', ''log'', ''path''] payload) json_as_str")
    case None
    then show ?thesis by (intro that[of "[]"]) (simp add: runtime_control_plane_events_def)
  next
    case (Some path)
    then show ?thesis
      by (cases "read_history_tail (fst log) (snd log) path (512 * 1024) = []")
        (auto simp: runtime_control_plane_events_def Let_def intro: that[of "[]"] that)
  qed
  with assms show ?thesis
    using keep_events_one[of a es b] keep_events_component[of a None es] by simp
qed

definition sample_payload_log :: json where
  "sample_payload_log = JObject [(''local'', JObject [(''log'', JObject [(''path'', JString ''l'')])])]"

definition sample_line :: "string \<Rightarrow> json option" where
  "sample_line l = Some (JObject [(''component'', JString ''controlplane''), (''client_instance_id'', JString l)])"

theorem one_instance_counts_witness:
  "event_instance (the (sample_line ''b'')) = event_instance (the (sample_line ''b''))
     \<and> json_str_at ''component'' (the (sample_line ''b'')) = Some ''controlplane''"
proof (rule one_instance_counts)
  have kept: "the (sample_line ''b'') \<in> set (runtime_control_plane_events
      (id, \<lambda>_. Some (''a'' @ [CHR 0x0A] @ ''b'' @ [CHR 0x0A])) sample_line sample_payload_log)"
    by (simp add: runtime_control_plane_events_def sample_payload_log_def json_pointer_def json_str_at_def
      read_history_tail_def text_lines_def drop_cr_def sample_line_def map_filter_simps Let_def code_def)
  show "the (sample_line ''b'') \<in> set (runtime_control_plane_events
      (id, \<lambda>_. Some (''a'' @ [CHR 0x0A] @ ''b'' @ [CHR 0x0A])) sample_line sample_payload_log)"
    by (rule kept)
  show "the (sample_line ''b'') \<in> set (runtime_control_plane_events
      (id, \<lambda>_. Some (''a'' @ [CHR 0x0A] @ ''b'' @ [CHR 0x0A])) sample_line sample_payload_log)"
    by (rule kept)
  show "event_instance (the (sample_line ''b'')) \<noteq> []" and "event_instance (the (sample_line ''b'')) \<noteq> []"
    by (simp_all add: sample_line_def event_instance_def json_str_at_def)
qed

section \<open>Health over several probes\<close>

lemma project_inactive:
  assumes "\<not> ro_active ob" and "co_failures (ro_control_plane ob) = 0"
    and "co_state (ro_control_plane ob) \<notin> {''down'', ''suspect'', ''starting''}"
  shows "ts_consecutive_failures (project_runtime_snapshot now s ob True mode True) = sat_inc (ts_consecutive_failures s)"
    and "ts_health (project_runtime_snapshot now s ob True mode True)
      = (if sat_inc (ts_consecutive_failures s) \<ge> (if ro_runtime_alive ob then 8 else 2) then ''down'' else ''suspect'')"
  using assms by (auto simp: project_runtime_snapshot_def Let_def)

lemma unat_sat_inc: "unat n + 1 < 2 ^ 32 \<Longrightarrow> unat (sat_inc n) = unat n + 1"
  by (auto simp: sat_inc_def unat_word_ariths unsigned_minus_1_eq_mask mask_eq_exp_minus_1)

lemma project_inactive_run:
  assumes "\<not> ro_active ob" and "co_failures (ro_control_plane ob) = 0"
    and "co_state (ro_control_plane ob) \<notin> {''down'', ''suspect'', ''starting''}"
    and "length probes < 2 ^ 32" and "ts_consecutive_failures s = 0"
  shows "unat (ts_consecutive_failures (foldl (\<lambda>s now. project_runtime_snapshot now s ob True mode True) s probes)) = length probes"
  using assms(4)
proof (induction probes rule: rev_induct)
  case (snoc t ts)
  then show ?case
    by (simp add: project_inactive(1)[OF assms(1-3)] unat_sat_inc)
qed (simp add: assms(5))

text \<open>The monitor reports an outage neither early nor late. While the tunnel is wanted and every probe finds
  it inactive, and the log gives no verdict, the health is suspect up to the threshold and down from it on:
  eight probes when the runtime process is alive, two when it is not.\<close>

theorem outage_reported_at_threshold:
  assumes "\<not> ro_active ob" and "co_failures (ro_control_plane ob) = 0"
    and "co_state (ro_control_plane ob) \<notin> {''down'', ''suspect'', ''starting''}"
    and "probes \<noteq> []" and "length probes < 2 ^ 32" and "ts_consecutive_failures s = 0"
  shows "ts_health (foldl (\<lambda>s now. project_runtime_snapshot now s ob True mode True) s probes)
    = (if length probes \<ge> (if ro_runtime_alive ob then 8 else 2) then ''down'' else ''suspect'')"
proof -
  obtain ts t where probes: "probes = ts @ [t]"
    using assms(4) by (cases probes rule: rev_cases) auto
  let ?n = "sat_inc (ts_consecutive_failures (foldl (\<lambda>s now. project_runtime_snapshot now s ob True mode True) s ts))"
  have "unat ?n = length probes"
    using project_inactive_run[OF assms(1-3) _ assms(6), of ts mode] assms(5) probes by (simp add: unat_sat_inc)
  then show ?thesis
    using probes by (simp add: project_inactive(2)[OF assms(1-3)] word_le_nat_alt)
qed

theorem outage_reported_at_threshold_witness:
  "ts_health (foldl (\<lambda>s now. project_runtime_snapshot now s (idle_observation ''error'' ''x'') True ''direct'' True)
       default_snapshot [4000, 8000])
    = (if length [4000, 8000 :: u64] \<ge> (if ro_runtime_alive (idle_observation ''error'' ''x'') then 8 else 2)
       then ''down'' else ''suspect'')"
  by (rule outage_reported_at_threshold) (simp_all add: idle_observation_def default_control_plane_def default_snapshot_def)

end
