(* ===== verification/Effects.thy ===== *)
theory Effects
  imports ChatX_Prelude
begin

text \<open>
  Operations with a state and errors. An action on a state returns a value or an error and the next state, also
  when it fails; \<open>chain\<close> is the \<^verbatim>\<open>?\<close> of the source. \<open>wp m Q w\<close> says that \<open>m\<close>, run from \<open>w\<close>, ends with a result and
  a state that satisfy \<open>Q\<close>; the rules take a postcondition backwards through an action.
\<close>

type_synonym ('s, 'a) action = "'s \<Rightarrow> (string + 'a) \<times> 's"

definition chain :: "('s, 'a) action \<Rightarrow> ('a \<Rightarrow> ('s, 'b) action) \<Rightarrow> ('s, 'b) action" where
  "chain m f w = (case m w of (Inl e, w1) \<Rightarrow> (Inl e, w1) | (Inr a, w1) \<Rightarrow> f a w1)"

definition give :: "'a \<Rightarrow> ('s, 'a) action" where
  "give a w = (Inr a, w)"

definition raise :: "string \<Rightarrow> ('s, 'a) action" where
  "raise e w = (Inl e, w)"

definition modify :: "('s \<Rightarrow> 's) \<Rightarrow> ('s, unit) action" where
  "modify f w = (Inr (), f w)"

text \<open>\<open>and_then_always m f\<close> goes on whatever \<open>m\<close> returned, as in \<^verbatim>\<open>let r = m();\<close>.\<close>

definition and_then_always :: "('s, 'a) action \<Rightarrow> ((string + 'a) \<Rightarrow> ('s, 'b) action) \<Rightarrow> ('s, 'b) action" where
  "and_then_always m f w = (case m w of (r, w1) \<Rightarrow> f r w1)"

definition from_result :: "string + 'a \<Rightarrow> ('s, 'a) action" where
  "from_result r w = (r, w)"

section \<open>Reasoning\<close>


definition wp :: "('s, 'a) action \<Rightarrow> (string + 'a \<Rightarrow> 's \<Rightarrow> bool) \<Rightarrow> 's \<Rightarrow> bool" where
  "wp m Q w = (case m w of (r, w1) \<Rightarrow> Q r w1)"

lemma wp_chain [simp]:
  "wp (chain m f) Q w = wp m (\<lambda>r w1. case r of Inl e \<Rightarrow> Q (Inl e) w1 | Inr a \<Rightarrow> wp (f a) Q w1) w"
  by (auto simp: wp_def chain_def split: prod.splits sum.splits)

lemma wp_and_then_always [simp]: "wp (and_then_always m g) Q w = wp m (\<lambda>r w1. wp (g r) Q w1) w"
  by (simp add: wp_def and_then_always_def split: prod.splits)

lemma wp_give [simp]: "wp (give a) Q w = Q (Inr a) w"
  by (simp add: wp_def give_def)

lemma wp_raise [simp]: "wp (raise e) Q w = Q (Inl e) w"
  by (simp add: wp_def raise_def)

lemma wp_modify [simp]: "wp (modify h) Q w = Q (Inr ()) (h w)"
  by (simp add: wp_def modify_def)

lemma wp_from_result [simp]: "wp (from_result r) Q w = Q r w"
  by (simp add: wp_def from_result_def)

lemma wp_if_fun:
  "wp (\<lambda>w. if P w then m w else m' w) Q w = (if P w then wp m Q w else wp m' Q w)"
  by (simp add: wp_def)

lemma wp_pure [simp]: "wp (\<lambda>w. (f w, w)) Q w = Q (f w) w"
  by (simp add: wp_def)

text \<open>How a sequence ends: in its first action or after it.\<close>

lemma chain_cases:
  assumes "chain m f w = (r, w1)"
  obtains (stopped) e where "m w = (Inl e, w1)" and "r = Inl e"
  | (went_on) a w0 where "m w = (Inr a, w0)" and "f a w0 = (r, w1)"
  using assms by (auto simp: chain_def split: prod.splits sum.splits)

text \<open>An action \<open>keeps\<close> a part of the state when no run of it changes that part.\<close>

definition keeps :: "('s \<Rightarrow> 'p) \<Rightarrow> ('s, 'a) action \<Rightarrow> bool" where
  "keeps part m \<longleftrightarrow> (\<forall>w. part (snd (m w)) = part w)"

named_theorems kept

lemma keepsD: "keeps part m \<Longrightarrow> m w = (r, w1) \<Longrightarrow> part w1 = part w"
  by (metis keeps_def snd_conv)

lemma keeps_chain [kept]: "keeps part m \<Longrightarrow> (\<And>a. keeps part (f a)) \<Longrightarrow> keeps part (chain m f)"
  by (simp add: keeps_def chain_def split: prod.splits sum.splits) (metis snd_conv)

lemma keeps_and_then_always [kept]:
  "keeps part m \<Longrightarrow> (\<And>r. keeps part (f r)) \<Longrightarrow> keeps part (and_then_always m f)"
  by (simp add: keeps_def and_then_always_def split: prod.splits) (metis snd_conv)

lemma keeps_give [kept]: "keeps part (give a)"
  by (simp add: keeps_def give_def)

lemma keeps_raise [kept]: "keeps part (raise e)"
  by (simp add: keeps_def raise_def)

lemma keeps_from_result [kept]: "keeps part (from_result r)"
  by (simp add: keeps_def from_result_def)

lemma keeps_if [kept]: "keeps part m \<Longrightarrow> keeps part m' \<Longrightarrow> keeps part (if b then m else m')"
  by simp

lemma keeps_if_fun [kept]: "keeps part m \<Longrightarrow> keeps part m' \<Longrightarrow> keeps part (\<lambda>w. if P w then m w else m' w)"
  by (simp add: keeps_def)

lemma keeps_pure [kept]: "keeps part (\<lambda>w. (f w, w))"
  by (simp add: keeps_def)

lemma keeps_modify: "(\<And>w. part (h w) = part w) \<Longrightarrow> keeps part (modify h)"
  by (simp add: keeps_def modify_def)

lemma keeps_sum [kept]:
  "(\<And>e. keeps part (f e)) \<Longrightarrow> (\<And>a. keeps part (g a)) \<Longrightarrow> keeps part (case r of Inl e \<Rightarrow> f e | Inr a \<Rightarrow> g a)"
  by (simp split: sum.splits)

text \<open>An action \<open>preserves\<close> a property of the state when it holds after every run from a state where it held, also after a
  failure.\<close>

definition preserves :: "('s \<Rightarrow> bool) \<Rightarrow> ('s, 'a) action \<Rightarrow> bool" where
  "preserves I m \<longleftrightarrow> (\<forall>w. I w \<longrightarrow> I (snd (m w)))"

named_theorems preserved

lemma preservesD: "preserves I m \<Longrightarrow> m w = (r, w1) \<Longrightarrow> I w \<Longrightarrow> I w1"
  unfolding preserves_def by (metis snd_conv)

lemma preserves_chain [preserved]: "preserves I m \<Longrightarrow> (\<And>a. preserves I (f a)) \<Longrightarrow> preserves I (chain m f)"
  by (auto simp: preserves_def chain_def split: prod.splits sum.splits)

lemma preserves_and_then_always [preserved]:
  "preserves I m \<Longrightarrow> (\<And>r. preserves I (f r)) \<Longrightarrow> preserves I (and_then_always m f)"
  by (auto simp: preserves_def and_then_always_def split: prod.splits)

lemma preserves_pure [preserved]: "preserves I (give a)" "preserves I (raise e)" "preserves I (from_result r)"
  by (simp_all add: preserves_def give_def raise_def from_result_def)

lemma preserves_if [preserved]: "preserves I m \<Longrightarrow> preserves I m' \<Longrightarrow> preserves I (if b then m else m')"
  by simp

lemma preserves_sum [preserved]:
  "(\<And>e. preserves I (f e)) \<Longrightarrow> (\<And>a. preserves I (g a)) \<Longrightarrow> preserves I (case r of Inl e \<Rightarrow> f e | Inr a \<Rightarrow> g a)"
  by (simp split: sum.splits)

lemma preserves_option [preserved]:
  "preserves I m \<Longrightarrow> (\<And>a. preserves I (f a)) \<Longrightarrow> preserves I (case x of None \<Rightarrow> m | Some a \<Rightarrow> f a)"
  by (simp split: option.splits)

lemma preserves_modify: "(\<And>w. I w \<Longrightarrow> I (h w)) \<Longrightarrow> preserves I (modify h)"
  by (simp add: preserves_def modify_def)

section \<open>A contract of the phones' registry\<close>

text \<open>Both servers a phone can be revoked through, the desktop's own and the relay, ask this of the registry.\<close>

locale revoker =
  fixes revoke :: "string \<Rightarrow> ('w, unit) action" and known :: "'w \<Rightarrow> string \<Rightarrow> bool"
  assumes revoke_drops: "revoke d w = (Inr (), w1) \<Longrightarrow> \<not> known w1 d"

end
