(* ===== verification/Desktop_State.thy ===== *)
theory Desktop_State
  imports Tunnel_Status Effects
begin

text \<open>
  The desktop application's persistent and shared state: its settings file (\<^verbatim>\<open>src-tauri/src/settings.rs\<close>),
  the manual-stop markers (\<^verbatim>\<open>connection_intent.rs\<close>) and the parts of \<^verbatim>\<open>AppState\<close> (\<^verbatim>\<open>app_state.rs\<close>) that decide
  which transport runs.

  An operation is an action of \<open>Effects\<close> on \<open>World\<close>. What surrounds the program is the parameter \<open>Outside\<close>: whether the n-th call of the operating
  system succeeds, what the n-th run of the tunnel client answers, the clock at the n-th call, and serde's parser and
  printer. The field \<open>w_trace\<close> is no state of the program: it records, after every change of the disk or
  of a transport, what a crash at that moment would leave. Log lines are not modelled, and messages are
  given in English.
\<close>

section \<open>Settings\<close>

record ProxySettings =
  px_mode :: string
  px_url :: string
  px_applied_url :: string

definition default_proxy :: ProxySettings where
  "default_proxy = \<lparr>px_mode = ''direct'', px_url = [], px_applied_url = []\<rparr>"

record RelaySettings =
  rl_enabled :: bool
  rl_base_url :: string

record HttpsMcpSettings =
  ht_enabled :: bool
  ht_auto_reconnect :: bool
  ht_base_url :: string
  ht_transport :: string
  ht_ssh_host :: string
  ht_ssh_user :: string
  ht_ssh_port :: u16
  ht_local_port :: u16
  ht_remote_port :: u16
  ht_authorization_ttl_hours :: "u32 option"

definition default_https :: HttpsMcpSettings where
  "default_https = \<lparr>ht_enabled = False, ht_auto_reconnect = True, ht_base_url = [], ht_transport = ''wss'',
     ht_ssh_host = [], ht_ssh_user = [], ht_ssh_port = 22, ht_local_port = 3000, ht_remote_port = 18080,
     ht_authorization_ttl_hours = Some (7 * 24)\<rparr>"

record Settings =
  se_tunnel_id :: string
  se_remember_key :: bool
  se_auto_reconnect :: bool
  se_connection_intent :: bool
  se_monitor_enabled :: bool
  se_monitor_port :: u16
  se_proxy :: ProxySettings
  se_relay :: RelaySettings
  se_https_mcp :: HttpsMcpSettings

definition default_settings :: Settings where
  "default_settings = \<lparr>se_tunnel_id = [], se_remember_key = False, se_auto_reconnect = True,
     se_connection_intent = False, se_monitor_enabled = False, se_monitor_port = 18432, se_proxy = default_proxy,
     se_relay = \<lparr>rl_enabled = False, rl_base_url = []\<rparr>, se_https_mcp = default_https\<rparr>"

definition effective_mcp_mode :: "Settings \<Rightarrow> bool \<Rightarrow> bool \<Rightarrow> string" where
  "effective_mcp_mode s https_allowed tunnel_desired =
     (if ht_enabled (se_https_mcp s) \<and> https_allowed then ''https''
      else if \<not> ht_enabled (se_https_mcp s) \<and> tunnel_desired then ''tunnel''
      else ''none'')"

section \<open>The world\<close>

datatype Transport = Tunnel | HttpsMcp

record Outside =
  os_ok :: "nat \<Rightarrow> bool"
  os_run :: "nat \<Rightarrow> string + Output"
  os_now :: "nat \<Rightarrow> u64"            \<comment> \<open>\<^verbatim>\<open>timestamp_ms\<close>, the wall clock, after n calls\<close>
  os_elapsed :: "nat \<Rightarrow> nat"        \<comment> \<open>milliseconds the n-th call takes on the monotonic clock\<close>
  os_parse_settings :: "string \<Rightarrow> Settings option"
  os_parse_value :: "string \<Rightarrow> json option"
  os_print_settings :: "Settings \<Rightarrow> string"
  os_system_proxy :: "string option"
  os_saved_key :: "string option"
  os_log :: log_access

record TunnelRecoveryStatus =
  tr_phase :: string
  tr_next_reconnect_at :: u64
  tr_last_error :: string

definition default_recovery :: TunnelRecoveryStatus where
  "default_recovery = \<lparr>tr_phase = ''idle'', tr_next_reconnect_at = 0, tr_last_error = []\<rparr>"

record Moment =
  mo_file :: "string option"
  mo_stopped :: "Transport \<Rightarrow> bool"
  mo_tunnel :: bool
  mo_https :: bool

record World =
  w_calls :: nat                      \<comment> \<open>calls made to the outside so far\<close>
  w_clock :: nat                      \<comment> \<open>\<^verbatim>\<open>Instant::now()\<close> in milliseconds\<close>
  w_file :: "string option"           \<comment> \<open>settings.json\<close>
  w_stopped :: "Transport \<Rightarrow> bool"    \<comment> \<open>a manual-stop marker exists\<close>
  w_tunnel :: bool                    \<comment> \<open>a tunnel runtime may be running\<close>
  w_https :: bool                     \<comment> \<open>the HTTPS supervisor is running\<close>
  w_quitting :: bool
  w_desired_connected :: bool
  w_reconnecting :: bool
  w_reconnect_attempt :: u32
  w_recovery :: TunnelRecoveryStatus
  w_snapshot :: TunnelSnapshot
  w_session_key :: "string option"
  w_reconnect_running :: bool         \<comment> \<open>monitor control's own flag\<close>
  w_last_reconnect_at :: u64
  w_trace :: "Moment list"

type_synonym 'a op = "(World, 'a) action"

definition moment_of :: "World \<Rightarrow> Moment" where
  "moment_of w = \<lparr>mo_file = w_file w, mo_stopped = w_stopped w, mo_tunnel = w_tunnel w, mo_https = w_https w\<rparr>"

definition note_moment :: "World \<Rightarrow> World" where
  "note_moment w = w\<lparr>w_trace := w_trace w @ [moment_of w]\<rparr>"

definition passed :: "Outside \<Rightarrow> World \<Rightarrow> World" where
  "passed out w = w\<lparr>w_calls := Suc (w_calls w), w_clock := w_clock w + os_elapsed out (w_calls w)\<rparr>"

definition attempt :: "Outside \<Rightarrow> string \<Rightarrow> unit op" where
  "attempt out e w = (if os_ok out (w_calls w) then Inr () else Inl e, passed out w)"

text \<open>One run of the tunnel client.\<close>

definition run_tunnel :: "Outside \<Rightarrow> Output op" where
  "run_tunnel out w = (os_run out (w_calls w), passed out w)"

definition timestamp_ms :: "Outside \<Rightarrow> World \<Rightarrow> u64" where
  "timestamp_ms out w = os_now out (w_calls w)"

fun attempts :: "Outside \<Rightarrow> string list \<Rightarrow> unit op" where
  "attempts out [] = give ()"
| "attempts out (e # es) = chain (attempt out e) (\<lambda>_. attempts out es)"

declare attempts.simps [simp del]

definition set_recovery_status :: "string \<Rightarrow> u64 \<Rightarrow> string \<Rightarrow> World \<Rightarrow> World" where
  "set_recovery_status phase next_at e w =
     w\<lparr>w_recovery := \<lparr>tr_phase = phase, tr_next_reconnect_at = next_at, tr_last_error = e\<rparr>\<rparr>"

section \<open>The settings file\<close>

definition normalize_settings :: "Outside \<Rightarrow> Settings \<Rightarrow> Settings" where
  "normalize_settings out s =
     (let s1 = (if px_mode (se_proxy s) \<notin> {''direct'', ''system'', ''manual''} then s\<lparr>se_proxy := default_proxy\<rparr>
                else if px_mode (se_proxy s) = ''system'' \<and> trim (px_applied_url (se_proxy s)) = []
                then (case os_system_proxy out of
                        Some url \<Rightarrow> s\<lparr>se_proxy := (se_proxy s)\<lparr>px_applied_url := url\<rparr>\<rparr>
                      | None \<Rightarrow> s)
                else s)
      in if rl_enabled (se_relay s1) \<and> trim (rl_base_url (se_relay s1)) = []
         then s1\<lparr>se_relay := (se_relay s1)\<lparr>rl_enabled := False\<rparr>\<rparr> else s1)"

definition settings_of_text :: "Outside \<Rightarrow> string \<Rightarrow> string + Settings" where
  "settings_of_text out text =
     (case os_parse_settings out text of
        Some s \<Rightarrow> if se_connection_intent s \<and> trim (se_tunnel_id s) = []
                  then Inl ''invalid settings: connection intent without tunnel id''
                  else Inr (normalize_settings out s)
      | None \<Rightarrow>
          (case os_parse_value out text of
             None \<Rightarrow> Inl ''settings file is damaged''
           | Some legacy \<Rightarrow>
               (case Option.bind (Option.bind (json_get ''connection'' legacy) (json_get ''tunnelId'')) json_as_str of
                  None \<Rightarrow> Inl ''unknown settings format''
                | Some i \<Rightarrow> if trim i = [] then Inl ''unknown settings format''
                            else Inr (default_settings\<lparr>se_tunnel_id := trim i,
                                       se_remember_key := (os_saved_key out \<noteq> None)\<rparr>))))"

definition load_settings_checked :: "Outside \<Rightarrow> Settings op" where
  "load_settings_checked out =
     chain (attempts out [''state directory'', ''read settings'']) (\<lambda>_ w.
       (case w_file w of
          None \<Rightarrow> Inr default_settings
        | Some text \<Rightarrow> settings_of_text out text, w))"

definition load_settings :: "Outside \<Rightarrow> Settings op" where
  "load_settings out w =
     (case load_settings_checked out w of
        (Inr s, w1) \<Rightarrow> (Inr s, w1)
      | (Inl _, w1) \<Rightarrow> (Inr default_settings, w1))"

definition write_settings_file :: "Outside \<Rightarrow> Settings \<Rightarrow> unit op" where
  "write_settings_file out s =
     chain (attempts out [''print settings'', ''create directory'', ''create temporary file'', ''write settings'',
              ''sync settings'', ''rename settings''])
       (\<lambda>_. modify (\<lambda>w. note_moment (w\<lparr>w_file := Some (os_print_settings out s @ [CHR 0x0A])\<rparr>)))"

definition update_settings :: "Outside \<Rightarrow> (Settings \<Rightarrow> Settings) \<Rightarrow> Settings op" where
  "update_settings out f =
     chain (load_settings_checked out) (\<lambda>s.
     chain (attempt out ''state directory'') (\<lambda>_.
     chain (write_settings_file out (f s)) (\<lambda>_. give (f s))))"

section \<open>Manual-stop markers\<close>

text \<open>Opening the marker file creates it, and a marker counts as soon as it exists.\<close>

definition mark_stopped :: "Outside \<Rightarrow> Transport \<Rightarrow> unit op" where
  "mark_stopped out mode =
     chain (attempts out [''state directory'', ''create directory'', ''open marker'']) (\<lambda>_.
     chain (modify (\<lambda>w. note_moment (w\<lparr>w_stopped := (w_stopped w)(mode := True)\<rparr>))) (\<lambda>_.
       attempts out [''write marker'', ''sync marker'']))"

definition clear_stopped :: "Outside \<Rightarrow> Transport \<Rightarrow> unit op" where
  "clear_stopped out mode =
     chain (attempts out [''state directory'', ''remove marker'']) (\<lambda>_.
       modify (\<lambda>w. note_moment (w\<lparr>w_stopped := (w_stopped w)(mode := False)\<rparr>)))"

definition restore_allowed :: "Outside \<Rightarrow> Transport \<Rightarrow> bool op" where
  "restore_allowed out mode =
     chain (attempts out [''state directory'', ''check marker'']) (\<lambda>_ w. (Inr (\<not> w_stopped w mode), w))"

section \<open>Reasoning about operations\<close>

text \<open>\<open>ticked c t w\<close> is \<open>w\<close> after some calls to the outside.\<close>

definition ticked :: "nat \<Rightarrow> nat \<Rightarrow> World \<Rightarrow> World" where
  "ticked c t w = w\<lparr>w_calls := c, w_clock := t\<rparr>"

definition file_settings :: "Outside \<Rightarrow> World \<Rightarrow> string + Settings" where
  "file_settings out w = (case w_file w of None \<Rightarrow> Inr default_settings | Some text \<Rightarrow> settings_of_text out text)"

lemma ticked_sel [simp]:
  "w_file (ticked c t w) = w_file w" "w_stopped (ticked c t w) = w_stopped w" "w_tunnel (ticked c t w) = w_tunnel w"
  "w_https (ticked c t w) = w_https w" "w_quitting (ticked c t w) = w_quitting w"
  "w_desired_connected (ticked c t w) = w_desired_connected w" "w_reconnecting (ticked c t w) = w_reconnecting w"
  "w_session_key (ticked c t w) = w_session_key w" "w_trace (ticked c t w) = w_trace w"
  "w_reconnect_running (ticked c t w) = w_reconnect_running w" "w_last_reconnect_at (ticked c t w) = w_last_reconnect_at w"
  "w_reconnect_attempt (ticked c t w) = w_reconnect_attempt w" "w_snapshot (ticked c t w) = w_snapshot w"
  "file_settings out (ticked c t w) = file_settings out w" "moment_of (ticked c t w) = moment_of w"
  "ticked c t (ticked c2 t2 w) = ticked c t w"
  by (simp_all add: ticked_def file_settings_def moment_of_def)

lemma note_moment_sel [simp]:
  "w_file (note_moment w) = w_file w" "w_stopped (note_moment w) = w_stopped w" "w_tunnel (note_moment w) = w_tunnel w"
  "w_https (note_moment w) = w_https w" "w_quitting (note_moment w) = w_quitting w"
  "w_desired_connected (note_moment w) = w_desired_connected w" "w_reconnecting (note_moment w) = w_reconnecting w"
  "w_session_key (note_moment w) = w_session_key w" "w_trace (note_moment w) = w_trace w @ [moment_of w]"
  "w_reconnect_running (note_moment w) = w_reconnect_running w" "w_last_reconnect_at (note_moment w) = w_last_reconnect_at w"
  "w_reconnect_attempt (note_moment w) = w_reconnect_attempt w" "w_snapshot (note_moment w) = w_snapshot w"
  "file_settings out (note_moment w) = file_settings out w" "moment_of (note_moment w) = moment_of w"
  by (simp_all add: note_moment_def file_settings_def moment_of_def)

lemma set_recovery_status_sel [simp]:
  "w_file (set_recovery_status p n e w) = w_file w" "w_stopped (set_recovery_status p n e w) = w_stopped w"
  "w_tunnel (set_recovery_status p n e w) = w_tunnel w" "w_https (set_recovery_status p n e w) = w_https w"
  "w_quitting (set_recovery_status p n e w) = w_quitting w"
  "w_desired_connected (set_recovery_status p n e w) = w_desired_connected w"
  "w_reconnecting (set_recovery_status p n e w) = w_reconnecting w"
  "w_session_key (set_recovery_status p n e w) = w_session_key w" "w_trace (set_recovery_status p n e w) = w_trace w"
  "w_reconnect_running (set_recovery_status p n e w) = w_reconnect_running w"
  "w_last_reconnect_at (set_recovery_status p n e w) = w_last_reconnect_at w"
  "w_clock (set_recovery_status p n e w) = w_clock w"
  "w_snapshot (set_recovery_status p n e w) = w_snapshot w"
  "file_settings out (set_recovery_status p n e w) = file_settings out w"
  "moment_of (set_recovery_status p n e w) = moment_of w"
  by (simp_all add: set_recovery_status_def file_settings_def moment_of_def)

lemma wp_attempt:
  assumes "\<And>r c t. Q r (ticked c t w)"
  shows "wp (attempt out e) Q w"
  using assms by (simp add: wp_def attempt_def passed_def ticked_def)

lemma wp_run_tunnel:
  assumes "\<And>r c t. Q r (ticked c t w)"
  shows "wp (run_tunnel out) Q w"
  using assms by (simp add: wp_def run_tunnel_def passed_def ticked_def)

lemma ticked_same: "ticked (w_calls w) (w_clock w) w = w"
  by (simp add: ticked_def)

lemma wp_attempts:
  assumes "\<And>r c t. Q r (ticked c t w)"
  shows "wp (attempts out es) Q w"
  using assms
proof (induction es arbitrary: w)
  case Nil
  then show ?case using Nil[of "Inr ()" "w_calls w" "w_clock w"] by (simp add: ticked_same attempts.simps)
next
  case (Cons e es)
  then show ?case by (auto simp: attempts.simps intro!: wp_attempt Cons.IH split: sum.splits)
qed

lemma wp_load_settings_checked:
  assumes "\<And>e c t. Q (Inl e) (ticked c t w)"
    and "\<And>s c t. file_settings out w = Inr s \<Longrightarrow> Q (Inr s) (ticked c t w)"
  shows "wp (load_settings_checked out) Q w"
proof -
  have "Q (file_settings out w) (ticked c t w)" for c t
    using assms by (cases "file_settings out w") auto
  with assms(1) show ?thesis
    unfolding load_settings_checked_def
    by (auto intro!: wp_attempts simp: file_settings_def cong: option.case_cong split: sum.splits)
qed

lemma wp_load_settings:
  assumes "\<And>s c t. s = default_settings \<or> file_settings out w = Inr s \<Longrightarrow> Q (Inr s) (ticked c t w)"
  shows "wp (load_settings out) Q w"
proof -
  have "wp (load_settings_checked out) (\<lambda>r w1. Q (Inr (case r of Inl _ \<Rightarrow> default_settings | Inr s \<Rightarrow> s)) w1) w"
    using assms by (intro wp_load_settings_checked) auto
  then show ?thesis
    by (auto simp: wp_def load_settings_def split: prod.splits sum.splits)
qed

definition saved :: "Outside \<Rightarrow> Settings \<Rightarrow> World \<Rightarrow> World" where
  "saved out s w = note_moment (w\<lparr>w_file := Some (os_print_settings out s @ [CHR 0x0A])\<rparr>)"

lemma wp_update_settings:
  assumes "\<And>e c t. Q (Inl e) (ticked c t w)"
    and "\<And>s c t. file_settings out w = Inr s \<Longrightarrow> Q (Inr (f s)) (saved out (f s) (ticked c t w))"
  shows "wp (update_settings out f) Q w"
  using assms unfolding update_settings_def write_settings_file_def
  by (auto intro!: wp_attempts wp_attempt wp_load_settings_checked simp: saved_def split: sum.splits)

definition marked :: "Transport \<Rightarrow> bool \<Rightarrow> World \<Rightarrow> World" where
  "marked mode b w = note_moment (w\<lparr>w_stopped := (w_stopped w)(mode := b)\<rparr>)"

lemma wp_mark_stopped:
  assumes "\<And>e c t. Q (Inl e) (ticked c t w)"
    and "\<And>r c t c2 t2. Q r (ticked c2 t2 (marked mode True (ticked c t w)))"
  shows "wp (mark_stopped out mode) Q w"
  using assms unfolding mark_stopped_def
  by (auto intro!: wp_attempts simp: marked_def split: sum.splits)

lemma wp_clear_stopped:
  assumes "\<And>e c t. Q (Inl e) (ticked c t w)"
    and "\<And>c t. Q (Inr ()) (marked mode False (ticked c t w))"
  shows "wp (clear_stopped out mode) Q w"
  using assms unfolding clear_stopped_def
  by (auto intro!: wp_attempts simp: marked_def split: sum.splits)

lemma wp_restore_allowed:
  assumes "\<And>e c t. Q (Inl e) (ticked c t w)" and "\<And>c t. Q (Inr (\<not> w_stopped w mode)) (ticked c t w)"
  shows "wp (restore_allowed out mode) Q w"
  using assms unfolding restore_allowed_def
  by (auto intro!: wp_attempts split: sum.splits)

text \<open>What serde promises of the settings: what was printed is read back.\<close>

definition faithful :: "Outside \<Rightarrow> bool" where
  "faithful out \<longleftrightarrow> (\<forall>s. os_parse_settings out (os_print_settings out s @ [CHR 0x0A]) = Some s)"

lemma marked_sel [simp]:
  "w_file (marked m b w) = w_file w" "w_stopped (marked m b w) = (w_stopped w)(m := b)"
  "w_tunnel (marked m b w) = w_tunnel w" "w_https (marked m b w) = w_https w" "w_quitting (marked m b w) = w_quitting w"
  "w_desired_connected (marked m b w) = w_desired_connected w" "w_session_key (marked m b w) = w_session_key w"
  "file_settings out (marked m b w) = file_settings out w"
  "w_trace (marked m b w) = w_trace w @ [\<lparr>mo_file = w_file w, mo_stopped = (w_stopped w)(m := b),
     mo_tunnel = w_tunnel w, mo_https = w_https w\<rparr>]"
  by (simp_all add: marked_def file_settings_def moment_of_def)

lemma saved_sel [simp]:
  "w_file (saved out s w) = Some (os_print_settings out s @ [CHR 0x0A])" "w_stopped (saved out s w) = w_stopped w"
  "w_tunnel (saved out s w) = w_tunnel w" "w_https (saved out s w) = w_https w" "w_quitting (saved out s w) = w_quitting w"
  "w_desired_connected (saved out s w) = w_desired_connected w" "w_session_key (saved out s w) = w_session_key w"
  "w_trace (saved out s w) = w_trace w @ [\<lparr>mo_file = Some (os_print_settings out s @ [CHR 0x0A]),
     mo_stopped = w_stopped w, mo_tunnel = w_tunnel w, mo_https = w_https w\<rparr>]"
  by (simp_all add: saved_def moment_of_def)

lemma normalize_settings_sel [simp]:
  "se_https_mcp (normalize_settings out s) = se_https_mcp s"
  "se_connection_intent (normalize_settings out s) = se_connection_intent s"
  "se_tunnel_id (normalize_settings out s) = se_tunnel_id s"
  "se_auto_reconnect (normalize_settings out s) = se_auto_reconnect s"
  by (simp_all add: normalize_settings_def Let_def split: option.splits)

lemma file_settings_saved:
  assumes "faithful out"
  shows "file_settings out (saved out s w)
    = (if se_connection_intent s \<and> trim (se_tunnel_id s) = []
       then Inl ''invalid settings: connection intent without tunnel id'' else Inr (normalize_settings out s))"
  using assms by (simp add: file_settings_def settings_of_text_def faithful_def)

end
