(* ===== verification/Remote_Addresses.thy ===== *)
theory Remote_Addresses
  imports Desktop_State
begin

text \<open>
  The addresses the user configures: the checks on the HTTPS settings and the arguments given to ssh
  (\<^verbatim>\<open>src-tauri/src/https_mcp.rs\<close>), and the relay's base URL (\<^verbatim>\<open>src-tauri/src/relay.rs\<close>).
\<close>

section \<open>HTTPS settings\<close>

definition ascii_alphanumeric :: "char \<Rightarrow> bool" where
  "ascii_alphanumeric c \<longleftrightarrow> (48 \<le> code c \<and> code c \<le> 57) \<or> (65 \<le> code c \<and> code c \<le> 90) \<or> (97 \<le> code c \<and> code c \<le> 122)"

definition domain_text :: "string \<Rightarrow> bool" where
  "domain_text d \<longleftrightarrow> d \<noteq> [] \<and> length d \<le> 253 \<and> \<not> starts_with ''-'' d
     \<and> list_all (\<lambda>b. ascii_alphanumeric b \<or> b = CHR ''-'' \<or> b = CHR ''.'') d"

definition user_text :: "string \<Rightarrow> bool" where
  "user_text u \<longleftrightarrow> u \<noteq> [] \<and> length u \<le> 64
     \<and> list_all (\<lambda>b. ascii_alphanumeric b \<or> b = CHR ''_'' \<or> b = CHR ''-'') u \<and> \<not> starts_with ''-'' u"

definition validate_authorization_lifetime :: "u32 option \<Rightarrow> string + unit" where
  "validate_authorization_lifetime hours =
     (case hours of
        None \<Rightarrow> Inr ()
      | Some h \<Rightarrow> if h = 0 \<or> 87601 \<le> h then Inl ''authorization lifetime must be 1 to 87600 hours'' else Inr ())"

definition validate :: "HttpsMcpSettings \<Rightarrow> string + unit" where
  "validate s =
     (case strip_prefix ''https://'' (trim (ht_base_url s)) of
        None \<Rightarrow> Inl ''the address must start with https://''
      | Some domain \<Rightarrow>
         if \<not> domain_text domain then Inl ''the address must be a plain HTTPS domain''
         else if ht_transport s \<noteq> ''ssh'' \<and> ht_transport s \<noteq> ''wss'' then Inl ''invalid transport''
         else if ht_transport s = ''ssh'' \<and> \<not> domain_text (trim (ht_ssh_host s)) then Inl ''invalid ssh host''
         else if ht_transport s = ''ssh'' \<and> \<not> user_text (trim (ht_ssh_user s)) then Inl ''invalid ssh user''
         else if ht_transport s = ''ssh'' \<and> (ht_ssh_port s = 0 \<or> ht_remote_port s < 1024) then Inl ''invalid ssh port''
         else if ht_local_port s < 1024 then Inl ''invalid local port''
         else validate_authorization_lifetime (ht_authorization_ttl_hours s))"

fun decimal :: "nat \<Rightarrow> string" where
  "decimal n = (if n < 10 then [char_of (48 + n)] else decimal (n div 10) @ [char_of (48 + n mod 10)])"

declare decimal.simps [simp del]

lemma decimal_digits: "c \<in> set (decimal n) \<Longrightarrow> 48 \<le> code c \<and> code c \<le> 57"
proof (induction n rule: decimal.induct)
  case (1 n)
  then show ?case
    by (cases "n < 10") (auto simp: decimal.simps [of n])
qed

definition ssh_destination :: "HttpsMcpSettings \<Rightarrow> string" where
  "ssh_destination s = ht_ssh_user s @ ''@'' @ ht_ssh_host s"

definition ssh_arguments :: "HttpsMcpSettings \<Rightarrow> string list" where
  "ssh_arguments s =
     [''-N'', ''-T'', ''-o'', ''BatchMode=yes'', ''-o'', ''StrictHostKeyChecking=yes'',
      ''-o'', ''ExitOnForwardFailure=yes'', ''-o'', ''ConnectTimeout=8'',
      ''-o'', ''ServerAliveInterval=20'', ''-o'', ''ServerAliveCountMax=3'',
      ''-p'', decimal (unat (ht_ssh_port s)), ''-R'',
      ''127.0.0.1:'' @ decimal (unat (ht_remote_port s)) @ '':127.0.0.1:'' @ decimal (unat (ht_local_port s)),
      ssh_destination s]"

section \<open>Relay addresses\<close>

definition trim_end_slashes :: "string \<Rightarrow> string" where
  "trim_end_slashes s = rev (dropWhile (\<lambda>c. c = CHR ''/'') (rev s))"

fun has_whitespace :: "string \<Rightarrow> bool" where
  "has_whitespace [] = False"
| "has_whitespace (c # s) = (ws_len (map code (c # s)) \<noteq> 0 \<or> has_whitespace s)"

definition normalized_base_url :: "string \<Rightarrow> string + string" where
  "normalized_base_url value0 =
     (let v = trim_end_slashes (trim value0) in
      if v = [] \<or> has_whitespace v \<or> CHR ''@'' \<in> set v then Inl ''invalid relay URL''
      else
        let secure = starts_with ''https://'' v;
            loopback = (starts_with ''http://127.0.0.1'' v \<or> starts_with ''http://localhost'' v \<or> starts_with ''http://[::1]'' v)
        in if \<not> secure \<and> \<not> loopback then Inl ''the relay must use https://'' else Inr v)"

definition websocket_url :: "string \<Rightarrow> string \<Rightarrow> string + string" where
  "websocket_url base_url path =
     (case normalized_base_url base_url of
        Inl e \<Rightarrow> Inl e
      | Inr base \<Rightarrow>
         (case strip_prefix ''https://'' base of
            Some rest \<Rightarrow> Inr (''wss://'' @ rest @ path)
          | None \<Rightarrow> (case strip_prefix ''http://'' base of
              Some rest \<Rightarrow> Inr (''ws://'' @ rest @ path)
            | None \<Rightarrow> Inl ''invalid relay URL scheme'')))"

section \<open>Properties\<close>

lemma strip_ws_suffix: "\<exists>p. s = p @ strip_ws w s"
proof (induction w s rule: strip_ws.induct)
  case (1 w s)
  show ?case
  proof (cases "w (map code s) = 0 \<or> s = []")
    case True
    then show ?thesis by (subst strip_ws.simps) simp
  next
    case False
    then have eq: "strip_ws w s = strip_ws w (drop (w (map code s)) s)"
      by (subst strip_ws.simps) simp
    obtain p where "drop (w (map code s)) s = p @ strip_ws w s"
      using 1 False eq by auto
    then have "s = (take (w (map code s)) s @ p) @ strip_ws w s"
      using append_take_drop_id[of "w (map code s)" s] by simp
    then show ?thesis by blast
  qed
qed

lemma trim_parts: "\<exists>p q. s = p @ trim s @ q"
proof -
  obtain p where p: "s = p @ strip_ws ws_len s"
    using strip_ws_suffix by blast
  obtain q where "rev (strip_ws ws_len s) = q @ strip_ws ws_len_rev (rev (strip_ws ws_len s))"
    using strip_ws_suffix by blast
  then have "strip_ws ws_len s = trim s @ rev q"
    unfolding trim_def by (metis rev_append rev_rev_ident)
  with p show ?thesis by metis
qed

text \<open>A first byte that is not white space and starts no multi-byte white space is kept by \<open>trim\<close>.\<close>

lemma trim_keeps_dash:
  assumes "s = CHR ''-'' # r"
  shows "trim s = [] \<or> hd (trim s) = CHR ''-''"
proof -
  have "ws_len (map code s) = 0"
    using assms by (cases r; cases "tl r") (auto simp: ws1_def ws2_def ws3_def code_def)
  then have "strip_ws ws_len s = s"
    by (subst strip_ws.simps) simp
  then have t: "trim s = rev (strip_ws ws_len_rev (rev s))"
    by (simp add: trim_def)
  obtain q where "rev s = q @ strip_ws ws_len_rev (rev s)"
    using strip_ws_suffix by blast
  then have "s = trim s @ rev q"
    unfolding t by (metis rev_append rev_rev_ident)
  then show ?thesis
    using assms by (cases "trim s") auto
qed

lemma validate_ssh:
  assumes "validate s = Inr ()" and "ht_transport s = ''ssh''"
  shows "domain_text (trim (ht_ssh_host s))" "user_text (trim (ht_ssh_user s))"
    "ht_ssh_port s \<noteq> 0" "1024 \<le> ht_remote_port s" "1024 \<le> ht_local_port s"
  using assms by (auto simp: validate_def split: option.splits if_splits)

text \<open>The configured ssh account cannot smuggle in an option. When the settings pass the check, the last
  argument ssh gets is the destination \<open>user@host\<close>, it does not start with a dash, and the ports forwarded
  are not privileged ones.\<close>

theorem ssh_destination_no_option:
  assumes "validate s = Inr ()" and "ht_transport s = ''ssh''"
  shows "last (ssh_arguments s) = ssh_destination s \<and> \<not> starts_with ''-'' (ssh_destination s)
     \<and> 1024 \<le> unat (ht_remote_port s) \<and> 1024 \<le> unat (ht_local_port s)"
proof -
  have user: "user_text (trim (ht_ssh_user s))"
    using validate_ssh(2)[OF assms] .
  have "\<not> starts_with ''-'' (ht_ssh_user s)"
  proof
    assume "starts_with ''-'' (ht_ssh_user s)"
    then obtain r where "ht_ssh_user s = CHR ''-'' # r"
      by (auto simp: starts_with_def take_Suc_conv_app_nth split: if_splits elim: starts_withE)
         (cases "ht_ssh_user s"; auto)
    then have "trim (ht_ssh_user s) = [] \<or> hd (trim (ht_ssh_user s)) = CHR ''-''"
      by (rule trim_keeps_dash)
    with user show False
      by (cases "trim (ht_ssh_user s)") (auto simp: user_text_def starts_with_def)
  qed
  moreover have "ht_ssh_user s \<noteq> []"
  proof
    assume "ht_ssh_user s = []"
    then have "trim (ht_ssh_user s) = []"
      using trim_parts[of "ht_ssh_user s"] by simp
    with user show False by (simp add: user_text_def)
  qed
  ultimately have "\<not> starts_with ''-'' (ssh_destination s)"
    by (cases "ht_ssh_user s") (auto simp: ssh_destination_def starts_with_def)
  then show ?thesis
    using validate_ssh(4,5)[OF assms] by (simp add: ssh_arguments_def word_le_nat_alt)
qed

definition sample_https :: HttpsMcpSettings where
  "sample_https = default_https\<lparr>ht_base_url := ''https://a.b'', ht_transport := ''ssh'', ht_ssh_host := ''h'', ht_ssh_user := ''u''\<rparr>"

theorem ssh_destination_no_option_witness:
  "last (ssh_arguments sample_https) = ssh_destination sample_https \<and> \<not> starts_with ''-'' (ssh_destination sample_https)
     \<and> 1024 \<le> unat (ht_remote_port sample_https) \<and> 1024 \<le> unat (ht_local_port sample_https)"
proof (rule ssh_destination_no_option)
  show "validate sample_https = Inr ()" by code_simp
  show "ht_transport sample_https = ''ssh''" by (simp add: sample_https_def)
qed

text \<open>The relay's messages never leave in the clear for another machine, except that the test for the
  loopback interface looks at a prefix of the URL only. An accepted URL is https, or it is http and
  begins with one of the three loopback spellings; \<open>http://localhost.example.com\<close> does, so it is accepted
  and becomes an unencrypted websocket address of that host.\<close>

theorem websocket_encrypted_or_loopback_prefix:
  assumes "websocket_url b p = Inr u"
  shows "starts_with ''wss://'' u \<or> starts_with ''ws://127.0.0.1'' u \<or> starts_with ''ws://localhost'' u
     \<or> starts_with ''ws://[::1]'' u"
proof -
  obtain base where base: "normalized_base_url b = Inr base"
    using assms by (auto simp: websocket_url_def split: sum.splits)
  then consider r where "base = ''https://'' @ r" | r where "base = ''http://127.0.0.1'' @ r"
    | r where "base = ''http://localhost'' @ r" | r where "base = ''http://[::1]'' @ r"
    by (auto simp: normalized_base_url_def Let_def elim!: starts_withE split: if_splits)
  then show ?thesis
    using assms base by cases (auto simp: websocket_url_def strip_prefix_def starts_with_def)
qed

theorem websocket_encrypted_or_loopback_prefix_witness:
  "websocket_url ''http://localhost.example.com'' ''/v1/ws/desktop'' = Inr ''ws://localhost.example.com/v1/ws/desktop''
   \<and> (starts_with ''wss://'' ''ws://localhost.example.com/v1/ws/desktop''
      \<or> starts_with ''ws://127.0.0.1'' ''ws://localhost.example.com/v1/ws/desktop''
      \<or> starts_with ''ws://localhost'' ''ws://localhost.example.com/v1/ws/desktop''
      \<or> starts_with ''ws://[::1]'' ''ws://localhost.example.com/v1/ws/desktop'')"
proof (intro conjI)
  show accepted: "websocket_url ''http://localhost.example.com'' ''/v1/ws/desktop'' = Inr ''ws://localhost.example.com/v1/ws/desktop''"
    by code_simp
  show "starts_with ''wss://'' ''ws://localhost.example.com/v1/ws/desktop''
      \<or> starts_with ''ws://127.0.0.1'' ''ws://localhost.example.com/v1/ws/desktop''
      \<or> starts_with ''ws://localhost'' ''ws://localhost.example.com/v1/ws/desktop''
      \<or> starts_with ''ws://[::1]'' ''ws://localhost.example.com/v1/ws/desktop''"
    by (rule websocket_encrypted_or_loopback_prefix[OF accepted])
qed

end
