(* ===== verification/Transport_Control.thy ===== *)
theory Transport_Control
  imports Remote_Addresses
begin

text \<open>
  Which of the two MCP transports runs: the Secure MCP Tunnel or the HTTPS bridge
  (\<^verbatim>\<open>connection_coordinator.rs\<close>, \<^verbatim>\<open>tunnel_runtime.rs\<close>, \<^verbatim>\<open>tunnel_recovery.rs\<close>, \<^verbatim>\<open>connection_commands.rs\<close> and the
  start and stop commands of \<^verbatim>\<open>https_mcp.rs\<close>, all under \<^verbatim>\<open>src-tauri/src\<close>).

  Every operation here runs under the connection lock and is one step. The supervisor thread that
  \<open>start_inner\<close> spawns and the tunnel runtime are seen as \<open>w_https\<close> and \<open>w_tunnel\<close>: the latter is set as
  soon as the client is told to connect, whatever it answers, and cleared only when a stop is confirmed.
\<close>

section \<open>Recovery status\<close>

definition reconnect_delay_secs :: "nat \<Rightarrow> nat" where
  "reconnect_delay_secs n =
     (if n = 0 \<or> n = 1 then 2 else if n = 2 then 5 else if n = 3 then 10 else if n = 4 then 20 else 30)"

definition ensure_runtime_start_intent :: "Settings \<Rightarrow> bool \<Rightarrow> unit op" where
  "ensure_runtime_start_intent settings required w =
     (if required \<and> (\<not> se_connection_intent settings \<or> \<not> w_desired_connected w)
      then Inl ''tunnel connection intent was cancelled'' else Inr (), w)"

definition restore_desired_connection_intent :: "Settings \<Rightarrow> World \<Rightarrow> World" where
  "restore_desired_connection_intent settings w = w\<lparr>w_desired_connected := se_connection_intent settings\<rparr>"

definition update_runtime_snapshot :: "Outside \<Rightarrow> RuntimeObservation \<Rightarrow> bool \<Rightarrow> Settings \<Rightarrow> World \<Rightarrow> World" where
  "update_runtime_snapshot out ob desired settings w =
     w\<lparr>w_snapshot := project_runtime_snapshot (timestamp_ms out w) (w_snapshot w) ob desired (px_mode (se_proxy settings)) True\<rparr>"

definition reconnect_capability :: "Outside \<Rightarrow> Settings \<Rightarrow> World \<Rightarrow> bool \<times> string" where
  "reconnect_capability out settings w =
     (if \<not> se_connection_intent settings \<or> \<not> w_desired_connected w then (False, ''manually_stopped'')
      else if trim (se_tunnel_id settings) = [] then (False, ''tunnel_not_configured'')
      else if w_reconnecting w \<or> w_reconnect_running w then (False, ''operation_busy'')
      else if (case w_session_key w of Some key \<Rightarrow> trim key \<noteq> [] | None \<Rightarrow> False) \<or> os_saved_key out \<noteq> None then (True, [])
      else (False, ''runtime_key_unavailable''))"

section \<open>The tunnel runtime\<close>

definition cancel_connection_intent :: "World \<Rightarrow> World" where
  "cancel_connection_intent w =
     set_recovery_status ''stopped'' 0 []
       (w\<lparr>w_desired_connected := False, w_reconnecting := False, w_reconnect_attempt := 0, w_session_key := None\<rparr>)"

definition tunnel_gone :: "World \<Rightarrow> World" where
  "tunnel_gone w = note_moment (w\<lparr>w_tunnel := False\<rparr>)"

definition stop_runtime :: "Outside \<Rightarrow> unit op" where
  "stop_runtime out =
     chain (attempt out ''runtime files'') (\<lambda>_.
     chain (run_tunnel out) (\<lambda>output.
       if out_success output \<or> runtime_not_running (output_text output) then modify tunnel_gone
       else raise (''could not stop the tunnel: '' @ output_text output)))"

definition stop_tunnel_without_saving :: "Outside \<Rightarrow> Settings \<Rightarrow> unit op" where
  "stop_tunnel_without_saving out settings =
     chain (modify cancel_connection_intent) (\<lambda>_.
     chain (stop_runtime out) (\<lambda>_.
       modify (update_runtime_snapshot out (idle_observation ''stopped'' []) False settings)))"

definition tunnel_started :: "World \<Rightarrow> World" where
  "tunnel_started w = note_moment (w\<lparr>w_tunnel := True\<rparr>)"

text \<open>The old runtime is stopped first; an automatic reconnect goes on when that fails.\<close>

definition restart_runtime :: "Outside \<Rightarrow> bool \<Rightarrow> unit op" where
  "restart_runtime out reconnect =
     and_then_always (stop_runtime out) (\<lambda>stopped.
       if \<not> isl stopped \<or> reconnect then
         chain (modify tunnel_started) (\<lambda>_.
         chain (run_tunnel out) (\<lambda>output.
           if out_success output then give ()
           else raise (''could not start the tunnel: '' @ output_text output)))
       else from_result stopped)"

definition start_runtime_connection :: "Outside \<Rightarrow> string \<Rightarrow> string \<Rightarrow> bool \<Rightarrow> bool \<Rightarrow> unit op" where
  "start_runtime_connection out tunnel_id key reconnect require_intent =
     chain (load_settings out) (\<lambda>current.
     chain (ensure_runtime_start_intent current require_intent) (\<lambda>_.
       if reconnect \<and> \<not> se_auto_reconnect current then give ()
       else
       chain (attempts out [''runtime files'', ''state directory'', ''commander home'', ''create profile directory'',
                ''create commander home'']) (\<lambda>_.
       restart_runtime out reconnect)))"

definition tunnel_status :: "Outside \<Rightarrow> World \<Rightarrow> RuntimeObservation \<times> World" where
  "tunnel_status out w =
     (case run_tunnel out w of (outcome, w1) \<Rightarrow> (runtime_status (os_log out) (os_parse_value out) outcome, w1))"

definition load_runtime_key :: "Outside \<Rightarrow> string \<Rightarrow> string op" where
  "load_runtime_key out supplied =
     (if trim supplied \<noteq> [] then give (trim supplied)
      else chain (attempt out ''secret path'') (\<lambda>_.
        case os_saved_key out of
          None \<Rightarrow> raise ''enter a runtime key or save one first''
        | Some value \<Rightarrow>
            chain (attempt out ''unprotect runtime key'') (\<lambda>_.
              if trim value = [] then raise ''the saved runtime key is empty'' else give value)))"

section \<open>The HTTPS supervisor\<close>

definition https_stopped :: "World \<Rightarrow> World" where
  "https_stopped w = note_moment (w\<lparr>w_https := False\<rparr>)"

definition stop_inner :: "unit op" where
  "stop_inner = modify https_stopped"

text \<open>Reading the relay credentials, the bridge's files and the OAuth key are calls of the outside.\<close>

definition start_inner :: "Outside \<Rightarrow> HttpsMcpSettings \<Rightarrow> unit op" where
  "start_inner out settings =
     chain (from_result (validate settings)) (\<lambda>_ w.
       if w_https w then (Inr (), w)
       else chain (attempts out ((if ht_transport settings = ''wss'' then [''relay credentials'', ''relay address''] else [])
                     @ [''runtime files'', ''state directory'', ''create commander home'', ''oauth key'']))
              (\<lambda>_. modify (\<lambda>w. note_moment (w\<lparr>w_https := True\<rparr>))) w)"

section \<open>The coordinator\<close>

definition other_transport :: "Transport \<Rightarrow> Transport" where
  "other_transport t = (case t of HttpsMcp \<Rightarrow> Tunnel | Tunnel \<Rightarrow> HttpsMcp)"

definition stage_mode_switch ::
  "Transport \<Rightarrow> (Transport \<Rightarrow> unit op) \<Rightarrow> unit op \<Rightarrow> unit op \<Rightarrow> unit op" where
  "stage_mode_switch target mark stop_existing persist =
     chain (mark target) (\<lambda>_.
     chain (mark (other_transport target)) (\<lambda>_.
     chain stop_existing (\<lambda>_. persist)))"

definition ensure_available :: "unit op" where
  "ensure_available w = (if w_quitting w then Inl ''ChatX is quitting'' else Inr (), w)"

definition disable_both :: "Settings \<Rightarrow> Settings" where
  "disable_both s = s\<lparr>se_connection_intent := False, se_https_mcp := (se_https_mcp s)\<lparr>ht_enabled := False\<rparr>\<rparr>"

definition persist_disabled :: "Outside \<Rightarrow> unit op" where
  "persist_disabled out = chain (update_settings out disable_both) (\<lambda>_. give ())"

definition prepare_https :: "Outside \<Rightarrow> unit op" where
  "prepare_https out =
     stage_mode_switch HttpsMcp (mark_stopped out)
       (chain stop_inner (\<lambda>_. chain (load_settings out) (\<lambda>previous. stop_tunnel_without_saving out previous)))
       (persist_disabled out)"

definition prepare_tunnel :: "Outside \<Rightarrow> unit op" where
  "prepare_tunnel out = stage_mode_switch Tunnel (mark_stopped out) stop_inner (persist_disabled out)"

definition stop_all :: "Outside \<Rightarrow> unit op" where
  "stop_all out =
     and_then_always (mark_stopped out HttpsMcp) (\<lambda>https_marker.
     and_then_always (mark_stopped out Tunnel) (\<lambda>tunnel_marker.
     chain stop_inner (\<lambda>_.
     chain (load_settings out) (\<lambda>settings.
     and_then_always (stop_tunnel_without_saving out settings) (\<lambda>stopped.
     and_then_always (update_settings out disable_both) (\<lambda>saved.
     chain (from_result stopped) (\<lambda>_.
     chain (from_result saved) (\<lambda>_.
     chain (from_result https_marker) (\<lambda>_. from_result tunnel_marker)))))))))"

section \<open>Commands\<close>

definition stop_requested :: "Outside \<Rightarrow> unit op" where
  "stop_requested out =
     and_then_always (mark_stopped out Tunnel) (\<lambda>marker.
     chain (load_settings out) (\<lambda>settings.
     and_then_always (stop_tunnel_without_saving out settings) (\<lambda>stopped.
     and_then_always (update_settings out (\<lambda>s. s\<lparr>se_connection_intent := False\<rparr>)) (\<lambda>saved.
     chain (from_result stopped) (\<lambda>_.
     chain (from_result saved) (\<lambda>_. from_result marker))))))"

definition https_disabled :: "Settings \<Rightarrow> Settings" where
  "https_disabled s = s\<lparr>se_https_mcp := (se_https_mcp s)\<lparr>ht_enabled := False\<rparr>\<rparr>"

definition https_stop_requested :: "Outside \<Rightarrow> unit op" where
  "https_stop_requested out =
     and_then_always (mark_stopped out HttpsMcp) (\<lambda>marker.
     chain stop_inner (\<lambda>_.
     and_then_always (update_settings out https_disabled) (\<lambda>saved.
       if isl marker then chain (from_result saved) (\<lambda>_. from_result marker)
       else chain (from_result saved) (\<lambda>_. give ()))))"

definition start_https_mcp :: "Outside \<Rightarrow> HttpsMcpSettings \<Rightarrow> unit op" where
  "start_https_mcp out config0 =
     chain ensure_available (\<lambda>_.
     chain (load_settings out) (\<lambda>saved.
       let config = config0\<lparr>ht_authorization_ttl_hours := ht_authorization_ttl_hours (se_https_mcp saved),
                            ht_auto_reconnect := ht_auto_reconnect (se_https_mcp saved)\<rparr> in
     chain (from_result (validate config)) (\<lambda>_.
     chain (prepare_https out) (\<lambda>_.
     chain (start_inner out config) (\<lambda>_.
     and_then_always (update_settings out
         (\<lambda>s. s\<lparr>se_connection_intent := False, se_https_mcp := config\<lparr>ht_enabled := True\<rparr>\<rparr>)) (\<lambda>updated.
       case updated of
         Inl e \<Rightarrow> chain stop_inner (\<lambda>_. raise e)
       | Inr _ \<Rightarrow>
           and_then_always (clear_stopped out HttpsMcp) (\<lambda>cleared.
             case cleared of
               Inl e \<Rightarrow> chain stop_inner (\<lambda>_. and_then_always (update_settings out https_disabled) (\<lambda>_. raise e))
             | Inr _ \<Rightarrow> give ())))))))"

definition tunnel_settings :: "string \<Rightarrow> bool \<Rightarrow> Settings \<Rightarrow> Settings" where
  "tunnel_settings tunnel_id remember_key s =
     s\<lparr>se_tunnel_id := tunnel_id, se_remember_key := remember_key, se_connection_intent := True,
       se_https_mcp := (se_https_mcp s)\<lparr>ht_enabled := False\<rparr>\<rparr>"

text \<open>Leaving \<open>connect_tunnel\<close> on an error after the runtime was started: the runtime is stopped, whatever that
  returns, and the error is reported.\<close>

definition roll_back :: "Outside \<Rightarrow> string \<Rightarrow> unit op" where
  "roll_back out e = and_then_always (stop_runtime out) (\<lambda>_. raise e)"

definition connect_prepared :: "World \<Rightarrow> World" where
  "connect_prepared w = set_recovery_status ''reconnecting'' 0 []
     (w\<lparr>w_desired_connected := False, w_reconnecting := False, w_reconnect_attempt := 0\<rparr>)"

definition connected :: "Outside \<Rightarrow> Settings \<Rightarrow> unit op" where
  "connected out settings =
     and_then_always (attempt out ''runtime files'') (\<lambda>files w.
       if isl files then (Inr (), w)
       else let (ob, w1) = tunnel_status out w in
         (Inr (), set_recovery_status (if ro_active ob then ''idle'' else ''verifying'') 0
            (if ro_active ob then [] else ''waiting for the tunnel'') (update_runtime_snapshot out ob True settings w1)))"

definition store_runtime_key :: "Outside \<Rightarrow> bool \<Rightarrow> unit op" where
  "store_runtime_key out remember_key =
     (if remember_key then attempts out [''secret path'', ''protect runtime key''] else attempt out ''clear runtime key'')"

text \<open>The end of \<open>connect_tunnel\<close>, in the order of the source: the settings are saved, the key is stored, the stop
  marker is removed. Every failure on the way undoes what was done.\<close>

definition clear_marker :: "Outside \<Rightarrow> Settings \<Rightarrow> unit op" where
  "clear_marker out next_settings =
     and_then_always (clear_stopped out Tunnel) (\<lambda>cleared.
       case cleared of
         Inl e \<Rightarrow>
           chain (modify cancel_connection_intent) (\<lambda>_.
           and_then_always (stop_runtime out) (\<lambda>_.
           and_then_always (update_settings out (\<lambda>s. s\<lparr>se_connection_intent := False\<rparr>)) (\<lambda>_. raise e)))
       | Inr _ \<Rightarrow> connected out next_settings)"

definition keep_runtime_key :: "Outside \<Rightarrow> bool \<Rightarrow> Settings \<Rightarrow> Settings \<Rightarrow> unit op" where
  "keep_runtime_key out remember_key previous next_settings =
     and_then_always (store_runtime_key out remember_key) (\<lambda>stored.
       case stored of
         Inl e \<Rightarrow>
           and_then_always (update_settings out (\<lambda>s. s\<lparr>se_tunnel_id := se_tunnel_id previous,
               se_remember_key := se_remember_key previous, se_connection_intent := se_connection_intent previous\<rparr>))
             (\<lambda>_. chain (modify cancel_connection_intent) (\<lambda>_. roll_back out e))
       | Inr _ \<Rightarrow> clear_marker out next_settings)"

definition commit_connection :: "Outside \<Rightarrow> string \<Rightarrow> bool \<Rightarrow> Settings \<Rightarrow> unit op" where
  "commit_connection out tunnel_id remember_key previous =
     chain (modify (\<lambda>w. w\<lparr>w_desired_connected := True\<rparr>)) (\<lambda>_.
     and_then_always (update_settings out (tunnel_settings tunnel_id remember_key)) (\<lambda>saved.
       case saved of
         Inl e \<Rightarrow> chain (modify cancel_connection_intent) (\<lambda>_. roll_back out e)
       | Inr next_settings \<Rightarrow> keep_runtime_key out remember_key previous next_settings))"

definition connect_tunnel :: "Outside \<Rightarrow> string \<Rightarrow> string \<Rightarrow> bool \<Rightarrow> unit op" where
  "connect_tunnel out tunnel_id0 runtime_key remember_key =
     (let tunnel_id = trim tunnel_id0 in
      if \<not> starts_with ''tunnel_'' tunnel_id then raise ''the tunnel id must start with tunnel_''
      else
      chain (load_runtime_key out runtime_key) (\<lambda>key.
      chain ensure_available (\<lambda>_.
      chain (prepare_tunnel out) (\<lambda>_.
      chain (load_settings out) (\<lambda>previous.
      chain (modify (\<lambda>w. connect_prepared w\<lparr>w_session_key := Some key\<rparr>)) (\<lambda>_.
      and_then_always (start_runtime_connection out tunnel_id key False False) (\<lambda>started.
        case started of
          Inl e \<Rightarrow> chain (modify cancel_connection_intent) (\<lambda>_. raise e)
        | Inr _ \<Rightarrow> commit_connection out tunnel_id remember_key previous)))))))"

section \<open>Startup\<close>

text \<open>Startup after a failed read of the settings: nothing is wanted, and a runtime that survived is stopped.\<close>

definition clean_up :: "Outside \<Rightarrow> Settings \<Rightarrow> bool \<Rightarrow> World \<Rightarrow> RuntimeObservation \<times> World" where
  "clean_up out settings wanted w =
     (let (ob, w1) = tunnel_status out w in
      if \<not> wanted \<and> (ro_runtime_alive ob \<or> ro_active ob) then
        (case stop_runtime out w1 of
           (Inl _, w2) \<Rightarrow> (ob, w2)
         | (Inr _, w2) \<Rightarrow> tunnel_status out w2)
      else (ob, w1))"

definition migrated :: "Outside \<Rightarrow> Settings \<Rightarrow> Settings op" where
  "migrated out settings =
     (if ht_enabled (se_https_mcp settings) \<and> se_connection_intent settings then
        and_then_always (mark_stopped out Tunnel) (\<lambda>_.
        and_then_always (update_settings out
            (\<lambda>current. if ht_enabled (se_https_mcp current) then current\<lparr>se_connection_intent := False\<rparr> else current)) (\<lambda>_.
          give (settings\<lparr>se_connection_intent := False\<rparr>)))
      else give settings)"

definition honour_marker :: "Outside \<Rightarrow> Settings \<Rightarrow> Settings op" where
  "honour_marker out settings =
     (if se_connection_intent settings then
        and_then_always (restore_allowed out Tunnel) (\<lambda>allowed.
          give (if allowed = Inr True then settings else settings\<lparr>se_connection_intent := False\<rparr>))
      else give settings)"

definition restore_session_key :: "Outside \<Rightarrow> unit op" where
  "restore_session_key out =
     (if os_saved_key out = None then give ()
      else and_then_always (load_runtime_key out []) (\<lambda>key w.
        (Inr (), case key of Inl _ \<Rightarrow> w | Inr k \<Rightarrow> w\<lparr>w_session_key := Some k\<rparr>)))"

definition restore_persisted_connection_state :: "Outside \<Rightarrow> unit op" where
  "restore_persisted_connection_state out =
     and_then_always (load_settings_checked out) (\<lambda>loaded.
       case loaded of
         Inl e \<Rightarrow>
           chain (modify (\<lambda>w. set_recovery_status ''stopped'' 0 e
                            (restore_desired_connection_intent default_settings w))) (\<lambda>_.
           and_then_always (attempt out ''runtime files'') (\<lambda>files w.
             if isl files then (Inr (), w)
             else let (ob, w1) = clean_up out default_settings False w in
               (Inr (), update_runtime_snapshot out ob False default_settings w1)))
       | Inr settings0 \<Rightarrow>
           chain (migrated out settings0) (\<lambda>settings1.
           chain (honour_marker out settings1) (\<lambda>settings.
           chain (modify (restore_desired_connection_intent settings)) (\<lambda>_.
           and_then_always (attempt out ''runtime files'') (\<lambda>files w.
             if isl files then (Inr (), w)
             else let (ob, w1) = clean_up out settings (se_connection_intent settings) w;
                      w2 = update_runtime_snapshot out ob (se_connection_intent settings) settings w1
               in if \<not> se_connection_intent settings then (Inr (), w2)
                  else if trim (se_tunnel_id settings) = []
                  then (Inr (), set_recovery_status ''failed'' 0 ''connection intent without tunnel id''
                                  (w2\<lparr>w_desired_connected := False\<rparr>))
                  else restore_session_key out w2)))))"

definition https_restore :: "Outside \<Rightarrow> unit op" where
  "https_restore out =
     chain (load_settings out) (\<lambda>settings.
     and_then_always (restore_allowed out HttpsMcp) (\<lambda>allowed.
       if ht_enabled (se_https_mcp settings) \<and> allowed = Inr True then
         and_then_always (attempt out ''runtime files'') (\<lambda>files w.
           if isl files then (Inr (), w)
           else let (ob, w1) = tunnel_status out w in
             if ro_runtime_alive ob \<or> ro_active ob then (Inr (), w1)
             else and_then_always (start_inner out (se_https_mcp settings)) (\<lambda>_. give ()) w1)
       else give ()))"

definition startup :: "Outside \<Rightarrow> unit op" where
  "startup out = chain (restore_persisted_connection_state out) (\<lambda>_. https_restore out)"

section \<open>Effects\<close>

lemma world_sel [simp]:
  "w_file (cancel_connection_intent w) = w_file w" "w_stopped (cancel_connection_intent w) = w_stopped w"
  "w_tunnel (cancel_connection_intent w) = w_tunnel w" "w_https (cancel_connection_intent w) = w_https w"
  "w_quitting (cancel_connection_intent w) = w_quitting w" "\<not> w_desired_connected (cancel_connection_intent w)"
  "w_session_key (cancel_connection_intent w) = None" "w_trace (cancel_connection_intent w) = w_trace w"
  "file_settings out (cancel_connection_intent w) = file_settings out w"
  "moment_of (cancel_connection_intent w) = moment_of w"
  by (simp_all add: cancel_connection_intent_def file_settings_def moment_of_def)

lemma snapshot_sel [simp]:
  "w_file (update_runtime_snapshot out ob d s w) = w_file w" "w_stopped (update_runtime_snapshot out ob d s w) = w_stopped w"
  "w_tunnel (update_runtime_snapshot out ob d s w) = w_tunnel w" "w_https (update_runtime_snapshot out ob d s w) = w_https w"
  "w_quitting (update_runtime_snapshot out ob d s w) = w_quitting w"
  "w_desired_connected (update_runtime_snapshot out ob d s w) = w_desired_connected w"
  "w_session_key (update_runtime_snapshot out ob d s w) = w_session_key w"
  "w_trace (update_runtime_snapshot out ob d s w) = w_trace w"
  "file_settings out (update_runtime_snapshot out ob d s w) = file_settings out w"
  "moment_of (update_runtime_snapshot out ob d s w) = moment_of w"
  by (simp_all add: update_runtime_snapshot_def file_settings_def moment_of_def)

lemma transport_sel [simp]:
  "w_file (tunnel_gone w) = w_file w" "w_stopped (tunnel_gone w) = w_stopped w" "\<not> w_tunnel (tunnel_gone w)"
  "w_https (tunnel_gone w) = w_https w" "w_quitting (tunnel_gone w) = w_quitting w"
  "w_desired_connected (tunnel_gone w) = w_desired_connected w" "w_session_key (tunnel_gone w) = w_session_key w"
  "file_settings out (tunnel_gone w) = file_settings out w"
  "w_trace (tunnel_gone w) = w_trace w @ [(moment_of w)\<lparr>mo_tunnel := False\<rparr>]"
  "w_file (tunnel_started w) = w_file w" "w_stopped (tunnel_started w) = w_stopped w" "w_tunnel (tunnel_started w)"
  "w_https (tunnel_started w) = w_https w" "w_quitting (tunnel_started w) = w_quitting w"
  "w_desired_connected (tunnel_started w) = w_desired_connected w" "w_session_key (tunnel_started w) = w_session_key w"
  "file_settings out (tunnel_started w) = file_settings out w"
  "w_trace (tunnel_started w) = w_trace w @ [(moment_of w)\<lparr>mo_tunnel := True\<rparr>]"
  "w_file (https_stopped w) = w_file w" "w_stopped (https_stopped w) = w_stopped w" "\<not> w_https (https_stopped w)"
  "w_tunnel (https_stopped w) = w_tunnel w" "w_quitting (https_stopped w) = w_quitting w"
  "w_desired_connected (https_stopped w) = w_desired_connected w" "w_session_key (https_stopped w) = w_session_key w"
  "file_settings out (https_stopped w) = file_settings out w"
  "w_trace (https_stopped w) = w_trace w @ [(moment_of w)\<lparr>mo_https := False\<rparr>]"
  by (simp_all add: tunnel_gone_def tunnel_started_def https_stopped_def file_settings_def note_moment_def moment_of_def)

lemma wp_load_runtime_key:
  assumes "\<And>r c t. Q r (ticked c t w)"
  shows "wp (load_runtime_key out supplied) Q w"
proof -
  have "Q r w" for r
    using assms[of r "w_calls w" "w_clock w"] by (simp add: ticked_same)
  with assms show ?thesis
    unfolding load_runtime_key_def by (auto intro!: wp_attempt split: sum.splits option.splits)
qed

lemma wp_stop_runtime:
  assumes "\<And>e c t. Q (Inl e) (ticked c t w)" and "\<And>c t. Q (Inr ()) (tunnel_gone (ticked c t w))"
  shows "wp (stop_runtime out) Q w"
  using assms unfolding stop_runtime_def
  by (auto intro!: wp_attempt wp_run_tunnel split: sum.splits)

lemma wp_stop_tunnel:
  assumes "\<And>e c t. Q (Inl e) (ticked c t (cancel_connection_intent w))"
    and "\<And>c t ob d s. Q (Inr ()) (update_runtime_snapshot out ob d s (tunnel_gone (ticked c t (cancel_connection_intent w))))"
  shows "wp (stop_tunnel_without_saving out settings) Q w"
  using assms unfolding stop_tunnel_without_saving_def
  by (auto intro!: wp_stop_runtime split: sum.splits)

text \<open>The user wants the tunnel, in memory and on disk; a reconnect must be allowed there, too.\<close>

definition tunnel_wanted :: "Outside \<Rightarrow> bool \<Rightarrow> World \<Rightarrow> bool" where
  "tunnel_wanted out reconnect w \<longleftrightarrow> w_desired_connected w
     \<and> (\<exists>s. file_settings out w = Inr s \<and> se_connection_intent s \<and> (reconnect \<longrightarrow> se_auto_reconnect s))"

lemma wp_if: "wp (\<lambda>w. if P w then f w else g w) Q w = (if P w then wp f Q w else wp g Q w)"
  by (simp add: wp_def)

lemma wp_start_runtime:
  assumes noop: "\<And>r c t. (r = Inr () \<longrightarrow> reconnect) \<Longrightarrow> Q r (ticked c t w)"
    and started: "\<And>r w1 c t c2 t2. w1 = ticked c t w \<or> w1 = tunnel_gone (ticked c t w) \<Longrightarrow>
      (require_intent \<longrightarrow> tunnel_wanted out reconnect w) \<Longrightarrow> Q r (ticked c2 t2 (tunnel_started w1))"
  shows "wp (start_runtime_connection out i key reconnect require_intent) Q w"
proof -
  have run: "wp (chain (modify tunnel_started) (\<lambda>_. chain (run_tunnel out) (\<lambda>output. if out_success output then give ()
       else raise (''could not start the tunnel: '' @ output_text output)))) Q w1"
    if "w1 = ticked c t w \<or> w1 = tunnel_gone (ticked c t w)" "require_intent \<longrightarrow> tunnel_wanted out reconnect w" for w1 c t
    using started[OF that] by (auto intro!: wp_run_tunnel split: sum.splits)
  have restart: "wp (restart_runtime out b) Q (ticked c t w)"
    if "b = reconnect" "require_intent \<longrightarrow> tunnel_wanted out reconnect w" for b c t
    unfolding restart_runtime_def wp_and_then_always
    by (rule wp_stop_runtime) (use run that noop in \<open>auto simp del: wp_chain\<close>)
  show ?thesis
    unfolding start_runtime_connection_def ensure_runtime_start_intent_def
    by (auto intro!: wp_load_settings wp_attempts noop restart simp: tunnel_wanted_def default_settings_def split: sum.splits)
qed

definition https_started :: "World \<Rightarrow> World" where
  "https_started w = note_moment (w\<lparr>w_https := True\<rparr>)"

lemma https_started_sel [simp]:
  "w_file (https_started w) = w_file w" "w_stopped (https_started w) = w_stopped w" "w_https (https_started w)"
  "w_tunnel (https_started w) = w_tunnel w" "w_quitting (https_started w) = w_quitting w"
  "w_desired_connected (https_started w) = w_desired_connected w"
  "file_settings out (https_started w) = file_settings out w"
  by (simp_all add: https_started_def file_settings_def)

lemma wp_start_inner:
  assumes "\<And>e c t. Q (Inl e) (ticked c t w)" and "\<And>c t. validate s = Inr () \<Longrightarrow> Q (Inr ()) (https_started (ticked c t w))"
    and "w_https w \<Longrightarrow> Q (Inr ()) w"
  shows "wp (start_inner out s) Q w"
proof (cases "validate s")
  case (Inl e)
  with assms(1)[of e "w_calls w" "w_clock w"] show ?thesis
    by (simp add: start_inner_def ticked_same)
next
  case (Inr u)
  have "wp (\<lambda>w. if w_https w then (Inr (), w) else chain (attempts out es) (\<lambda>_. modify (\<lambda>w. note_moment (w\<lparr>w_https := True\<rparr>))) w) Q w" for es
  proof (cases "w_https w")
    case True
    with assms(3) show ?thesis by (simp add: wp_def)
  next
    case False
    have "wp (chain (attempts out es) (\<lambda>_. modify (\<lambda>w. note_moment (w\<lparr>w_https := True\<rparr>)))) Q w"
      using assms(1,2) Inr by (auto intro!: wp_attempts simp: https_started_def split: sum.splits)
    with False show ?thesis by (simp add: wp_def)
  qed
  with Inr show ?thesis by (simp add: start_inner_def)
qed

end
