(* ===== verification/Settings_Text.thy ===== *)
theory Settings_Text
  imports Desktop_State
begin

text \<open>
  A printer and a parser of settings that keep what the development asks of serde (\<open>faithful\<close>): a witness
  that this hypothesis can hold. The format is not the program's JSON; a value is printed as its
  components in order, each with its own end.
\<close>

type_synonym 'a codec = "('a \<Rightarrow> string) \<times> (string \<Rightarrow> ('a \<times> string) option)"

definition codec_ok :: "'a codec \<Rightarrow> bool" where
  "codec_ok c \<longleftrightarrow> (\<forall>a rest. snd c (fst c a @ rest) = Some (a, rest))"

fun read_text :: "string \<Rightarrow> (string \<times> string) option" where
  "read_text [] = None"
| "read_text (c # r) =
     (if c = CHR ''.'' then Some ([], r)
      else case r of [] \<Rightarrow> None | d # r' \<Rightarrow> map_option (\<lambda>(s, t). (d # s, t)) (read_text r'))"

definition text_codec :: "string codec" where
  "text_codec = (\<lambda>s. concat (map (\<lambda>c. [CHR ''x'', c]) s) @ ''.'', read_text)"

definition bool_codec :: "bool codec" where
  "bool_codec = (\<lambda>b. if b then ''t'' else ''f'',
     \<lambda>t. case t of [] \<Rightarrow> None | c # r \<Rightarrow> Some (c = CHR ''t'', r))"

definition word_codec :: "'w::len word codec" where
  "word_codec = (\<lambda>w. replicate (unat w) CHR ''1'' @ ''.'',
     \<lambda>t. Some (of_nat (length (takeWhile (\<lambda>c. c = CHR ''1'') t)), tl (dropWhile (\<lambda>c. c = CHR ''1'') t)))"

definition pair_codec :: "'a codec \<Rightarrow> 'b codec \<Rightarrow> ('a \<times> 'b) codec" where
  "pair_codec c d = (\<lambda>(a, b). fst c a @ fst d b,
     \<lambda>t. case snd c t of None \<Rightarrow> None | Some (a, r) \<Rightarrow> map_option (\<lambda>(b, r'). ((a, b), r')) (snd d r))"

definition option_codec :: "'a codec \<Rightarrow> 'a option codec" where
  "option_codec c = (\<lambda>x. case x of None \<Rightarrow> ''n'' | Some a \<Rightarrow> ''s'' @ fst c a,
     \<lambda>t. case t of [] \<Rightarrow> None
       | k # r \<Rightarrow> if k = CHR ''n'' then Some (None, r) else map_option (\<lambda>(a, r'). (Some a, r')) (snd c r))"

definition via :: "('b \<Rightarrow> 'a) \<Rightarrow> ('a \<Rightarrow> 'b) \<Rightarrow> 'a codec \<Rightarrow> 'b codec" where
  "via f g c = (\<lambda>b. fst c (f b), \<lambda>t. map_option (\<lambda>(a, r). (g a, r)) (snd c t))"

lemma text_codec_ok: "codec_ok text_codec"
proof -
  have "read_text (concat (map (\<lambda>c. [CHR ''x'', c]) s) @ CHR ''.'' # rest) = Some (s, rest)" for s rest
    by (induction s) simp_all
  then show ?thesis by (simp add: codec_ok_def text_codec_def)
qed

lemma bool_codec_ok: "codec_ok bool_codec"
  by (simp add: codec_ok_def bool_codec_def)

lemma word_codec_ok: "codec_ok (word_codec :: 'w::len word codec)"
  by (simp add: codec_ok_def word_codec_def takeWhile_append dropWhile_append)

lemma pair_codec_ok: "codec_ok c \<Longrightarrow> codec_ok d \<Longrightarrow> codec_ok (pair_codec c d)"
  by (simp add: codec_ok_def pair_codec_def)

lemma option_codec_ok: "codec_ok c \<Longrightarrow> codec_ok (option_codec c)"
  by (auto simp: codec_ok_def option_codec_def split: option.split)

lemma via_ok: "codec_ok c \<Longrightarrow> (\<And>b. g (f b) = b) \<Longrightarrow> codec_ok (via f g c)"
  by (simp add: codec_ok_def via_def)

definition proxy_codec :: "ProxySettings codec" where
  "proxy_codec = via (\<lambda>p. (px_mode p, px_url p, px_applied_url p))
     (\<lambda>(m, u, a). \<lparr>px_mode = m, px_url = u, px_applied_url = a\<rparr>)
     (pair_codec text_codec (pair_codec text_codec text_codec))"

definition relay_codec :: "RelaySettings codec" where
  "relay_codec = via (\<lambda>r. (rl_enabled r, rl_base_url r)) (\<lambda>(e, b). \<lparr>rl_enabled = e, rl_base_url = b\<rparr>)
     (pair_codec bool_codec text_codec)"

definition https_codec :: "HttpsMcpSettings codec" where
  "https_codec = via
     (\<lambda>h. (ht_enabled h, ht_auto_reconnect h, ht_base_url h, ht_transport h, ht_ssh_host h, ht_ssh_user h,
        ht_ssh_port h, ht_local_port h, ht_remote_port h, ht_authorization_ttl_hours h))
     (\<lambda>(e, a, b, t, h, u, p, l, r, x). \<lparr>ht_enabled = e, ht_auto_reconnect = a, ht_base_url = b, ht_transport = t,
        ht_ssh_host = h, ht_ssh_user = u, ht_ssh_port = p, ht_local_port = l, ht_remote_port = r,
        ht_authorization_ttl_hours = x\<rparr>)
     (pair_codec bool_codec (pair_codec bool_codec (pair_codec text_codec (pair_codec text_codec
       (pair_codec text_codec (pair_codec text_codec (pair_codec word_codec (pair_codec word_codec
       (pair_codec word_codec (option_codec word_codec))))))))))"

definition settings_codec :: "Settings codec" where
  "settings_codec = via
     (\<lambda>s. (se_tunnel_id s, se_remember_key s, se_auto_reconnect s, se_connection_intent s, se_monitor_enabled s,
        se_monitor_port s, se_proxy s, se_relay s, se_https_mcp s))
     (\<lambda>(i, k, a, c, m, p, x, r, h). \<lparr>se_tunnel_id = i, se_remember_key = k, se_auto_reconnect = a,
        se_connection_intent = c, se_monitor_enabled = m, se_monitor_port = p, se_proxy = x, se_relay = r,
        se_https_mcp = h\<rparr>)
     (pair_codec text_codec (pair_codec bool_codec (pair_codec bool_codec (pair_codec bool_codec
       (pair_codec bool_codec (pair_codec word_codec (pair_codec proxy_codec (pair_codec relay_codec https_codec))))))))"

lemma settings_codec_ok: "codec_ok settings_codec"
  unfolding settings_codec_def proxy_codec_def relay_codec_def https_codec_def
  by (intro via_ok pair_codec_ok option_codec_ok text_codec_ok bool_codec_ok word_codec_ok; simp)

definition calm_outside :: Outside where
  "calm_outside = \<lparr>os_ok = (\<lambda>_. True), os_run = (\<lambda>_. Inr \<lparr>out_success = True, out_stdout = [], out_stderr = []\<rparr>),
     os_now = (\<lambda>_. 0), os_elapsed = (\<lambda>_. 0), os_parse_settings = (\<lambda>t. map_option fst (snd settings_codec t)),
     os_parse_value = (\<lambda>_. None), os_print_settings = fst settings_codec, os_system_proxy = None,
     os_saved_key = None, os_log = (id, \<lambda>_. None)\<rparr>"

lemma calm_faithful: "faithful calm_outside"
  using settings_codec_ok by (simp add: faithful_def calm_outside_def codec_ok_def)

definition fresh_world :: World where
  "fresh_world = \<lparr>w_calls = 0, w_clock = 0, w_file = None, w_stopped = (\<lambda>_. False), w_tunnel = False,
     w_https = False, w_quitting = False, w_desired_connected = False, w_reconnecting = False, w_reconnect_attempt = 0,
     w_recovery = default_recovery, w_snapshot = default_snapshot, w_session_key = None, w_reconnect_running = False,
     w_last_reconnect_at = 0, w_trace = []\<rparr>"

end
