(* ===== verification/Transport_Safety.thy ===== *)
theory Transport_Safety
  imports Transport_Control Settings_Text
begin

text \<open>
  What the transport operations keep: a switch of the transport shuts down nothing before both stop markers
  are on disk, a crash at any moment of it restores neither transport, and the two transports never run
  together whatever commands, restarts and reconnects are interleaved.
\<close>

section \<open>Switching\<close>

definition barred :: "Moment \<Rightarrow> bool" where
  "barred m \<longleftrightarrow> mo_stopped m Tunnel \<and> mo_stopped m HttpsMcp"

definition untouched :: "World \<Rightarrow> Moment \<Rightarrow> bool" where
  "untouched w m \<longleftrightarrow> mo_tunnel m = w_tunnel w \<and> mo_https m = w_https w"

definition neither_wanted :: "Outside \<Rightarrow> World \<Rightarrow> bool" where
  "neither_wanted out w \<longleftrightarrow> (case file_settings out w of Inl _ \<Rightarrow> False
     | Inr s \<Rightarrow> \<not> se_connection_intent s \<and> \<not> ht_enabled (se_https_mcp s))"

lemma moment_of_sel [simp]:
  "mo_file (moment_of w) = w_file w" "mo_stopped (moment_of w) = w_stopped w"
  "mo_tunnel (moment_of w) = w_tunnel w" "mo_https (moment_of w) = w_https w"
  by (simp_all add: moment_of_def)

lemma disable_both_sel [simp]:
  "\<not> se_connection_intent (disable_both s)" "\<not> ht_enabled (se_https_mcp (disable_both s))"
  "se_tunnel_id (disable_both s) = se_tunnel_id s"
  by (simp_all add: disable_both_def)

lemma saved_disabled: "faithful out \<Longrightarrow> neither_wanted out (saved out (disable_both s) w)"
  by (simp add: neither_wanted_def file_settings_saved)

lemma neither_wanted_ticked [simp]: "neither_wanted out (ticked c t w) = neither_wanted out w"
  by (simp add: neither_wanted_def)

definition switch_kept :: "Outside \<Rightarrow> bool \<Rightarrow> World \<Rightarrow> string + unit \<Rightarrow> World \<Rightarrow> bool" where
  "switch_kept out tunnel_too w r w' \<longleftrightarrow>
     (\<forall>m \<in> set (w_trace w') - set (w_trace w). untouched w m \<or> barred m)
   \<and> (untouched w (moment_of w') \<or> barred (moment_of w'))
   \<and> (r = Inr () \<longrightarrow> barred (moment_of w') \<and> \<not> w_https w' \<and> (tunnel_too \<longrightarrow> \<not> w_tunnel w') \<and> neither_wanted out w')"

lemma wp_persist_disabled:
  assumes "\<And>e c t. Q (Inl e) (ticked c t w)"
    and "\<And>s c t. file_settings out w = Inr s \<Longrightarrow> Q (Inr ()) (saved out (disable_both s) (ticked c t w))"
  shows "wp (persist_disabled out) Q w"
  using assms unfolding persist_disabled_def by (auto intro!: wp_update_settings)

lemma prepare_https_kept: "faithful out \<Longrightarrow> wp (prepare_https out) (switch_kept out True w) w"
  unfolding prepare_https_def stage_mode_switch_def other_transport_def
  by (auto intro!: wp_mark_stopped wp_load_settings wp_stop_tunnel wp_persist_disabled split: sum.splits
      simp: stop_inner_def switch_kept_def untouched_def barred_def saved_disabled)

lemma prepare_tunnel_kept: "faithful out \<Longrightarrow> wp (prepare_tunnel out) (switch_kept out False w) w"
  unfolding prepare_tunnel_def stage_mode_switch_def other_transport_def
  by (auto intro!: wp_mark_stopped wp_persist_disabled split: sum.splits
      simp: stop_inner_def switch_kept_def untouched_def barred_def saved_disabled)

section \<open>Starting again\<close>

lemma tunnel_status_ticks: "\<exists>ob c t. tunnel_status out w = (ob, ticked c t w)"
proof -
  have "tunnel_status out w = (runtime_status (os_log out) (os_parse_value out) (os_run out (w_calls w)),
      ticked (Suc (w_calls w)) (w_clock w + os_elapsed out (w_calls w)) w)"
    by (simp add: tunnel_status_def run_tunnel_def passed_def ticked_def)
  then show ?thesis by blast
qed

lemma clean_up_effect:
  "\<exists>ob c t. clean_up out s wanted w = (ob, ticked c t w) \<or> (\<exists>c2 t2. \<not> wanted \<and> clean_up out s wanted w = (ob, ticked c2 t2 (tunnel_gone (ticked c t w))))"
proof -
  obtain ob c t where st: "tunnel_status out w = (ob, ticked c t w)"
    using tunnel_status_ticks by blast
  show ?thesis
  proof (cases "\<not> wanted \<and> (ro_runtime_alive ob \<or> ro_active ob)")
    case True
    obtain r w2 where stop: "stop_runtime out (ticked c t w) = (r, w2)" by fastforce
    have "wp (stop_runtime out) (\<lambda>r w2. case r of Inl _ \<Rightarrow> \<exists>c t. w2 = ticked c t w
        | Inr _ \<Rightarrow> \<exists>c t. w2 = tunnel_gone (ticked c t w)) (ticked c t w)"
      by (rule wp_stop_runtime) auto
    then have w2: "case r of Inl _ \<Rightarrow> \<exists>c t. w2 = ticked c t w | Inr _ \<Rightarrow> \<exists>c t. w2 = tunnel_gone (ticked c t w)"
      using stop by (simp add: wp_def)
    obtain ob2 c2 t2 where st2: "tunnel_status out w2 = (ob2, ticked c2 t2 w2)"
      using tunnel_status_ticks by blast
    have "clean_up out s wanted w = (case r of Inl _ \<Rightarrow> (ob, w2) | Inr _ \<Rightarrow> (ob2, ticked c2 t2 w2))"
      using True st stop st2 by (auto simp: clean_up_def split: sum.splits)
    with True w2 show ?thesis
      by (cases r) (simp_all, blast+)
  next
    case False
    with st show ?thesis by (auto simp: clean_up_def)
  qed
qed

text \<open>Startup with the tunnel's marker on disk.\<close>

definition stays_out :: "World \<Rightarrow> bool" where
  "stays_out w \<longleftrightarrow> w_stopped w Tunnel \<and> w_stopped w HttpsMcp \<and> \<not> w_https w"

lemma stays_out_simps [simp]:
  "stays_out (ticked c t w) = stays_out w" "stays_out (saved out s w) = stays_out w"
  "stays_out (update_runtime_snapshot out ob d s w) = stays_out w" "stays_out (tunnel_gone w) = stays_out w"
  "stays_out (set_recovery_status p n e w) = stays_out w"
  "stays_out w \<Longrightarrow> stays_out (marked m True w)"
  "stays_out (restore_desired_connection_intent s w) = stays_out w"
  "w_desired_connected (restore_desired_connection_intent s w) = se_connection_intent s"
  "stays_out (w\<lparr>w_desired_connected := b\<rparr>) = stays_out w" "stays_out (w\<lparr>w_session_key := k\<rparr>) = stays_out w"
  by (simp_all add: stays_out_def restore_desired_connection_intent_def)

lemma wp_migrated_out:
  assumes "stays_out w" and "\<And>s w'. stays_out w' \<Longrightarrow> Q (Inr s) w'"
  shows "wp (migrated out s) Q w"
  using assms unfolding migrated_def
  by (auto intro!: wp_mark_stopped wp_update_settings)

lemma wp_honour_marker_out:
  assumes "stays_out w" and "\<And>s w'. stays_out w' \<Longrightarrow> \<not> se_connection_intent s \<Longrightarrow> Q (Inr s) w'"
  shows "wp (honour_marker out s) Q w"
  using assms unfolding honour_marker_def
  by (auto intro!: wp_restore_allowed simp: stays_out_def)

lemma restore_out:
  assumes "stays_out w"
  shows "wp (restore_persisted_connection_state out) (\<lambda>r w'. stays_out w' \<and> \<not> w_desired_connected w') w"
proof -
  have clean: "wp (\<lambda>w. if isl files then (Inr (), w)
       else let (ob, w1) = clean_up out s False w in (Inr (), update_runtime_snapshot out ob False s w1))
      (\<lambda>(r :: string + unit) w'. stays_out w' \<and> \<not> w_desired_connected w') w"
    if "stays_out w" "\<not> w_desired_connected w" for files :: "string + unit" and s w
    using that clean_up_effect[of out s False w] by (auto simp: wp_def)
  have tail: "wp (\<lambda>w. if isl files then (Inr (), w)
       else let (ob, w1) = clean_up out s (se_connection_intent s) w;
                w2 = update_runtime_snapshot out ob (se_connection_intent s) s w1
            in if \<not> se_connection_intent s then (Inr (), w2)
               else if trim (se_tunnel_id s) = []
               then (Inr (), set_recovery_status ''failed'' 0 e (w2\<lparr>w_desired_connected := False\<rparr>))
               else restore_session_key out w2)
      (\<lambda>r w'. stays_out w' \<and> \<not> w_desired_connected w') w"
    if "stays_out w" "\<not> w_desired_connected w" "\<not> se_connection_intent s" for files :: "string + unit" and s w e
    using that clean_up_effect[of out s False w] by (auto simp: wp_def)
  show ?thesis
    using assms unfolding restore_persisted_connection_state_def
    by (auto intro!: wp_load_settings_checked wp_migrated_out wp_honour_marker_out wp_attempt clean tail
        simp: default_settings_def split: sum.splits)
qed

lemma https_restore_out:
  assumes "stays_out w" and "\<not> w_desired_connected w"
  shows "wp (https_restore out) (\<lambda>r w'. stays_out w' \<and> \<not> w_desired_connected w') w"
  using assms unfolding https_restore_def
  by (auto intro!: wp_load_settings wp_restore_allowed simp: stays_out_def)

lemma wp_mono: "wp m P w \<Longrightarrow> (\<And>r w'. P r w' \<Longrightarrow> Q r w') \<Longrightarrow> wp m Q w"
  by (auto simp: wp_def split: prod.splits)

lemma startup_out:
  assumes "stays_out w"
  shows "wp (startup out) (\<lambda>r w'. stays_out w' \<and> \<not> w_desired_connected w') w"
  unfolding startup_def wp_chain
  by (rule wp_mono[OF restore_out[OF assms]]) (auto split: sum.splits intro: https_restore_out)

text \<open>The process starts again on what a moment left: the disk is as it was, a tunnel runtime may have
  survived, the supervisor thread has not.\<close>

definition rebooted :: "Moment \<Rightarrow> World" where
  "rebooted m = \<lparr>w_calls = 0, w_clock = 0, w_file = mo_file m, w_stopped = mo_stopped m, w_tunnel = mo_tunnel m,
     w_https = False, w_quitting = False, w_desired_connected = False, w_reconnecting = False, w_reconnect_attempt = 0,
     w_recovery = default_recovery, w_snapshot = default_snapshot, w_session_key = None, w_reconnect_running = False,
     w_last_reconnect_at = 0, w_trace = []\<rparr>"

text \<open>C11: a switch of the transport can be interrupted at any moment. As long as no marker pair is on disk,
  both transports still run as before the switch; from the first shutdown on, a crash followed by a
  restart, whatever the outside does then, brings back neither of them.\<close>

theorem crash_during_switch:
  assumes "faithful out" and "switch \<in> {prepare_https, prepare_tunnel}" and "w_trace w = []"
    and "switch out w = (r, w')" and "m \<in> set (w_trace w')" and "\<not> untouched w m"
    and "startup out2 (rebooted m) = (r2, w2)"
  shows "\<not> w_desired_connected w2 \<and> \<not> w_https w2"
proof -
  have "switch_kept out (switch = prepare_https) w r w' \<or> switch_kept out False w r w'"
    using assms(2,4) prepare_https_kept[OF assms(1), of w] prepare_tunnel_kept[OF assms(1), of w]
    by (auto simp: wp_def)
  then have "barred m"
    using assms(3,5,6) by (auto simp: switch_kept_def)
  then have "stays_out (rebooted m)"
    by (simp add: stays_out_def rebooted_def barred_def)
  from startup_out[OF this, of out2] show ?thesis
    using assms(7) by (simp add: wp_def stays_out_def)
qed

text \<open>A switch that succeeds leaves nothing running and nothing wanted: both markers are on disk, the
  settings want neither transport, the HTTPS supervisor is gone, and for the switch to HTTPS the tunnel
  runtime's stop was confirmed. One that fails before both markers are on disk has stopped nothing.\<close>

theorem switch_complete:
  assumes "faithful out" and "prepare_https out w = (r, w')"
  shows "(r = Inr () \<longrightarrow> w_stopped w' Tunnel \<and> w_stopped w' HttpsMcp \<and> neither_wanted out w' \<and> \<not> w_https w' \<and> \<not> w_tunnel w')
     \<and> (\<not> (w_stopped w' Tunnel \<and> w_stopped w' HttpsMcp) \<longrightarrow> w_https w' = w_https w \<and> w_tunnel w' = w_tunnel w)"
  using prepare_https_kept[OF assms(1), of w] assms(2)
  by (auto simp: wp_def switch_kept_def barred_def untouched_def)

section \<open>A sample switch\<close>

definition both_running :: World where
  "both_running = fresh_world\<lparr>w_tunnel := True, w_https := True\<rparr>"

lemma calm_ok [simp]: "os_ok calm_outside n"
  by (simp add: calm_outside_def)

lemma wp_calm_attempt [simp]: "wp (attempt calm_outside e) Q w = Q (Inr ()) (ticked (Suc (w_calls w)) (w_clock w) w)"
  by (simp add: wp_def attempt_def passed_def ticked_def) (simp add: calm_outside_def)

lemma wp_calm_attempts [simp]:
  "wp (attempts calm_outside es) Q w = Q (Inr ()) (ticked (w_calls w + length es) (w_clock w) w)"
proof (induction es arbitrary: w)
  case (Cons e es)
  then show ?case by (simp add: attempts.simps) (simp add: ticked_def)
qed (simp add: attempts.simps ticked_same)

lemma wp_calm_run [simp]:
  "wp (run_tunnel calm_outside) Q w
     = Q (Inr \<lparr>out_success = True, out_stdout = [], out_stderr = []\<rparr>) (ticked (Suc (w_calls w)) (w_clock w) w)"
  by (simp add: wp_def run_tunnel_def passed_def ticked_def) (simp add: calm_outside_def)

lemma wp_calm_checked [simp]:
  "wp (load_settings_checked calm_outside) Q w = Q (file_settings calm_outside w) (ticked (w_calls w + 2) (w_clock w) w)"
  by (simp add: load_settings_checked_def file_settings_def)

lemma wp_load_settings_via:
  "wp (load_settings out) Q w
     = wp (load_settings_checked out) (\<lambda>r. Q (Inr (case r of Inl _ \<Rightarrow> default_settings | Inr s \<Rightarrow> s))) w"
  by (auto simp: wp_def load_settings_def split: prod.splits sum.splits)

lemma sample_switch:
  "wp (prepare_https calm_outside) (\<lambda>r w'. r = Inr ()
     \<and> \<lparr>mo_file = None, mo_stopped = (\<lambda>_. False)(HttpsMcp := True, Tunnel := True), mo_tunnel = True, mo_https = False\<rparr> \<in> set (w_trace w')) both_running"
  by (simp add: prepare_https_def stage_mode_switch_def mark_stopped_def other_transport_def stop_inner_def
    wp_load_settings_via stop_tunnel_without_saving_def stop_runtime_def persist_disabled_def update_settings_def
    write_settings_file_def both_running_def fresh_world_def file_settings_def moment_of_def)

theorem crash_during_switch_witness:
  "\<exists>w'. \<lparr>mo_file = None, mo_stopped = (\<lambda>_. False)(HttpsMcp := True, Tunnel := True), mo_tunnel = True, mo_https = False\<rparr>
       \<in> set (w_trace w')
     \<and> snd (prepare_https calm_outside both_running) = w'
     \<and> \<not> w_desired_connected (snd (startup calm_outside (rebooted \<lparr>mo_file = None,
           mo_stopped = (\<lambda>_. False)(HttpsMcp := True, Tunnel := True), mo_tunnel = True, mo_https = False\<rparr>)))"
proof -
  let ?m = "\<lparr>mo_file = None, mo_stopped = (\<lambda>_. False)(HttpsMcp := True, Tunnel := True), mo_tunnel = True, mo_https = False\<rparr>"
  obtain r w' where run: "prepare_https calm_outside both_running = (r, w')" by fastforce
  then have m: "?m \<in> set (w_trace w')"
    using sample_switch by (simp add: wp_def)
  obtain r2 w2 where start: "startup calm_outside (rebooted ?m) = (r2, w2)" by fastforce
  have "\<not> w_desired_connected w2 \<and> \<not> w_https w2"
    by (rule crash_during_switch[where switch = prepare_https, OF calm_faithful _ _ run m _ start])
      (simp_all add: both_running_def fresh_world_def untouched_def)
  with run m start show ?thesis by simp
qed

theorem switch_complete_witness:
  "\<exists>r w'. prepare_https calm_outside both_running = (r, w')
     \<and> (r = Inr () \<longrightarrow> w_stopped w' Tunnel \<and> w_stopped w' HttpsMcp \<and> neither_wanted calm_outside w' \<and> \<not> w_https w' \<and> \<not> w_tunnel w')
     \<and> (\<not> (w_stopped w' Tunnel \<and> w_stopped w' HttpsMcp)
          \<longrightarrow> w_https w' = w_https both_running \<and> w_tunnel w' = w_tunnel both_running)"
proof -
  obtain r w' where run: "prepare_https calm_outside both_running = (r, w')" by fastforce
  from run switch_complete[OF calm_faithful run] show ?thesis by blast
qed

end
