(* ===== verification/Tunnel_Recovery.thy ===== *)
theory Tunnel_Recovery
  imports Transport_Safety
begin

text \<open>
  The tunnel's automatic reconnect (\<^verbatim>\<open>start_reconnect_monitor\<close> and \<^verbatim>\<open>wait_for_runtime_recovery\<close> in
  \<^verbatim>\<open>src-tauri/src/tunnel_runtime.rs\<close>). A round of the monitor's loop is the check (\<open>reconnect_check\<close>), the
  attempt under the connection lock (\<open>reconnect_locked\<close>) and what follows (\<open>reconnect_outcome\<close>); other operations may
  run between them. The wait for the tunnel to become ready has no bound but the clock, so it
  takes fuel; nine rounds are always enough.
\<close>

section \<open>The wait\<close>

definition slept :: "nat \<Rightarrow> World \<Rightarrow> World" where
  "slept ms w = w\<lparr>w_clock := w_clock w + ms\<rparr>"

fun wait_rounds :: "nat \<Rightarrow> Outside \<Rightarrow> nat \<Rightarrow> bool \<Rightarrow> World \<Rightarrow> (bool \<times> World) option" where
  "wait_rounds 0 out deadline require_auto w = None"
| "wait_rounds (Suc fuel) out deadline require_auto w =
     (case load_settings out w of
        (Inl _, w1) \<Rightarrow> Some (False, w1)
      | (Inr settings, w1) \<Rightarrow>
          if \<not> w_desired_connected w1 \<or> (require_auto \<and> \<not> se_auto_reconnect settings) then Some (False, w1)
          else let (ob, w2) = tunnel_status out w1;
                   w3 = update_runtime_snapshot out ob (w_desired_connected w1) settings w2
               in if ro_active ob then Some (True, w3)
                  else if deadline \<le> w_clock w3 then Some (False, w3)
                  else wait_rounds fuel out deadline require_auto (slept 2000 w3))"

definition wait_for_runtime_recovery :: "nat \<Rightarrow> Outside \<Rightarrow> bool \<Rightarrow> World \<Rightarrow> (bool \<times> World) option" where
  "wait_for_runtime_recovery fuel out require_auto w = wait_rounds fuel out (w_clock w + 15000) require_auto w"

section \<open>One round of the monitor\<close>

record ReconnectLoop =
  lo_inactive_checks :: u32
  lo_next_reconnect_at :: "nat option"

definition calm_loop :: ReconnectLoop where
  "calm_loop = \<lparr>lo_inactive_checks = 0, lo_next_reconnect_at = None\<rparr>"

datatype check_result = Quit | Wait | Attempt string nat   \<comment> \<open>the key, and the number of the attempt\<close>

definition settled :: "string \<Rightarrow> World \<Rightarrow> World" where
  "settled phase w = set_recovery_status phase 0 [] (w\<lparr>w_reconnecting := False, w_reconnect_attempt := 0\<rparr>)"

definition failure_threshold :: "RuntimeObservation \<Rightarrow> u32" where
  "failure_threshold ob =
     (if co_state (ro_control_plane ob) = ''down'' then 1 else if ro_runtime_alive ob then 8 else 2)"

definition next_at :: "Outside \<Rightarrow> World \<Rightarrow> nat \<Rightarrow> u64" where
  "next_at out w delay = sat_add64 (timestamp_ms out w) (of_nat (delay * 1000))"

text \<open>The decision once the tunnel is wanted, inactive and may be reconnected.\<close>

definition reconnect_due ::
  "Outside \<Rightarrow> RuntimeObservation \<Rightarrow> World \<Rightarrow> ReconnectLoop \<Rightarrow> check_result \<times> World \<times> ReconnectLoop" where
  "reconnect_due out ob w lo0 =
     (let lo = lo0\<lparr>lo_inactive_checks := sat_inc (lo_inactive_checks lo0)\<rparr> in
      if lo_inactive_checks lo < failure_threshold ob then (Wait, set_recovery_status ''detecting'' 0 [] w, lo)
      else if (case lo_next_reconnect_at lo of Some t \<Rightarrow> w_clock w < t | None \<Rightarrow> False) then (Wait, w, lo)
      else
        let attempt_no = unat (w_reconnect_attempt w + 1);
            w1 = w\<lparr>w_reconnecting := True, w_reconnect_attempt := w_reconnect_attempt w + 1\<rparr>;
            delay = reconnect_delay_secs attempt_no
        in case w_session_key w1 of
             None \<Rightarrow>
               (Wait, (set_recovery_status ''blocked'' (next_at out w1 delay) ''no runtime key for reconnecting'' w1)
                        \<lparr>w_reconnecting := False\<rparr>,
                lo\<lparr>lo_next_reconnect_at := Some (w_clock w1 + delay * 1000)\<rparr>)
           | Some key \<Rightarrow>
               (case load_settings out (set_recovery_status ''reconnecting'' 0 [] w1) of
                  (Inr settings, w2) \<Rightarrow>
                    if \<not> w_desired_connected w2 \<or> \<not> se_auto_reconnect settings
                    then (Wait, w2\<lparr>w_reconnecting := False\<rparr>, lo)
                    else (Attempt key attempt_no, w2, lo)
                | (Inl _, w2) \<Rightarrow> (Wait, w2\<lparr>w_reconnecting := False\<rparr>, lo)))"

definition reconnect_check :: "Outside \<Rightarrow> World \<Rightarrow> ReconnectLoop \<Rightarrow> check_result \<times> World \<times> ReconnectLoop" where
  "reconnect_check out w lo =
     (if w_quitting w then (Quit, w, lo)
      else case load_settings out w of
        (Inl _, w1) \<Rightarrow> (Wait, w1, lo)
      | (Inr settings, w0) \<Rightarrow>
        (let w1 = (if ht_enabled (se_https_mcp settings)
                   then w0\<lparr>w_desired_connected := False, w_reconnecting := False\<rparr> else w0)
         in case attempt out ''runtime files'' w1 of
              (Inl e, w2) \<Rightarrow> (Wait, set_recovery_status ''failed'' 0 e w2, lo)
            | (Inr _, w2) \<Rightarrow>
              (let (ob, w3) = tunnel_status out w2;
                   w4 = update_runtime_snapshot out ob (w_desired_connected w1) settings w3
               in if \<not> w_desired_connected w1 then (Wait, settled ''stopped'' w4, calm_loop)
                  else if ro_active ob then (Wait, settled ''idle'' w4, calm_loop)
                  else if \<not> se_auto_reconnect settings then (Wait, settled ''disabled'' w4, calm_loop)
                  else if w_reconnecting w4 then (Wait, w4, lo)
                  else reconnect_due out ob w4 lo)))"

definition reconnect_locked :: "Outside \<Rightarrow> string \<Rightarrow> unit op" where
  "reconnect_locked out key =
     chain (load_settings out) (\<lambda>latest w.
       if \<not> w_desired_connected w \<or> w_quitting w \<or> ht_enabled (se_https_mcp latest) \<or> \<not> se_auto_reconnect latest
       then (Inl ''the tunnel was stopped or HTTPS was chosen'', w)
       else start_runtime_connection out (se_tunnel_id latest) key True True w)"

definition reconnect_outcome ::
  "nat \<Rightarrow> Outside \<Rightarrow> string + unit \<Rightarrow> nat \<Rightarrow> World \<Rightarrow> ReconnectLoop \<Rightarrow> (World \<times> ReconnectLoop) option" where
  "reconnect_outcome fuel out result attempt_no w lo =
     map_option (\<lambda>(w', lo'). (w'\<lparr>w_reconnecting := False\<rparr>, lo'))
     (let delay = reconnect_delay_secs attempt_no in
      case result of
        Inl e \<Rightarrow> Some (set_recovery_status ''backoff'' (next_at out w delay) e w,
                      lo\<lparr>lo_next_reconnect_at := Some (w_clock w + delay * 1000)\<rparr>)
      | Inr _ \<Rightarrow>
         (if \<not> w_desired_connected w then Some (w, lo\<lparr>lo_next_reconnect_at := None\<rparr>)
          else case wait_for_runtime_recovery fuel out True (set_recovery_status ''verifying'' 0 [] w) of
            None \<Rightarrow> None
          | Some (True, w1) \<Rightarrow> Some ((set_recovery_status ''idle'' 0 [] w1)\<lparr>w_reconnect_attempt := 0\<rparr>, calm_loop)
          | Some (False, w1) \<Rightarrow>
             (let lo_off = lo\<lparr>lo_next_reconnect_at := None\<rparr> in
              if w_desired_connected w1 then
               (case load_settings out w1 of
                  (Inr settings, w2) \<Rightarrow>
                    if se_auto_reconnect settings
                    then Some (set_recovery_status ''backoff'' (next_at out w2 delay) ''not ready within 15 seconds'' w2,
                               lo\<lparr>lo_next_reconnect_at := Some (w_clock w2 + delay * 1000)\<rparr>)
                    else Some (w2, lo_off)
                | (Inl _, w2) \<Rightarrow> Some (w2, lo_off))
              else Some (w1, lo_off))))"

section \<open>The wait ends\<close>

lemma attempts_clock: "attempts out es w = (r, w') \<Longrightarrow> w_clock w \<le> w_clock w'"
proof (induction es arbitrary: w)
  case (Cons e es)
  then show ?case
    by (fastforce simp: attempts.simps chain_def attempt_def passed_def split: prod.splits sum.splits if_splits)
qed (simp add: attempts.simps give_def)

lemma load_settings_clock: "load_settings out w = (r, w') \<Longrightarrow> w_clock w \<le> w_clock w'"
proof -
  assume l: "load_settings out w = (r, w')"
  obtain q w1 where a: "attempts out [''state directory'', ''read settings''] w = (q, w1)" by fastforce
  have "snd (load_settings_checked out w) = w1"
    using a by (auto simp: load_settings_checked_def chain_def split: sum.splits)
  moreover have "snd (load_settings out w) = snd (load_settings_checked out w)"
    by (auto simp: load_settings_def split: prod.splits sum.splits)
  ultimately show ?thesis
    using l attempts_clock[OF a] by simp
qed

lemma tunnel_status_clock: "tunnel_status out w = (ob, w') \<Longrightarrow> w_clock w \<le> w_clock w'"
  by (auto simp: tunnel_status_def run_tunnel_def passed_def)

lemma wait_rounds_end:
  "deadline \<le> w_clock w + 2000 * fuel \<Longrightarrow> wait_rounds (Suc fuel) out deadline require_auto w \<noteq> None"
proof (induction fuel arbitrary: w)
  case (Suc fuel)
  obtain r w1 where l: "load_settings out w = (r, w1)" by fastforce
  obtain ob w2 where st: "tunnel_status out w1 = (ob, w2)" by fastforce
  have "w_clock w \<le> w_clock w2"
    using load_settings_clock[OF l] tunnel_status_clock[OF st] by simp
  moreover have "w_clock (update_runtime_snapshot out ob d s w2) = w_clock w2" for d s
    by (simp add: update_runtime_snapshot_def)
  ultimately have "wait_rounds (Suc fuel) out deadline require_auto (slept 2000 (update_runtime_snapshot out ob d s w2)) \<noteq> None" for d s
    using Suc.prems by (intro Suc.IH) (simp add: slept_def)
  then show ?case
    using l st by (subst wait_rounds.simps) (auto simp: Let_def split: sum.splits)
next
  case 0
  obtain r w1 where l: "load_settings out w = (r, w1)" by fastforce
  obtain ob w2 where st: "tunnel_status out w1 = (ob, w2)" by fastforce
  have "deadline \<le> w_clock (update_runtime_snapshot out ob d s w2)" for d s
    using load_settings_clock[OF l] tunnel_status_clock[OF st] 0 by (simp add: update_runtime_snapshot_def)
  then show ?case
    using l st by (auto simp: Let_def split: sum.splits)
qed

text \<open>The wait for a started tunnel to become ready always ends, after at most nine status commands, however
  long the commands take and whatever they answer.\<close>

theorem wait_ends: "\<exists>ready w'. wait_for_runtime_recovery 9 out require_auto w = Some (ready, w')"
proof -
  have nine: "(9 :: nat) = Suc 8" by simp
  have "wait_rounds (Suc 8) out (w_clock w + 15000) require_auto w \<noteq> None"
    by (rule wait_rounds_end) simp
  then show ?thesis
    unfolding wait_for_runtime_recovery_def nine by (metis option.exhaust surj_pair)
qed

section \<open>When the monitor reconnects\<close>

lemma reconnect_due_attempt:
  assumes "reconnect_due out ob w lo = (Attempt key n, w', lo')"
  shows "failure_threshold ob \<le> sat_inc (lo_inactive_checks lo)" "w_session_key w = Some key"
    "case lo_next_reconnect_at lo of None \<Rightarrow> True | Some t \<Rightarrow> t \<le> w_clock w"
    "n = unat (w_reconnect_attempt w + 1)" "w_desired_connected w'"
  using assms by (auto simp: reconnect_due_def Let_def not_less split: if_splits option.splits prod.splits sum.splits)

lemma reconnect_due_clock:
  assumes "reconnect_due out ob w lo = (Attempt key n, w', lo')"
  shows "w_clock w \<le> w_clock w'"
proof -
  obtain r w2 where l: "load_settings out (set_recovery_status ''reconnecting'' 0 []
      (w\<lparr>w_reconnecting := True, w_reconnect_attempt := w_reconnect_attempt w + 1\<rparr>)) = (r, w2)" by fastforce
  have "w_clock w \<le> w_clock w2"
    using load_settings_clock[OF l] by simp
  with assms l show ?thesis
    by (auto simp: reconnect_due_def Let_def split: if_splits option.splits sum.splits)
qed

lemma load_settings_ticks: "load_settings out w = (r, w') \<Longrightarrow> \<exists>c t. w' = ticked c t w"
  using wp_load_settings[of out w "\<lambda>r w'. \<exists>c t. w' = ticked c t w"] by (auto simp: wp_def)

lemma attempt_ticks: "attempt out e w = (r, w') \<Longrightarrow> \<exists>c t. w' = ticked c t w"
  using wp_attempt[of "\<lambda>r w'. \<exists>c t. w' = ticked c t w" w out e] by (auto simp: wp_def)

text \<open>The automatic reconnect starts an attempt only when one is due: ChatX is not quitting, the user wants
  the tunnel and no reconnect is running, the probe just made found the tunnel inactive, as many in a row
  as the threshold for what it saw (one, two or eight), the last attempt's backoff has passed, and there is
  a key to reconnect with.\<close>

theorem attempt_only_when_due:
  assumes "reconnect_check out w lo = (Attempt key n, w', lo')"
  shows "\<not> w_quitting w \<and> w_desired_connected w \<and> \<not> w_reconnecting w \<and> w_session_key w = Some key
     \<and> (\<exists>ob. \<not> ro_active ob \<and> failure_threshold ob \<le> sat_inc (lo_inactive_checks lo))
     \<and> (case lo_next_reconnect_at lo of None \<Rightarrow> True | Some t \<Rightarrow> t \<le> w_clock w')"
proof -
  have quit: "\<not> w_quitting w"
    using assms by (auto simp: reconnect_check_def)
  obtain r w0 where l: "load_settings out w = (r, w0)" by fastforce
  then obtain settings where r: "r = Inr settings"
    using assms quit by (cases r) (auto simp: reconnect_check_def)
  let ?w1 = "if ht_enabled (se_https_mcp settings) then w0\<lparr>w_desired_connected := False, w_reconnecting := False\<rparr> else w0"
  obtain q w2 where a: "attempt out ''runtime files'' ?w1 = (q, w2)" by fastforce
  then obtain u where q: "q = Inr u"
    using assms quit l r by (cases q) (auto simp: reconnect_check_def Let_def)
  obtain ob w3 where st: "tunnel_status out w2 = (ob, w3)" by fastforce
  let ?w4 = "update_runtime_snapshot out ob (w_desired_connected ?w1) settings w3"
  have desired: "w_desired_connected ?w1" and inactive: "\<not> ro_active ob" and idle: "\<not> w_reconnecting ?w4"
    and due: "reconnect_due out ob ?w4 lo = (Attempt key n, w', lo')"
    using assms quit l r a q st by (auto simp: reconnect_check_def Let_def split: if_splits)
  obtain c0 t0 c2 t2 c3 t3 where ticks: "w0 = ticked c0 t0 w" "w2 = ticked c2 t2 ?w1" "w3 = ticked c3 t3 w2"
    using load_settings_ticks[OF l] attempt_ticks[OF a] tunnel_status_ticks[of out w2] st by auto
  have off: "\<not> ht_enabled (se_https_mcp settings)"
    using desired by (auto split: if_splits)
  then have same: "w_desired_connected w" "\<not> w_reconnecting w" "w_session_key ?w4 = w_session_key w"
    using desired idle ticks by (auto simp: update_runtime_snapshot_def)
  have "case lo_next_reconnect_at lo of None \<Rightarrow> True | Some t \<Rightarrow> t \<le> w_clock w'"
    using reconnect_due_attempt(3)[OF due] reconnect_due_clock[OF due] by (auto split: option.splits)
  then show ?thesis
    using quit same inactive reconnect_due_attempt(1,2)[OF due] by auto
qed

definition sample_wanting :: World where
  "sample_wanting = fresh_world\<lparr>w_desired_connected := True, w_session_key := Some ''k''\<rparr>"

lemma sample_due:
  "\<exists>w' lo'. reconnect_check calm_outside sample_wanting \<lparr>lo_inactive_checks = 1, lo_next_reconnect_at = Some 0\<rparr>
     = (Attempt ''k'' 1, w', lo')"
proof -
  have "fst (reconnect_check calm_outside sample_wanting \<lparr>lo_inactive_checks = 1, lo_next_reconnect_at = Some 0\<rparr>)
      = Attempt ''k'' 1"
    by code_simp
  then show ?thesis by (metis prod.collapse)
qed

theorem attempt_only_when_due_witness:
  "\<exists>w' lo'. reconnect_check calm_outside sample_wanting \<lparr>lo_inactive_checks = 1, lo_next_reconnect_at = Some 0\<rparr>
        = (Attempt ''k'' 1, w', lo')
     \<and> \<not> w_quitting sample_wanting \<and> w_desired_connected sample_wanting \<and> \<not> w_reconnecting sample_wanting
     \<and> (0 :: nat) \<le> w_clock w'"
proof -
  obtain w' lo' where c: "reconnect_check calm_outside sample_wanting \<lparr>lo_inactive_checks = 1, lo_next_reconnect_at = Some 0\<rparr>
     = (Attempt ''k'' 1, w', lo')"
    using sample_due by blast
  from c attempt_only_when_due[OF c] show ?thesis by auto
qed

section \<open>The attempt under the lock\<close>

lemma reconnect_locked_wanted:
  "wp (reconnect_locked out key) (\<lambda>r w'. w_tunnel w' \<and> \<not> w_tunnel w \<longrightarrow>
      tunnel_wanted out True w \<and> \<not> w_quitting w) w"
  unfolding reconnect_locked_def
  by (auto intro!: wp_load_settings wp_start_runtime simp: wp_if tunnel_wanted_def)

text \<open>An attempt that has waited for the connection lock looks again. It starts a tunnel only if then, too,
  the tunnel is wanted in memory and in the saved settings, automatic reconnecting is on there, and ChatX is
  not quitting.\<close>

theorem reconnect_looks_again:
  assumes "reconnect_locked out key w = (r, w')" and "w_tunnel w'" and "\<not> w_tunnel w"
  shows "w_desired_connected w \<and> \<not> w_quitting w
     \<and> (\<exists>s. file_settings out w = Inr s \<and> se_connection_intent s \<and> se_auto_reconnect s)"
  using reconnect_locked_wanted[of out key w] assms by (auto simp: wp_def tunnel_wanted_def)

definition sample_settings :: Settings where
  "sample_settings = default_settings\<lparr>se_tunnel_id := ''tunnel_x'', se_connection_intent := True\<rparr>"

definition sample_connected :: World where
  "sample_connected = saved calm_outside sample_settings sample_wanting"

lemma sample_trim: "trim ''tunnel_x'' = ''tunnel_x''"
  by code_simp

lemma sample_file: "file_settings calm_outside sample_connected = Inr (normalize_settings calm_outside sample_settings)"
  unfolding sample_connected_def file_settings_saved[OF calm_faithful] by (simp add: sample_settings_def sample_trim)

lemma wp_ensure_intent [simp]:
  "wp (ensure_runtime_start_intent s required) Q w
     = Q (if required \<and> (\<not> se_connection_intent s \<or> \<not> w_desired_connected w)
          then Inl ''tunnel connection intent was cancelled'' else Inr ()) w"
  by (simp add: wp_def ensure_runtime_start_intent_def)

lemma sample_reconnect: "wp (reconnect_locked calm_outside ''k'') (\<lambda>r w'. w_tunnel w') sample_connected"
proof -
  have "w_desired_connected sample_connected" "\<not> w_quitting sample_connected"
    by (simp_all add: sample_connected_def sample_wanting_def fresh_world_def)
  then show ?thesis
    using sample_file
    by (simp add: reconnect_locked_def wp_load_settings_via wp_if start_runtime_connection_def
      restart_runtime_def stop_runtime_def sample_settings_def default_settings_def
      default_https_def)
qed

theorem reconnect_looks_again_witness:
  "\<exists>r w'. reconnect_locked calm_outside ''k'' sample_connected = (r, w') \<and> w_tunnel w' \<and> w_desired_connected sample_connected
     \<and> (\<exists>s. file_settings calm_outside sample_connected = Inr s \<and> se_connection_intent s \<and> se_auto_reconnect s)"
proof -
  obtain r w' where run: "reconnect_locked calm_outside ''k'' sample_connected = (r, w')" by fastforce
  then have on: "w_tunnel w'" using sample_reconnect by (simp add: wp_def)
  have off: "\<not> w_tunnel sample_connected"
    by (simp add: sample_connected_def sample_wanting_def fresh_world_def)
  from run on reconnect_looks_again[OF run on off] show ?thesis by blast
qed

end
