(* ===== verification/Monitor_Activity.thy ===== *)
theory Monitor_Activity
  imports Tunnel_Status "HOL-Library.Char_ord" "HOL-Library.List_Lexorder" "HOL-Library.Multiset"
begin

text \<open>
  What the monitor says about tool calls: the activity snapshot each of the two MCP servers keeps
  (\<^verbatim>\<open>src-tauri/src/monitor.rs\<close>), which of them counts (\<^verbatim>\<open>mcp_sources.rs\<close>) and the list of recent calls, merged
  from the history files and the snapshots (\<^verbatim>\<open>monitor_status.rs\<close>).

  Reading the files, serde's decoding of a snapshot and chrono's parser of timestamps are parameters. A JSON
  object is an association list, so the order of its keys is not that of serde's map.
\<close>

section \<open>The activity of one server\<close>

record InFlightCall =
  if_id :: string
  if_tool_name :: string
  if_started_at :: u64

record ActivitySnapshot =
  ac_schema_version :: u32
  ac_sequence :: u64
  ac_updated_at :: u64
  ac_launcher_started_at :: "u64 option"
  ac_last_request_at :: "u64 option"
  ac_last_request_method :: "string option"
  ac_last_list_tools_at :: "u64 option"
  ac_last_call_started_at :: "u64 option"
  ac_last_call_finished_at :: "u64 option"
  ac_last_tool_name :: "string option"
  ac_last_success :: "bool option"
  ac_last_duration_ms :: "u64 option"
  ac_in_flight :: u32
  ac_in_flight_calls :: "InFlightCall list"
  ac_oldest_in_flight_started_at :: "u64 option"
  ac_recent_call_starts :: "u64 list"
  ac_calls_last_minute :: nat

record McpMonitorStatus =
  mm_state :: string
  mm_source_sequence :: "u64 option"
  mm_source_updated_at :: "u64 option"
  mm_launcher_started_at :: "u64 option"
  mm_last_request_at :: "u64 option"
  mm_last_request_method :: "string option"
  mm_last_list_tools_at :: "u64 option"
  mm_calls_last_minute :: nat
  mm_gap_duration_ms :: "u64 option"
  mm_stall_duration_ms :: "u64 option"
  mm_in_flight :: u32
  mm_last_call_started_at :: "u64 option"
  mm_last_call_finished_at :: "u64 option"
  mm_last_tool_name :: "string option"
  mm_last_success :: "bool option"
  mm_last_duration_ms :: "u64 option"

definition ACTIVE_WINDOW_MS :: u64 where "ACTIVE_WINDOW_MS = 60000"
definition ACTIVE_MIN_CALLS :: nat where "ACTIVE_MIN_CALLS = 3"
definition GAP_THRESHOLD_MS :: u64 where "GAP_THRESHOLD_MS = 60000"
definition IDLE_RESET_MS :: u64 where "IDLE_RESET_MS = 10 * 60000"
definition STALL_THRESHOLD_MS :: u64 where "STALL_THRESHOLD_MS = 10 * 60000"

text \<open>\<open>read\<close> is the file as serde decodes it.\<close>

definition read_activity_snapshot :: "ActivitySnapshot option \<Rightarrow> ActivitySnapshot option" where
  "read_activity_snapshot read =
     (case read of
        None \<Rightarrow> None
      | Some s \<Rightarrow> if ac_schema_version s = 1 \<or> ac_schema_version s = 2 \<or> ac_schema_version s = 3 then Some s else None)"

definition empty_status :: McpMonitorStatus where
  "empty_status = \<lparr>mm_state = ''idle'', mm_source_sequence = None, mm_source_updated_at = None,
     mm_launcher_started_at = None, mm_last_request_at = None, mm_last_request_method = None,
     mm_last_list_tools_at = None, mm_calls_last_minute = 0, mm_gap_duration_ms = None, mm_stall_duration_ms = None,
     mm_in_flight = 0, mm_last_call_started_at = None, mm_last_call_finished_at = None, mm_last_tool_name = None,
     mm_last_success = None, mm_last_duration_ms = None\<rparr>"

text \<open>The state, the length of the gap and that of the stall.\<close>

definition activity_verdict :: "ActivitySnapshot \<Rightarrow> nat \<Rightarrow> u64 \<Rightarrow> string \<times> u64 option \<times> u64 option" where
  "activity_verdict s current_calls now =
     (let burst_detected = ac_calls_last_minute s \<ge> ACTIVE_MIN_CALLS in
      if ac_in_flight s > 0 then
        (case ac_oldest_in_flight_started_at s of
           None \<Rightarrow> (''active'', None, None)
         | Some started_at \<Rightarrow>
             let stalled_for = sat_sub64 now started_at in
             if stalled_for \<ge> STALL_THRESHOLD_MS then (''stalled'', None, Some stalled_for)
             else (''active'', None, None))
      else case ac_last_call_started_at s of
        None \<Rightarrow> (''idle'', None, None)
      | Some last_started_at \<Rightarrow>
          let last_activity_at = (case ac_last_call_finished_at s of
                Some finished_at \<Rightarrow> max finished_at last_started_at | None \<Rightarrow> last_started_at);
              gap = sat_sub64 now last_activity_at
          in if gap < GAP_THRESHOLD_MS \<and> (current_calls \<ge> ACTIVE_MIN_CALLS \<or> burst_detected)
             then (''active'', None, None)
             else if burst_detected \<and> GAP_THRESHOLD_MS \<le> gap \<and> gap \<le> IDLE_RESET_MS then (''gap'', Some gap, None)
             else (''idle'', None, None))"

definition evaluate_activity :: "ActivitySnapshot option \<Rightarrow> u64 \<Rightarrow> McpMonitorStatus" where
  "evaluate_activity snapshot now =
     (case snapshot of
        None \<Rightarrow> empty_status
      | Some s \<Rightarrow>
          let current_calls = length (filter (\<lambda>t. sat_sub64 now t \<le> ACTIVE_WINDOW_MS) (ac_recent_call_starts s));
              (state, gap, stall) = activity_verdict s current_calls now
          in \<lparr>mm_state = state, mm_source_sequence = Some (ac_sequence s), mm_source_updated_at = Some (ac_updated_at s),
               mm_launcher_started_at = ac_launcher_started_at s, mm_last_request_at = ac_last_request_at s,
               mm_last_request_method = ac_last_request_method s, mm_last_list_tools_at = ac_last_list_tools_at s,
               mm_calls_last_minute = current_calls, mm_gap_duration_ms = gap, mm_stall_duration_ms = stall,
               mm_in_flight = ac_in_flight s, mm_last_call_started_at = ac_last_call_started_at s,
               mm_last_call_finished_at = ac_last_call_finished_at s, mm_last_tool_name = ac_last_tool_name s,
               mm_last_success = ac_last_success s, mm_last_duration_ms = ac_last_duration_ms s\<rparr>)"

section \<open>The two servers\<close>

definition TUNNEL_SOURCE :: string where "TUNNEL_SOURCE = ''Secure MCP Tunnel''"
definition HTTPS_SOURCE :: string where "HTTPS_SOURCE = ''HTTPS MCP''"

type_synonym activity_sources = "(string \<times> ActivitySnapshot option) list"

text \<open>A snapshot counts only while its server runs, and only for a while; \<open>read\<close> is what the file of a
  source holds.\<close>

definition fresh_activity :: "u64 \<Rightarrow> ActivitySnapshot \<Rightarrow> bool" where
  "fresh_activity now s \<longleftrightarrow>
     (let max_age = (if ac_in_flight s > 0 then 45 * 60000 else 180000) in
      ac_updated_at s \<le> sat_add64 now 5000 \<and> sat_sub64 now (ac_updated_at s) \<le> max_age)"

definition activities :: "bool \<Rightarrow> bool \<Rightarrow> (string \<Rightarrow> ActivitySnapshot option) \<Rightarrow> u64 \<Rightarrow> activity_sources" where
  "activities tunnel_alive https_alive read now =
     map (\<lambda>source. (source,
         if (if source = HTTPS_SOURCE then https_alive else tunnel_alive) then
           (case read_activity_snapshot (read source) of
              Some s \<Rightarrow> if fresh_activity now s then Some s else None
            | None \<Rightarrow> None)
         else None))
       [TUNNEL_SOURCE, HTTPS_SOURCE]"

definition activity_priority :: "ActivitySnapshot \<Rightarrow> nat" where
  "activity_priority s = (if ac_in_flight s > 0 then 2 else if ac_calls_last_minute s > 0 then 1 else 0)"

definition activity_le :: "ActivitySnapshot \<Rightarrow> ActivitySnapshot \<Rightarrow> bool" where
  "activity_le a b \<longleftrightarrow> activity_priority a < activity_priority b
     \<or> activity_priority a = activity_priority b \<and> ac_updated_at a \<le> ac_updated_at b"

text \<open>\<^verbatim>\<open>max_by_key\<close> returns the last of several maximal elements.\<close>

definition primary_activity :: "activity_sources \<Rightarrow> ActivitySnapshot option" where
  "primary_activity sources =
     fold (\<lambda>a best. case best of None \<Rightarrow> Some a | Some b \<Rightarrow> if activity_le b a then Some a else Some b)
       (List.map_filter snd sources) None"

section \<open>JSON rows\<close>

definition json_insert :: "string \<Rightarrow> json \<Rightarrow> (string \<times> json) list \<Rightarrow> (string \<times> json) list" where
  "json_insert k v kvs = (k, v) # filter (\<lambda>(j, _). j \<noteq> k) kvs"

fun annotate :: "json \<Rightarrow> string \<Rightarrow> json" where
  "annotate (JObject values) source = JObject (json_insert ''source'' (JString source) values)"
| "annotate item source = item"

definition json_u64 :: "u64 \<Rightarrow> json" where
  "json_u64 n = JInt (uint n)"

definition json_opt :: "('a \<Rightarrow> json) \<Rightarrow> 'a option \<Rightarrow> json" where
  "json_opt f x = (case x of None \<Rightarrow> JNull | Some a \<Rightarrow> f a)"

definition json_u64_at :: "string \<Rightarrow> json \<Rightarrow> nat option" where
  "json_u64_at k v = Option.bind (json_get k v) json_as_u64"

text \<open>The stable sort of \<^verbatim>\<open>sort_recent_by_time\<close>: latest start first, then by the text of the timestamp.\<close>

definition row_time :: "json \<Rightarrow> nat" where
  "row_time a = (case json_u64_at ''startedAt'' a of Some t \<Rightarrow> t | None \<Rightarrow> 0)"

definition row_text :: "json \<Rightarrow> string" where
  "row_text a = (case json_str_at ''timestamp'' a of Some t \<Rightarrow> t | None \<Rightarrow> [])"

definition row_before :: "json \<Rightarrow> json \<Rightarrow> bool" where
  "row_before a b \<longleftrightarrow> row_time b < row_time a \<or> row_time a = row_time b \<and> row_text b \<le> row_text a"

fun insert_row :: "json \<Rightarrow> json list \<Rightarrow> json list" where
  "insert_row a [] = [a]"
| "insert_row a (b # bs) = (if row_before a b then a # b # bs else b # insert_row a bs)"

definition sort_recent_by_time :: "nat \<Rightarrow> json list \<Rightarrow> json list" where
  "sort_recent_by_time limit items = take limit (foldr insert_row items [])"

section \<open>Recent calls\<close>

definition RECENT_HISTORY_LIMIT :: nat where "RECENT_HISTORY_LIMIT = 20"

text \<open>One line of the history file, \<open>date\<close> being the parser of its timestamp to milliseconds.\<close>

definition history_row :: "(string \<Rightarrow> int option) \<Rightarrow> json \<Rightarrow> json option" where
  "history_row date record =
     (case json_str_at ''toolName'' record of
        None \<Rightarrow> None
      | Some tool_name \<Rightarrow>
          let timestamp = json_str_at ''timestamp'' record;
              duration_ms = json_u64_at ''duration'' record;
              started_at = (case Option.bind timestamp date of
                  None \<Rightarrow> None
                | Some t \<Rightarrow> if 0 \<le> t \<and> t < 2 ^ 64
                            then Some (nat t - (case duration_ms of Some d \<Rightarrow> d | None \<Rightarrow> 0)) else None);
              success = (Option.bind (Option.bind (json_get ''output'' record) (json_get ''isError'')) json_as_bool \<noteq> Some True)
          in Some (JObject [(''toolName'', JString tool_name), (''timestamp'', json_opt JString timestamp),
                (''startedAt'', json_opt (\<lambda>n. JInt (int n)) started_at),
                (''durationMs'', json_opt (\<lambda>n. JInt (int n)) duration_ms),
                (''success'', JBool success), (''running'', JBool False)]))"

definition parse_recent_history ::
  "(string \<Rightarrow> json option) \<Rightarrow> (string \<Rightarrow> int option) \<Rightarrow> string \<Rightarrow> nat \<Rightarrow> json list" where
  "parse_recent_history parse date text limit =
     take limit (List.map_filter (history_row date) (List.map_filter parse (rev (text_lines text))))"

definition running_row :: "json \<Rightarrow> string \<Rightarrow> u64 \<Rightarrow> u64 \<Rightarrow> (string \<times> json) list" where
  "running_row success tool_name started_at duration =
     [(''toolName'', JString tool_name), (''timestamp'', JNull), (''startedAt'', json_u64 started_at),
      (''durationMs'', json_u64 duration), (''success'', success), (''running'', JBool True)]"

definition in_flight_calls :: "ActivitySnapshot option \<Rightarrow> u64 \<Rightarrow> json list" where
  "in_flight_calls activity now =
     (case activity of
        None \<Rightarrow> []
      | Some a \<Rightarrow>
          let calls = map (\<lambda>call. JObject ((''id'', JString (if_id call))
                        # running_row JNull (if_tool_name call) (if_started_at call) (sat_sub64 now (if_started_at call))))
                      (take 20 (ac_in_flight_calls a))
          in if calls = [] \<and> ac_in_flight a > 0 then
               (case (ac_last_tool_name a, ac_last_call_started_at a) of
                  (Some tool_name, Some started_at) \<Rightarrow>
                    [JObject (running_row JNull tool_name started_at (sat_sub64 now started_at))]
                | _ \<Rightarrow> [])
             else calls)"

definition abs_diff :: "nat \<Rightarrow> nat \<Rightarrow> nat" where
  "abs_diff a b = (a - b) + (b - a)"

definition close_at :: "string \<Rightarrow> nat \<Rightarrow> json \<Rightarrow> json \<Rightarrow> bool" where
  "close_at k n a b = (case (json_u64_at k a, json_u64_at k b) of
     (Some x, Some y) \<Rightarrow> abs_diff x y \<le> n | _ \<Rightarrow> False)"

definition row_persisted :: "json \<Rightarrow> bool" where
  "row_persisted a = (case json_str_at ''timestamp'' a of Some v \<Rightarrow> v \<noteq> [] | None \<Rightarrow> False)"

definition same_recent_call :: "json \<Rightarrow> json \<Rightarrow> bool" where
  "same_recent_call a b =
     (if json_get ''source'' a \<noteq> json_get ''source'' b \<or> json_get ''toolName'' a \<noteq> json_get ''toolName'' b then False
      else let a_running = (json_bool_at ''running'' a = Some True);
               b_running = (json_bool_at ''running'' b = Some True)
      in if a_running \<or> b_running then
           a_running \<and> b_running
           \<and> (case (json_str_at ''id'' a, json_str_at ''id'' b) of (Some x, Some y) \<Rightarrow> x = y | _ \<Rightarrow> False)
         else if row_persisted a \<and> row_persisted b then False
         else close_at ''startedAt'' 100 a b \<and> close_at ''durationMs'' 150 a b)"

definition push_unless_same :: "json \<Rightarrow> json list \<Rightarrow> json list" where
  "push_unless_same item calls = (if list_ex (\<lambda>saved. same_recent_call saved item) calls then calls else calls @ [item])"

text \<open>The call a server finished last, shown for fifteen seconds until the history file has it.\<close>

definition finished_row :: "ActivitySnapshot \<Rightarrow> u64 \<Rightarrow> json option" where
  "finished_row a now =
     (case (ac_last_call_started_at a, ac_last_call_finished_at a, ac_last_tool_name a) of
        (Some started_at, Some finished_at, Some tool_name) \<Rightarrow>
          if started_at \<le> finished_at \<and> finished_at \<le> sat_add64 now 5000 \<and> sat_sub64 now finished_at \<le> 15000
          then Some (JObject [(''toolName'', JString tool_name), (''timestamp'', JNull),
                 (''startedAt'', json_u64 started_at), (''durationMs'', json_opt json_u64 (ac_last_duration_ms a)),
                 (''success'', json_opt JBool (ac_last_success a)), (''running'', JBool False)])
          else None
      | _ \<Rightarrow> None)"

definition merge_source :: "u64 \<Rightarrow> string \<times> ActivitySnapshot option \<Rightarrow> json list \<Rightarrow> json list" where
  "merge_source now entry calls0 =
     (case entry of (source, activity) \<Rightarrow>
        let calls = fold (\<lambda>running. push_unless_same (annotate running source)) (in_flight_calls activity now) calls0
        in case Option.bind activity (\<lambda>a. finished_row a now) of
             None \<Rightarrow> calls
           | Some row \<Rightarrow> push_unless_same (annotate row source) calls)"

definition merge_recent_calls :: "json list \<Rightarrow> activity_sources \<Rightarrow> u64 \<Rightarrow> json list" where
  "merge_recent_calls calls sources now =
     sort_recent_by_time RECENT_HISTORY_LIMIT (fold (merge_source now) sources calls)"

text \<open>The history files of both servers: a file's rows are kept with its length and modification time, and read again
  only when one of them differs. \<open>hf_tail\<close> is the end of the file (\<open>read_history_tail\<close>).\<close>

record HistoryFile =
  hf_len :: nat
  hf_modified :: "nat option"
  hf_tail :: string

record RecentHistoryCache =
  rh_len :: nat
  rh_modified :: "nat option"
  rh_calls :: "json list"

definition history_rows :: "(string \<Rightarrow> json option) \<Rightarrow> (string \<Rightarrow> int option) \<Rightarrow> string \<Rightarrow> HistoryFile \<Rightarrow> json list" where
  "history_rows parse date source f =
     map (\<lambda>item. annotate item source) (parse_recent_history parse date (hf_tail f) RECENT_HISTORY_LIMIT)"

definition history_source ::
  "(string \<Rightarrow> json option) \<Rightarrow> (string \<Rightarrow> int option) \<Rightarrow> string \<times> HistoryFile option
     \<Rightarrow> json list \<times> (string \<rightharpoonup> RecentHistoryCache) \<Rightarrow> json list \<times> (string \<rightharpoonup> RecentHistoryCache)" where
  "history_source parse date entry state =
     (case (entry, state) of
        ((source, None), (records, cache)) \<Rightarrow> (records, cache(source := None))
      | ((source, Some f), (records, cache)) \<Rightarrow>
         (case Option.bind (cache source) (\<lambda>item. if rh_len item = hf_len f \<and> rh_modified item = hf_modified f
             then Some (rh_calls item) else None) of
            Some calls \<Rightarrow> (records @ calls, cache)
          | None \<Rightarrow> (let calls = history_rows parse date source f in
              (records @ calls, cache(source \<mapsto> \<lparr>rh_len = hf_len f, rh_modified = hf_modified f, rh_calls = calls\<rparr>)))))"

definition recent_history_calls ::
  "(string \<Rightarrow> json option) \<Rightarrow> (string \<Rightarrow> int option) \<Rightarrow> (string \<times> HistoryFile option) list
     \<Rightarrow> (string \<rightharpoonup> RecentHistoryCache) \<Rightarrow> json list \<times> (string \<rightharpoonup> RecentHistoryCache)" where
  "recent_history_calls parse date files cache =
     (let (records, cache') = fold (history_source parse date) files ([], cache) in
      (sort_recent_by_time RECENT_HISTORY_LIMIT records, cache'))"

section \<open>Lemmas\<close>

lemma insert_row_mset [simp]: "mset (insert_row a xs) = add_mset a (mset xs)"
  by (induction xs) auto

lemma sorted_rows_mset [simp]: "mset (foldr insert_row xs []) = mset xs"
  by (induction xs) auto

lemma row_before_total: "row_before a b \<or> row_before b a"
  by (auto simp: row_before_def)

lemma row_before_trans: "row_before a b \<Longrightarrow> row_before b c \<Longrightarrow> row_before a c"
  by (auto simp: row_before_def)

lemma insert_row_sorted: "sorted_wrt row_before xs \<Longrightarrow> sorted_wrt row_before (insert_row a xs)"
proof (induction xs)
  case (Cons b bs)
  have "set (insert_row a bs) = insert a (set bs)"
    by (metis insert_row_mset set_mset_add_mset_insert set_mset_mset)
  with Cons row_before_total[of a b] show ?case
    by (auto intro: row_before_trans)
qed simp

lemma sorted_rows: "sorted_wrt row_before (foldr insert_row xs [])"
  by (induction xs) (auto intro: insert_row_sorted)

text \<open>What a cut to the first rows leaves out comes after them.\<close>

lemma take_covers:
  assumes "sorted_wrt R xs" and "x \<in> set xs"
  shows "x \<in> set (take n xs) \<or> length (take n xs) = n \<and> (\<forall>r \<in> set (take n xs). R r x)"
proof (cases "x \<in> set (take n xs)")
  case False
  have split: "xs = take n xs @ drop n xs" by simp
  with assms(2) False have x: "x \<in> set (drop n xs)"
    by (metis Un_iff set_append)
  have "\<forall>r \<in> set (take n xs). \<forall>y \<in> set (drop n xs). R r y"
    using assms(1) by (metis split sorted_wrt_append)
  with x show ?thesis by (auto simp: min_def)
qed simp

lemma recent_sorted: "sorted_wrt row_before (sort_recent_by_time n xs)"
  unfolding sort_recent_by_time_def using sorted_rows sorted_wrt_take by blast

lemma recent_covers:
  assumes "x \<in> set xs"
  shows "x \<in> set (sort_recent_by_time n xs)
     \<or> length (sort_recent_by_time n xs) = n \<and> (\<forall>r \<in> set (sort_recent_by_time n xs). row_before r x)"
proof -
  have "x \<in> set (foldr insert_row xs [])"
    using assms by (metis set_mset_mset sorted_rows_mset)
  then show ?thesis
    unfolding sort_recent_by_time_def by (rule take_covers[OF sorted_rows])
qed

lemma json_insert_get [simp]:
  "map_of (json_insert k v kvs) j = (if j = k then Some v else map_of kvs j)"
  by (induction kvs) (auto simp: json_insert_def)

text \<open>The identity of a running call.\<close>

definition run_key :: "json \<Rightarrow> json option \<times> json option \<times> string option" where
  "run_key row = (json_get ''source'' row, json_get ''toolName'' row, json_str_at ''id'' row)"

definition identified :: "json \<Rightarrow> bool" where
  "identified row \<longleftrightarrow> json_bool_at ''running'' row = Some True \<and> json_str_at ''id'' row \<noteq> None"

lemma same_identified:
  assumes "identified b"
  shows "same_recent_call a b \<longleftrightarrow> identified a \<and> run_key a = run_key b"
  using assms
  by (cases "json_str_at ''id'' a"; cases "json_str_at ''id'' b";
      simp add: same_recent_call_def identified_def run_key_def Let_def; blast?)

lemma push_keeps: "set calls \<subseteq> set (push_unless_same item calls)"
  by (auto simp: push_unless_same_def)

lemma push_identified:
  "identified item \<Longrightarrow> \<exists>row \<in> set (push_unless_same item calls). identified row \<and> run_key row = run_key item"
  by (auto simp: push_unless_same_def list_ex_iff same_identified)

lemma push_unique:
  assumes "distinct (map run_key (filter identified calls))"
  shows "distinct (map run_key (filter identified (push_unless_same item calls)))"
  using assms by (auto simp: push_unless_same_def list_ex_iff same_identified)

lemma fold_keeps:
  assumes "\<And>x ys. set ys \<subseteq> set (f x ys)"
  shows "set ys \<subseteq> set (fold f xs ys)"
proof (induction xs arbitrary: ys)
  case (Cons x xs)
  have "set ys \<subseteq> set (f x ys)" by (rule assms)
  with Cons[of "f x ys"] show ?case by simp
qed simp

lemma fold_invariant:
  assumes "\<And>x ys. P ys \<Longrightarrow> P (f x ys)" and "P ys"
  shows "P (fold f xs ys)"
  using assms by (induction xs arbitrary: ys) auto

lemma merge_source_cases:
  obtains (running) rs where "merge_source now (source, activity) calls
      = fold (\<lambda>running. push_unless_same (annotate running source)) rs calls" "rs = in_flight_calls activity now"
  | (finished) rs row where "merge_source now (source, activity) calls = push_unless_same row
      (fold (\<lambda>running. push_unless_same (annotate running source)) rs calls)" "rs = in_flight_calls activity now"
  by (cases "Option.bind activity (\<lambda>a. finished_row a now)") (simp_all add: merge_source_def Let_def)

lemma merge_source_keeps: "set calls \<subseteq> set (merge_source now entry calls)"
proof -
  obtain source activity where e: "entry = (source, activity)" by fastforce
  have "set calls \<subseteq> set (fold (\<lambda>running. push_unless_same (annotate running s)) rs calls)" for s rs
    by (intro fold_keeps push_keeps)
  then show ?thesis
    unfolding e by (cases rule: merge_source_cases[of now source activity calls]) (metis push_keeps subset_trans)+
qed

lemma merge_source_unique:
  assumes "distinct (map run_key (filter identified calls))"
  shows "distinct (map run_key (filter identified (merge_source now entry calls)))"
proof -
  obtain source activity where e: "entry = (source, activity)" by fastforce
  have "distinct (map run_key (filter identified (fold (\<lambda>running. push_unless_same (annotate running s)) rs calls)))" for s rs
    by (rule fold_invariant[where P = "\<lambda>ys. distinct (map run_key (filter identified ys))"]) (simp_all add: push_unique assms)
  then show ?thesis
    unfolding e by (cases rule: merge_source_cases[of now source activity calls]) (simp_all add: push_unique)
qed

text \<open>The row of a running call.\<close>

definition call_row :: "string \<Rightarrow> u64 \<Rightarrow> InFlightCall \<Rightarrow> json" where
  "call_row source now call = annotate (JObject ((''id'', JString (if_id call))
     # running_row JNull (if_tool_name call) (if_started_at call) (sat_sub64 now (if_started_at call)))) source"

lemma call_row_key [simp]:
  "run_key (call_row source now call) = (Some (JString source), Some (JString (if_tool_name call)), Some (if_id call))"
  "identified (call_row source now call)"
  by (simp_all add: call_row_def run_key_def identified_def running_row_def json_str_at_def json_bool_at_def)

lemma fold_push_identified:
  assumes "r \<in> set rs" and "identified (annotate r s)"
  shows "\<exists>row \<in> set (fold (\<lambda>running. push_unless_same (annotate running s)) rs calls).
     identified row \<and> run_key row = run_key (annotate r s)"
  using assms
proof (induction rs arbitrary: calls)
  case (Cons a rs)
  show ?case
  proof (cases "r = a")
    case True
    with push_identified[OF Cons.prems(2), of calls] obtain row where
      "row \<in> set (push_unless_same (annotate a s) calls)" "identified row" "run_key row = run_key (annotate r s)" by blast
    then show ?thesis
      using fold_keeps[of "\<lambda>running. push_unless_same (annotate running s)" "push_unless_same (annotate a s) calls" rs] push_keeps
      by auto
  next
    case False
    with Cons show ?thesis by simp
  qed
qed simp

lemma merge_source_shows:
  assumes "call \<in> set (take 20 (ac_in_flight_calls a))"
  shows "\<exists>row \<in> set (merge_source now (source, Some a) calls). identified row
     \<and> run_key row = (Some (JString source), Some (JString (if_tool_name call)), Some (if_id call))"
proof -
  let ?r = "JObject ((''id'', JString (if_id call))
     # running_row JNull (if_tool_name call) (if_started_at call) (sat_sub64 now (if_started_at call)))"
  have "?r \<in> set (in_flight_calls (Some a) now)"
    using assms by (auto simp: in_flight_calls_def Let_def)
  from fold_push_identified[OF this, of source calls] call_row_key[of source now call]
  obtain row where row: "row \<in> set (fold (\<lambda>running. push_unless_same (annotate running source)) (in_flight_calls (Some a) now) calls)"
      "identified row" "run_key row = (Some (JString source), Some (JString (if_tool_name call)), Some (if_id call))"
    unfolding call_row_def by auto
  then have "row \<in> set (merge_source now (source, Some a) calls)"
    using push_keeps by (auto simp: merge_source_def Let_def split: option.splits)
  with row show ?thesis by blast
qed

lemma fold_merge_shows:
  assumes "(source, Some a) \<in> set sources" and "call \<in> set (take 20 (ac_in_flight_calls a))"
  shows "\<exists>row \<in> set (fold (merge_source now) sources calls). identified row
     \<and> run_key row = (Some (JString source), Some (JString (if_tool_name call)), Some (if_id call))"
  using assms
proof (induction sources arbitrary: calls)
  case (Cons e es)
  show ?case
  proof (cases "e = (source, Some a)")
    case True
    with merge_source_shows[OF Cons.prems(2), of now source calls] show ?thesis
      using fold_keeps[of "merge_source now" "merge_source now (source, Some a) calls" es] merge_source_keeps by auto
  next
    case False
    with Cons show ?thesis by simp
  qed
qed simp

section \<open>Properties\<close>

definition shown :: "json list \<Rightarrow> json \<Rightarrow> bool" where
  "shown rows row \<longleftrightarrow> row \<in> set rows \<or> length rows = RECENT_HISTORY_LIMIT \<and> (\<forall>r \<in> set rows. row_before r row)"

lemma merged_shown: "row \<in> set (fold (merge_source now) sources calls) \<Longrightarrow> shown (merge_recent_calls calls sources now) row"
  unfolding shown_def merge_recent_calls_def by (rule recent_covers)

lemma distinct_take: "distinct (map f (filter P xs)) \<Longrightarrow> distinct (map f (filter P (take n xs)))"
  by (metis append_take_drop_id distinct_append filter_append map_append)

lemma recent_unique:
  assumes "distinct (map run_key (filter identified xs))"
  shows "distinct (map run_key (filter identified (sort_recent_by_time n xs)))"
proof -
  have "distinct (map run_key (filter identified (foldr insert_row xs [])))"
    using assms by (metis mset_eq_imp_distinct_iff mset_filter mset_map sorted_rows_mset)
  then show ?thesis
    unfolding sort_recent_by_time_def by (rule distinct_take)
qed

text \<open>The cache of the history is transparent: as long as a file with the same length and modification time has the same
  end, the rows are those of the files.\<close>

definition history_cached ::
  "(string \<Rightarrow> json option) \<Rightarrow> (string \<Rightarrow> int option) \<Rightarrow> (string \<times> HistoryFile option) list \<Rightarrow> (string \<rightharpoonup> RecentHistoryCache) \<Rightarrow> bool" where
  "history_cached parse date files cache \<longleftrightarrow> (\<forall>source f item. (source, Some f) \<in> set files \<longrightarrow> cache source = Some item \<longrightarrow>
     rh_len item = hf_len f \<longrightarrow> rh_modified item = hf_modified f \<longrightarrow> rh_calls item = history_rows parse date source f)"

lemma history_fold:
  assumes "history_cached parse date files cache" and "distinct (map fst files)"
  shows "fst (fold (history_source parse date) files (records, cache))
     = records @ concat (map (\<lambda>(source, f). case f of None \<Rightarrow> [] | Some f \<Rightarrow> history_rows parse date source f) files)"
  using assms
proof (induction files arbitrary: records cache)
  case (Cons e es)
  obtain source f where e: "e = (source, f)" by fastforce
  obtain records2 cache2 where step: "history_source parse date e (records, cache) = (records2, cache2)" by fastforce
  have "records2 = records @ (case f of None \<Rightarrow> [] | Some f \<Rightarrow> history_rows parse date source f)"
    and other: "\<And>s. s \<noteq> source \<Longrightarrow> cache2 s = cache s"
    using step Cons.prems(1) unfolding e history_cached_def
    by (auto simp: history_source_def Let_def split: option.splits bind_splits if_splits)
  moreover have "history_cached parse date es cache2"
    unfolding history_cached_def
  proof (intro allI impI)
    fix s g item
    assume "(s, Some g) \<in> set es" "cache2 s = Some item" "rh_len item = hf_len g" "rh_modified item = hf_modified g"
    moreover from this(1) have "s \<noteq> source"
      using Cons.prems(2) e by (auto simp: image_iff)
    ultimately show "rh_calls item = history_rows parse date s g"
      using Cons.prems(1) other unfolding history_cached_def by (metis list.set_intros(2))
  qed
  ultimately show ?case
    using Cons.IH[of cache2 records2] Cons.prems(2) step e by simp
qed simp

theorem history_cache_transparent:
  assumes "history_cached parse date files cache" and "distinct (map fst files)"
  shows "fst (recent_history_calls parse date files cache) = fst (recent_history_calls parse date files (\<lambda>_. None))"
proof -
  have "history_cached parse date files (\<lambda>_. None)" by (simp add: history_cached_def)
  then show ?thesis
    using history_fold[OF assms] history_fold[OF _ assms(2), of parse date "\<lambda>_. None"]
    by (simp add: recent_history_calls_def Let_def split: prod.splits) (metis fst_conv)
qed

text \<open>The list of recent calls loses and doubles nothing. It holds at most twenty rows, latest start first. A
  row of the history, and a row for each call in flight that a server names (up to twenty), is in it, unless twenty rows that
  come no later fill it. Two calls in flight share a row only if server, tool and id are the same, and such a call
  has one row.\<close>

theorem recent_calls_complete:
  assumes "rows = merge_recent_calls calls sources now" and "\<not> list_ex identified calls"
  shows "length rows \<le> 20 \<and> sorted_wrt row_before rows
     \<and> (\<forall>row \<in> set calls. shown rows row)
     \<and> (\<forall>source a call. (source, Some a) \<in> set sources \<longrightarrow> call \<in> set (take 20 (ac_in_flight_calls a)) \<longrightarrow>
          (\<exists>row. shown rows row \<and> identified row
             \<and> run_key row = (Some (JString source), Some (JString (if_tool_name call)), Some (if_id call))))
     \<and> distinct (map run_key (filter identified rows))"
proof -
  let ?all = "fold (merge_source now) sources calls"
  have history: "shown rows row" if "row \<in> set calls" for row
    using merged_shown[of row now sources calls] fold_keeps[of "merge_source now" calls sources] merge_source_keeps that
    by (auto simp: assms(1))
  have flight: "\<exists>row. shown rows row \<and> identified row
      \<and> run_key row = (Some (JString source), Some (JString (if_tool_name call)), Some (if_id call))"
    if "(source, Some a) \<in> set sources" "call \<in> set (take 20 (ac_in_flight_calls a))" for source a call
    using fold_merge_shows[OF that, of now calls] merged_shown unfolding assms(1) by blast
  have "filter identified calls = []"
    using assms(2) by (auto simp: list_ex_iff filter_empty_conv)
  then have "distinct (map run_key (filter identified ?all))"
    by (intro fold_invariant[where P = "\<lambda>ys. distinct (map run_key (filter identified ys))"] merge_source_unique) simp_all
  then have "distinct (map run_key (filter identified rows))"
    unfolding assms(1) merge_recent_calls_def by (rule recent_unique)
  with history flight recent_sorted show ?thesis
    by (auto simp: assms(1) merge_recent_calls_def sort_recent_by_time_def RECENT_HISTORY_LIMIT_def)
qed

lemma unat_max64: "unat (max a b) = max (unat a) (unat (b :: u64))"
  by (simp add: max_def word_le_nat_alt)

lemma activity_verdict_states:
  assumes "activity_verdict s n now = (state, gap, stall)"
  shows "state \<in> {''idle'', ''active'', ''gap'', ''stalled''}
     \<and> (state = ''stalled'' \<longleftrightarrow> (\<exists>t. ac_in_flight s > 0 \<and> ac_oldest_in_flight_started_at s = Some t \<and> 600000 \<le> unat now - unat t))
     \<and> (state = ''gap'' \<longleftrightarrow> (\<exists>t. ac_in_flight s = 0 \<and> 3 \<le> ac_calls_last_minute s \<and> ac_last_call_started_at s = Some t
          \<and> (let rest = unat now - max (unat t) (case ac_last_call_finished_at s of Some f \<Rightarrow> unat f | None \<Rightarrow> 0)
             in 60000 \<le> rest \<and> rest \<le> 600000)))
     \<and> (ac_in_flight s > 0 \<longrightarrow> state = ''active'' \<or> state = ''stalled'')
     \<and> (gap \<noteq> None \<longleftrightarrow> state = ''gap'') \<and> (stall \<noteq> None \<longleftrightarrow> state = ''stalled'')"
proof (cases "ac_in_flight s = 0")
  case False
  then have "ac_in_flight s > 0" by (simp add: word_gt_0)
  then show ?thesis
    using assms
    by (auto simp: activity_verdict_def Let_def STALL_THRESHOLD_MS_def word_le_nat_alt unat_sat_sub64 split: option.splits if_splits)
next
  case True
  then show ?thesis
    using assms by (auto simp: activity_verdict_def Let_def GAP_THRESHOLD_MS_def IDLE_RESET_MS_def ACTIVE_MIN_CALLS_def
        word_le_nat_alt word_less_nat_alt unat_sat_sub64 unat_max64 max.commute split: option.splits if_splits)
qed

text \<open>The verdict on a server. A call in flight makes it active or, from ten minutes on, stalled; without one it is in a
  gap exactly when it had a burst of calls and rests for one to ten minutes; the lengths are given exactly then.\<close>

theorem activity_states:
  assumes "evaluate_activity (Some s) now = st"
  shows "mm_state st \<in> {''idle'', ''active'', ''gap'', ''stalled''}
     \<and> (mm_state st = ''stalled'' \<longleftrightarrow> (\<exists>t. ac_in_flight s > 0 \<and> ac_oldest_in_flight_started_at s = Some t \<and> 600000 \<le> unat now - unat t))
     \<and> (mm_state st = ''gap'' \<longleftrightarrow> (\<exists>t. ac_in_flight s = 0 \<and> 3 \<le> ac_calls_last_minute s \<and> ac_last_call_started_at s = Some t
          \<and> (let rest = unat now - max (unat t) (case ac_last_call_finished_at s of Some f \<Rightarrow> unat f | None \<Rightarrow> 0)
             in 60000 \<le> rest \<and> rest \<le> 600000)))
     \<and> (ac_in_flight s > 0 \<longrightarrow> mm_state st = ''active'' \<or> mm_state st = ''stalled'')
     \<and> (mm_gap_duration_ms st \<noteq> None \<longleftrightarrow> mm_state st = ''gap'') \<and> (mm_stall_duration_ms st \<noteq> None \<longleftrightarrow> mm_state st = ''stalled'')"
proof -
  obtain n where "activity_verdict s n now = (mm_state st, mm_gap_duration_ms st, mm_stall_duration_ms st)"
    using assms by (auto simp: evaluate_activity_def Let_def split: prod.splits)
  from activity_verdict_states[OF this] show ?thesis .
qed

lemma activity_le_total: "activity_le a b \<or> activity_le b a"
  by (auto simp: activity_le_def)

lemma activity_le_trans: "activity_le a b \<Longrightarrow> activity_le b c \<Longrightarrow> activity_le a c"
  by (auto simp: activity_le_def)

text \<open>The activity shown first is a greatest one: a server with a call in flight beats any without.\<close>

lemma best_activity:
  assumes "fold (\<lambda>a best. case best of None \<Rightarrow> Some a | Some b \<Rightarrow> if activity_le b a then Some a else Some b) xs (Some b) = Some c"
  shows "c \<in> insert b (set xs) \<and> (\<forall>x \<in> insert b (set xs). activity_le x c)"
  using assms
proof (induction xs arbitrary: b)
  case Nil
  then show ?case using activity_le_total[of c c] by simp
next
  case (Cons a xs)
  then show ?case
    using activity_le_total[of a b] by (auto split: if_splits intro: activity_le_trans)
qed

lemma primary_activity_greatest:
  assumes "primary_activity sources = Some a"
  shows "a \<in> set (List.map_filter snd sources) \<and> (\<forall>b \<in> set (List.map_filter snd sources). activity_le b a)"
  using assms best_activity unfolding primary_activity_def
  by (cases "List.map_filter snd sources") auto

section \<open>Witnesses\<close>

definition sample_activity :: ActivitySnapshot where
  "sample_activity = \<lparr>ac_schema_version = 3, ac_sequence = 3, ac_updated_at = 149000, ac_launcher_started_at = None,
     ac_last_request_at = None, ac_last_request_method = None, ac_last_list_tools_at = None,
     ac_last_call_started_at = Some 140000, ac_last_call_finished_at = Some 149000, ac_last_tool_name = Some ''read_file'',
     ac_last_success = Some True, ac_last_duration_ms = Some 9000, ac_in_flight = 2,
     ac_in_flight_calls = [\<lparr>if_id = ''call-1'', if_tool_name = ''read_file'', if_started_at = 140000\<rparr>,
        \<lparr>if_id = ''call-2'', if_tool_name = ''read_file'', if_started_at = 140070\<rparr>],
     ac_oldest_in_flight_started_at = Some 140000, ac_recent_call_starts = [], ac_calls_last_minute = 3\<rparr>"

theorem recent_calls_complete_witness:
  "\<exists>rows. rows = merge_recent_calls [] [(TUNNEL_SOURCE, Some sample_activity)] 150000 \<and> length rows \<le> 20
     \<and> (\<exists>row. shown rows row \<and> identified row
          \<and> run_key row = (Some (JString TUNNEL_SOURCE), Some (JString ''read_file''), Some ''call-2''))"
proof -
  let ?rows = "merge_recent_calls [] [(TUNNEL_SOURCE, Some sample_activity)] 150000"
  have c: "\<lparr>if_id = ''call-2'', if_tool_name = ''read_file'', if_started_at = 140070\<rparr> \<in> set (take 20 (ac_in_flight_calls sample_activity))"
    by (simp add: sample_activity_def)
  from recent_calls_complete[OF refl, of "[]" "[(TUNNEL_SOURCE, Some sample_activity)]" 150000] c show ?thesis
    by (intro exI[of _ ?rows]) fastforce
qed

theorem activity_states_witness:
  "\<exists>st. evaluate_activity (Some sample_activity) 150000 = st \<and> (mm_state st = ''active'' \<or> mm_state st = ''stalled'')"
proof -
  obtain st where st: "evaluate_activity (Some sample_activity) 150000 = st" by simp
  have "ac_in_flight sample_activity > 0" by (simp add: sample_activity_def)
  with st activity_states[OF st] show ?thesis by blast
qed

end
