(* ===== verification/Monitor_Status.thy ===== *)
theory Monitor_Status
  imports Transport_Control Monitor_Activity Settings_Text
begin

text \<open>
  The monitor's view of the desktop: the verdict on the HTTPS connection (\<^verbatim>\<open>src-tauri/src/connection_health.rs\<close>, used by
  \<^verbatim>\<open>https_mcp.rs\<close>), the status shape \<^verbatim>\<open>status_contract.rs\<close>, and the payload for phones (\<^verbatim>\<open>monitor_status.rs\<close>).

  What the supervisor thread last wrote into its status, the history rows, endpoints and the host's figures
  are the parameter \<open>MonitorParts\<close>.
\<close>

section \<open>The verdict on the HTTPS connection\<close>

definition PUBLIC_PROBE_FRESHNESS_MS :: u64 where "PUBLIC_PROBE_FRESHNESS_MS = 45000"

record HttpsConnectionHealth =
  hh_enabled :: bool
  hh_manual_stop_blocked :: bool
  hh_local_ready :: bool
  hh_transport_connected :: bool
  hh_remote_ready :: bool
  hh_connected :: bool
  hh_state :: string

definition https_connection_health ::
  "bool \<Rightarrow> bool \<Rightarrow> bool \<Rightarrow> bool \<Rightarrow> bool \<Rightarrow> u64 \<Rightarrow> u64 \<Rightarrow> HttpsConnectionHealth" where
  "https_connection_health configured restore_ok local_ready transport_connected last_remote_ready last_public_probe_at now =
     (let enabled = (configured \<and> restore_ok);
          fresh = (last_public_probe_at \<noteq> 0 \<and> last_public_probe_at \<le> now
            \<and> now - last_public_probe_at \<le> PUBLIC_PROBE_FRESHNESS_MS);
          remote_ready = (transport_connected \<and> last_remote_ready \<and> fresh);
          connected = (enabled \<and> local_ready \<and> transport_connected \<and> remote_ready)
      in \<lparr>hh_enabled = enabled, hh_manual_stop_blocked = (configured \<and> \<not> restore_ok), hh_local_ready = local_ready,
          hh_transport_connected = transport_connected, hh_remote_ready = remote_ready, hh_connected = connected,
          hh_state = (if \<not> enabled then ''stopped'' else if connected then ''connected''
                      else if transport_connected \<and> local_ready then ''checking'' else ''reconnecting'')\<rparr>)"

record HttpsSnapshot =
  hs_local_ready :: bool
  hs_ssh_connected :: bool
  hs_transport_connected :: bool
  hs_remote_ready :: bool
  hs_last_public_probe_at :: u64
  hs_remote_last_error :: string
  hs_last_error :: string
  hs_restarts :: u32

definition default_https_snapshot :: HttpsSnapshot where
  "default_https_snapshot = \<lparr>hs_local_ready = False, hs_ssh_connected = False, hs_transport_connected = False,
     hs_remote_ready = False, hs_last_public_probe_at = 0, hs_remote_last_error = [], hs_last_error = [], hs_restarts = 0\<rparr>"

definition health_from_snapshot :: "Outside \<Rightarrow> HttpsMcpSettings \<Rightarrow> HttpsSnapshot \<Rightarrow> HttpsConnectionHealth op" where
  "health_from_snapshot out settings s =
     and_then_always (restore_allowed out HttpsMcp) (\<lambda>allowed w.
       (Inr (https_connection_health (ht_enabled settings) (allowed = Inr True) (hs_local_ready s)
          (hs_transport_connected s) (hs_remote_ready s) (hs_last_public_probe_at s) (timestamp_ms out w)), w))"

definition monitor_public_connection ::
  "Outside \<Rightarrow> HttpsMcpSettings \<Rightarrow> HttpsSnapshot \<Rightarrow> (HttpsConnectionHealth \<times> u64 \<times> u32) op" where
  "monitor_public_connection out settings s =
     chain (health_from_snapshot out settings s) (\<lambda>health. give (health, hs_last_public_probe_at s, hs_restarts s))"

record HttpsMcpStatus =
  st_enabled :: bool
  st_connected :: bool
  st_state :: string
  st_auto_reconnect :: bool
  st_manual_stop_blocked :: bool
  st_base_url :: string
  st_endpoint :: string
  st_ssh_host :: string
  st_ssh_user :: string
  st_ssh_port :: u16
  st_local_port :: u16
  st_remote_port :: u16
  st_authorization_ttl_hours :: "u32 option"
  st_transport :: string
  st_local_ready :: bool
  st_ssh_connected :: bool
  st_transport_connected :: bool
  st_remote_ready :: bool
  st_last_public_probe_at :: u64
  st_remote_last_error :: string
  st_restarts :: u32
  st_last_error :: string

definition trim_end_matches :: "char \<Rightarrow> string \<Rightarrow> string" where
  "trim_end_matches c s = rev (dropWhile (\<lambda>x. x = c) (rev s))"

definition status_view :: "Outside \<Rightarrow> HttpsMcpSettings \<Rightarrow> HttpsSnapshot \<Rightarrow> HttpsMcpStatus op" where
  "status_view out settings s =
     chain (health_from_snapshot out settings s) (\<lambda>health. give
       \<lparr>st_enabled = hh_enabled health, st_connected = hh_connected health, st_state = hh_state health,
        st_auto_reconnect = ht_auto_reconnect settings, st_manual_stop_blocked = hh_manual_stop_blocked health,
        st_base_url = ht_base_url settings, st_endpoint = trim_end_matches (CHR ''/'') (ht_base_url settings) @ ''/mcp'',
        st_ssh_host = ht_ssh_host settings, st_ssh_user = ht_ssh_user settings, st_ssh_port = ht_ssh_port settings,
        st_local_port = ht_local_port settings, st_remote_port = ht_remote_port settings,
        st_authorization_ttl_hours = ht_authorization_ttl_hours settings, st_transport = ht_transport settings,
        st_local_ready = hh_local_ready health, st_ssh_connected = hs_ssh_connected s,
        st_transport_connected = hh_transport_connected health, st_remote_ready = hh_remote_ready health,
        st_last_public_probe_at = hs_last_public_probe_at s, st_remote_last_error = hs_remote_last_error s,
        st_restarts = hs_restarts s, st_last_error = hs_last_error s\<rparr>)"

section \<open>The payload\<close>

definition json_u32 :: "u32 \<Rightarrow> json" where
  "json_u32 n = JInt (uint n)"

definition mcp_status_json :: "McpMonitorStatus \<Rightarrow> (string \<times> json) list" where
  "mcp_status_json st =
     [(''state'', JString (mm_state st)), (''sourceSequence'', json_opt json_u64 (mm_source_sequence st)),
      (''sourceUpdatedAt'', json_opt json_u64 (mm_source_updated_at st)),
      (''launcherStartedAt'', json_opt json_u64 (mm_launcher_started_at st)),
      (''lastRequestAt'', json_opt json_u64 (mm_last_request_at st)),
      (''lastRequestMethod'', json_opt JString (mm_last_request_method st)),
      (''lastListToolsAt'', json_opt json_u64 (mm_last_list_tools_at st)),
      (''callsLastMinute'', JInt (int (mm_calls_last_minute st))),
      (''gapDurationMs'', json_opt json_u64 (mm_gap_duration_ms st)),
      (''stallDurationMs'', json_opt json_u64 (mm_stall_duration_ms st)), (''inFlight'', json_u32 (mm_in_flight st)),
      (''lastCallStartedAt'', json_opt json_u64 (mm_last_call_started_at st)),
      (''lastCallFinishedAt'', json_opt json_u64 (mm_last_call_finished_at st)),
      (''lastToolName'', json_opt JString (mm_last_tool_name st)), (''lastSuccess'', json_opt JBool (mm_last_success st)),
      (''lastDurationMs'', json_opt json_u64 (mm_last_duration_ms st))]"

definition monitor_statuses :: "activity_sources \<Rightarrow> u64 \<Rightarrow> json" where
  "monitor_statuses sources now =
     JObject (fold (\<lambda>(source, snapshot). json_insert (if source = HTTPS_SOURCE then ''httpsMcp'' else ''tunnel'')
                (JObject (mcp_status_json (evaluate_activity snapshot now)))) sources [])"

record MonitorParts =
  mp_read_activity :: "string \<Rightarrow> ActivitySnapshot option"
  mp_history :: "json list"
  mp_https :: HttpsSnapshot
  mp_endpoints :: json
  mp_host :: json
  mp_version :: string
  mp_platform :: string

definition monitor_activities :: "Outside \<Rightarrow> MonitorParts \<Rightarrow> u64 \<Rightarrow> activity_sources op" where
  "monitor_activities out parts now =
     and_then_always (attempts out [''commander home'', ''state directory'']) (\<lambda>paths w.
       (Inr (if isl paths then []
             else activities (ts_active (w_snapshot w)) (hs_local_ready (mp_https parts)) (mp_read_activity parts) now), w))"

definition mcp_json :: "activity_sources \<Rightarrow> json list \<Rightarrow> u64 \<Rightarrow> json" where
  "mcp_json sources recent now =
     JObject (json_insert ''transports'' (monitor_statuses sources now)
       (json_insert ''recentCalls'' (JArray recent) (mcp_status_json (evaluate_activity (primary_activity sources) now))))"

definition tunnel_fresh :: "TunnelSnapshot \<Rightarrow> u64 \<Rightarrow> bool" where
  "tunnel_fresh tunnel now \<longleftrightarrow> ts_active tunnel \<and> ts_health tunnel = ''healthy'' \<and> ts_last_probe_at tunnel > 0
     \<and> sat_sub64 now (ts_last_probe_at tunnel) \<le> 12000"

definition connections_json ::
  "string \<Rightarrow> TunnelSnapshot \<Rightarrow> bool \<Rightarrow> HttpsConnectionHealth \<times> u64 \<times> u32 \<Rightarrow> u64 \<Rightarrow> json" where
  "connections_json mode tunnel reconnecting https now =
     (case https of (health, last_public_probe_at, restarts) \<Rightarrow>
      let https_connected = (mode = ''https'' \<and> hh_connected health);
          https_state = (if mode = ''https'' then hh_state health else ''stopped'');
          tunnel_connected = (mode = ''tunnel'' \<and> tunnel_fresh tunnel now)
      in JObject
       [(''activeMode'', JString mode),
        (''tunnel'', JObject
          [(''enabled'', JBool (mode = ''tunnel'')), (''connected'', JBool tunnel_connected),
           (''state'', JString (if mode \<noteq> ''tunnel'' then ''stopped'' else if tunnel_connected then ''connected''
              else if reconnecting then ''reconnecting'' else ''checking''))]),
        (''httpsMcp'', JObject
          [(''enabled'', JBool (mode = ''https'')), (''connected'', JBool https_connected), (''state'', JString https_state),
           (''localReady'', JBool (hh_local_ready health)), (''sshConnected'', JBool (hh_transport_connected health)),
           (''transportConnected'', JBool (hh_transport_connected health)), (''remoteReady'', JBool (hh_remote_ready health)),
           (''lastPublicProbeAt'', json_u64 last_public_probe_at), (''restarts'', json_u32 restarts)])])"

definition tunnel_json :: "TunnelSnapshot \<Rightarrow> Settings \<Rightarrow> bool \<times> string \<Rightarrow> World \<Rightarrow> json" where
  "tunnel_json tunnel settings reconnect w =
     JObject
       [(''state'', JString (ts_state tunnel)), (''health'', JString (ts_health tunnel)), (''active'', JBool (ts_active tunnel)),
        (''updatedAt'', json_u64 (ts_updated_at tunnel)), (''lastProbeAt'', json_u64 (ts_last_probe_at tunnel)),
        (''lastSuccessfulProbeAt'', json_u64 (ts_last_successful_probe_at tunnel)),
        (''consecutiveFailures'', json_u32 (ts_consecutive_failures tunnel)),
        (''controlPlaneState'', JString (ts_control_plane_state tunnel)),
        (''controlPlaneReason'', JString (ts_control_plane_reason tunnel)),
        (''controlPlaneFailures'', json_u32 (ts_control_plane_failures tunnel)),
        (''proxyMode'', JString (ts_proxy_mode tunnel)), (''proxySource'', JString (ts_proxy_source tunnel)),
        (''desiredConnected'', JBool (w_desired_connected w)), (''autoReconnect'', JBool (se_auto_reconnect settings)),
        (''reconnecting'', JBool (w_reconnecting w)), (''reconnectAttempt'', json_u32 (w_reconnect_attempt w)),
        (''reconnectPhase'', JString (tr_phase (w_recovery w))),
        (''nextReconnectAt'', json_u64 (tr_next_reconnect_at (w_recovery w))),
        (''lastReconnectError'', JString (tr_last_error (w_recovery w))),
        (''reconnectAvailable'', JBool (fst reconnect)), (''reconnectUnavailableReason'', JString (snd reconnect))]"

definition view_json :: "MonitorParts \<Rightarrow> u64 \<Rightarrow> json \<Rightarrow> json \<Rightarrow> json \<Rightarrow> json" where
  "view_json parts now connections tunnel mcp =
     JObject
       [(''schemaVersion'', JInt 1), (''serverTime'', json_u64 now), (''endpoints'', mp_endpoints parts),
        (''chatx'', JObject [(''version'', JString (mp_version parts)), (''platform'', JString (mp_platform parts))]),
        (''host'', mp_host parts), (''connections'', connections), (''tunnel'', tunnel), (''mcp'', mcp)]"

definition connections_op ::
  "Outside \<Rightarrow> MonitorParts \<Rightarrow> u64 \<Rightarrow> activity_sources \<Rightarrow> TunnelSnapshot \<Rightarrow> json op" where
  "connections_op out parts now sources tunnel =
     chain (load_settings out) (\<lambda>settings.
     chain (monitor_public_connection out (se_https_mcp settings) (mp_https parts)) (\<lambda>https w.
       let mode = effective_mcp_mode settings (hh_enabled (fst https)) (w_desired_connected w)
       in (Inr (view_json parts now (connections_json mode tunnel (w_reconnecting w) https now)
             (tunnel_json tunnel settings (reconnect_capability out settings w) w)
             (mcp_json sources (merge_recent_calls (mp_history parts) sources now) now)), w)))"

definition payload_with_tunnel :: "Outside \<Rightarrow> MonitorParts \<Rightarrow> TunnelSnapshot option \<Rightarrow> json op" where
  "payload_with_tunnel out parts tunnel_override w =
     (let now = timestamp_ms out w in
      chain (monitor_activities out parts now) (\<lambda>sources w1.
        connections_op out parts now sources (case tunnel_override of Some t \<Rightarrow> t | None \<Rightarrow> w_snapshot w1) w1) w)"

definition payload :: "Outside \<Rightarrow> MonitorParts \<Rightarrow> json op" where
  "payload out parts = payload_with_tunnel out parts None"

text \<open>\<open>busy\<close> says whether the connection lock is held by another operation.\<close>

definition fresh_payload :: "Outside \<Rightarrow> bool \<Rightarrow> MonitorParts \<Rightarrow> json op" where
  "fresh_payload out busy parts =
     (if busy then raise ''the tunnel is being connected, stopped or reconnected; refresh later''
      else chain (attempt out ''runtime files'') (\<lambda>_.
           chain (load_settings out) (\<lambda>settings w.
             let (observation, w1) = tunnel_status out w;
                 tunnel = project_runtime_snapshot (timestamp_ms out w1) (w_snapshot w1) observation (w_desired_connected w1)
                            (px_mode (se_proxy settings)) False
             in payload_with_tunnel out parts (Some tunnel) w1)))"

section \<open>Properties\<close>

definition says :: "json \<Rightarrow> string list \<Rightarrow> bool" where
  "says p path \<longleftrightarrow> json_pointer path p = Some (JBool True)"

lemma json_pointer_simps [simp]:
  "json_pointer [] v = Some v" "json_pointer (k # ks) v = (case json_get k v of None \<Rightarrow> None | Some x \<Rightarrow> json_pointer ks x)"
proof -
  have none: "fold (\<lambda>k r. Option.bind r (json_get k)) ks None = None" for ks
    by (induction ks) simp_all
  show "json_pointer [] v = Some v" "json_pointer (k # ks) v = (case json_get k v of None \<Rightarrow> None | Some x \<Rightarrow> json_pointer ks x)"
    by (simp_all add: json_pointer_def none split: option.splits)
qed

lemma health_connected_iff:
  "hh_connected (https_connection_health c a l t r p now) \<longleftrightarrow>
     c \<and> a \<and> l \<and> t \<and> r \<and> p \<noteq> 0 \<and> p \<le> now \<and> unat now - unat p \<le> 45000"
  "hh_enabled (https_connection_health c a l t r p now) \<longleftrightarrow> c \<and> a"
  "hh_state (https_connection_health c a l t r p now) = ''connected'' \<longleftrightarrow> hh_connected (https_connection_health c a l t r p now)"
  by (auto simp: https_connection_health_def Let_def PUBLIC_PROBE_FRESHNESS_MS_def word_le_nat_alt unat_sub)

text \<open>HTTPS is wanted, allowed and verified end to end, the last check of the public address at most 45 seconds old.\<close>

definition https_verified :: "Outside \<Rightarrow> MonitorParts \<Rightarrow> World \<Rightarrow> bool" where
  "https_verified out parts w \<longleftrightarrow>
     (\<exists>s. file_settings out w = Inr s \<and> ht_enabled (se_https_mcp s)) \<and> \<not> w_stopped w HttpsMcp
   \<and> hs_local_ready (mp_https parts) \<and> hs_transport_connected (mp_https parts) \<and> hs_remote_ready (mp_https parts)
   \<and> hs_last_public_probe_at (mp_https parts) \<noteq> 0
   \<and> (\<exists>c. hs_last_public_probe_at (mp_https parts) \<le> os_now out c
         \<and> unat (os_now out c) - unat (hs_last_public_probe_at (mp_https parts)) \<le> 45000)"

text \<open>What a payload may claim, given the tunnel's snapshot it shows.\<close>

definition honest :: "Outside \<Rightarrow> MonitorParts \<Rightarrow> TunnelSnapshot \<Rightarrow> World \<Rightarrow> json \<Rightarrow> bool" where
  "honest out parts tunnel w p \<longleftrightarrow>
     \<not> (says p [''connections'', ''tunnel'', ''connected''] \<and> says p [''connections'', ''httpsMcp'', ''connected''])
   \<and> (says p [''connections'', ''tunnel'', ''connected''] \<longrightarrow> w_desired_connected w \<and> tunnel_fresh tunnel (timestamp_ms out w))
   \<and> (says p [''connections'', ''httpsMcp'', ''connected''] \<longrightarrow> https_verified out parts w)"

lemma view_connections [simp]: "json_get ''connections'' (view_json parts now c t m) = Some c"
  by (simp add: view_json_def)

lemma connections_says:
  "says (view_json parts now (connections_json mode tunnel rec https now2) t m) [''connections'', ''tunnel'', ''connected'']
     \<longleftrightarrow> mode = ''tunnel'' \<and> tunnel_fresh tunnel now2"
  "says (view_json parts now (connections_json mode tunnel rec https now2) t m) [''connections'', ''httpsMcp'', ''connected'']
     \<longleftrightarrow> mode = ''https'' \<and> hh_connected (fst https)"
  by (auto simp: says_def connections_json_def Let_def split: prod.splits)

lemma view_honest:
  assumes "s = default_settings \<or> file_settings out w = Inr s" and "a \<longrightarrow> \<not> w_stopped w HttpsMcp"
    and "h = https_connection_health (ht_enabled (se_https_mcp s)) a (hs_local_ready (mp_https parts))
          (hs_transport_connected (mp_https parts)) (hs_remote_ready (mp_https parts))
          (hs_last_public_probe_at (mp_https parts)) (os_now out c)"
  shows "honest out parts tunnel w (view_json parts (timestamp_ms out w)
     (connections_json (effective_mcp_mode s (hh_enabled h) (w_desired_connected w)) tunnel rec (h, x) (timestamp_ms out w)) tj mj)"
  using assms
  by (auto simp: honest_def https_verified_def connections_says effective_mcp_mode_def health_connected_iff default_settings_def default_https_def)

lemma monitor_public_connection_answer:
  "\<exists>a c c3 t3. (a \<longrightarrow> \<not> w_stopped w HttpsMcp) \<and> monitor_public_connection out s h w
     = (Inr (https_connection_health (ht_enabled s) a (hs_local_ready h) (hs_transport_connected h) (hs_remote_ready h)
          (hs_last_public_probe_at h) (os_now out c), hs_last_public_probe_at h, hs_restarts h), ticked c3 t3 w)"
proof -
  obtain r c t where "restore_allowed out HttpsMcp w = (r, ticked c t w)" "r = Inr True \<longrightarrow> \<not> w_stopped w HttpsMcp"
    using wp_restore_allowed[of "\<lambda>r w'. \<exists>c t. w' = ticked c t w \<and> (r = Inr True \<longrightarrow> \<not> w_stopped w HttpsMcp)" w HttpsMcp out]
    by (auto simp: wp_def)
  then show ?thesis
    by (intro exI[of _ "r = Inr True"] exI[of _ "w_calls (ticked c t w)"] exI[of _ c] exI[of _ t])
      (simp add: monitor_public_connection_def health_from_snapshot_def chain_def and_then_always_def give_def timestamp_ms_def)
qed

lemma payload_honest:
  "\<exists>p c t. payload_with_tunnel out parts ov w = (Inr p, ticked c t w) \<and> honest out parts (case ov of Some t \<Rightarrow> t | None \<Rightarrow> w_snapshot w) w p"
proof -
  have "wp (attempts out [''commander home'', ''state directory'']) (\<lambda>r w'. \<exists>c t. w' = ticked c t w) w"
    by (rule wp_attempts) blast
  then obtain sources c1 t1 where 1: "monitor_activities out parts (timestamp_ms out w) w = (Inr sources, ticked c1 t1 w)"
    by (auto simp: monitor_activities_def and_then_always_def wp_def split: prod.splits)
  obtain s c2 t2 where 2: "load_settings out (ticked c1 t1 w) = (Inr s, ticked c2 t2 w)"
      "s = default_settings \<or> file_settings out w = Inr s"
    using wp_load_settings[of out "ticked c1 t1 w" "\<lambda>r w'. \<exists>s c t. r = Inr s \<and> w' = ticked c t w \<and> (s = default_settings \<or> file_settings out w = Inr s)"]
    by (auto simp: wp_def)
  obtain a c c3 t3 where 3: "a \<longrightarrow> \<not> w_stopped w HttpsMcp"
      "monitor_public_connection out (se_https_mcp s) (mp_https parts) (ticked c2 t2 w)
         = (Inr (https_connection_health (ht_enabled (se_https_mcp s)) a (hs_local_ready (mp_https parts))
             (hs_transport_connected (mp_https parts)) (hs_remote_ready (mp_https parts))
             (hs_last_public_probe_at (mp_https parts)) (os_now out c),
           hs_last_public_probe_at (mp_https parts), hs_restarts (mp_https parts)), ticked c3 t3 w)"
    using monitor_public_connection_answer[of "ticked c2 t2 w" out "se_https_mcp s" "mp_https parts"] by auto
  show ?thesis
    using view_honest[where c = c and parts = parts, OF 2(2) 3(1) refl] 1 2(1) 3(2)
    by (auto simp: payload_with_tunnel_def connections_op_def chain_def Let_def cong: option.case_cong)
qed


lemma ticked_ex [simp]: "\<exists>c2 t2. ticked c t w = ticked c2 t2 w"
  by blast

lemma projected_fresh:
  assumes "tunnel_fresh (project_runtime_snapshot now s ob desired m False) t"
  shows "ro_active ob \<and> desired"
  using assms by (auto simp: tunnel_fresh_def project_runtime_snapshot_def Let_def split: if_splits)

lemma fresh_payload_answer:
  assumes "fresh_payload out busy parts w = (r, w')"
  shows "(\<exists>c t. w' = ticked c t w)
    \<and> (isl r \<or> \<not> busy \<and> (\<exists>p now snapshot c mode c2 t2. r = Inr p \<and> honest out parts
         (project_runtime_snapshot now snapshot (runtime_status (os_log out) (os_parse_value out) (os_run out c))
            (w_desired_connected w) mode False) (ticked c2 t2 w) p))"
proof (cases "busy \<or> \<not> os_ok out (w_calls w)")
  case True
  with assms have "isl r \<and> (w' = w \<or> w' = passed out w)"
    by (cases busy) (auto simp: fresh_payload_def raise_def chain_def attempt_def)
  moreover have "\<exists>c t. passed out w = ticked c t w" "\<exists>c t. w = ticked c t w"
    by (auto simp: passed_def ticked_def) (metis ticked_def ticked_same)
  ultimately show ?thesis by (auto split: sum.splits)
next
  case False
  obtain l w1 where l: "load_settings out (passed out w) = (Inr l, w1)" and t1: "\<exists>c t. w1 = ticked c t w"
  proof -
    have "wp (load_settings out) (\<lambda>r w'. \<exists>l. r = Inr l \<and> (\<exists>c t. w' = ticked c t (passed out w))) (passed out w)"
      by (rule wp_load_settings) blast
    then show ?thesis
      using that by (auto simp: wp_def passed_def ticked_def)
  qed
  obtain ob w2 where ob: "tunnel_status out w1 = (ob, w2)" by fastforce
  then have t2: "\<exists>c t. w2 = ticked c t w" and run: "ob = runtime_status (os_log out) (os_parse_value out) (os_run out (w_calls w1))"
    using t1 by (auto simp: tunnel_status_def run_tunnel_def passed_def ticked_def) blast
  define tunnel where "tunnel = project_runtime_snapshot (timestamp_ms out w2) (w_snapshot w2) ob (w_desired_connected w2)
     (px_mode (se_proxy l)) False"
  have eq: "(r, w') = payload_with_tunnel out parts (Some tunnel) w2"
    using False l ob assms by (simp add: fresh_payload_def chain_def attempt_def Let_def tunnel_def)
  with payload_honest[of out parts "Some tunnel" w2] obtain p c t where
    p: "r = Inr p" "w' = ticked c t w2" "honest out parts tunnel w2 p" by auto
  have "tunnel = project_runtime_snapshot (timestamp_ms out w2) (w_snapshot w2) ob (w_desired_connected w) (px_mode (se_proxy l)) False"
    using t2 by (auto simp: tunnel_def)
  with p t2 run False show ?thesis by fastforce
qed

text \<open>A phone's refresh is read-only, is refused while a connection operation runs, and says "connected" for the
  tunnel only if the tunnel is wanted and the client, asked just then, reported it active.\<close>

theorem refresh_honest:
  assumes "fresh_payload out busy parts w = (r, w')"
  shows "(\<exists>c t. w' = ticked c t w)
     \<and> (case r of Inl _ \<Rightarrow> True | Inr p \<Rightarrow> \<not> busy
          \<and> \<not> (says p [''connections'', ''tunnel'', ''connected''] \<and> says p [''connections'', ''httpsMcp'', ''connected''])
          \<and> (says p [''connections'', ''tunnel'', ''connected''] \<longrightarrow> w_desired_connected w
               \<and> (\<exists>c. ro_active (runtime_status (os_log out) (os_parse_value out) (os_run out c))))
          \<and> (says p [''connections'', ''httpsMcp'', ''connected''] \<longrightarrow> https_verified out parts w))"
proof -
  have "https_verified out parts (ticked c t w) = https_verified out parts w" for c t
    by (simp add: https_verified_def)
  with fresh_payload_answer[OF assms] show ?thesis
    by (auto simp: honest_def dest: projected_fresh split: sum.splits)
qed

section \<open>Witness\<close>

definition sample_parts :: MonitorParts where
  "sample_parts = \<lparr>mp_read_activity = (\<lambda>_. None), mp_history = [], mp_https = default_https_snapshot, mp_endpoints = JArray [],
     mp_host = JObject [], mp_version = ''1'', mp_platform = ''linux-x86_64''\<rparr>"

theorem refresh_honest_witness:
  "\<exists>r w'. fresh_payload calm_outside False sample_parts fresh_world = (r, w') \<and> (\<exists>c t. w' = ticked c t fresh_world)"
proof -
  obtain r w' where run: "fresh_payload calm_outside False sample_parts fresh_world = (r, w')" by fastforce
  from run refresh_honest[OF run] show ?thesis by blast
qed

end
