(* ===== verification/Monitor_Control.thy ===== *)
theory Monitor_Control
  imports Tunnel_Recovery Monitor_Status Device_Session
begin

text \<open>
  Control requests from phones (\<^verbatim>\<open>src-tauri/src/monitor_control.rs\<close>): the checks on an encrypted request, the cache that
  makes a repeated request harmless, the two actions, and the worker thread that reconnects the tunnel.

  A request is handled in two parts: \<open>handle_begin\<close> up to the cache's lock, \<open>handle_locked\<close> with it held; other requests
  may come between. The worker, too, has its part under the connection lock (\<open>remote_reconnect_locked\<close>) and the
  rest (\<open>remote_outcome\<close>). The registry of devices, keys, ciphers and serde's parser are parameters.
\<close>

section \<open>The cache\<close>

record CacheEntry =
  ce_expires_at :: u64
  ce_issued_at :: u64
  ce_nonce :: string
  ce_ciphertext :: string
  ce_response :: EncryptedControlPayload

type_synonym ControlCache = "string \<rightharpoonup> CacheEntry"

definition cache_key :: "string \<Rightarrow> string \<Rightarrow> string" where
  "cache_key device_id request_id = device_id @ ''|'' @ request_id"

definition entry_matches :: "CacheEntry \<Rightarrow> EncryptedControlPayload \<Rightarrow> bool" where
  "entry_matches entry request \<longleftrightarrow> ce_issued_at entry = cp_issued_at request \<and> ce_expires_at entry = cp_expires_at request
     \<and> ce_nonce entry = cp_nonce request \<and> ce_ciphertext entry = cp_ciphertext request"

definition cached_response ::
  "u64 \<Rightarrow> string \<Rightarrow> EncryptedControlPayload \<Rightarrow> ControlCache \<Rightarrow> (string + EncryptedControlPayload option) \<times> ControlCache" where
  "cached_response now device_id request cache =
     (let entries = retain (\<lambda>_ entry. now \<le> ce_expires_at entry) cache in
      (case entries (cache_key device_id (cp_request_id request)) of
         None \<Rightarrow> Inr None
       | Some entry \<Rightarrow> if \<not> entry_matches entry request then Inl ''the request id conflicts with an earlier request''
                       else Inr (Some (ce_response entry)),
       entries))"

definition control_insert ::
  "string \<Rightarrow> EncryptedControlPayload \<Rightarrow> EncryptedControlPayload \<Rightarrow> ControlCache \<Rightarrow> ControlCache" where
  "control_insert device_id request response cache =
     cache(cache_key device_id (cp_request_id request) \<mapsto>
       \<lparr>ce_expires_at = cp_expires_at request, ce_issued_at = cp_issued_at request, ce_nonce = cp_nonce request,
        ce_ciphertext = cp_ciphertext request, ce_response = response\<rparr>)"

section \<open>The checks on a request\<close>

definition validate_request :: "u64 \<Rightarrow> EncryptedControlPayload \<Rightarrow> string + unit" where
  "validate_request now request =
     (let valid_id = (starts_with ''c_'' (cp_request_id request) \<and> 18 \<le> length (cp_request_id request)
            \<and> length (cp_request_id request) \<le> 80 \<and> list_all is_ascii_hexdigit (drop 2 (cp_request_id request)));
          valid_time = (cp_issued_at request \<le> sat_add64 now 30000 \<and> sat_sub64 now (cp_issued_at request) \<le> 60000
            \<and> now \<le> cp_expires_at request \<and> cp_expires_at request \<le> sat_add64 (cp_issued_at request) 60000)
      in if \<not> valid_id \<or> \<not> valid_time then Inl ''the control request is expired or malformed'' else Inr ())"

record ControlCrypto =
  cc_keys :: "string \<Rightarrow> string + unit"
  cc_decrypt :: "string \<Rightarrow> EncryptedControlPayload \<Rightarrow> string + string"
  cc_parse :: "string \<Rightarrow> json option"
  cc_encrypt :: "string \<Rightarrow> EncryptedControlPayload \<Rightarrow> json \<Rightarrow> string + EncryptedControlPayload"

text \<open>\<open>known\<close> is what \<^verbatim>\<open>has_monitor_device\<close> says of the device. The result is the action asked for.\<close>

definition handle_begin ::
  "ControlCrypto \<Rightarrow> string + bool \<Rightarrow> u64 \<Rightarrow> string \<Rightarrow> EncryptedControlPayload \<Rightarrow> string + string" where
  "handle_begin cc known now device_id request =
     (case known of
        Inl e \<Rightarrow> Inl e
      | Inr False \<Rightarrow> Inl ''the monitor device was revoked''
      | Inr True \<Rightarrow>
         (case validate_request now request of
            Inl e \<Rightarrow> Inl e
          | Inr _ \<Rightarrow>
             (case cc_keys cc device_id of
                Inl e \<Rightarrow> Inl e
              | Inr _ \<Rightarrow>
                 (case cc_decrypt cc device_id request of
                    Inl e \<Rightarrow> Inl e
                  | Inr clear \<Rightarrow>
                     (case cc_parse cc clear of
                        None \<Rightarrow> Inl ''the control payload is invalid''
                      | Some doc \<Rightarrow>
                          Inr (case json_str_at ''action'' doc of Some a \<Rightarrow> a | None \<Rightarrow> []))))))"

section \<open>Reconnecting the tunnel\<close>

text \<open>The key of the session, or else the saved one.\<close>

definition reconnect_key :: "Outside \<Rightarrow> World \<Rightarrow> string option \<times> World" where
  "reconnect_key out w =
     (let (found, w1) = (case w_session_key w of
            Some key \<Rightarrow> (Some key, w)
          | None \<Rightarrow> (case load_runtime_key out [] w of (Inl _, w1) \<Rightarrow> (None, w1) | (Inr key, w1) \<Rightarrow> (Some key, w1)))
      in (case found of None \<Rightarrow> None | Some key \<Rightarrow> if trim key \<noteq> [] then Some key else None, w1))"

text \<open>On success the worker is spawned with the key returned.\<close>

definition trigger_tunnel_reconnect :: "Outside \<Rightarrow> string op" where
  "trigger_tunnel_reconnect out =
     chain (load_settings out) (\<lambda>settings w.
       let now = timestamp_ms out w; previous = w_last_reconnect_at w in
       if ht_enabled (se_https_mcp settings) then (Inl ''HTTPS MCP is in use'', w)
       else if \<not> se_connection_intent settings \<or> \<not> w_desired_connected w then (Inl ''the desktop stopped the tunnel'', w)
       else if trim (se_tunnel_id settings) = [] then (Inl ''no tunnel id'', w)
       else if tunnel_fresh (w_snapshot w) now then (Inl ''the tunnel is healthy'', w)
       else if w_reconnect_running w \<or> w_reconnecting w then (Inl ''a reconnect is running'', w)
       else if previous > 0 \<and> sat_sub64 now previous < 10000 then (Inl ''too many reconnects'', w)
       else case reconnect_key out w of
         (None, w1) \<Rightarrow> (Inl ''no runtime key'', w1)
       | (Some key, w1) \<Rightarrow>
           if w_reconnect_running w1 then (Inl ''a remote reconnect is running'', w1)
           else (Inr key, set_recovery_status ''reconnecting'' 0 []
                   (w1\<lparr>w_reconnect_running := True, w_last_reconnect_at := now, w_reconnecting := True\<rparr>)))"

definition remote_reconnect_locked :: "Outside \<Rightarrow> string \<Rightarrow> unit op" where
  "remote_reconnect_locked out key =
     chain (load_settings out) (\<lambda>current w.
       if w_quitting w \<or> ht_enabled (se_https_mcp current) \<or> \<not> se_connection_intent current \<or> \<not> w_desired_connected w
       then (Inl ''switched to HTTPS or stopped by hand'', w)
       else start_runtime_connection out (se_tunnel_id current) key False True w)"

definition remote_recovered :: "nat \<Rightarrow> Outside \<Rightarrow> string + unit \<Rightarrow> World \<Rightarrow> (bool \<times> World) option" where
  "remote_recovered fuel out result w =
     (case result of
        Inl _ \<Rightarrow> Some (False, w)
      | Inr _ \<Rightarrow>
         (case attempt out ''runtime files'' (set_recovery_status ''verifying'' 0 [] w) of
            (Inl _, w1) \<Rightarrow> Some (False, w1)
          | (Inr _, w1) \<Rightarrow> wait_for_runtime_recovery fuel out False w1))"

definition remote_outcome :: "nat \<Rightarrow> Outside \<Rightarrow> string + unit \<Rightarrow> World \<Rightarrow> World option" where
  "remote_outcome fuel out result w =
     map_option (\<lambda>(recovered, w1).
       (case result of
          Inl e \<Rightarrow> set_recovery_status ''failed'' 0 e w1
        | Inr _ \<Rightarrow> if recovered then (set_recovery_status ''idle'' 0 [] w1)\<lparr>w_reconnect_attempt := 0\<rparr>
                   else set_recovery_status ''failed'' 0 ''not ready within 15 seconds'' w1)
         \<lparr>w_reconnecting := False, w_reconnect_running := False\<rparr>)
       (remote_recovered fuel out result w)"

section \<open>Handling a request\<close>

definition action_reply :: "bool \<Rightarrow> string \<Rightarrow> (string \<times> json) list \<Rightarrow> json" where
  "action_reply ok action details = JObject ((''ok'', JBool ok) # (''action'', JString action) # details)"

text \<open>The answer, and the key of the worker if one is spawned.\<close>

definition perform_action ::
  "Outside \<Rightarrow> bool \<Rightarrow> MonitorParts \<Rightarrow> string \<Rightarrow> World \<Rightarrow> json \<times> string option \<times> World" where
  "perform_action out busy parts action w =
     (if action = ''refresh_snapshot'' then
        (case fresh_payload out busy parts w of
           (Inr snapshot, w1) \<Rightarrow> (action_reply True action [(''snapshot'', snapshot)], None, w1)
         | (Inl m, w1) \<Rightarrow> (action_reply False action [(''message'', JString m)], None, w1))
      else if action = ''reconnect_tunnel'' then
        (case trigger_tunnel_reconnect out w of (result, w1) \<Rightarrow>
         case payload out parts w1 of (view, w2) \<Rightarrow>
           let snapshot = (''snapshot'', case view of Inr p \<Rightarrow> p | Inl _ \<Rightarrow> JNull) in
           (case result of
              Inr key \<Rightarrow> (action_reply True action [(''accepted'', JBool True), (''message'', JString ''submitted''), snapshot], Some key, w2)
            | Inl m \<Rightarrow> (action_reply False action [(''message'', JString m), snapshot], None, w2)))
      else (action_reply False action [(''message'', JString ''unsupported control action'')], None, w))"

definition handle_locked ::
  "Outside \<Rightarrow> ControlCrypto \<Rightarrow> bool \<Rightarrow> MonitorParts \<Rightarrow> string \<Rightarrow> EncryptedControlPayload \<Rightarrow> string \<Rightarrow> ControlCache \<Rightarrow> World
     \<Rightarrow> (string + EncryptedControlPayload) \<times> ControlCache \<times> string option \<times> World" where
  "handle_locked out cc busy parts device_id request action cache w =
     (case cached_response (timestamp_ms out w) device_id request cache of
        (Inl e, entries) \<Rightarrow> (Inl e, entries, None, w)
      | (Inr (Some response), entries) \<Rightarrow> (Inr response, entries, None, w)
      | (Inr None, entries) \<Rightarrow>
         (case perform_action out busy parts action w of (value, worker, w1) \<Rightarrow>
          case cc_encrypt cc device_id request value of
            Inl e \<Rightarrow> (Inl e, entries, worker, w1)
          | Inr encrypted \<Rightarrow> (Inr encrypted, control_insert device_id request encrypted entries, worker, w1)))"

section \<open>One execution per request\<close>

lemma cached_response_keeps:
  assumes "cache k = Some entry" and "now \<le> ce_expires_at entry"
  shows "snd (cached_response now device_id request cache) k = Some entry"
  using assms by (simp add: cached_response_def retain_def)

lemma cached_response_miss:
  assumes "cached_response now d req cache = (Inr None, entries)"
  shows "entries (cache_key d (cp_request_id req)) = None"
  using assms by (auto simp: cached_response_def Let_def split: option.splits if_splits)

lemma handle_locked_keeps:
  assumes "handle_locked out cc busy parts d req action cache w = (res, cache', worker, w')"
    and "cache k = Some entry" and "timestamp_ms out w \<le> ce_expires_at entry"
  shows "cache' k = Some entry"
proof -
  obtain hit entries where c: "cached_response (timestamp_ms out w) d req cache = (hit, entries)" by fastforce
  then have k: "entries k = Some entry"
    using cached_response_keeps[where cache = cache and k = k, OF assms(2,3), of d req] by simp
  show ?thesis
  proof (cases "hit = Inr None")
    case True
    with c have "k \<noteq> cache_key d (cp_request_id req)"
      using cached_response_miss k by fastforce
    with assms(1) c k True show ?thesis
      by (auto simp: handle_locked_def control_insert_def split: prod.splits sum.splits)
  next
    case False
    with assms(1) c k show ?thesis
      by (auto simp: handle_locked_def split: sum.splits option.splits)
  qed
qed

lemma handle_locked_remembers:
  assumes "handle_locked out cc busy parts d req action cache w = (Inr response, cache', worker, w')"
  shows "\<exists>entry. cache' (cache_key d (cp_request_id req)) = Some entry \<and> entry_matches entry req \<and> ce_response entry = response"
  using assms
  by (auto simp: handle_locked_def cached_response_def control_insert_def entry_matches_def Let_def
      split: prod.splits sum.splits option.splits if_splits)

lemma handle_locked_hit:
  assumes "cache (cache_key d (cp_request_id req)) = Some entry" and "timestamp_ms out w \<le> ce_expires_at entry"
  shows "\<exists>cache'. handle_locked out cc busy parts d req action cache w
     = (if entry_matches entry req then Inr (ce_response entry) else Inl ''the request id conflicts with an earlier request'',
        cache', None, w)"
  using assms by (simp add: handle_locked_def cached_response_def retain_def Let_def)

text \<open>The cache after any number of requests, from any device, looked up no later than \<open>t\<close>; whatever else the desktop
  does in between changes the world, not the cache.\<close>

inductive control_later :: "u64 \<Rightarrow> ControlCache \<Rightarrow> ControlCache \<Rightarrow> bool" for t where
  now: "control_later t c c"
| later: "control_later t c c1 \<Longrightarrow> timestamp_ms out w \<le> t
    \<Longrightarrow> handle_locked out cc busy parts d req action c1 w = (res, c2, worker, w') \<Longrightarrow> control_later t c c2"

lemma control_later_keeps:
  assumes "control_later t c c'" and "c k = Some entry" and "t \<le> ce_expires_at entry"
  shows "c' k = Some entry"
  using assms
proof induction
  case (later c c1 out w cc busy parts d req action res c2 worker w')
  from later.IH[OF later.prems] later.prems(2) later.hyps(2,3) show ?case
    using handle_locked_keeps[of out cc busy parts d req action c1 w] by auto
qed simp

text \<open>C15: a control request is executed once. After it was answered, and until it expires, the same request gets the
  same answer and nothing else happens, however many other requests came between; another request under
  the same id is refused, and nothing else happens either.\<close>

theorem control_executed_once:
  assumes "handle_locked out cc busy parts d req action cache w = (Inr response, cache1, worker, w1)"
    and "control_later (cp_expires_at req) cache1 cache2"
    and "timestamp_ms out2 w2 \<le> cp_expires_at req" and "cp_request_id req2 = cp_request_id req"
  shows "\<exists>cache3. handle_locked out2 cc2 busy2 parts2 d req2 action2 cache2 w2
     = (if cp_issued_at req2 = cp_issued_at req \<and> cp_expires_at req2 = cp_expires_at req
           \<and> cp_nonce req2 = cp_nonce req \<and> cp_ciphertext req2 = cp_ciphertext req
        then Inr response else Inl ''the request id conflicts with an earlier request'', cache3, None, w2)"
proof -
  obtain entry where e: "cache1 (cache_key d (cp_request_id req)) = Some entry" "entry_matches entry req" "ce_response entry = response"
    using handle_locked_remembers[OF assms(1)] by blast
  then have x: "ce_expires_at entry = cp_expires_at req" by (simp add: entry_matches_def)
  have "cache2 (cache_key d (cp_request_id req2)) = Some entry"
    using control_later_keeps[OF assms(2) e(1)] x assms(4) by simp
  from handle_locked_hit[where cache = cache2 and d = d and req = req2 and out = out2 and w = w2, OF this] assms(3)
  have "\<exists>cache3. handle_locked out2 cc2 busy2 parts2 d req2 action2 cache2 w2
     = (if entry_matches entry req2 then Inr response else Inl ''the request id conflicts with an earlier request'', cache3, None, w2)"
    unfolding x e(3) by blast
  moreover have "entry_matches entry req2 \<longleftrightarrow> cp_issued_at req2 = cp_issued_at req \<and> cp_expires_at req2 = cp_expires_at req
           \<and> cp_nonce req2 = cp_nonce req \<and> cp_ciphertext req2 = cp_ciphertext req"
    using e(2) by (auto simp: entry_matches_def)
  ultimately show ?thesis by simp
qed

text \<open>Valid ids keep the devices apart: they contain no bar.\<close>

definition no_bar :: "string \<Rightarrow> bool" where
  "no_bar i \<longleftrightarrow> CHR ''|'' \<notin> set i"

lemma valid_no_bar: "validate_request now r = Inr () \<Longrightarrow> no_bar (cp_request_id r)"
proof -
  assume valid: "validate_request now r = Inr ()"
  then have "starts_with ''c_'' (cp_request_id r)" and hex: "list_all is_ascii_hexdigit (drop 2 (cp_request_id r))"
    by (auto simp: validate_request_def Let_def split: if_splits)
  then obtain i where i: "cp_request_id r = ''c_'' @ i" by (elim starts_withE)
  have "\<not> is_ascii_hexdigit (CHR ''|'')" by (simp add: is_ascii_hexdigit_def hex_digit_def code_def)
  with hex i show ?thesis by (auto simp: list_all_iff no_bar_def)
qed

lemma after_last_bar:
  assumes "d1 @ ''|'' @ i1 = d2 @ ''|'' @ i2" and "no_bar i1" and "no_bar i2"
  shows "i1 = i2"
proof -
  have cut: "takeWhile (\<lambda>c. c \<noteq> CHR ''|'') (rev i @ CHR ''|'' # r) = rev i" if "no_bar i" for i r
    using that by (induction i rule: rev_induct) (auto simp: no_bar_def)
  have "rev i1 @ CHR ''|'' # rev d1 = rev i2 @ CHR ''|'' # rev d2"
    using arg_cong [OF assms(1), of rev] by simp
  then show ?thesis using cut [OF assms(2), of "rev d1"] cut [OF assms(3), of "rev d2"] by (metis rev_rev_ident)
qed

lemma cache_key_inject:
  assumes "validate_request now r1 = Inr ()" and "validate_request now2 r2 = Inr ()"
  shows "cache_key d1 (cp_request_id r1) = cache_key d2 (cp_request_id r2) \<longleftrightarrow> d1 = d2 \<and> cp_request_id r1 = cp_request_id r2"
  using after_last_bar [of d1 "cp_request_id r1" d2 "cp_request_id r2"] valid_no_bar [OF assms(1)] valid_no_bar [OF assms(2)]
  by (auto simp: cache_key_def)

text \<open>Relay and desktop check a control request alike. What the relay forwards, the desktop's check accepts at the same
  time, and the other way round.\<close>

theorem desktop_checks_like_relay:
  "validate_request now request = Inr () \<longleftrightarrow> valid_control_id (cp_request_id request) \<and> valid_control_time now request"
proof -
  have "sat_sub64 now (cp_issued_at request) \<le> 60000"
    if "now \<le> cp_expires_at request" "cp_expires_at request \<le> sat_add64 (cp_issued_at request) 60000"
    using that by (simp add: word_le_nat_alt unat_sat_add64 unat_sat_sub64) arith
  then show ?thesis
    by (auto simp: validate_request_def valid_control_id_def valid_control_time_def Let_def)
qed

section \<open>The remote reconnect\<close>

lemma ticked_trans: "\<exists>c t. w1 = ticked c t w \<Longrightarrow> \<exists>c t. w2 = ticked c t w1 \<Longrightarrow> \<exists>c t. w2 = ticked c t w"
  by auto

lemma reconnect_key_answer:
  assumes "reconnect_key out w = (found, w')"
  shows "(\<exists>c t. w' = ticked c t w) \<and> (\<forall>key. found = Some key \<longrightarrow> trim key \<noteq> [])"
proof -
  obtain r w1 where l: "load_runtime_key out [] w = (r, w1)" by fastforce
  have "wp (load_runtime_key out []) (\<lambda>r w'. \<exists>c t. w' = ticked c t w) w"
    by (rule wp_load_runtime_key) blast
  with l have "\<exists>c t. w1 = ticked c t w" by (simp add: wp_def)
  moreover have "\<exists>c t. w = ticked c t w" by (metis ticked_same)
  moreover have "w' = w \<or> w' = w1" "\<forall>key. found = Some key \<longrightarrow> trim key \<noteq> []"
    using assms l by (auto simp: reconnect_key_def Let_def split: option.splits prod.splits sum.splits if_splits)
  ultimately show ?thesis by blast
qed

text \<open>What lets a phone's reconnect through.\<close>

definition may_reconnect :: "Outside \<Rightarrow> World \<Rightarrow> u64 \<Rightarrow> bool" where
  "may_reconnect out w now \<longleftrightarrow> w_desired_connected w
     \<and> (\<exists>s. file_settings out w = Inr s \<and> se_connection_intent s \<and> \<not> ht_enabled (se_https_mcp s) \<and> trim (se_tunnel_id s) \<noteq> [])
     \<and> \<not> tunnel_fresh (w_snapshot w) now \<and> \<not> w_reconnect_running w \<and> \<not> w_reconnecting w
     \<and> (w_last_reconnect_at w \<noteq> 0 \<longrightarrow> 10000 \<le> unat now - unat (w_last_reconnect_at w))"

lemma trigger_answer:
  assumes "trigger_tunnel_reconnect out w = (r, w')"
  shows "\<exists>c t. (isl r \<and> w' = ticked c t w)
    \<or> (\<exists>key. r = Inr key \<and> trim key \<noteq> [] \<and> (\<exists>now. may_reconnect out w now
         \<and> w' = set_recovery_status ''reconnecting'' 0 [] ((ticked c t w)\<lparr>w_reconnect_running := True,
               w_last_reconnect_at := now, w_reconnecting := True\<rparr>)))"
proof -
  obtain s c t where l: "load_settings out w = (Inr s, ticked c t w)" and s: "s = default_settings \<or> file_settings out w = Inr s"
    using wp_load_settings[of out w "\<lambda>r w'. \<exists>s c t. r = Inr s \<and> w' = ticked c t w \<and> (s = default_settings \<or> file_settings out w = Inr s)"]
    by (auto simp: wp_def)
  let ?w = "ticked c t w"
  obtain found w1 where k: "reconnect_key out ?w = (found, w1)" by fastforce
  from reconnect_key_answer[OF k] obtain c1 t1 where w1: "w1 = ticked c1 t1 w" and key: "\<And>key. found = Some key \<Longrightarrow> trim key \<noteq> []" by auto
  have intent: "\<not> se_connection_intent default_settings" by (simp add: default_settings_def)
  show ?thesis
  proof (cases r)
    case (Inl e)
    with assms l k w1 show ?thesis
      by (auto simp: trigger_tunnel_reconnect_def chain_def Let_def split: if_splits option.splits)
  next
    case (Inr key)
    with assms l k w1 have "found = Some key" "w' = set_recovery_status ''reconnecting'' 0 []
          (w1\<lparr>w_reconnect_running := True, w_last_reconnect_at := timestamp_ms out ?w, w_reconnecting := True\<rparr>)"
        "may_reconnect out w (timestamp_ms out ?w)"
      using s intent
      by (auto simp: trigger_tunnel_reconnect_def chain_def Let_def may_reconnect_def word_less_nat_alt unat_sat_sub64 word_gt_0 not_less unat_eq_zero
          split: if_splits option.splits)
    with Inr w1 key[of key] show ?thesis by auto
  qed
qed

text \<open>A phone's request to reconnect is let through only if the user wants the tunnel, in memory and on disk, HTTPS is
  not in use, the tunnel is not known to be healthy, no reconnect is running and the last remote one was submitted at
  least ten seconds ago. Then it starts nothing itself but marks a reconnect as running; refused, it changes nothing.\<close>

theorem remote_reconnect_guarded:
  assumes "trigger_tunnel_reconnect out w = (r, w')"
  shows "case r of Inl _ \<Rightarrow> \<exists>c t. w' = ticked c t w
    | Inr key \<Rightarrow> may_reconnect out w (w_last_reconnect_at w') \<and> trim key \<noteq> [] \<and> w_reconnect_running w' \<and> w_reconnecting w'
        \<and> w_tunnel w' = w_tunnel w \<and> w_https w' = w_https w \<and> w_file w' = w_file w \<and> w_stopped w' = w_stopped w"
  using trigger_answer[OF assms] by (auto simp: set_recovery_status_def split: sum.splits)

lemma remote_locked_wanted:
  "wp (remote_reconnect_locked out key) (\<lambda>r w'. w_tunnel w' \<and> \<not> w_tunnel w \<longrightarrow> tunnel_wanted out False w \<and> \<not> w_quitting w) w"
  unfolding remote_reconnect_locked_def
  by (auto intro!: wp_load_settings wp_start_runtime simp: wp_if tunnel_wanted_def)

text \<open>A phone cannot override the desktop's user. The worker of a remote reconnect that has waited for the connection lock
  looks again, and starts a tunnel only if it is still wanted in memory and on disk and ChatX is not quitting.\<close>

theorem remote_reconnect_looks_again:
  assumes "remote_reconnect_locked out key w = (r, w')" and "w_tunnel w'" and "\<not> w_tunnel w"
  shows "w_desired_connected w \<and> \<not> w_quitting w \<and> (\<exists>s. file_settings out w = Inr s \<and> se_connection_intent s)"
  using remote_locked_wanted[of out key w] assms by (auto simp: wp_def tunnel_wanted_def)

text \<open>A remote reconnect ends: whatever came of the attempt, after at most nine status commands the worker has cleared
  both marks of a running reconnect, so that the next one is not refused.\<close>

theorem remote_reconnect_settles:
  "\<exists>w'. remote_outcome 9 out result w = Some w' \<and> \<not> w_reconnect_running w' \<and> \<not> w_reconnecting w'"
proof -
  obtain b w1 where "remote_recovered 9 out result w = Some (b, w1)"
    using wait_ends[of out False] by (cases result) (fastforce simp: remote_recovered_def split: prod.splits sum.splits)+
  then show ?thesis by (simp add: remote_outcome_def)
qed

section \<open>Witnesses\<close>

definition sample_control :: EncryptedControlPayload where
  "sample_control = \<lparr>cp_request_id = ''c_0123456789abcdef'', cp_issued_at = 0, cp_expires_at = 30000,
     cp_nonce = ''nonce'', cp_ciphertext = ''sealed''\<rparr>"

definition sample_crypto :: ControlCrypto where
  "sample_crypto = \<lparr>cc_keys = (\<lambda>_. Inr ()), cc_decrypt = (\<lambda>_ _. Inr []), cc_parse = (\<lambda>_. None),
     cc_encrypt = (\<lambda>_ r _. Inr r)\<rparr>"

theorem control_executed_once_witness:
  "\<exists>response cache1 worker w1 cache3.
     handle_locked calm_outside sample_crypto False sample_parts ''dev'' sample_control ''other'' Map.empty fresh_world
       = (Inr response, cache1, worker, w1)
   \<and> handle_locked calm_outside sample_crypto False sample_parts ''dev'' sample_control ''other'' cache1 w1
       = (Inr response, cache3, None, w1)"
proof -
  obtain cache1 worker w1 where run:
    "handle_locked calm_outside sample_crypto False sample_parts ''dev'' sample_control ''other'' Map.empty fresh_world
       = (Inr sample_control, cache1, worker, w1)"
    by (auto simp: handle_locked_def cached_response_def retain_def perform_action_def sample_crypto_def)
  have "timestamp_ms calm_outside w1 \<le> cp_expires_at sample_control"
    by (simp add: timestamp_ms_def calm_outside_def sample_control_def)
  from control_executed_once[OF run control_later.now this refl, of sample_crypto False sample_parts "''other''"] run
  show ?thesis by auto
qed

lemma sample_connected_sel [simp]:
  "w_desired_connected sample_connected" "\<not> w_quitting sample_connected" "\<not> w_reconnect_running sample_connected"
  "\<not> w_reconnecting sample_connected" "w_last_reconnect_at sample_connected = 0" "w_session_key sample_connected = Some ''k''"
  "w_snapshot sample_connected = default_snapshot" "\<not> w_tunnel sample_connected"
  by (simp_all add: sample_connected_def sample_wanting_def fresh_world_def saved_def note_moment_def)

lemma sample_load:
  "\<exists>c t. load_settings calm_outside sample_connected
     = (Inr (normalize_settings calm_outside sample_settings), ticked c t sample_connected)"
proof -
  have "wp (load_settings calm_outside) (\<lambda>r w'. r = Inr (normalize_settings calm_outside sample_settings)
      \<and> (\<exists>c t. w' = ticked c t sample_connected)) sample_connected"
    using sample_file by (simp add: wp_load_settings_via)
  then show ?thesis by (auto simp: wp_def)
qed

lemma sample_normalized:
  "normalize_settings calm_outside sample_settings = sample_settings"
  by (simp add: normalize_settings_def sample_settings_def default_settings_def default_proxy_def)

lemma sample_trigger: "fst (trigger_tunnel_reconnect calm_outside sample_connected) = Inr ''k''"
proof -
  have "trim ''k'' \<noteq> []" by code_simp
  moreover obtain c t where "load_settings calm_outside sample_connected = (Inr sample_settings, ticked c t sample_connected)"
    using sample_load sample_normalized by auto
  ultimately show ?thesis
    using sample_trim
    by (simp add: trigger_tunnel_reconnect_def chain_def reconnect_key_def Let_def tunnel_fresh_def default_snapshot_def
        sample_settings_def default_settings_def default_https_def)
qed

theorem remote_reconnect_guarded_witness:
  "\<exists>w'. trigger_tunnel_reconnect calm_outside sample_connected = (Inr ''k'', w')
     \<and> may_reconnect calm_outside sample_connected (w_last_reconnect_at w') \<and> w_reconnect_running w'"
proof -
  obtain r w' where run: "trigger_tunnel_reconnect calm_outside sample_connected = (r, w')" by fastforce
  with sample_trigger have "r = Inr ''k''" by simp
  with run remote_reconnect_guarded[OF run] show ?thesis by auto
qed

lemma sample_remote: "wp (remote_reconnect_locked calm_outside ''k'') (\<lambda>r w'. w_tunnel w') sample_connected"
  using sample_file
  by (simp add: remote_reconnect_locked_def wp_load_settings_via wp_if start_runtime_connection_def
    restart_runtime_def stop_runtime_def sample_settings_def default_settings_def default_https_def)

theorem remote_reconnect_looks_again_witness:
  "\<exists>r w'. remote_reconnect_locked calm_outside ''k'' sample_connected = (r, w') \<and> w_tunnel w'
     \<and> (\<exists>s. file_settings calm_outside sample_connected = Inr s \<and> se_connection_intent s)"
proof -
  obtain r w' where run: "remote_reconnect_locked calm_outside ''k'' sample_connected = (r, w')" by fastforce
  with sample_remote have t: "w_tunnel w'" by (simp add: wp_def)
  from run t remote_reconnect_looks_again[OF run t] show ?thesis by simp
qed

end
