(* ===== verification/Monitor_Devices.thy ===== *)
theory Monitor_Devices
  imports Relay_Messages Remote_Addresses
begin

text \<open>
  The phones paired with the desktop (\<^verbatim>\<open>src-tauri/src/monitor_manager.rs\<close>): the grant a pairing code stands for, the
  registry of devices with its file, pairing, authorization and revocation.

  An operation holds the locks it takes to its end and is one step; pairing takes the grant's lock before and after
  the registry's and is split there. The relay's answers, the operating system, random tokens, keys, the ciphers of
  \<^verbatim>\<open>monitor_crypto.rs\<close> and serde are the parameter \<open>MonitorEnv\<close>. The field \<open>mw_relay\<close> is no state of the desktop: it
  is what the relay holds, seen by what the calls to it did.
\<close>

section \<open>State\<close>

record MonitorDeviceRecord =
  md_id :: string
  md_name :: string
  md_token_hash :: string
  md_created_at :: u64
  md_last_seen_at :: "u64 option"

record MonitorPairingGrant =
  pg_pairing_id :: string
  pg_pairing_code :: string
  pg_code_hash :: string
  pg_expires_at :: u64

record MonitorWorld =
  mw_calls :: nat
  mw_pairing :: "MonitorPairingGrant option"
  mw_devices :: "MonitorDeviceRecord list option"   \<comment> \<open>\<open>None\<close> until the file is read\<close>
  mw_file :: "string option"
  mw_relay :: "string \<rightharpoonup> string"                      \<comment> \<open>the token the relay accepts of a device\<close>

type_synonym 'a mop = "(MonitorWorld, 'a) action"

text \<open>A call to the relay takes effect or not, and reports success or not; a reported success took effect.\<close>

datatype relay_answer = Call_Done | Call_Failed | Call_Unknown bool   \<comment> \<open>an error, though it may have taken effect\<close>

record RelayCredentials =
  rc_base_url :: string
  rc_desktop_id :: string
  rc_desktop_token :: string

record MonitorEnv =
  me_ok :: "nat \<Rightarrow> bool"
  me_windows :: bool
  me_now :: "nat \<Rightarrow> u64"
  me_random :: "nat \<Rightarrow> string"
  me_answer :: "nat \<Rightarrow> relay_answer"
  me_parse :: "string \<Rightarrow> MonitorDeviceRecord list option"
  me_print :: "MonitorDeviceRecord list \<Rightarrow> string"
  me_sha :: "string \<Rightarrow> string"
  me_direct_token :: "string \<Rightarrow> string"
  me_relay_token :: "string \<Rightarrow> string"
  me_device_key :: "string \<Rightarrow> string"
  me_relay_enabled :: bool
  me_relay_base_url :: string
  me_credentials :: "RelayCredentials option"
  me_desktop_id :: string

definition passed_by :: "MonitorWorld \<Rightarrow> MonitorWorld" where
  "passed_by w = w\<lparr>mw_calls := Suc (mw_calls w)\<rparr>"

definition os_call :: "MonitorEnv \<Rightarrow> string \<Rightarrow> unit mop" where
  "os_call env e w = (if me_ok env (mw_calls w) then Inr () else Inl e, passed_by w)"

definition timestamp_ms :: "MonitorEnv \<Rightarrow> u64 mop" where
  "timestamp_ms env w = (Inr (me_now env (mw_calls w)), passed_by w)"

definition generate_monitor_token :: "MonitorEnv \<Rightarrow> string mop" where
  "generate_monitor_token env w =
     (if me_ok env (mw_calls w) then Inr (me_random env (mw_calls w)) else Inl ''no random token'', passed_by w)"

definition relay_call :: "MonitorEnv \<Rightarrow> string \<Rightarrow> ((string \<rightharpoonup> string) \<Rightarrow> (string \<rightharpoonup> string)) \<Rightarrow> unit mop" where
  "relay_call env e f w =
     (case normalized_base_url (me_relay_base_url env) of
        Inl invalid \<Rightarrow> (Inl invalid, w)
      | Inr _ \<Rightarrow>
         (let w1 = passed_by w; w2 = w1\<lparr>mw_relay := f (mw_relay w)\<rparr> in
          case me_answer env (mw_calls w) of
            Call_Done \<Rightarrow> (Inr (), w2) | Call_Failed \<Rightarrow> (Inl e, w1) | Call_Unknown effect \<Rightarrow> (Inl e, if effect then w2 else w1)))"

definition relay_credentials_for_settings :: "MonitorEnv \<Rightarrow> RelayCredentials option" where
  "relay_credentials_for_settings env =
     (case me_credentials env of
        None \<Rightarrow> None
      | Some credentials \<Rightarrow>
         (case (normalized_base_url (rc_base_url credentials), normalized_base_url (me_relay_base_url env)) of
            (Inr a, Inr b) \<Rightarrow> if a = b then Some credentials else None
          | _ \<Rightarrow> None))"

text \<open>\<^verbatim>\<open>a.ok() == b.ok()\<close>: two invalid addresses count as equal.\<close>

definition same_ok :: "string + string \<Rightarrow> string + string \<Rightarrow> bool" where
  "same_ok a b = (case (a, b) of (Inr x, Inr y) \<Rightarrow> x = y | (Inl _, Inl _) \<Rightarrow> True | _ \<Rightarrow> False)"

definition relay_authorize :: "MonitorEnv \<Rightarrow> string \<Rightarrow> string \<Rightarrow> unit mop" where
  "relay_authorize env device_id token = relay_call env ''relay authorization failed'' (\<lambda>r. r(device_id \<mapsto> token))"

definition relay_revoke :: "MonitorEnv \<Rightarrow> string \<Rightarrow> unit mop" where
  "relay_revoke env device_id = relay_call env ''relay revocation failed'' (\<lambda>r. r(device_id := None))"

section \<open>The grant\<close>

definition constant_time_eq :: "bytes \<Rightarrow> bytes \<Rightarrow> bool" where
  "constant_time_eq left right =
     (if length left \<noteq> length right then False
      else foldl (\<lambda>diff (a, b). or diff (xor a b)) 0 (zip left right) = 0)"

definition verify_token_hash_hex :: "MonitorEnv \<Rightarrow> string \<Rightarrow> string \<Rightarrow> bool" where
  "verify_token_hash_hex env token expected = constant_time_eq (as_bytes (me_sha env token)) (as_bytes expected)"

lemma verify_token_hash_hex_iff: "verify_token_hash_hex env token expected \<longleftrightarrow> me_sha env token = expected"
  using diff_zero_iff [of "as_bytes (me_sha env token)" "as_bytes expected"]
  by (auto simp: verify_token_hash_hex_def constant_time_eq_def as_bytes_inject)

definition claim_pairing_grant :: "MonitorEnv \<Rightarrow> string \<Rightarrow> u64 \<Rightarrow> MonitorPairingGrant mop" where
  "claim_pairing_grant env pairing_code now w =
     (case mw_pairing w of
        None \<Rightarrow> (Inl ''no pairing is open'', w)
      | Some grant \<Rightarrow>
          if now > pg_expires_at grant then (Inl ''the pairing code has expired'', w\<lparr>mw_pairing := None\<rparr>)
          else if \<not> verify_token_hash_hex env pairing_code (pg_code_hash grant) then (Inl ''wrong pairing code'', w)
          else (Inr grant, w\<lparr>mw_pairing := None\<rparr>))"

definition restore_pairing_grant :: "MonitorPairingGrant \<Rightarrow> u64 \<Rightarrow> MonitorWorld \<Rightarrow> MonitorWorld" where
  "restore_pairing_grant grant now w =
     (if now > pg_expires_at grant then w
      else if mw_pairing w = None then w\<lparr>mw_pairing := Some grant\<rparr> else w)"

section \<open>The registry and its file\<close>

definition devices_of_file :: "MonitorEnv \<Rightarrow> string option \<Rightarrow> string + MonitorDeviceRecord list" where
  "devices_of_file env file =
     (case file of
        None \<Rightarrow> Inr []
      | Some text \<Rightarrow> (case me_parse env text of None \<Rightarrow> Inl ''the device registry is damaged'' | Some ds \<Rightarrow> Inr ds))"

definition load_monitor_devices :: "MonitorEnv \<Rightarrow> MonitorDeviceRecord list mop" where
  "load_monitor_devices env =
     chain (os_call env ''state directory'') (\<lambda>_.
     chain (os_call env ''read device registry'') (\<lambda>_ w. (devices_of_file env (mw_file w), w)))"

definition ensure_monitor_devices_loaded :: "MonitorEnv \<Rightarrow> MonitorDeviceRecord list mop" where
  "ensure_monitor_devices_loaded env w =
     (case mw_devices w of
        Some ds \<Rightarrow> (Inr ds, w)
      | None \<Rightarrow> chain (load_monitor_devices env) (\<lambda>ds w1. (Inr ds, w1\<lparr>mw_devices := Some ds\<rparr>)) w)"

text \<open>On Windows an existing file is removed before the new one is moved into place.\<close>

definition save_monitor_devices :: "MonitorEnv \<Rightarrow> MonitorDeviceRecord list \<Rightarrow> unit mop" where
  "save_monitor_devices env ds =
     chain (os_call env ''state directory'') (\<lambda>_.
     chain (os_call env ''print devices'') (\<lambda>_.
     chain (os_call env ''write temporary file'') (\<lambda>_.
     chain (\<lambda>w. if me_windows env \<and> mw_file w \<noteq> None
                then chain (os_call env ''remove device registry'') (\<lambda>_. modify (\<lambda>w. w\<lparr>mw_file := None\<rparr>)) w
                else (Inr (), w)) (\<lambda>_.
     chain (os_call env ''rename device registry'') (\<lambda>_.
       modify (\<lambda>w. w\<lparr>mw_file := Some (me_print env ds @ [CHR 0x0A])\<rparr>))))))"

definition set_devices :: "MonitorDeviceRecord list \<Rightarrow> unit mop" where
  "set_devices ds = modify (\<lambda>w. w\<lparr>mw_devices := Some ds\<rparr>)"

definition monitor_devices_snapshot :: "MonitorEnv \<Rightarrow> MonitorDeviceRecord list mop" where
  "monitor_devices_snapshot env = ensure_monitor_devices_loaded env"

definition monitor_device_ids :: "MonitorEnv \<Rightarrow> string list mop" where
  "monitor_device_ids env = chain (monitor_devices_snapshot env) (\<lambda>ds. give (map md_id ds))"

definition has_monitor_device :: "MonitorEnv \<Rightarrow> string \<Rightarrow> bool mop" where
  "has_monitor_device env device_id =
     chain (monitor_devices_snapshot env) (\<lambda>ds. give (list_ex (\<lambda>d. md_id d = device_id) ds))"

section \<open>Revocation\<close>

definition revoke_monitor_device_local :: "MonitorEnv \<Rightarrow> string \<Rightarrow> bool mop" where
  "revoke_monitor_device_local env device_id =
     chain (ensure_monitor_devices_loaded env) (\<lambda>previous.
       let devices = filter (\<lambda>d. md_id d \<noteq> device_id) previous in
       if length devices = length previous then give False
       else chain (set_devices devices) (\<lambda>_.
            and_then_always (save_monitor_devices env devices) (\<lambda>saved.
              case saved of
                Inl e \<Rightarrow> chain (set_devices previous) (\<lambda>_. raise e)
              | Inr _ \<Rightarrow> give True)))"

definition relay_matches :: "MonitorEnv \<Rightarrow> bool" where
  "relay_matches env = (trim (me_relay_base_url env) \<noteq> [] \<and>
     (case me_credentials env of
        None \<Rightarrow> False
      | Some credentials \<Rightarrow> same_ok (normalized_base_url (rc_base_url credentials)) (normalized_base_url (me_relay_base_url env))))"

definition revoke_monitor_device_everywhere :: "MonitorEnv \<Rightarrow> string \<Rightarrow> bool mop" where
  "revoke_monitor_device_everywhere env device_id =
     chain (if relay_matches env then relay_revoke env device_id else give ()) (\<lambda>_.
     and_then_always (revoke_monitor_device_local env device_id) (\<lambda>result.
       case result of
         Inr removed \<Rightarrow> give removed
       | Inl e \<Rightarrow>
           if relay_matches env then
             and_then_always (os_call env ''monitor master key'') (\<lambda>key.
               if isl key then raise e
               else and_then_always (relay_authorize env device_id (me_relay_token env device_id)) (\<lambda>_. raise e))
           else raise e))"

section \<open>Authorization\<close>

definition seen_now :: "u64 \<Rightarrow> MonitorDeviceRecord \<Rightarrow> bool" where
  "seen_now now d = (case md_last_seen_at d of None \<Rightarrow> True | Some seen \<Rightarrow> 60000 \<le> sat_sub64 now seen)"

definition matching_device :: "MonitorEnv \<Rightarrow> string \<Rightarrow> string \<Rightarrow> MonitorDeviceRecord \<Rightarrow> bool" where
  "matching_device env device_id token d \<longleftrightarrow> md_id d = device_id \<and> verify_token_hash_hex env token (md_token_hash d)"

fun mark_seen :: "(MonitorDeviceRecord \<Rightarrow> bool) \<Rightarrow> u64 \<Rightarrow> MonitorDeviceRecord list \<Rightarrow> MonitorDeviceRecord list" where
  "mark_seen p now [] = []"
| "mark_seen p now (d # ds) = (if p d then d\<lparr>md_last_seen_at := Some now\<rparr> # ds else d # mark_seen p now ds)"

definition monitor_device_token_authorized :: "MonitorEnv \<Rightarrow> string \<Rightarrow> string \<Rightarrow> MonitorWorld \<Rightarrow> bool \<times> MonitorWorld" where
  "monitor_device_token_authorized env device_id token w =
     (case ensure_monitor_devices_loaded env w of
        (Inl _, w1) \<Rightarrow> (False, w1)
      | (Inr ds, w1) \<Rightarrow>
          (let now = me_now env (mw_calls w1); w2 = passed_by w1 in
           case find (matching_device env device_id token) ds of
             None \<Rightarrow> (False, w2)
           | Some d \<Rightarrow>
               if seen_now now d then
                 let ds2 = mark_seen (matching_device env device_id token) now ds in
                 (case save_monitor_devices env ds2 (w2\<lparr>mw_devices := Some ds2\<rparr>) of
                    (Inl _, w3) \<Rightarrow> (True, w3\<lparr>mw_devices := Some ds\<rparr>)
                  | (Inr _, w3) \<Rightarrow> (True, w3))
               else (True, w2)))"

section \<open>Pairing\<close>

record Enrollment =
  en_device_id :: string
  en_device_name :: string
  en_direct_token :: string
  en_device_key :: string
  en_relay :: "(string \<times> string) option"     \<comment> \<open>the desktop's id at the relay, and the device's token there\<close>

definition MAX_MONITOR_DEVICES :: nat where "MAX_MONITOR_DEVICES = 32"

text \<open>The last step, with the rollback at the relay when the registry cannot be saved.\<close>

definition store_new_device ::
  "MonitorEnv \<Rightarrow> MonitorDeviceRecord list \<Rightarrow> MonitorDeviceRecord \<Rightarrow> bool \<Rightarrow> Enrollment mop \<Rightarrow> Enrollment mop" where
  "store_new_device env previous d at_relay finished =
     chain (set_devices (previous @ [d])) (\<lambda>_.
     and_then_always (save_monitor_devices env (previous @ [d])) (\<lambda>saved.
       case saved of
         Inr _ \<Rightarrow> finished
       | Inl e \<Rightarrow>
           and_then_always (if at_relay then relay_revoke env (md_id d) else give ()) (\<lambda>rollback.
           chain (set_devices previous) (\<lambda>_.
             raise (case rollback of Inr _ \<Rightarrow> e | Inl r \<Rightarrow> e @ ''; '' @ r)))))"

definition enroll_device ::
  "MonitorEnv \<Rightarrow> string \<Rightarrow> string \<Rightarrow> MonitorDeviceRecord list \<Rightarrow> RelayCredentials option \<Rightarrow> Enrollment mop" where
  "enroll_device env device_id name devices relay =
     (let token = me_relay_token env device_id in
      chain (if relay \<noteq> None then relay_authorize env device_id token else give ()) (\<lambda>_.
      chain (timestamp_ms env) (\<lambda>now.
        store_new_device env devices
          \<lparr>md_id = device_id, md_name = name, md_token_hash = me_sha env (me_direct_token env device_id),
           md_created_at = now, md_last_seen_at = Some now\<rparr>
          (relay \<noteq> None)
          (and_then_always (if relay \<noteq> None then os_call env ''delete pairing route'' else give ()) (\<lambda>_.
             give \<lparr>en_device_id = device_id, en_device_name = name, en_direct_token = me_direct_token env device_id,
               en_device_key = me_device_key env device_id, en_relay = map_option (\<lambda>credentials. (rc_desktop_id credentials, token)) relay\<rparr>)))))"

definition complete_claimed_monitor_pairing :: "MonitorEnv \<Rightarrow> string \<Rightarrow> string \<Rightarrow> Enrollment mop" where
  "complete_claimed_monitor_pairing env pairing_id name =
     chain (ensure_monitor_devices_loaded env) (\<lambda>devices.
       if MAX_MONITOR_DEVICES \<le> length devices then raise ''too many devices''
       else
       chain (os_call env ''monitor master key'') (\<lambda>_.
       chain (generate_monitor_token env) (\<lambda>random_id.
         enroll_device env (''dev_'' @ take 24 random_id) name devices
           (if me_relay_enabled env then relay_credentials_for_settings env else None))))"

text \<open>The request of a phone: its code, and its name or the default one.\<close>

definition nonempty_text :: "string \<Rightarrow> json \<Rightarrow> string option" where
  "nonempty_text k v = (case json_str_at k v of None \<Rightarrow> None | Some t \<Rightarrow> if trim t = [] then None else Some (trim t))"

definition pairing_request_of :: "json \<Rightarrow> string + string \<times> string" where
  "pairing_request_of doc =
     (case nonempty_text ''pairingCode'' doc of
        None \<Rightarrow> Inl ''pairingCode is missing''
      | Some pairing_code \<Rightarrow>
          Inr (pairing_code, chars_take 80 (case nonempty_text ''deviceName'' doc of Some n \<Rightarrow> n | None \<Rightarrow> ''Android Device'')))"

definition complete_monitor_pairing :: "MonitorEnv \<Rightarrow> json \<Rightarrow> Enrollment mop" where
  "complete_monitor_pairing env doc =
     chain (from_result (pairing_request_of doc)) (\<lambda>(pairing_code, name).
     chain (timestamp_ms env) (\<lambda>now.
     chain (claim_pairing_grant env pairing_code now) (\<lambda>grant.
     and_then_always (complete_claimed_monitor_pairing env (pg_pairing_id grant) name) (\<lambda>result.
     chain (if isl result then chain (timestamp_ms env) (\<lambda>later. modify (restore_pairing_grant grant later)) else give ()) (\<lambda>_.
       from_result result)))))"

text \<open>The check before the request is decrypted; the grant is only looked at.\<close>

definition pairing_grant_for :: "string \<Rightarrow> u64 \<Rightarrow> MonitorPairingGrant mop" where
  "pairing_grant_for pairing_id now w =
     (case mw_pairing w of
        None \<Rightarrow> (Inl ''no pairing is open'', w)
      | Some grant \<Rightarrow>
          if now > pg_expires_at grant then (Inl ''the pairing code has expired'', w\<lparr>mw_pairing := None\<rparr>)
          else if pg_pairing_id grant \<noteq> pairing_id then (Inl ''unknown pairing route'', w)
          else (Inr grant, w))"

record PairingCipher =
  pc_open :: "string \<Rightarrow> string \<Rightarrow> EncryptedPairingPayload \<Rightarrow> string + string"
  pc_parse :: "string \<Rightarrow> json option"
  pc_seal :: "string \<Rightarrow> string \<Rightarrow> Enrollment \<Rightarrow> string + EncryptedPairingPayload"

definition handle_encrypted_monitor_pairing :: "MonitorEnv \<Rightarrow> PairingCipher \<Rightarrow> PairingWsMessage \<Rightarrow> PairingServerMessage mop" where
  "handle_encrypted_monitor_pairing env pc message =
     (case message of P_Pair pairing_id sealed \<Rightarrow>
        chain (timestamp_ms env) (\<lambda>now.
        chain (pairing_grant_for pairing_id now) (\<lambda>grant.
        chain (from_result (pc_open pc (pg_pairing_code grant) pairing_id sealed)) (\<lambda>plain.
        chain (from_result (case pc_parse pc plain of None \<Rightarrow> Inl ''not JSON'' | Some doc \<Rightarrow> Inr doc)) (\<lambda>doc.
        chain (complete_monitor_pairing env doc) (\<lambda>result.
        chain (from_result (pc_seal pc (pg_pairing_code grant) pairing_id result)) (\<lambda>answer.
          give (PS_PairResult pairing_id answer))))))))"

text \<open>A new grant, once the code has been offered on a direct or a relayed route.\<close>

definition pairing_relay_ready :: "MonitorEnv \<Rightarrow> bool" where
  "pairing_relay_ready env =
     (case me_credentials env of
        None \<Rightarrow> False
      | Some credentials \<Rightarrow> rc_desktop_id credentials = me_desktop_id env
          \<and> same_ok (normalized_base_url (rc_base_url credentials)) (normalized_base_url (me_relay_base_url env)))"

definition open_pairing :: "MonitorEnv \<Rightarrow> bool \<Rightarrow> MonitorPairingGrant mop" where
  "open_pairing env direct =
     chain (generate_monitor_token env) (\<lambda>pairing_code.
     chain (generate_monitor_token env) (\<lambda>pairing_random.
     chain (timestamp_ms env) (\<lambda>now.
       let pairing_id = ''p_'' @ take 24 pairing_random;
           expires_at = sat_add64 now (5 * 60000);
           grant = \<lparr>pg_pairing_id = pairing_id, pg_pairing_code = pairing_code,
             pg_code_hash = me_sha env pairing_code, pg_expires_at = expires_at\<rparr>
       in chain (if me_relay_enabled env \<and> pairing_relay_ready env
                 then chain (generate_monitor_token env) (\<lambda>route_token.
                        and_then_always (relay_call env ''open pairing route'' id) (\<lambda>opened. give (\<not> isl opened)))
                 else give False) (\<lambda>routed.
            if \<not> direct \<and> \<not> routed then raise ''no route for pairing''
            else chain (modify (\<lambda>w. w\<lparr>mw_pairing := Some grant\<rparr>)) (\<lambda>_. give grant)))))"

end
