(* ===== verification/Monitor_Crypto.thy ===== *)
theory Monitor_Crypto
  imports Relay_Messages Remote_Addresses
begin

text \<open>
  End-to-end encryption between desktop and phone (\<^verbatim>\<open>src-tauri/src/monitor_crypto.rs\<close>): the keys of a device, the
  associated data that ties a box to its place, and the six functions that seal and open payloads. AES-256-GCM,
  HKDF, HMAC and Base64 are those of the crates \<^verbatim>\<open>ring\<close> and \<^verbatim>\<open>base64\<close> and are the parameter \<open>Crypto\<close>; the bytes a
  function draws from the system's generator are its argument \<open>rnd\<close>.
\<close>

section \<open>Parameters\<close>


record Crypto =
  cr_seal :: "bytes \<Rightarrow> bytes \<Rightarrow> bytes \<Rightarrow> bytes \<Rightarrow> bytes option"   \<comment> \<open>key, nonce, associated data, text\<close>
  cr_open :: "bytes \<Rightarrow> bytes \<Rightarrow> bytes \<Rightarrow> bytes \<Rightarrow> bytes option"
  cr_hkdf :: "bytes \<Rightarrow> bytes \<Rightarrow> bytes \<Rightarrow> bytes"              \<comment> \<open>salt, key, info; 32 bytes\<close>
  cr_hmac :: "bytes \<Rightarrow> bytes \<Rightarrow> bytes"
  cr_encode :: "bytes \<Rightarrow> string"
  cr_decode :: "string \<Rightarrow> bytes option"

text \<open>
  What the code relies on. A box opens with the key, nonce and associated data it was sealed with and with no other;
  encoded bytes decode to themselves.
\<close>

definition aead_ok :: "Crypto \<Rightarrow> bool" where
  "aead_ok cr \<longleftrightarrow> (\<forall>k n a m c. cr_seal cr k n a m = Some c \<longrightarrow> cr_open cr k n a c = Some m
     \<and> (\<forall>k' n' a' m'. cr_open cr k' n' a' c = Some m' \<longrightarrow> k' = k \<and> n' = n \<and> a' = a))"

definition base64_ok :: "Crypto \<Rightarrow> bool" where
  "base64_ok cr \<longleftrightarrow> (\<forall>b. cr_decode cr (cr_encode cr b) = Some b)"

section \<open>Keys\<close>

definition MASTER_KEY_LEN :: nat where "MASTER_KEY_LEN = 32"
definition NONCE_LEN :: nat where "NONCE_LEN = 12"

definition generate_master_key :: "bytes option \<Rightarrow> string + bytes" where
  "generate_master_key rnd = (case rnd of None \<Rightarrow> Inl ''no random bytes'' | Some b \<Rightarrow> Inr b)"

definition encode_master_key :: "Crypto \<Rightarrow> bytes \<Rightarrow> string" where
  "encode_master_key cr key = cr_encode cr key"

definition decode_master_key :: "Crypto \<Rightarrow> string \<Rightarrow> string + bytes" where
  "decode_master_key cr v =
     (case cr_decode cr (trim v) of
        None \<Rightarrow> Inl ''the master key is not encoded properly''
      | Some decoded \<Rightarrow> if length decoded \<noteq> MASTER_KEY_LEN then Inl ''the master key has the wrong length'' else Inr decoded)"

text \<open>Two bytes at a time; a slice that cuts a character of several bytes would panic.\<close>

fun pairs_to_bytes :: "string list \<Rightarrow> string + bytes" where
  "pairs_to_bytes [] = Inr []"
| "pairs_to_bytes (p # ps) =
     (if \<not> utf8_pair p then Inl ''panic: not a character boundary''
      else case from_str_radix16_u8 p of
        None \<Rightarrow> Inl ''the pairing secret is not hexadecimal''
      | Some b \<Rightarrow> (case pairs_to_bytes ps of Inl e \<Rightarrow> Inl e | Inr bs \<Rightarrow> Inr (b # bs)))"

definition pairing_key :: "string \<Rightarrow> string + bytes" where
  "pairing_key pairing_code =
     (if length (trim pairing_code) \<noteq> 64 then Inl ''the pairing secret has the wrong length''
      else pairs_to_bytes (chunks_exact2 (trim pairing_code)))"

definition hkdf_info :: "string \<Rightarrow> string \<Rightarrow> string" where
  "hkdf_info label device_id = label @ ''|'' @ device_id"

definition derive :: "Crypto \<Rightarrow> bytes \<Rightarrow> string \<Rightarrow> string \<Rightarrow> bytes" where
  "derive cr master_key device_id label = cr_hkdf cr (as_bytes ''chatx-monitor-v1'') master_key (as_bytes (hkdf_info label device_id))"

definition derive_device_key :: "Crypto \<Rightarrow> bytes \<Rightarrow> string \<Rightarrow> bytes" where
  "derive_device_key cr master_key device_id = derive cr master_key device_id ''chatx-monitor-device-e2ee-v1''"

definition derive_direct_token :: "Crypto \<Rightarrow> bytes \<Rightarrow> string \<Rightarrow> string" where
  "derive_direct_token cr master_key device_id = hex_of (derive cr master_key device_id ''chatx-monitor-direct-auth-v1'')"

definition derive_relay_token :: "Crypto \<Rightarrow> bytes \<Rightarrow> string \<Rightarrow> string" where
  "derive_relay_token cr master_key device_id = hex_of (derive cr master_key device_id ''chatx-monitor-relay-auth-v1'')"

definition device_key_b64 :: "Crypto \<Rightarrow> bytes \<Rightarrow> string \<Rightarrow> string" where
  "device_key_b64 cr master_key device_id = cr_encode cr (derive_device_key cr master_key device_id)"

definition derive_control_key :: "Crypto \<Rightarrow> bytes \<Rightarrow> string \<Rightarrow> bytes" where
  "derive_control_key cr device_key device_id = cr_hmac cr device_key (as_bytes (''chatx-monitor-control-v1|'' @ device_id))"

section \<open>Associated data\<close>

definition pairing_aad :: "string \<Rightarrow> string \<Rightarrow> string" where
  "pairing_aad pairing_id direction = ''chatx-monitor-v1|pairing|'' @ pairing_id @ ''|'' @ direction"

definition control_aad :: "string \<Rightarrow> string \<Rightarrow> string \<Rightarrow> string \<Rightarrow> u64 \<Rightarrow> u64 \<Rightarrow> string" where
  "control_aad desktop_id device_id request_id direction issued_at expires_at =
     ''chatx-monitor-v1|control|'' @ direction @ ''|'' @ desktop_id @ ''|'' @ device_id @ ''|'' @ request_id @ ''|''
       @ decimal (unat issued_at) @ ''|'' @ decimal (unat expires_at)"

definition snapshot_aad :: "string \<Rightarrow> string \<Rightarrow> string \<Rightarrow> u64 \<Rightarrow> u64 \<Rightarrow> string" where
  "snapshot_aad desktop_id device_id session_id sequence generated_at =
     ''chatx-monitor-v1|snapshot|'' @ desktop_id @ ''|'' @ device_id @ ''|'' @ session_id @ ''|''
       @ decimal (unat sequence) @ ''|'' @ decimal (unat generated_at)"

section \<open>Sealing and opening\<close>

text \<open>The steps all payloads share: a fresh nonce and the box, both encoded; and back, with the length of the nonce checked.\<close>

definition seal_box :: "Crypto \<Rightarrow> bytes option \<Rightarrow> bytes \<Rightarrow> string \<Rightarrow> bytes \<Rightarrow> string + string \<times> string" where
  "seal_box cr rnd key aad plaintext =
     (case rnd of
        None \<Rightarrow> Inl ''no random bytes''
      | Some nonce \<Rightarrow>
         (case cr_seal cr key nonce (as_bytes aad) plaintext of
            None \<Rightarrow> Inl ''encryption failed''
          | Some c \<Rightarrow> Inr (cr_encode cr nonce, cr_encode cr c)))"

definition open_box :: "Crypto \<Rightarrow> bytes \<Rightarrow> string \<Rightarrow> string \<Rightarrow> string \<Rightarrow> string + bytes" where
  "open_box cr key aad nonce ciphertext =
     (case cr_decode cr nonce of
        None \<Rightarrow> Inl ''the nonce is not encoded properly''
      | Some n \<Rightarrow>
         if length n \<noteq> NONCE_LEN then Inl ''the nonce has the wrong length''
         else (case cr_decode cr ciphertext of
            None \<Rightarrow> Inl ''the ciphertext is not encoded properly''
          | Some c \<Rightarrow>
             (case cr_open cr key n (as_bytes aad) c of
                None \<Rightarrow> Inl ''verification failed''
              | Some plain \<Rightarrow> Inr plain)))"

definition encrypt_snapshot ::
  "Crypto \<Rightarrow> bytes option \<Rightarrow> bytes \<Rightarrow> string \<Rightarrow> string \<Rightarrow> string \<Rightarrow> u64 \<Rightarrow> u64 \<Rightarrow> bytes \<Rightarrow> string + EncryptedSnapshot" where
  "encrypt_snapshot cr rnd master_key desktop_id device_id session_id sequence generated_at plaintext =
     (case seal_box cr rnd (derive_device_key cr master_key device_id)
             (snapshot_aad desktop_id device_id session_id sequence generated_at) plaintext of
        Inl e \<Rightarrow> Inl e
      | Inr (n, c) \<Rightarrow> Inr \<lparr>sn_session_id = session_id, sn_sequence = sequence, sn_generated_at = generated_at,
          sn_nonce = n, sn_ciphertext = c\<rparr>)"

definition decrypt_snapshot :: "Crypto \<Rightarrow> bytes \<Rightarrow> string \<Rightarrow> string \<Rightarrow> EncryptedSnapshot \<Rightarrow> string + bytes" where
  "decrypt_snapshot cr device_key desktop_id device_id snapshot =
     open_box cr device_key
       (snapshot_aad desktop_id device_id (sn_session_id snapshot) (sn_sequence snapshot) (sn_generated_at snapshot))
       (sn_nonce snapshot) (sn_ciphertext snapshot)"

definition encrypt_control_payload ::
  "Crypto \<Rightarrow> bytes option \<Rightarrow> bytes \<Rightarrow> string \<Rightarrow> string \<Rightarrow> string \<Rightarrow> string \<Rightarrow> u64 \<Rightarrow> u64 \<Rightarrow> bytes \<Rightarrow> string + EncryptedControlPayload" where
  "encrypt_control_payload cr rnd device_key desktop_id device_id request_id direction issued_at expires_at plaintext =
     (case seal_box cr rnd (derive_control_key cr device_key device_id)
             (control_aad desktop_id device_id request_id direction issued_at expires_at) plaintext of
        Inl e \<Rightarrow> Inl e
      | Inr (n, c) \<Rightarrow> Inr \<lparr>cp_request_id = request_id, cp_issued_at = issued_at, cp_expires_at = expires_at,
          cp_nonce = n, cp_ciphertext = c\<rparr>)"

definition decrypt_control_payload :: "Crypto \<Rightarrow> bytes \<Rightarrow> string \<Rightarrow> string \<Rightarrow> string \<Rightarrow> EncryptedControlPayload \<Rightarrow> string + bytes" where
  "decrypt_control_payload cr device_key desktop_id device_id direction p =
     open_box cr (derive_control_key cr device_key device_id)
       (control_aad desktop_id device_id (cp_request_id p) direction (cp_issued_at p) (cp_expires_at p))
       (cp_nonce p) (cp_ciphertext p)"

definition encrypt_pairing_payload ::
  "Crypto \<Rightarrow> bytes option \<Rightarrow> string \<Rightarrow> string \<Rightarrow> string \<Rightarrow> bytes \<Rightarrow> string + EncryptedPairingPayload" where
  "encrypt_pairing_payload cr rnd pairing_code pairing_id direction plaintext =
     (case pairing_key pairing_code of
        Inl e \<Rightarrow> Inl e
      | Inr key \<Rightarrow>
         (case seal_box cr rnd key (pairing_aad pairing_id direction) plaintext of
            Inl e \<Rightarrow> Inl e
          | Inr (n, c) \<Rightarrow> Inr \<lparr>pp_nonce = n, pp_ciphertext = c\<rparr>))"

definition decrypt_pairing_payload :: "Crypto \<Rightarrow> string \<Rightarrow> string \<Rightarrow> string \<Rightarrow> EncryptedPairingPayload \<Rightarrow> string + bytes" where
  "decrypt_pairing_payload cr pairing_code pairing_id direction p =
     (case pairing_key pairing_code of
        Inl e \<Rightarrow> Inl e
      | Inr key \<Rightarrow> open_box cr key (pairing_aad pairing_id direction) (pp_nonce p) (pp_ciphertext p))"

section \<open>Facts\<close>

lemma split_first: "d \<notin> set p \<Longrightarrow> split_on d (p @ d # s) = p # split_on d s"
  by (rule split_on_append)

lemma split_last: "d \<notin> set p \<Longrightarrow> split_on d p = [p]"
  by (rule split_on_no_sep)

text \<open>Texts joined by a separator none of them contains determine their parts.\<close>

lemmas split_fields = split_first split_last

fun decimal_value :: "nat \<Rightarrow> string \<Rightarrow> nat" where
  "decimal_value acc [] = acc"
| "decimal_value acc (c # cs) = decimal_value (acc * 10 + (code c - 48)) cs"

lemma decimal_value_append: "decimal_value acc (s @ t) = decimal_value (decimal_value acc s) t"
  by (induction s arbitrary: acc) auto

lemma decimal_value_decimal [simp]: "decimal_value 0 (decimal n) = n"
proof (induction n rule: decimal.induct)
  case (1 n)
  show ?case
  proof (cases "n < 10")
    case True
    then show ?thesis by (simp add: decimal.simps [of n])
  next
    case False
    then show ?thesis using 1 by (simp add: decimal.simps [of n] decimal_value_append)
  qed
qed

lemma decimal_inject [simp]: "decimal m = decimal n \<longleftrightarrow> m = n"
  by (metis decimal_value_decimal)

lemma no_bar_decimal [simp]: "CHR ''|'' \<notin> set (decimal n)"
  using decimal_digits [of "CHR ''|''" n] by (auto simp: code_def)

lemma u64_decimal_inject: "decimal (unat (x :: u64)) = decimal (unat y) \<longleftrightarrow> x = y"
  by (simp add: word_unat_eq_iff)

definition plain_id :: "string \<Rightarrow> bool" where
  "plain_id x \<longleftrightarrow> CHR ''|'' \<notin> set x"

lemma pairing_aad_split:
  "plain_id i \<Longrightarrow> plain_id d \<Longrightarrow> split_on CHR ''|'' (pairing_aad i d) = [''chatx-monitor-v1'', ''pairing'', i, d]"
  using split_first [of "CHR ''|''" "''chatx-monitor-v1''"] split_first [of "CHR ''|''" "''pairing''"]
  by (simp add: pairing_aad_def plain_id_def split_fields)

lemma control_aad_split:
  "plain_id desk \<Longrightarrow> plain_id dev \<Longrightarrow> plain_id r \<Longrightarrow> plain_id d \<Longrightarrow>
   split_on CHR ''|'' (control_aad desk dev r d t e)
     = [''chatx-monitor-v1'', ''control'', d, desk, dev, r, decimal (unat t), decimal (unat e)]"
  using split_first [of "CHR ''|''" "''chatx-monitor-v1''"] split_first [of "CHR ''|''" "''control''"]
  by (simp add: control_aad_def plain_id_def split_fields)

lemma snapshot_aad_split:
  "plain_id desk \<Longrightarrow> plain_id dev \<Longrightarrow> plain_id s \<Longrightarrow>
   split_on CHR ''|'' (snapshot_aad desk dev s n t)
     = [''chatx-monitor-v1'', ''snapshot'', desk, dev, s, decimal (unat n), decimal (unat t)]"
  using split_first [of "CHR ''|''" "''chatx-monitor-v1''"] split_first [of "CHR ''|''" "''snapshot''"]
  by (simp add: snapshot_aad_def plain_id_def split_fields)

lemma pairing_aad_inject:
  assumes "plain_id i" "plain_id d" "plain_id i'" "plain_id d'" and "pairing_aad i d = pairing_aad i' d'"
  shows "i = i' \<and> d = d'"
proof -
  have "split_on CHR ''|'' (pairing_aad i d) = split_on CHR ''|'' (pairing_aad i' d')" using assms(5) by (rule arg_cong)
  then show ?thesis
    unfolding pairing_aad_split [OF assms(1,2)] pairing_aad_split [OF assms(3,4)] by (simp add: word_unat_eq_iff)
qed

lemma control_aad_inject:
  assumes "plain_id desk" "plain_id dev" "plain_id r" "plain_id d" and "plain_id desk'" "plain_id dev'" "plain_id r'" "plain_id d'"
    and "control_aad desk dev r d t e = control_aad desk' dev' r' d' t' e'"
  shows "desk = desk' \<and> dev = dev' \<and> r = r' \<and> d = d' \<and> t = t' \<and> e = e'"
proof -
  have "split_on CHR ''|'' (control_aad desk dev r d t e) = split_on CHR ''|'' (control_aad desk' dev' r' d' t' e')" using assms(9) by (rule arg_cong)
  then show ?thesis
    unfolding control_aad_split [OF assms(1-4)] control_aad_split [OF assms(5-8)] by (simp add: word_unat_eq_iff)
qed

lemma snapshot_aad_inject:
  assumes "plain_id desk" "plain_id dev" "plain_id s" and "plain_id desk'" "plain_id dev'" "plain_id s'"
    and "snapshot_aad desk dev s n t = snapshot_aad desk' dev' s' n' t'"
  shows "desk = desk' \<and> dev = dev' \<and> s = s' \<and> n = n' \<and> t = t'"
proof -
  have "split_on CHR ''|'' (snapshot_aad desk dev s n t) = split_on CHR ''|'' (snapshot_aad desk' dev' s' n' t')" using assms(7) by (rule arg_cong)
  then show ?thesis
    unfolding snapshot_aad_split [OF assms(1-3)] snapshot_aad_split [OF assms(4-6)] by (simp add: word_unat_eq_iff)
qed

lemma open_seal:
  assumes "aead_ok cr" and "base64_ok cr" and "seal_box cr rnd key aad plain = Inr (n, c)" and "\<And>b. rnd = Some b \<Longrightarrow> length b = NONCE_LEN"
  shows "open_box cr key aad n c = Inr plain"
  using assms by (auto simp: seal_box_def open_box_def aead_ok_def base64_ok_def split: option.splits)

lemma open_bound:
  assumes "aead_ok cr" and "base64_ok cr" and "seal_box cr rnd key aad plain = Inr (n, c)"
    and "open_box cr key' aad' n' c' = Inr plain'" and "cr_decode cr c' = cr_decode cr c"
  shows "key' = key \<and> aad' = aad \<and> plain' = plain \<and> cr_decode cr n' = cr_decode cr n"
proof -
  obtain nonce box where s: "cr_seal cr key nonce (as_bytes aad) plain = Some box" "n = cr_encode cr nonce" "c = cr_encode cr box"
    using assms(3) by (auto simp: seal_box_def split: option.splits)
  have "cr_decode cr c' = Some box" using s(3) assms(2,5) by (simp add: base64_ok_def)
  then obtain nonce' where o1: "cr_decode cr n' = Some nonce'" "cr_open cr key' nonce' (as_bytes aad') box = Some plain'"
    using assms(4) by (auto simp: open_box_def split: option.splits if_splits)
  then have same: "key' = key" "nonce' = nonce" "aad' = aad"
    using assms(1) s(1) unfolding aead_ok_def as_bytes_inject [symmetric] by blast+
  moreover have "cr_open cr key nonce (as_bytes aad) box = Some plain" using assms(1) s(1) unfolding aead_ok_def by blast
  ultimately show ?thesis using o1 s(2) assms(2) by (simp add: base64_ok_def)
qed

text \<open>A box of one kind is not a box of another.\<close>

lemma kinds_apart:
  "pairing_aad i d \<noteq> control_aad desk dev r d' t e" "pairing_aad i d \<noteq> snapshot_aad desk dev s n t"
  "control_aad desk dev r d' t e \<noteq> snapshot_aad desk' dev' s n t'"
  by (simp_all add: pairing_aad_def control_aad_def snapshot_aad_def)

text \<open>The labels keep the inputs of the key derivation apart.\<close>

lemma hkdf_info_inject:
  "plain_id l \<Longrightarrow> plain_id l' \<Longrightarrow> hkdf_info l d = hkdf_info l' d' \<Longrightarrow> l = l' \<and> d = d'"
proof -
  assume l: "plain_id l" "plain_id l'" and eq: "hkdf_info l d = hkdf_info l' d'"
  have t: "takeWhile (\<lambda>c. c \<noteq> CHR ''|'') (hkdf_info x y) = x" if "plain_id x" for x y
    using that by (auto simp: hkdf_info_def plain_id_def takeWhile_append)
  from t [OF l(1), of d] t [OF l(2), of d'] eq have "l = l'" by simp
  with eq show ?thesis by (simp add: hkdf_info_def)
qed

section \<open>A cipher to evaluate\<close>

text \<open>Boxes that carry key, nonce and associated data in the open; they satisfy what is asked of the real ones.\<close>

definition lead :: "bytes \<Rightarrow> bytes" where "lead b = replicate (length b) 1 @ 0 # b"

lemma lead_inject: "lead a @ r = lead b @ s \<longleftrightarrow> a = b \<and> r = s"
proof
  assume eq: "lead a @ r = lead b @ s"
  have "takeWhile (\<lambda>x. x = 1) (lead c @ t) = replicate (length c) 1" for c t
    by (simp add: lead_def takeWhile_append)
  then have "replicate (length a) (1 :: u8) = replicate (length b) 1" using eq by metis
  then have "length a = length b" by (metis length_replicate)
  with eq show "a = b \<and> r = s" by (simp add: lead_def)
qed simp

definition open_header :: "bytes \<Rightarrow> bytes \<Rightarrow> bytes \<Rightarrow> bytes" where
  "open_header k n a = lead k @ lead n @ lead a"

definition demo_crypto :: Crypto where
  "demo_crypto = \<lparr>cr_seal = \<lambda>k n a m. Some (open_header k n a @ m),
     cr_open = \<lambda>k n a c. if take (length (open_header k n a)) c = open_header k n a then Some (drop (length (open_header k n a)) c) else None,
     cr_hkdf = \<lambda>salt k info. k, cr_hmac = \<lambda>k m. k, cr_encode = hex_of,
     cr_decode = \<lambda>t. Some (map (\<lambda>p. the (from_str_radix16_u8 p)) (chunks_exact2 t))\<rparr>"

lemma demo_aead_ok: "aead_ok demo_crypto"
proof -
  have "k' = k \<and> n' = n \<and> a' = a" if "take (length (open_header k' n' a')) (open_header k n a @ m) = open_header k' n' a'" for k n a m k' n' a'
  proof -
    have "open_header k n a @ m = open_header k' n' a' @ drop (length (open_header k' n' a')) (open_header k n a @ m)"
      using that by (metis append_take_drop_id)
    then show ?thesis by (simp only: open_header_def append_assoc lead_inject)
  qed
  note only = this
  show ?thesis
    unfolding aead_ok_def
  proof (intro allI impI conjI)
    fix k n a m c
    assume "cr_seal demo_crypto k n a m = Some c"
    then have c: "c = open_header k n a @ m" by (simp add: demo_crypto_def)
    show "cr_open demo_crypto k n a c = Some m" unfolding c by (simp add: demo_crypto_def)
    fix k' n' a' m'
    assume "cr_open demo_crypto k' n' a' c = Some m'"
    then have "take (length (open_header k' n' a')) c = open_header k' n' a'" by (simp add: demo_crypto_def split: if_splits)
    from only [OF this [unfolded c]] show "k' = k" "n' = n" "a' = a" by blast+
  qed
qed

lemma demo_base64_ok: "base64_ok demo_crypto"
  by (simp add: base64_ok_def demo_crypto_def chunks_exact2_hex_of comp_def)

section \<open>Properties\<close>

text \<open>What one end seals the other end opens: pairing requests and answers, controls, and snapshots come out as they
  went in, when both ends name the same code, ids, direction and times and the nonce has twelve bytes.\<close>

theorem boxes_open:
  assumes "aead_ok cr" and "base64_ok cr" and "length nonce = NONCE_LEN"
  shows "(encrypt_pairing_payload cr (Some nonce) pairing_code pairing_id direction plain = Inr pp \<longrightarrow>
            decrypt_pairing_payload cr pairing_code pairing_id direction pp = Inr plain)
    \<and> (encrypt_control_payload cr (Some nonce) key desktop_id device_id request_id direction issued expires plain = Inr cp \<longrightarrow>
            decrypt_control_payload cr key desktop_id device_id direction cp = Inr plain)
    \<and> (encrypt_snapshot cr (Some nonce) master desktop_id device_id session_id sequence generated plain = Inr sn \<longrightarrow>
            decrypt_snapshot cr (derive_device_key cr master device_id) desktop_id device_id sn = Inr plain)"
proof (intro conjI impI)
  have open_seal': "open_box cr k aad n c = Inr plain" if "seal_box cr (Some nonce) k aad plain = Inr (n, c)" for k aad n c
    using open_seal [OF assms(1,2) that] assms(3) by simp
  show "decrypt_pairing_payload cr pairing_code pairing_id direction pp = Inr plain"
    if "encrypt_pairing_payload cr (Some nonce) pairing_code pairing_id direction plain = Inr pp"
    using that by (auto simp: encrypt_pairing_payload_def decrypt_pairing_payload_def split: sum.splits dest: open_seal')
  show "decrypt_control_payload cr key desktop_id device_id direction cp = Inr plain"
    if "encrypt_control_payload cr (Some nonce) key desktop_id device_id request_id direction issued expires plain = Inr cp"
    using that by (auto simp: encrypt_control_payload_def decrypt_control_payload_def split: sum.splits dest: open_seal')
  show "decrypt_snapshot cr (derive_device_key cr master device_id) desktop_id device_id sn = Inr plain"
    if "encrypt_snapshot cr (Some nonce) master desktop_id device_id session_id sequence generated plain = Inr sn"
    using that by (auto simp: encrypt_snapshot_def decrypt_snapshot_def split: sum.splits dest: open_seal')
qed

lemma demo_pairing_key: "pairing_key (replicate 64 CHR ''0'') = Inr (replicate 32 0)"
  by code_simp

theorem boxes_open_witness:
  "\<exists>pp. encrypt_pairing_payload demo_crypto (Some (replicate 12 7)) (replicate 64 CHR ''0'') ''p_1'' ''request'' [1, 2] = Inr pp
     \<and> decrypt_pairing_payload demo_crypto (replicate 64 CHR ''0'') ''p_1'' ''request'' pp = Inr [1, 2]"
proof -
  obtain pp where pp: "encrypt_pairing_payload demo_crypto (Some (replicate 12 7)) (replicate 64 CHR ''0'') ''p_1'' ''request'' [1, 2] = Inr pp"
    unfolding encrypt_pairing_payload_def demo_pairing_key by (simp add: seal_box_def demo_crypto_def)
  have "length (replicate 12 (7 :: u8)) = NONCE_LEN" by (simp add: NONCE_LEN_def)
  from boxes_open [OF demo_aead_ok demo_base64_ok this] pp show ?thesis by blast
qed

text \<open>C21: a box opens only where it belongs. Whatever a relay does to the clear fields of a payload, if the other end opens
  the ciphertext, then with the same key, in the same direction, for the same desktop, device and request and with
  the same times, and it gets the text that was sealed.\<close>

theorem boxes_bound:
  assumes "aead_ok cr" and "base64_ok cr"
    and "list_all plain_id [desktop_id, device_id, request_id, direction, desktop_id', device_id', cp_request_id p', direction']"
    and "encrypt_control_payload cr rnd key desktop_id device_id request_id direction issued expires plain = Inr p"
    and "decrypt_control_payload cr key' desktop_id' device_id' direction' p' = Inr plain'"
    and "cr_decode cr (cp_ciphertext p') = cr_decode cr (cp_ciphertext p)"
  shows "plain' = plain \<and> desktop_id' = desktop_id \<and> device_id' = device_id \<and> direction' = direction
    \<and> cp_request_id p' = cp_request_id p \<and> cp_issued_at p' = cp_issued_at p \<and> cp_expires_at p' = cp_expires_at p
    \<and> derive_control_key cr key' device_id' = derive_control_key cr key device_id"
proof -
  obtain n c where s: "seal_box cr rnd (derive_control_key cr key device_id)
        (control_aad desktop_id device_id request_id direction issued expires) plain = Inr (n, c)"
      "p = \<lparr>cp_request_id = request_id, cp_issued_at = issued, cp_expires_at = expires, cp_nonce = n, cp_ciphertext = c\<rparr>"
    using assms(4) by (auto simp: encrypt_control_payload_def split: sum.splits)
  have "cr_decode cr (cp_ciphertext p') = cr_decode cr c" using assms(6) s(2) by simp
  from open_bound [OF assms(1,2) s(1) assms(5) [unfolded decrypt_control_payload_def] this]
  have same: "derive_control_key cr key' device_id' = derive_control_key cr key device_id" "plain' = plain"
      "control_aad desktop_id' device_id' (cp_request_id p') direction' (cp_issued_at p') (cp_expires_at p')
       = control_aad desktop_id device_id request_id direction issued expires"
    by blast+
  with control_aad_inject [OF _ _ _ _ _ _ _ _ same(3)] assms(3) s(2) show ?thesis by simp
qed

theorem boxes_bound_witness:
  "\<exists>p. encrypt_control_payload demo_crypto (Some (replicate 12 7)) [1] ''d_1'' ''dev_1'' ''c_1'' ''request'' 1 2 [9] = Inr p
     \<and> decrypt_control_payload demo_crypto [1] ''d_1'' ''dev_1'' ''request'' p = Inr [9] \<and> cp_issued_at p = 1"
proof -
  obtain p where p: "encrypt_control_payload demo_crypto (Some (replicate 12 7)) [1] ''d_1'' ''dev_1'' ''c_1'' ''request'' 1 2 [9] = Inr p"
    by (simp add: encrypt_control_payload_def seal_box_def demo_crypto_def)
  then have r: "cp_request_id p = ''c_1''" "cp_issued_at p = 1" by (auto simp: encrypt_control_payload_def split: sum.splits)
  have "decrypt_control_payload demo_crypto [1] ''d_1'' ''dev_1'' ''request'' p = Inr [9]"
    using p open_seal [OF demo_aead_ok demo_base64_ok, of "Some (replicate 12 7)"]
    by (auto simp: encrypt_control_payload_def decrypt_control_payload_def NONCE_LEN_def split: sum.splits)
  moreover from boxes_bound [OF demo_aead_ok demo_base64_ok _ p this] r have "cp_issued_at p = 1" by (simp add: plain_id_def)
  ultimately show ?thesis using p by blast
qed

end
