(* ===== verification/Relay_Client.thy ===== *)
theory Relay_Client
  imports Monitor_Devices Monitor_Crypto
begin

text \<open>
  The desktop's client of the relay (\<^verbatim>\<open>src-tauri/src/relay.rs\<close>): its HTTP calls, the upload of snapshots, the websocket
  session and the loop that reconnects it.

  A session is an action on a record \<open>Client\<close> of the desktop's world, the status shown to the user and what was sent. The
  arms of the session's \<^verbatim>\<open>select!\<close> are events with the time they happen at; the clock, whether a send works, the
  HTTP library and what it answers are parameters. Error texts that are not ASCII are given in English.
\<close>

section \<open>Settings and status\<close>

definition CLIENT_IDLE_TIMEOUT :: nat where "CLIENT_IDLE_TIMEOUT = 12000"
definition RECOVERY_PROBE_INTERVAL :: nat where "RECOVERY_PROBE_INTERVAL = 2000"
definition RECONNECT_DELAYS :: "nat list" where "RECONNECT_DELAYS = [1, 2, 5, 10, 30]"

record RelayStatus =
  ry_enabled :: bool
  ry_configured :: bool
  ry_connected :: bool
  ry_connecting :: bool
  ry_desktop_id :: "string option"
  ry_session_id :: "string option"
  ry_connected_at :: "u64 option"
  ry_last_heartbeat_at :: "u64 option"
  ry_reconnect_attempt :: u32
  ry_last_error :: string

definition default_relay_status :: RelayStatus where
  "default_relay_status = \<lparr>ry_enabled = False, ry_configured = False, ry_connected = False, ry_connecting = False, ry_desktop_id = None,
     ry_session_id = None, ry_connected_at = None, ry_last_heartbeat_at = None, ry_reconnect_attempt = 0, ry_last_error = []\<rparr>"

definition validate_relay :: "RelaySettings \<Rightarrow> string + unit" where
  "validate_relay settings =
     (if \<not> rl_enabled settings then Inr ()
      else case normalized_base_url (rl_base_url settings) of Inl e \<Rightarrow> Inl e | Inr _ \<Rightarrow> Inr ())"

section \<open>Calls over HTTP\<close>

datatype http_method = Http_Get | Http_Post | Http_Put | Http_Delete

datatype call_body =
    Body_None
  | Body_Register DesktopRegisterRequest
  | Body_Authorize DeviceAuthorizeRequest
  | Body_Pairing PairingRouteOpenRequest

record HttpCall =
  hc_method :: http_method
  hc_url :: string
  hc_bearer :: "string option"
  hc_body :: call_body

definition is_success :: "nat \<Rightarrow> bool" where
  "is_success status \<longleftrightarrow> 200 \<le> status \<and> status < 300"

text \<open>\<open>http\<close> sends a call and gives the status or a transport error; the body of an answer is read only by the
  registration.\<close>

definition register_desktop_call ::
  "(HttpCall \<Rightarrow> string + nat \<times> DesktopRegisterResponse option) \<Rightarrow> RelaySettings \<Rightarrow> string \<Rightarrow> DesktopRegisterRequest \<Rightarrow> string + RelayCredentials" where
  "register_desktop_call http settings bootstrap_token request =
     (case normalized_base_url (rl_base_url settings) of
        Inl e \<Rightarrow> Inl e
      | Inr base \<Rightarrow>
         (let token = trim bootstrap_token in
          if token = [] then Inl ''the registration token is empty''
          else case http \<lparr>hc_method = Http_Post, hc_url = base @ ''/v1/desktops/register'', hc_bearer = Some token, hc_body = Body_Register request\<rparr> of
            Inl e \<Rightarrow> Inl e
          | Inr (status, answer) \<Rightarrow>
              if \<not> is_success status then
                (if status = 401 \<and> starts_with ''cxr1.'' token then Inl ''the registration code is invalid, expired or used''
                 else Inl ''registration failed'')
              else (case answer of
                  None \<Rightarrow> Inl ''the registration answer is invalid''
                | Some registered \<Rightarrow> Inr \<lparr>rc_base_url = base, rc_desktop_id = rs_desktop_id registered,
                    rc_desktop_token = rs_desktop_token registered\<rparr>)))"

definition desktop_call ::
  "(HttpCall \<Rightarrow> string + nat) \<Rightarrow> RelaySettings \<Rightarrow> RelayCredentials \<Rightarrow> http_method \<Rightarrow> string \<Rightarrow> call_body \<Rightarrow> (nat \<Rightarrow> bool) \<Rightarrow> string + unit" where
  "desktop_call http settings credentials m path body accepted =
     (case normalized_base_url (rl_base_url settings) of
        Inl e \<Rightarrow> Inl e
      | Inr base \<Rightarrow>
         (case http \<lparr>hc_method = m, hc_url = base @ ''/v1/desktops/'' @ rc_desktop_id credentials @ path,
                     hc_bearer = Some (rc_desktop_token credentials), hc_body = body\<rparr> of
            Inl e \<Rightarrow> Inl e
          | Inr status \<Rightarrow> if accepted status then Inr () else Inl ''the relay refused''))"

definition authorize_device_call ::
  "(HttpCall \<Rightarrow> string + nat) \<Rightarrow> (string \<Rightarrow> string) \<Rightarrow> RelaySettings \<Rightarrow> RelayCredentials \<Rightarrow> string \<Rightarrow> string \<Rightarrow> string + unit" where
  "authorize_device_call http sha settings credentials device_id relay_device_token =
     desktop_call http settings credentials Http_Put (''/devices/'' @ device_id)
       (Body_Authorize \<lparr>au_token_hash = sha relay_device_token\<rparr>) is_success"

definition revoke_device_call :: "(HttpCall \<Rightarrow> string + nat) \<Rightarrow> RelaySettings \<Rightarrow> RelayCredentials \<Rightarrow> string \<Rightarrow> string + unit" where
  "revoke_device_call http settings credentials device_id =
     desktop_call http settings credentials Http_Delete (''/devices/'' @ device_id) Body_None (\<lambda>s. is_success s \<or> s = 404)"

definition open_pairing_route_call ::
  "(HttpCall \<Rightarrow> string + nat) \<Rightarrow> (string \<Rightarrow> string) \<Rightarrow> RelaySettings \<Rightarrow> RelayCredentials \<Rightarrow> string \<Rightarrow> string \<Rightarrow> u64 \<Rightarrow> string + unit" where
  "open_pairing_route_call http sha settings credentials pairing_id route_token expires_at =
     desktop_call http settings credentials Http_Put (''/pairings/'' @ pairing_id)
       (Body_Pairing \<lparr>po_token_hash = sha route_token, po_expires_at = expires_at\<rparr>) is_success"

definition delete_pairing_route_call :: "(HttpCall \<Rightarrow> string + nat) \<Rightarrow> RelaySettings \<Rightarrow> RelayCredentials \<Rightarrow> string \<Rightarrow> string + unit" where
  "delete_pairing_route_call http settings credentials pairing_id =
     desktop_call http settings credentials Http_Delete (''/pairings/'' @ pairing_id) Body_None (\<lambda>s. is_success s \<or> s = 404)"

definition pairing_ws_url :: "RelaySettings \<Rightarrow> RelayCredentials \<Rightarrow> string \<Rightarrow> string + string" where
  "pairing_ws_url settings credentials pairing_id =
     websocket_url (rl_base_url settings) (''/v1/ws/pair?desktopId='' @ rc_desktop_id credentials @ ''&pairingId='' @ pairing_id)"

definition health_call :: "(HttpCall \<Rightarrow> string + nat) \<Rightarrow> RelaySettings \<Rightarrow> string + unit" where
  "health_call http settings =
     (case normalized_base_url (rl_base_url settings) of
        Inl e \<Rightarrow> Inl e
      | Inr base \<Rightarrow>
         (case http \<lparr>hc_method = Http_Get, hc_url = base @ ''/healthz'', hc_bearer = None, hc_body = Body_None\<rparr> of
            Inl e \<Rightarrow> Inl e
          | Inr status \<Rightarrow> if is_success status then Inr () else Inl ''health check failed''))"

section \<open>The client's state\<close>

record SnapshotSource =
  so_device_id :: string
  so_plaintext :: bytes

record 'w RelayHandlers =
  rh_snapshots :: "'w \<Rightarrow> SnapshotSource list \<times> 'w"
  rh_pairing :: "PairingWsMessage \<Rightarrow> ('w, PairingServerMessage) action"
  rh_revoke :: "string \<Rightarrow> ('w, unit) action"
  rh_control :: "string \<Rightarrow> EncryptedControlPayload \<Rightarrow> ('w, EncryptedControlPayload) action"

datatype client_out = C_Message DesktopWsMessage | C_Pong string | C_Close

record 'w Client =
  cl_world :: 'w
  cl_status :: RelayStatus
  cl_out :: "client_out list"
  cl_calls :: nat

record ClientEnv =
  ce_now :: "nat \<Rightarrow> u64"
  ce_sent :: "nat \<Rightarrow> bool"

definition client_now :: "ClientEnv \<Rightarrow> ('w Client, u64) action" where
  "client_now env c = (Inr (ce_now env (cl_calls c)), c\<lparr>cl_calls := Suc (cl_calls c)\<rparr>)"

definition client_send :: "ClientEnv \<Rightarrow> client_out \<Rightarrow> ('w Client, unit) action" where
  "client_send env x c =
     (if ce_sent env (cl_calls c) then (Inr (), c\<lparr>cl_out := cl_out c @ [x], cl_calls := Suc (cl_calls c)\<rparr>)
      else (Inl ''send failed'', c\<lparr>cl_calls := Suc (cl_calls c)\<rparr>))"

definition send_desktop_message :: "ClientEnv \<Rightarrow> DesktopWsMessage \<Rightarrow> ('w Client, unit) action" where
  "send_desktop_message env m = client_send env (C_Message m)"

definition on_status :: "(RelayStatus \<Rightarrow> RelayStatus) \<Rightarrow> ('w Client, unit) action" where
  "on_status f = modify (\<lambda>c. c\<lparr>cl_status := f (cl_status c)\<rparr>)"

definition set_error :: "string \<Rightarrow> ('w Client, unit) action" where
  "set_error e = on_status (\<lambda>s. s\<lparr>ry_last_error := e\<rparr>)"

text \<open>A handler runs on the desktop's world; its error is a value for the session.\<close>

definition run_handler :: "('w, 'a) action \<Rightarrow> ('w Client, string + 'a) action" where
  "run_handler m c = (case m (cl_world c) of (r, w1) \<Rightarrow> (Inr r, c\<lparr>cl_world := w1\<rparr>))"

section \<open>The websocket session\<close>

definition greeted :: "string \<Rightarrow> u64 \<Rightarrow> u64 \<Rightarrow> RelayStatus \<Rightarrow> RelayStatus" where
  "greeted session_id t t' s = s\<lparr>ry_connected := True, ry_connecting := False, ry_connected_at := Some t,
     ry_last_heartbeat_at := Some t', ry_reconnect_attempt := 0, ry_session_id := Some session_id, ry_last_error := []\<rparr>"

definition pairing_answer :: "string \<Rightarrow> string \<Rightarrow> string + PairingServerMessage \<Rightarrow> DesktopWsMessage" where
  "pairing_answer pairing_id connection_id result =
     (case result of
        Inr (PS_PairResult response_pairing_id payload) \<Rightarrow> D_PairingResponse response_pairing_id connection_id payload
      | Inr (PS_Error message) \<Rightarrow> D_PairingError pairing_id connection_id message
      | Inl message \<Rightarrow> D_PairingError pairing_id connection_id message)"

definition server_message :: "ClientEnv \<Rightarrow> 'w RelayHandlers \<Rightarrow> DesktopServerMessage \<Rightarrow> ('w Client, unit) action" where
  "server_message env h message =
     (case message of
        DS_HelloAck accepted _ _ \<Rightarrow>
          chain (client_now env) (\<lambda>t. chain (client_now env) (\<lambda>t'. on_status (greeted accepted t t')))
      | DS_Pong _ \<Rightarrow> give ()
      | DS_PairingRequest pairing_id connection_id payload \<Rightarrow>
          chain (run_handler (rh_pairing h (P_Pair pairing_id payload))) (\<lambda>result.
            send_desktop_message env (pairing_answer pairing_id connection_id result))
      | DS_DeviceRevoked device_id \<Rightarrow>
          chain (run_handler (rh_revoke h device_id)) (\<lambda>result.
            case result of Inl e \<Rightarrow> set_error (''the device was revoked, but not here: '' @ e) | Inr _ \<Rightarrow> give ())
      | DS_DeviceRevoke device_id request_id \<Rightarrow>
          chain (run_handler (rh_revoke h device_id)) (\<lambda>result.
            case result of
              Inr _ \<Rightarrow> send_desktop_message env (D_RevokeResult device_id request_id)
            | Inl e \<Rightarrow> chain (set_error (''revocation failed: '' @ e)) (\<lambda>_.
                send_desktop_message env (D_RevokeError device_id request_id ''desktop revoke failed'')))
      | DS_DeviceControl device_id request \<Rightarrow>
          chain (run_handler (rh_control h device_id request)) (\<lambda>result.
            case result of
              Inr response \<Rightarrow> send_desktop_message env (D_ControlResponse device_id response)
            | Inl e \<Rightarrow> chain (set_error (''control request refused: '' @ e)) (\<lambda>_.
                send_desktop_message env (D_ControlError device_id (cp_request_id request) ''desktop rejected control request'')))
      | DS_Error m \<Rightarrow> set_error m)"

datatype client_read = Rd_Text string | Rd_Ping string | Rd_Pong | Rd_Close | Rd_Other | Rd_End | Rd_Failed

datatype client_event = Ev_Stop | Ev_Tick nat | Ev_Read nat client_read

definition on_client_read ::
  "ClientEnv \<Rightarrow> 'w RelayHandlers \<Rightarrow> (string \<Rightarrow> DesktopServerMessage option) \<Rightarrow> client_read \<Rightarrow> ('w Client, unit) action" where
  "on_client_read env h parse r =
     (case r of
        Rd_End \<Rightarrow> raise ''closed''
      | Rd_Failed \<Rightarrow> raise ''read failed''
      | _ \<Rightarrow> chain (client_now env) (\<lambda>t. chain (on_status (\<lambda>s. s\<lparr>ry_last_heartbeat_at := Some t\<rparr>)) (\<lambda>_.
          case r of
            Rd_Text text \<Rightarrow> (case parse text of None \<Rightarrow> set_error ''invalid message'' | Some m \<Rightarrow> server_message env h m)
          | Rd_Ping p \<Rightarrow> client_send env (C_Pong p)
          | Rd_Close \<Rightarrow> raise ''closed''
          | _ \<Rightarrow> give ())))"

text \<open>\<open>True\<close>: stopped by the user; \<open>False\<close>: still running after these events.\<close>

fun client_loop ::
  "ClientEnv \<Rightarrow> 'w RelayHandlers \<Rightarrow> (string \<Rightarrow> DesktopServerMessage option) \<Rightarrow> nat \<Rightarrow> client_event list \<Rightarrow> ('w Client, bool) action" where
  "client_loop env h parse last_activity [] = give False"
| "client_loop env h parse last_activity (Ev_Stop # evs) = chain (modify (\<lambda>c. c\<lparr>cl_out := cl_out c @ [C_Close]\<rparr>)) (\<lambda>_. give True)"
| "client_loop env h parse last_activity (Ev_Tick at # evs) =
     (if CLIENT_IDLE_TIMEOUT < at - last_activity then raise ''heartbeat timeout''
      else chain (client_now env) (\<lambda>t. chain (send_desktop_message env (D_Ping t)) (\<lambda>_. client_loop env h parse last_activity evs)))"
| "client_loop env h parse last_activity (Ev_Read at r # evs) =
     chain (on_client_read env h parse r) (\<lambda>_. client_loop env h parse at evs)"

text \<open>A token that can be a header's value: \<^verbatim>\<open>HeaderValue::from_str\<close> takes visible ASCII, bytes from 128 on and tabs.\<close>

definition header_value_ok :: "string \<Rightarrow> bool" where
  "header_value_ok t \<longleftrightarrow> list_all (\<lambda>c. (32 \<le> code c \<and> code c \<noteq> 127) \<or> code c = 9) t"

datatype connect_result = Connect_Stopped | Connect_Failed string | Connected

definition relay_session ::
  "ClientEnv \<Rightarrow> 'w RelayHandlers \<Rightarrow> (string \<Rightarrow> DesktopServerMessage option) \<Rightarrow> string \<Rightarrow> string \<Rightarrow> RelaySettings \<Rightarrow> RelayCredentials
    \<Rightarrow> (string \<Rightarrow> connect_result) \<Rightarrow> nat \<Rightarrow> client_event list \<Rightarrow> ('w Client, bool) action" where
  "relay_session env h parse app_version platform settings credentials connect start evs =
     chain (on_status (\<lambda>s. s\<lparr>ry_connecting := True, ry_connected := False, ry_last_error := []\<rparr>)) (\<lambda>_.
     chain (from_result (websocket_url (rl_base_url settings) (''/v1/ws/desktop?desktopId='' @ rc_desktop_id credentials))) (\<lambda>url.
       if \<not> header_value_ok (''Bearer '' @ rc_desktop_token credentials) then raise ''invalid desktop token''
       else case connect url of
         Connect_Stopped \<Rightarrow> give True
       | Connect_Failed e \<Rightarrow> raise e
       | Connected \<Rightarrow>
           chain (send_desktop_message env (D_Hello PROTOCOL_VERSION (rc_desktop_id credentials) app_version platform device_capabilities)) (\<lambda>_.
             client_loop env h parse start evs)))"

section \<open>Reconnecting\<close>

text \<open>The delay in milliseconds, a fifth longer or shorter by the clock.\<close>

definition jittered_delay :: "u64 \<Rightarrow> nat \<Rightarrow> nat" where
  "jittered_delay now seconds =
     (let jitter = int (unat now mod 401) - 200; millis = int seconds * 1000 * (1000 + jitter) div 1000
      in nat (max millis 200))"

definition reconnect_base :: "u32 \<Rightarrow> nat" where
  "reconnect_base tries = RECONNECT_DELAYS ! min (unat tries - 1) (length RECONNECT_DELAYS - 1)"

text \<open>One round of the wait: the time at its top, the probe of the relay's health, the time after it, and whether the user
  stopped the client in the sleep that follows. \<open>probing\<close>: there are a client and an address to probe.\<close>

datatype probe = Probe_Stopped | Probe_Reachable | Probe_Unreachable

record RecoveryRound =
  rr_at :: nat
  rr_probe :: probe
  rr_then :: nat
  rr_stopped :: bool

definition recovery_sleep :: "bool \<Rightarrow> nat \<Rightarrow> nat" where
  "recovery_sleep probing remaining = min (if probing then RECOVERY_PROBE_INTERVAL else 200) remaining"

fun wait_for_network_recovery :: "bool \<Rightarrow> nat \<Rightarrow> bool \<Rightarrow> RecoveryRound list \<Rightarrow> bool option" where
  "wait_for_network_recovery probing deadline saw_unreachable [] = None"
| "wait_for_network_recovery probing deadline saw_unreachable (r # rs) =
     (if deadline \<le> rr_at r then Some False
      else if probing \<and> rr_probe r = Probe_Stopped then Some False
      else if probing \<and> rr_probe r = Probe_Reachable \<and> saw_unreachable then Some True
      else if deadline \<le> rr_then r then Some False
      else if rr_stopped r then Some False
      else wait_for_network_recovery probing deadline (saw_unreachable \<or> probing \<and> rr_probe r \<noteq> Probe_Reachable) rs)"

definition sat_succ32 :: "u32 \<Rightarrow> u32" where
  "sat_succ32 a = (if unat a = 2 ^ 32 - 1 then a else a + 1)"

text \<open>What happens around one session of the loop. The client of the probe may fail to build (\<open>lp_probing\<close>).\<close>

record LoopRound =
  lp_stop_before :: bool
  lp_connect :: "string \<Rightarrow> connect_result"
  lp_start :: nat
  lp_events :: "client_event list"
  lp_stop_after :: bool
  lp_now :: u64
  lp_wait_from :: nat
  lp_probing :: bool
  lp_waits :: "RecoveryRound list"

definition lost :: "u32 \<Rightarrow> string + bool \<Rightarrow> RelayStatus \<Rightarrow> RelayStatus" where
  "lost tries result s = s\<lparr>ry_connected := False, ry_connecting := False, ry_session_id := None, ry_reconnect_attempt := tries,
     ry_last_error := (case result of Inl e \<Rightarrow> e | Inr _ \<Rightarrow> ry_last_error s)\<rparr>"

definition ended :: "RelayStatus \<Rightarrow> RelayStatus" where
  "ended s = s\<lparr>ry_connected := False, ry_connecting := False, ry_session_id := None\<rparr>"

definition round_wait :: "RelaySettings \<Rightarrow> u32 \<Rightarrow> LoopRound \<Rightarrow> bool option" where
  "round_wait settings tries r =
     wait_for_network_recovery (lp_probing r \<and> \<not> isl (normalized_base_url (rl_base_url settings)))
       (lp_wait_from r + jittered_delay (lp_now r) (reconnect_base tries)) False (lp_waits r)"

text \<open>\<open>True\<close>: the loop has ended; \<open>False\<close>: it goes on after these rounds.\<close>

fun relay_loop ::
  "ClientEnv \<Rightarrow> 'w RelayHandlers \<Rightarrow> (string \<Rightarrow> DesktopServerMessage option) \<Rightarrow> string \<Rightarrow> string \<Rightarrow> RelaySettings \<Rightarrow> RelayCredentials
    \<Rightarrow> u32 \<Rightarrow> LoopRound list \<Rightarrow> ('w Client, bool) action" where
  "relay_loop env h parse app_version platform settings credentials tries [] = give False"
| "relay_loop env h parse app_version platform settings credentials tries (r # rs) =
     (if lp_stop_before r \<or> \<not> rl_enabled settings then chain (on_status ended) (\<lambda>_. give True)
      else and_then_always
        (relay_session env h parse app_version platform settings credentials (lp_connect r) (lp_start r) (lp_events r)) (\<lambda>result.
        if result = Inr False then give False
        else if lp_stop_after r then chain (on_status ended) (\<lambda>_. give True)
        else let failed = sat_succ32 tries in
          chain (on_status (lost failed result)) (\<lambda>_.
            case round_wait settings failed r of
              None \<Rightarrow> give False
            | Some True \<Rightarrow> chain (on_status (\<lambda>s. s\<lparr>ry_reconnect_attempt := 0\<rparr>)) (\<lambda>_.
                relay_loop env h parse app_version platform settings credentials 0 rs)
            | Some False \<Rightarrow> relay_loop env h parse app_version platform settings credentials failed rs)))"

section \<open>Uploading snapshots\<close>

record Upload =
  ul_url :: string
  ul_bearer :: string
  ul_snapshot :: EncryptedSnapshot

record Uploader =
  up_sequences :: "string \<rightharpoonup> u64"
  up_status :: RelayStatus
  up_out :: "Upload list"
  up_calls :: nat

record UploadEnv =
  ue_now :: "nat \<Rightarrow> u64"
  ue_nonce :: "nat \<Rightarrow> bytes option"
  ue_answer :: "nat \<Rightarrow> string + nat"

definition upload_failed :: "string \<Rightarrow> Uploader \<Rightarrow> Uploader" where
  "upload_failed e u = u\<lparr>up_status := (up_status u)\<lparr>ry_last_error := e\<rparr>\<rparr>"

definition upload_snapshot ::
  "UploadEnv \<Rightarrow> Crypto \<Rightarrow> bytes \<Rightarrow> string \<Rightarrow> RelayCredentials \<Rightarrow> string \<Rightarrow> SnapshotSource \<Rightarrow> Uploader \<Rightarrow> Uploader" where
  "upload_snapshot env cr master_key base credentials session_id source u =
     (let device_id = so_device_id source;
          sequence = sat_add64 (case up_sequences u device_id of None \<Rightarrow> 0 | Some n \<Rightarrow> n) 1;
          u1 = u\<lparr>up_sequences := (up_sequences u)(device_id \<mapsto> sequence), up_calls := Suc (up_calls u)\<rparr>
      in case encrypt_snapshot cr (ue_nonce env (up_calls u)) master_key (rc_desktop_id credentials) device_id session_id sequence
             (ue_now env (up_calls u)) (so_plaintext source) of
           Inl e \<Rightarrow> upload_failed (''encryption failed: '' @ e) u1
         | Inr encrypted \<Rightarrow>
            (let u2 = u1\<lparr>up_out := up_out u1 @ [\<lparr>ul_url = base @ ''/v1/desktops/'' @ rc_desktop_id credentials @ ''/devices/'' @ device_id @ ''/snapshot'',
                     ul_bearer = rc_desktop_token credentials, ul_snapshot = encrypted\<rparr>], up_calls := Suc (up_calls u1)\<rparr>
             in case ue_answer env (up_calls u1) of
                  Inl e \<Rightarrow> upload_failed (''upload failed: '' @ e) u2
                | Inr status \<Rightarrow>
                    if is_success status
                    then u2\<lparr>up_status := (up_status u2)\<lparr>ry_last_heartbeat_at := Some (ue_now env (up_calls u2))\<rparr>, up_calls := Suc (up_calls u2)\<rparr>
                    else upload_failed ''upload refused'' u2))"

text \<open>The ticks of the upload loop, each with whether the client was stopped by then and what the provider gave.\<close>

fun upload_ticks ::
  "UploadEnv \<Rightarrow> Crypto \<Rightarrow> bytes \<Rightarrow> string \<Rightarrow> bool \<Rightarrow> RelayCredentials \<Rightarrow> string \<Rightarrow> (bool \<times> SnapshotSource list) list \<Rightarrow> Uploader \<Rightarrow> Uploader" where
  "upload_ticks env cr master_key base enabled credentials session_id [] u = u"
| "upload_ticks env cr master_key base enabled credentials session_id ((stopped, sources) # ticks) u =
     (if stopped \<or> \<not> enabled then u
      else upload_ticks env cr master_key base enabled credentials session_id ticks
        (fold (upload_snapshot env cr master_key base credentials session_id) sources u))"

definition snapshot_http_loop ::
  "UploadEnv \<Rightarrow> Crypto \<Rightarrow> bytes \<Rightarrow> RelaySettings \<Rightarrow> RelayCredentials \<Rightarrow> string \<Rightarrow> (bool \<times> SnapshotSource list) list \<Rightarrow> Uploader \<Rightarrow> Uploader" where
  "snapshot_http_loop env cr master_key settings credentials session_id ticks u =
     (case normalized_base_url (rl_base_url settings) of
        Inl e \<Rightarrow> upload_failed e u
      | Inr base \<Rightarrow> upload_ticks env cr master_key base (rl_enabled settings) credentials session_id ticks u)"

end
