(* ===== verification/Proxy_Settings.thy ===== *)
theory Proxy_Settings
  imports Remote_Addresses
begin

text \<open>
  The proxy of the tunnel (\<^verbatim>\<open>src-tauri/src/proxy_utils.rs\<close>): the check of an address, its host and port, the system's proxy
  on each platform, and the environment the tunnel client is started with. The output of \<^verbatim>\<open>scutil\<close> and PowerShell and the
  variables of the environment are arguments.
\<close>

section \<open>Text\<close>

text \<open>\<^verbatim>\<open>split_once\<close> with a separator that is not empty, \<^verbatim>\<open>rsplit_once\<close> and \<^verbatim>\<open>contains\<close>.\<close>

fun split_once_at :: "string \<Rightarrow> string \<Rightarrow> (string \<times> string) option" where
  "split_once_at sep [] = None"
| "split_once_at sep (c # s) =
     (if starts_with sep (c # s) then Some ([], drop (length sep) (c # s))
      else map_option (\<lambda>(a, b). (c # a, b)) (split_once_at sep s))"

definition rsplit_once :: "char \<Rightarrow> string \<Rightarrow> (string \<times> string) option" where
  "rsplit_once d s =
     (if d \<notin> set s then None
      else Some (rev (tl (dropWhile (\<lambda>c. c \<noteq> d) (rev s))), rev (takeWhile (\<lambda>c. c \<noteq> d) (rev s))))"

section \<open>Addresses\<close>

definition known_scheme :: "string \<Rightarrow> bool" where
  "known_scheme v \<longleftrightarrow> list_ex (\<lambda>p. starts_with p v) [''http://'', ''https://'', ''socks5://'', ''socks5h://'']"

definition after_scheme :: "string \<Rightarrow> string" where
  "after_scheme v = (case split_once_at ''://'' v of Some (_, rest) \<Rightarrow> rest | None \<Rightarrow> [])"

definition validate_proxy_url :: "string \<Rightarrow> string + string" where
  "validate_proxy_url value0 =
     (let v = trim value0 in
      if v = [] then Inl ''the proxy address is empty''
      else if has_whitespace v \<or> CHR ''@'' \<in> set v then Inl ''no white space and no account in a proxy address''
      else if \<not> known_scheme v then Inl ''unknown proxy scheme''
      else let rest = after_scheme v
           in if rest = [] \<or> CHR ''/'' \<in> set rest then Inl ''a proxy address is host:port only'' else Inr v)"

definition parse_port :: "string \<Rightarrow> u16 option" where
  "parse_port t = map_option of_nat (parse_unsigned (2 ^ 16 - 1) t)"

definition proxy_host_port :: "string \<Rightarrow> (string \<times> u16) option" where
  "proxy_host_port value0 =
     (case validate_proxy_url value0 of
        Inl _ \<Rightarrow> None
      | Inr v \<Rightarrow>
         (case split_once_at ''://'' v of
            None \<Rightarrow> None
          | Some (scheme, authority) \<Rightarrow>
             if starts_with ''['' authority then
               (if CHR '']'' \<notin> set authority then None
                else let host = takeWhile (\<lambda>c. c \<noteq> CHR '']'') (tl authority);
                         after = drop (length host + 2) authority
                     in case Option.bind (strip_prefix '':'' after) parse_port of
                          None \<Rightarrow> None
                        | Some port \<Rightarrow> Some (host, port))
             else
               (case rsplit_once (CHR '':'') authority of
                  Some (host, t) \<Rightarrow>
                    if host \<noteq> [] then map_option (\<lambda>port. (host, port)) (parse_port t)
                    else map_option (\<lambda>port. (authority, port)) (map_of [(''http'', 80), (''https'', 443), (''socks5'', 1080), (''socks5h'', 1080)] scheme)
                | None \<Rightarrow> map_option (\<lambda>port. (authority, port)) (map_of [(''http'', 80), (''https'', 443), (''socks5'', 1080), (''socks5h'', 1080)] scheme))))"

section \<open>The system's proxy\<close>

text \<open>macOS: the first line of the key decides, and an empty value counts as none.\<close>

definition proxy_value :: "string \<Rightarrow> string \<Rightarrow> string option" where
  "proxy_value t key =
     (case List.map_filter (\<lambda>line. map_option trim (strip_prefix (key @ '' : '') (trim line))) (text_lines t) of
        [] \<Rightarrow> None
      | value # _ \<Rightarrow> if value = [] then None else Some value)"

fun explicit_proxy :: "string \<Rightarrow> (string \<times> string \<times> string \<times> string) list \<Rightarrow> (string + string) option" where
  "explicit_proxy t [] = None"
| "explicit_proxy t ((flag, host_key, port_key, scheme) # rest) =
     (if proxy_value t flag \<noteq> Some ''1'' then explicit_proxy t rest
      else case (proxy_value t host_key, proxy_value t port_key) of
        (Some host, Some port) \<Rightarrow> Some (validate_proxy_url (scheme @ ''://'' @ host @ '':'' @ port))
      | _ \<Rightarrow> explicit_proxy t rest)"

definition mac_proxy_keys :: "(string \<times> string \<times> string \<times> string) list" where
  "mac_proxy_keys =
     [(''HTTPSEnable'', ''HTTPSProxy'', ''HTTPSPort'', ''http''), (''HTTPEnable'', ''HTTPProxy'', ''HTTPPort'', ''http''),
      (''SOCKSEnable'', ''SOCKSProxy'', ''SOCKSPort'', ''socks5'')]"

definition mac_system_proxy :: "string + bool \<times> string \<Rightarrow> string + string option" where
  "mac_system_proxy answer =
     (case answer of
        Inl e \<Rightarrow> Inl e
      | Inr (success, t) \<Rightarrow>
          if \<not> success then Inl ''could not read the system proxy''
          else case explicit_proxy t mac_proxy_keys of
            Some found \<Rightarrow> map_sum id Some found
          | None \<Rightarrow>
              if proxy_value t ''ProxyAutoConfigEnable'' = Some ''1'' then Inl ''automatic proxy configuration is not supported''
              else Inr None)"

text \<open>Windows: \<open>raw\<close> is what PowerShell printed, if anything.\<close>

definition windows_system_proxy :: "string option \<Rightarrow> string + string option" where
  "windows_system_proxy raw =
     (case raw of
        None \<Rightarrow> Inr None
      | Some t \<Rightarrow>
         (let selected = trim (case List.map_filter (\<lambda>part. case strip_prefix ''https='' part of
                  Some p \<Rightarrow> Some p | None \<Rightarrow> strip_prefix ''http='' part) (split_on (CHR '';'') t) of
                [] \<Rightarrow> t | p # _ \<Rightarrow> p)
          in if selected = [] then Inr None
             else map_sum id Some (validate_proxy_url
               (if split_once_at ''://'' selected \<noteq> None then selected else ''http://'' @ selected))))"

text \<open>Elsewhere: the first variable that is set and not blank.\<close>

fun env_proxy :: "(string \<Rightarrow> string option) \<Rightarrow> string list \<Rightarrow> string + string option" where
  "env_proxy var [] = Inr None"
| "env_proxy var (key # keys) =
     (case var key of
        Some v \<Rightarrow> if trim v \<noteq> [] then map_sum id Some (validate_proxy_url v) else env_proxy var keys
      | None \<Rightarrow> env_proxy var keys)"

definition unix_system_proxy :: "(string \<Rightarrow> string option) \<Rightarrow> string + string option" where
  "unix_system_proxy var = env_proxy var [''HTTPS_PROXY'', ''https_proxy'', ''HTTP_PROXY'', ''http_proxy'']"

section \<open>The proxy in use\<close>

definition effective_proxy_url :: "Settings \<Rightarrow> string + string option" where
  "effective_proxy_url s =
     (let p = se_proxy s in
      if px_mode p = ''direct'' then Inr None
      else if px_mode p = ''system'' then
        (if trim (px_applied_url p) = [] then Inr None else map_sum id Some (validate_proxy_url (px_applied_url p)))
      else if px_mode p = ''manual'' then map_sum id Some (validate_proxy_url (px_url p))
      else Inl ''unknown proxy mode'')"

text \<open>The variables of the command, after what it inherits.\<close>

definition proxy_variables :: "string list" where
  "proxy_variables = [''HTTP_PROXY'', ''HTTPS_PROXY'', ''ALL_PROXY'', ''NO_PROXY'',
     ''http_proxy'', ''https_proxy'', ''all_proxy'', ''no_proxy'']"

definition web_variables :: "string list" where
  "web_variables = [''HTTP_PROXY'', ''HTTPS_PROXY'', ''http_proxy'', ''https_proxy'']"

definition socks_variables :: "string list" where
  "socks_variables = [''ALL_PROXY'', ''all_proxy'']"

definition set_vars :: "string list \<Rightarrow> string option \<Rightarrow> (string \<Rightarrow> string option) \<Rightarrow> string \<Rightarrow> string option" where
  "set_vars keys v vars = (\<lambda>k. if k \<in> set keys then v else vars k)"

definition apply_proxy_env :: "Settings \<Rightarrow> (string \<Rightarrow> string option) \<Rightarrow> (string + string option) \<times> (string \<Rightarrow> string option)" where
  "apply_proxy_env s vars =
     (let vars1 = set_vars proxy_variables None vars in
      case effective_proxy_url s of
        Inl e \<Rightarrow> (Inl e, vars1)
      | Inr None \<Rightarrow> (Inr None, vars1)
      | Inr (Some v) \<Rightarrow>
          (let vars2 = set_vars web_variables (Some v) vars1
           in (Inr (Some v), if starts_with ''socks5'' v then set_vars socks_variables (Some v) vars2 else vars2)))"

section \<open>Lemmas\<close>

lemma has_whitespace_append: "has_whitespace b \<Longrightarrow> has_whitespace (a @ b)"
  by (induction a) (cases b; auto)+

lemma ends_in_whitespace:
  assumes "ws_len_rev (map code (rev s)) \<noteq> 0"
  shows "has_whitespace s"
proof -
  obtain t where t: "s = rev t" by (metis rev_rev_ident)
  consider "t = []" | c where "t = [c]" | c b where "t = [c, b]" | c b a r where "t = c # b # a # r"
    by (metis remdups_adj.cases)
  then show ?thesis
  proof cases
    case 3
    with assms t show ?thesis by (auto split: if_splits)
  next
    case (4 c b a r)
    with assms t have "has_whitespace [a, b, c]" by (auto split: if_splits)
    then show ?thesis unfolding t 4 by (simp add: has_whitespace_append del: has_whitespace.simps)
  qed (use assms t in \<open>auto split: if_splits\<close>)
qed

lemma trim_no_whitespace: "\<not> has_whitespace s \<Longrightarrow> trim s = s"
proof -
  assume no: "\<not> has_whitespace s"
  then have front: "strip_ws ws_len s = s" by (subst strip_ws.simps) (cases s; auto)
  have "strip_ws ws_len_rev (rev s) = rev s"
    using no ends_in_whitespace [of s] by (subst strip_ws.simps) auto
  with front show ?thesis by (simp add: trim_def)
qed

lemma split_at_found: "sep \<noteq> [] \<Longrightarrow> hd sep \<notin> set a \<Longrightarrow> split_once_at sep (a @ sep @ b) = Some (a, b)"
proof (induction a)
  case Nil
  then obtain x xs where "sep = x # xs" by (cases sep) auto
  with starts_with_append [of sep b] show ?case by simp
next
  case (Cons c a)
  then have "\<not> starts_with sep (c # a @ sep @ b)" by (cases sep) (auto simp: starts_with_def)
  with Cons show ?case by simp
qed

text \<open>What a checked address looks like.\<close>

definition plain_proxy :: "string \<Rightarrow> bool" where
  "plain_proxy v \<longleftrightarrow> \<not> has_whitespace v \<and> CHR ''@'' \<notin> set v
     \<and> (\<exists>scheme rest. scheme \<in> {''http'', ''https'', ''socks5'', ''socks5h''} \<and> v = scheme @ ''://'' @ rest \<and> rest \<noteq> [] \<and> CHR ''/'' \<notin> set rest)"

lemma scheme_no_colon: "scheme \<in> {''http'', ''https'', ''socks5'', ''socks5h''} \<Longrightarrow> CHR '':'' \<notin> set scheme"
  by auto

lemma plain_parts:
  assumes "known_scheme v"
  obtains scheme rest where "scheme \<in> {''http'', ''https'', ''socks5'', ''socks5h''}" "v = scheme @ ''://'' @ rest"
    "split_once_at ''://'' v = Some (scheme, rest)"
proof -
  from assms have "starts_with (''http'' @ ''://'') v \<or> starts_with (''https'' @ ''://'') v \<or> starts_with (''socks5'' @ ''://'') v
      \<or> starts_with (''socks5h'' @ ''://'') v" by (simp add: known_scheme_def)
  then obtain scheme where s: "scheme \<in> {''http'', ''https'', ''socks5'', ''socks5h''}" "starts_with (scheme @ ''://'') v" by blast
  from s(2) obtain rest where "v = (scheme @ ''://'') @ rest" by (rule starts_withE)
  with s(1) have v: "scheme \<in> {''http'', ''https'', ''socks5'', ''socks5h''}" "v = scheme @ ''://'' @ rest" by simp_all
  then have "split_once_at ''://'' v = Some (scheme, rest)"
    using split_at_found [of "''://''" scheme rest] scheme_no_colon [of scheme] by simp
  with v show ?thesis by (rule that)
qed

lemma validate_proxy_iff: "validate_proxy_url x = Inr v \<longleftrightarrow> v = trim x \<and> plain_proxy v"
proof
  assume "validate_proxy_url x = Inr v"
  then have v: "v = trim x" "\<not> has_whitespace v" "CHR ''@'' \<notin> set v" "known_scheme v" "after_scheme v \<noteq> []" "CHR ''/'' \<notin> set (after_scheme v)"
    by (simp_all add: validate_proxy_url_def Let_def split: if_splits)
  from v(4) obtain scheme rest where p: "scheme \<in> {''http'', ''https'', ''socks5'', ''socks5h''}" "v = scheme @ ''://'' @ rest"
      "split_once_at ''://'' v = Some (scheme, rest)" by (rule plain_parts)
  then have "after_scheme v = rest" by (simp add: after_scheme_def)
  with v p(1,2) show "v = trim x \<and> plain_proxy v" unfolding plain_proxy_def by blast
next
  assume v: "v = trim x \<and> plain_proxy v"
  then obtain scheme rest where s: "scheme \<in> {''http'', ''https'', ''socks5'', ''socks5h''}" "v = scheme @ ''://'' @ rest" "rest \<noteq> []" "CHR ''/'' \<notin> set rest"
    by (auto simp: plain_proxy_def)
  then have "split_once_at ''://'' v = Some (scheme, rest)"
    using split_at_found [of "''://''" scheme rest] scheme_no_colon [of scheme] by simp
  then have "after_scheme v = rest" by (simp add: after_scheme_def)
  moreover have "known_scheme v"
    using s(1,2) by (auto simp: known_scheme_def starts_with_def)
  moreover have "v \<noteq> []" using s by auto
  ultimately show "validate_proxy_url x = Inr v"
    using v s(3,4) by (auto simp: validate_proxy_url_def plain_proxy_def Let_def simp del: split_once_at.simps)
qed

lemma validate_proxy_again: "validate_proxy_url x = Inr v \<Longrightarrow> validate_proxy_url v = Inr v"
  by (auto simp: validate_proxy_iff plain_proxy_def trim_no_whitespace)

lemma explicit_plain: "explicit_proxy t keys = Some (Inr v) \<Longrightarrow> plain_proxy v"
  by (induction t keys rule: explicit_proxy.induct) (auto simp: validate_proxy_iff split: if_splits option.splits)

lemma checked_plain: "map_sum id Some (validate_proxy_url x) = Inr (Some v) \<Longrightarrow> plain_proxy v"
  by (cases "validate_proxy_url x") (auto simp: validate_proxy_iff)

lemma env_plain: "env_proxy var keys = Inr (Some v) \<Longrightarrow> plain_proxy v"
proof (induction var keys rule: env_proxy.induct)
  case (2 var key keys)
  then show ?case
    by (auto split: option.splits if_splits dest: checked_plain)
qed simp

lemma effective_plain: "effective_proxy_url s = Inr (Some v) \<Longrightarrow> plain_proxy v"
  by (auto simp: effective_proxy_url_def Let_def split: if_splits dest: checked_plain)

lemma takeWhile_to: "d \<notin> set b \<Longrightarrow> takeWhile (\<lambda>c. c \<noteq> d) (b @ d # a) = b \<and> dropWhile (\<lambda>c. c \<noteq> d) (b @ d # a) = d # a"
  by (induction b) auto

lemma rsplit_once_last: "d \<notin> set b \<Longrightarrow> rsplit_once d (a @ d # b) = Some (a, b)"
  using takeWhile_to [of d "rev b" "rev a"] by (simp add: rsplit_once_def)

lemma radix10_snoc:
  "radix10 limit acc (s @ [c]) = Option.bind (radix10 limit acc s) (\<lambda>n. if 48 \<le> code c \<and> code c \<le> 57 \<and> n * 10 + (code c - 48) \<le> limit
     then Some (n * 10 + (code c - 48)) else None)"
  by (induction limit acc s rule: radix10.induct) auto

lemma radix10_decimal: "n \<le> limit \<Longrightarrow> radix10 limit 0 (decimal n) = Some n"
proof (induction n rule: decimal.induct)
  case (1 n)
  show ?case
  proof (cases "n < 10")
    case True
    with 1(2) show ?thesis by (subst decimal.simps) simp
  next
    case False
    with 1 have "radix10 limit 0 (decimal (n div 10)) = Some (n div 10)" by simp
    moreover have "n mod 10 < 10" "n div 10 * 10 + n mod 10 = n" by simp_all
    ultimately show ?thesis using 1(2) False by (subst decimal.simps) (simp add: radix10_snoc)
  qed
qed

lemma parse_port_decimal: "parse_port (decimal (unat p)) = Some p"
proof -
  have "decimal (unat p) \<noteq> []" by (subst decimal.simps) simp
  moreover from this have "code (hd (decimal (unat p))) \<ge> 48" using decimal_digits hd_in_set by blast
  then have "hd (decimal (unat p)) \<noteq> CHR ''+''" "decimal (unat p) \<noteq> ''+''" "decimal (unat p) \<noteq> ''-''" by (auto simp: code_def)
  moreover have "unat p \<le> 2 ^ 16 - 1" using unsigned_less [of p, where 'a = nat] by simp
  ultimately show ?thesis using radix10_decimal [of "unat p" "2 ^ 16 - 1"] by (simp add: parse_port_def parse_unsigned_def)
qed

lemma graphic_no_whitespace: "graphic s \<Longrightarrow> \<not> has_whitespace s"
proof (induction s)
  case (Cons c s)
  then have "ws_len (map code (c # s)) = 0" by (intro ws_len_printable graphic_codes)
  with Cons show ?case by (simp add: graphic_def)
qed simp

text \<open>The environment of the tunnel client.\<close>

lemma variables_set:
  "set web_variables \<subseteq> set proxy_variables" "set socks_variables \<subseteq> set proxy_variables" "''HTTPS_PROXY'' \<in> set web_variables"
  "''NO_PROXY'' \<in> set proxy_variables" "''NO_PROXY'' \<notin> set web_variables" "''NO_PROXY'' \<notin> set socks_variables"
  "''HTTPS_PROXY'' \<notin> set socks_variables"
  by (auto simp: web_variables_def socks_variables_def proxy_variables_def)

lemma proxy_env:
  assumes "apply_proxy_env s vars = (r, vars1)"
  shows "r = effective_proxy_url s"
    and "vars1 k = (if k \<notin> set proxy_variables then vars k
      else case r of Inr (Some v) \<Rightarrow> if k \<in> set web_variables \<or> k \<in> set socks_variables \<and> starts_with ''socks5'' v then Some v else None
        | _ \<Rightarrow> None)"
proof -
  show "r = effective_proxy_url s"
    using assms by (auto simp: apply_proxy_env_def Let_def split: sum.splits option.splits)
  define vars0 where "vars0 = set_vars proxy_variables None vars"
  have at0: "vars0 x = (if x \<in> set proxy_variables then None else vars x)" for x by (simp add: vars0_def set_vars_def)
  consider "r = Inr None" "vars1 = vars0" | e where "r = Inl e" "vars1 = vars0"
    | v where "r = Inr (Some v)" "vars1 = (if starts_with ''socks5'' v then set_vars socks_variables (Some v) (set_vars web_variables (Some v) vars0)
        else set_vars web_variables (Some v) vars0)"
  proof (cases "effective_proxy_url s")
    case (Inl e)
    with assms show ?thesis by (intro that(2) [of e]) (auto simp: apply_proxy_env_def vars0_def Let_def)
  next
    case (Inr x)
    show ?thesis
    proof (cases x)
      case None
      with Inr assms show ?thesis by (intro that(1)) (auto simp: apply_proxy_env_def vars0_def Let_def)
    next
      case (Some v)
      with Inr assms show ?thesis by (intro that(3) [of v]) (auto simp: apply_proxy_env_def vars0_def Let_def)
    qed
  qed
  then show "vars1 k = (if k \<notin> set proxy_variables then vars k
      else case r of Inr (Some v) \<Rightarrow> if k \<in> set web_variables \<or> k \<in> set socks_variables \<and> starts_with ''socks5'' v then Some v else None
        | _ \<Rightarrow> None)"
  proof cases
    case (3 v)
    with variables_set(1,2) show ?thesis by (auto simp: set_vars_def at0)
  qed (simp_all add: at0)
qed

lemma found_plain:
  assumes "map_sum id Some q = Inr (Some v)"
  shows "q = Inr v"
  using assms by (cases q) auto

section \<open>Properties\<close>

text \<open>C33: the tunnel client inherits no proxy. Each proxy variable it is started with is removed or holds the one address in
  use, which is a plain one: of a known scheme, without account, path or white space.\<close>

theorem proxy_env_only_effective:
  assumes "apply_proxy_env s vars = (r, vars1)"
  shows "r = effective_proxy_url s \<and> (\<forall>k. k \<notin> set proxy_variables \<longrightarrow> vars1 k = vars k)
    \<and> (\<forall>k \<in> set proxy_variables. case vars1 k of None \<Rightarrow> True | Some v \<Rightarrow> effective_proxy_url s = Inr (Some v) \<and> plain_proxy v)
    \<and> (\<forall>v. r = Inr (Some v) \<longrightarrow> vars1 ''HTTPS_PROXY'' = Some v) \<and> vars1 ''NO_PROXY'' = None"
proof -
  note r = proxy_env(1) [OF assms] and at = proxy_env(2) [OF assms]
  have "case vars1 k of None \<Rightarrow> True | Some v \<Rightarrow> effective_proxy_url s = Inr (Some v) \<and> plain_proxy v" if "k \<in> set proxy_variables" for k
    using at [of k] that effective_plain [of s] r by (auto split: sum.splits option.splits if_splits)
  moreover have "vars1 ''HTTPS_PROXY'' = Some v" if "r = Inr (Some v)" for v
    using at [of "''HTTPS_PROXY''"] that variables_set(1,3) by auto
  moreover have "vars1 ''NO_PROXY'' = None"
    using at [of "''NO_PROXY''"] variables_set(4,5,6) by (simp split: sum.splits option.splits)
  moreover have "vars1 k = vars k" if "k \<notin> set proxy_variables" for k using at [of k] that by simp
  ultimately show ?thesis using r by blast
qed

text \<open>Whatever the system reports as its proxy, on any platform, is used only as a plain address.\<close>

theorem system_proxy_plain:
  "(mac_system_proxy answer = Inr (Some v) \<longrightarrow> plain_proxy v) \<and> (windows_system_proxy raw = Inr (Some v) \<longrightarrow> plain_proxy v)
    \<and> (unix_system_proxy var = Inr (Some v) \<longrightarrow> plain_proxy v)"
proof (intro conjI impI)
  assume "mac_system_proxy answer = Inr (Some v)"
  then obtain t where "explicit_proxy t mac_proxy_keys = Some (Inr v)"
    by (auto simp: mac_system_proxy_def split: sum.splits prod.splits if_splits option.splits dest!: found_plain)
  then show "plain_proxy v" by (rule explicit_plain)
next
  assume "windows_system_proxy raw = Inr (Some v)"
  then show "plain_proxy v" by (auto simp: windows_system_proxy_def Let_def split: option.splits if_splits dest!: checked_plain)
next
  assume "unix_system_proxy var = Inr (Some v)"
  then show "plain_proxy v" unfolding unix_system_proxy_def by (rule env_plain)
qed

text \<open>A host and port written as an address are read back.\<close>

theorem proxy_host_port_reads:
  assumes "scheme \<in> {''http'', ''https'', ''socks5'', ''socks5h''}" and "host \<noteq> []" and "graphic host"
    and "CHR ''@'' \<notin> set host" and "CHR ''/'' \<notin> set host" and "\<not> starts_with ''['' host"
  shows "proxy_host_port (scheme @ ''://'' @ host @ '':'' @ decimal (unat port)) = Some (host, port)"
proof -
  let ?v = "scheme @ ''://'' @ host @ '':'' @ decimal (unat port)"
  have digits: "\<forall>c \<in> set (decimal (unat port)). 48 \<le> code c \<and> code c \<le> 57" using decimal_digits by blast
  then have "graphic ?v" and no: "CHR '':'' \<notin> set (decimal (unat port))" "CHR ''/'' \<notin> set (decimal (unat port))" "CHR ''@'' \<notin> set (decimal (unat port))"
    using assms(1,3) by (auto simp: graphic_def list_all_iff code_def)
  moreover have "plain_proxy ?v"
    using assms(1,2,4,5) no graphic_no_whitespace [OF \<open>graphic ?v\<close>] unfolding plain_proxy_def by fastforce
  ultimately have valid: "validate_proxy_url ?v = Inr ?v" by (simp add: validate_proxy_iff trim_graphic)
  have "split_once_at ''://'' ?v = Some (scheme, host @ '':'' @ decimal (unat port))"
    using split_at_found [of "''://''" scheme "host @ '':'' @ decimal (unat port)"] scheme_no_colon [OF assms(1)] by simp
  moreover have "rsplit_once (CHR '':'') (host @ '':'' @ decimal (unat port)) = Some (host, decimal (unat port))"
    using rsplit_once_last [OF no(1), of host] by simp
  moreover have "\<not> starts_with ''['' (host @ '':'' @ decimal (unat port))"
    using assms(2,6) by (cases host) (auto simp: starts_with_def)
  ultimately show ?thesis using valid assms(2) by (simp add: proxy_host_port_def parse_port_decimal)
qed

section \<open>Witnesses and examples\<close>

theorem proxy_env_only_effective_witness:
  "\<exists>r vars1. apply_proxy_env (default_settings\<lparr>se_proxy := \<lparr>px_mode = ''manual'', px_url = ''socks5://p:1080'', px_applied_url = []\<rparr>\<rparr>)
      (\<lambda>_. Some ''inherited'') = (r, vars1)
     \<and> vars1 ''NO_PROXY'' = None \<and> vars1 ''PATH'' = Some ''inherited''"
proof -
  obtain r vars1 where run: "apply_proxy_env (default_settings\<lparr>se_proxy := \<lparr>px_mode = ''manual'', px_url = ''socks5://p:1080'', px_applied_url = []\<rparr>\<rparr>)
      (\<lambda>_. Some ''inherited'') = (r, vars1)" by fastforce
  moreover have "''PATH'' \<notin> set proxy_variables" by (simp add: proxy_variables_def)
  ultimately show ?thesis using proxy_env_only_effective [OF run] by blast
qed

theorem system_proxy_plain_witness:
  "unix_system_proxy [''https_proxy'' \<mapsto> '' http://p:3128 ''] = Inr (Some ''http://p:3128'') \<and> plain_proxy ''http://p:3128''"
proof -
  have "unix_system_proxy [''https_proxy'' \<mapsto> '' http://p:3128 ''] = Inr (Some ''http://p:3128'')" by code_simp
  with system_proxy_plain [of _ "''http://p:3128''" _ "[''https_proxy'' \<mapsto> '' http://p:3128 '']"] show ?thesis by blast
qed

theorem proxy_host_port_reads_witness:
  "proxy_host_port (''http'' @ ''://'' @ ''::1'' @ '':'' @ decimal (unat (8080 :: u16))) = Some (''::1'', 8080)"
  by (rule proxy_host_port_reads) (simp_all add: graphic_def code_def starts_with_def)

text \<open>An address without a host is accepted; the colon then counts as part of the host.\<close>

lemma proxy_without_host: "validate_proxy_url ''http://:8080'' = Inr ''http://:8080'' \<and> proxy_host_port ''http://:8080'' = Some ('':8080'', 80)"
  by code_simp

end
