(* ===== verification/Network_Settings.thy ===== *)
theory Network_Settings
  imports Relay_Client Transport_Control Proxy_Settings Registration
begin

text \<open>
  The network settings of the desktop (\<^verbatim>\<open>src-tauri/src/network_commands.rs\<close>): the proxy of the tunnel and the relay, starting and
  stopping the relay's client, registering at the relay, and the command that changes the settings, applies them and takes
  them back when that fails.

  \<open>NetWorld\<close> is the part of the application these commands work on. The client's thread is seen as the settings and
  credentials it was started with; what it writes into its status later is the theory \<open>Relay_Client\<close>. Each command holds the
  connection lock and is one step. Log lines are not modelled, and messages are given in English.
\<close>

section \<open>State\<close>

record NetWorld =
  nt_world :: World
  nt_phones :: MonitorWorld
  nt_credentials :: "RelayCredentials option"              \<comment> \<open>in the key store\<close>
  nt_client :: "(RelaySettings \<times> RelayCredentials) option"   \<comment> \<open>the running client\<close>
  nt_status :: RelayStatus
  nt_identity :: "string option"                           \<comment> \<open>the desktop's identity file\<close>

text \<open>\<open>no_system\<close> is what \<^verbatim>\<open>system_proxy_url\<close> finds, \<open>no_setup\<close> the administrator's token or the reason there is none.\<close>

record NetOutside =
  no_out :: Outside
  no_env :: MonitorEnv
  no_system :: "string + string option"
  no_setup :: "string + string"
  no_invite :: "u8 list \<Rightarrow> RegistrationInvite option"
  no_register :: "HttpCall \<Rightarrow> string + nat \<times> DesktopRegisterResponse option"
  no_health :: "HttpCall \<Rightarrow> string + nat"
  no_tcp :: "string \<Rightarrow> u16 \<Rightarrow> bool"
  no_print :: "json \<Rightarrow> string"
  no_host_name :: string
  no_version :: string
  no_platform :: string

type_synonym 'a nop = "(NetWorld, 'a) action"

definition at_world :: "'a op \<Rightarrow> 'a nop" where
  "at_world m n = (case m (nt_world n) of (r, w) \<Rightarrow> (r, n\<lparr>nt_world := w\<rparr>))"

definition at_phones :: "'a mop \<Rightarrow> 'a nop" where
  "at_phones m n = (case m (nt_phones n) of (r, w) \<Rightarrow> (r, n\<lparr>nt_phones := w\<rparr>))"

section \<open>Credentials and the client\<close>

definition read_relay_credentials :: "NetOutside \<Rightarrow> RelayCredentials nop" where
  "read_relay_credentials env =
     chain (at_world (attempt (no_out env) ''read relay credentials'')) (\<lambda>_ n.
       (case nt_credentials n of None \<Rightarrow> Inl ''no relay credentials'' | Some c \<Rightarrow> Inr c, n))"

definition save_relay_credentials :: "NetOutside \<Rightarrow> RelayCredentials \<Rightarrow> unit nop" where
  "save_relay_credentials env credentials =
     chain (at_world (attempt (no_out env) ''save relay credentials'')) (\<lambda>_. modify (\<lambda>n. n\<lparr>nt_credentials := Some credentials\<rparr>))"

definition credentials_match :: "RelayCredentials \<Rightarrow> Settings \<Rightarrow> bool" where
  "credentials_match credentials settings =
     (case (normalized_base_url (rc_base_url credentials), normalized_base_url (rl_base_url (se_relay settings))) of
        (Inr a, Inr b) \<Rightarrow> a = b
      | _ \<Rightarrow> False)"

definition credentials_for :: "NetOutside \<Rightarrow> Settings \<Rightarrow> RelayCredentials option nop" where
  "credentials_for env settings =
     and_then_always (read_relay_credentials env) (\<lambda>found. give (case found of
        Inl _ \<Rightarrow> None
      | Inr credentials \<Rightarrow> if credentials_match credentials settings then Some credentials else None))"

definition stop_relay_client :: "NetWorld \<Rightarrow> NetWorld" where
  "stop_relay_client n =
     n\<lparr>nt_client := None, nt_status := (nt_status n)\<lparr>ry_connected := False, ry_connecting := False, ry_session_id := None\<rparr>\<rparr>"

definition set_status :: "RelayStatus \<Rightarrow> unit nop" where
  "set_status s = modify (\<lambda>n. n\<lparr>nt_status := s\<rparr>)"

definition start_client :: "RelaySettings \<Rightarrow> RelayCredentials \<Rightarrow> unit nop" where
  "start_client settings credentials =
     chain (from_result (validate_relay settings)) (\<lambda>_.
       set_status (default_relay_status\<lparr>ry_enabled := rl_enabled settings, ry_configured := True,
         ry_desktop_id := Some (rc_desktop_id credentials)\<rparr>))"

definition start_relay_client_for_settings :: "NetOutside \<Rightarrow> unit nop" where
  "start_relay_client_for_settings env =
     chain (modify stop_relay_client) (\<lambda>_.
     chain (at_world (load_settings (no_out env))) (\<lambda>settings.
       if \<not> rl_enabled (se_relay settings) then
         chain (credentials_for env settings) (\<lambda>found.
           set_status (default_relay_status\<lparr>ry_enabled := False, ry_configured := found \<noteq> None\<rparr>))
       else
         chain (from_result (validate_relay (se_relay settings))) (\<lambda>_.
         chain (credentials_for env settings) (\<lambda>found.
           case found of
             None \<Rightarrow> set_status (default_relay_status\<lparr>ry_enabled := True, ry_configured := False\<rparr>)
           | Some credentials \<Rightarrow>
               chain (at_phones (monitor_device_ids (no_env env))) (\<lambda>_.
               chain (at_world (attempt (no_out env) ''monitor master key'')) (\<lambda>_.
               chain (start_client (se_relay settings) credentials) (\<lambda>_.
                 modify (\<lambda>n. n\<lparr>nt_client := Some (se_relay settings, credentials)\<rparr>))))))))"

section \<open>Settings from a request\<close>

definition is_object :: "json \<Rightarrow> bool" where
  "is_object v = (json_as_object v \<noteq> None)"

definition proxy_from_payload :: "string + string option \<Rightarrow> ProxySettings \<Rightarrow> json \<Rightarrow> string + ProxySettings" where
  "proxy_from_payload system current p =
     (if \<not> is_object p then Inl ''invalid proxy settings''
      else
        let mode = (case json_str_at ''mode'' p of Some m \<Rightarrow> to_ascii_lowercase (trim m) | None \<Rightarrow> px_mode current);
            url = (case json_str_at ''url'' p of Some u \<Rightarrow> trim u | None \<Rightarrow> px_url current);
            asked = current\<lparr>px_mode := mode, px_url := url\<rparr>
        in if mode = ''direct'' then Inr (asked\<lparr>px_applied_url := []\<rparr>)
           else if mode = ''manual'' then
             (case validate_proxy_url url of Inl e \<Rightarrow> Inl e | Inr v \<Rightarrow> Inr (asked\<lparr>px_url := v, px_applied_url := v\<rparr>))
           else if mode = ''system'' then
             (case system of Inl e \<Rightarrow> Inl e | Inr found \<Rightarrow> Inr (asked\<lparr>px_applied_url := (case found of Some u \<Rightarrow> u | None \<Rightarrow> [])\<rparr>))
           else Inl ''the proxy mode must be direct, system or manual'')"

definition relay_from_payload :: "bool \<Rightarrow> RelaySettings \<Rightarrow> json \<Rightarrow> string + RelaySettings" where
  "relay_from_payload monitor_enabled current p =
     (if \<not> is_object p then Inl ''invalid relay settings''
      else
        let asked = current\<lparr>rl_enabled := (case json_bool_at ''enabled'' p of Some b \<Rightarrow> b | None \<Rightarrow> rl_enabled current),
                            rl_base_url := (case json_str_at ''baseUrl'' p of Some u \<Rightarrow> trim u | None \<Rightarrow> rl_base_url current)\<rparr>
        in case validate_relay asked of
             Inl e \<Rightarrow> Inl e
           | Inr _ \<Rightarrow> if rl_enabled asked \<and> \<not> monitor_enabled then Inl ''switch monitoring on first'' else Inr asked)"

definition network_settings_from_payload :: "string + string option \<Rightarrow> Settings \<Rightarrow> json \<Rightarrow> string + Settings" where
  "network_settings_from_payload system current p =
     (case (case json_get ''proxy'' p of None \<Rightarrow> Inr (se_proxy current) | Some v \<Rightarrow> proxy_from_payload system (se_proxy current) v) of
        Inl e \<Rightarrow> Inl e
      | Inr proxy \<Rightarrow>
         (case (case json_get ''relay'' p of None \<Rightarrow> Inr (se_relay current)
                | Some v \<Rightarrow> relay_from_payload (se_monitor_enabled current) (se_relay current) v) of
            Inl e \<Rightarrow> Inl e
          | Inr relay \<Rightarrow> Inr (current\<lparr>se_proxy := proxy, se_relay := relay\<rparr>)))"

section \<open>What the user interface is shown\<close>

definition json_option :: "('a \<Rightarrow> json) \<Rightarrow> 'a option \<Rightarrow> json" where
  "json_option f x = (case x of None \<Rightarrow> JNull | Some a \<Rightarrow> f a)"

definition json_word :: "'a :: len word \<Rightarrow> json" where
  "json_word x = JInt (uint x)"

definition relay_status_json :: "RelayStatus \<Rightarrow> json" where
  "relay_status_json s = JObject
     [(''enabled'', JBool (ry_enabled s)), (''configured'', JBool (ry_configured s)), (''connected'', JBool (ry_connected s)),
      (''connecting'', JBool (ry_connecting s)), (''desktopId'', json_option JString (ry_desktop_id s)),
      (''sessionId'', json_option JString (ry_session_id s)), (''connectedAt'', json_option json_word (ry_connected_at s)),
      (''lastHeartbeatAt'', json_option json_word (ry_last_heartbeat_at s)), (''reconnectAttempt'', json_word (ry_reconnect_attempt s)),
      (''lastError'', JString (ry_last_error s))]"

definition relay_status_snapshot :: "NetOutside \<Rightarrow> Settings \<Rightarrow> RelayStatus nop" where
  "relay_status_snapshot env settings =
     chain (credentials_for env settings) (\<lambda>found n.
       let s = (nt_status n)\<lparr>ry_enabled := rl_enabled (se_relay settings), ry_configured := found \<noteq> None\<rparr>
       in (Inr (if ry_desktop_id s = None then s\<lparr>ry_desktop_id := map_option rc_desktop_id found\<rparr> else s), n))"

definition result_value :: "string + string option \<Rightarrow> json" where
  "result_value r = (case r of Inr (Some v) \<Rightarrow> JString v | _ \<Rightarrow> JNull)"

definition result_error :: "string + string option \<Rightarrow> json" where
  "result_error r = (case r of Inl e \<Rightarrow> JString e | Inr _ \<Rightarrow> JNull)"

definition network_settings_payload :: "NetOutside \<Rightarrow> json nop" where
  "network_settings_payload env =
     chain (at_world (load_settings (no_out env))) (\<lambda>settings.
     chain (relay_status_snapshot env settings) (\<lambda>status.
     chain (credentials_for env settings) (\<lambda>found n.
       let effective = effective_proxy_url settings; tunnel = w_snapshot (nt_world n); registered = JBool (found \<noteq> None)
       in (Inr (JObject
         [(''monitorEnabled'', JBool (se_monitor_enabled settings)),
          (''proxy'', JObject
             [(''mode'', JString (px_mode (se_proxy settings))), (''url'', JString (px_url (se_proxy settings))),
              (''systemUrl'', result_value (no_system env)), (''systemError'', result_error (no_system env)),
              (''effectiveUrl'', result_value effective), (''effectiveError'', result_error effective)]),
          (''relay'', JObject
             [(''enabled'', JBool (rl_enabled (se_relay settings))), (''baseUrl'', JString (rl_base_url (se_relay settings))),
              (''registered'', registered), (''credentialSaved'', registered),
              (''setupProvisioned'', JBool (\<not> isl (no_setup env))), (''status'', relay_status_json status)]),
          (''tunnel'', JObject
             [(''health'', JString (ts_health tunnel)), (''state'', JString (ts_state tunnel)),
              (''controlPlaneState'', JString (ts_control_plane_state tunnel)),
              (''controlPlaneReason'', JString (ts_control_plane_reason tunnel)),
              (''controlPlaneFailures'', json_word (ts_control_plane_failures tunnel)),
              (''proxyMode'', JString (ts_proxy_mode tunnel)), (''proxySource'', JString (ts_proxy_source tunnel))])]), n))))"

section \<open>Registering at the relay\<close>

definition identity_valid :: "string \<Rightarrow> bool" where
  "identity_valid i \<longleftrightarrow> starts_with ''d_'' i \<and> 18 \<le> length i \<and> length i \<le> 80 \<and> list_all is_ascii_hexdigit (drop 2 i)"

definition stored_desktop_id :: "NetOutside \<Rightarrow> NetWorld \<Rightarrow> string option" where
  "stored_desktop_id env n =
     (case Option.bind (Option.bind (nt_identity n) (os_parse_value (no_out env))) (json_str_at ''desktopId'') of
        None \<Rightarrow> None
      | Some i \<Rightarrow> if identity_valid (trim i) then Some (trim i) else None)"

definition identity_text :: "NetOutside \<Rightarrow> string \<Rightarrow> string" where
  "identity_text env i = no_print env (JObject [(''schemaVersion'', JInt 1), (''desktopId'', JString i)]) @ [CHR 0x0A]"

definition ensure_monitor_desktop_id :: "NetOutside \<Rightarrow> string nop" where
  "ensure_monitor_desktop_id env =
     chain (at_world (attempt (no_out env) ''identity path'')) (\<lambda>_.
     and_then_always (at_world (attempt (no_out env) ''read identity'')) (\<lambda>read n.
       case (if isl read then None else stored_desktop_id env n) of
         Some i \<Rightarrow> (Inr i, n)
       | None \<Rightarrow>
           chain (at_phones (generate_monitor_token (no_env env))) (\<lambda>random.
           let i = ''d_'' @ take 32 random in
           chain (at_world (attempts (no_out env) [''write identity'', ''rename identity''])) (\<lambda>_.
           chain (modify (\<lambda>n. n\<lparr>nt_identity := Some (identity_text env i)\<rparr>)) (\<lambda>_. give i))) n))"

text \<open>The token to register with and the address to register at.\<close>

definition registration_target :: "NetOutside \<Rightarrow> Settings \<Rightarrow> string \<Rightarrow> (string \<times> RelaySettings) nop" where
  "registration_target env settings registration_code =
     (let supplied = trim registration_code; target = se_relay settings in
      if supplied = [] then chain (from_result (no_setup env)) (\<lambda>token. give (token, target))
      else case parse_code (no_invite env) supplied of
        Inl _ \<Rightarrow> raise ''invalid registration code''
      | Inr (invite, _, _) \<Rightarrow> (\<lambda>n.
          if invite_expires_at invite \<le> Desktop_State.timestamp_ms (no_out env) (nt_world n)
          then (Inl ''the registration code has expired'', n)
          else (Inr (supplied, target\<lparr>rl_base_url := base_url invite\<rparr>), n)))"

definition registered_settings :: "string \<Rightarrow> Settings \<Rightarrow> Settings" where
  "registered_settings base current =
     (let s = current\<lparr>se_relay := (se_relay current)\<lparr>rl_base_url := base\<rparr>\<rparr> in
      if \<not> ht_enabled (se_https_mcp current) \<and> ht_transport (se_https_mcp current) = ''wss''
      then s\<lparr>se_https_mcp := (se_https_mcp s)\<lparr>ht_base_url := base\<rparr>\<rparr> else s)"

definition register_relay_desktop :: "NetOutside \<Rightarrow> string \<Rightarrow> json nop" where
  "register_relay_desktop env registration_code =
     chain (at_world (load_settings (no_out env))) (\<lambda>settings.
     if ht_enabled (se_https_mcp settings) then raise ''stop HTTPS MCP first''
     else
     chain (registration_target env settings registration_code) (\<lambda>(token, target).
     if trim (rl_base_url target) = [] then raise ''configure the relay address first''
     else
     chain (from_result (normalized_base_url (rl_base_url target))) (\<lambda>_.
     chain (ensure_monitor_desktop_id env) (\<lambda>desktop_id.
     chain (from_result (register_desktop_call (no_register env) target token
         \<lparr>rq_desktop_id = desktop_id, rq_device_name = no_host_name env, rq_app_version = no_version env, rq_platform = no_platform env\<rparr>))
       (\<lambda>credentials.
     chain (save_relay_credentials env credentials) (\<lambda>_.
     chain (at_world (update_settings (no_out env) (registered_settings (rl_base_url target)))) (\<lambda>_.
     chain (if rl_enabled (se_relay settings) then start_relay_client_for_settings env else give ()) (\<lambda>_.
       network_settings_payload env))))))))"

section \<open>Testing settings\<close>

definition proxy_check :: "NetOutside \<Rightarrow> Settings \<Rightarrow> string + json" where
  "proxy_check env candidate =
     (case effective_proxy_url candidate of
        Inl e \<Rightarrow> Inl e
      | Inr (Some url) \<Rightarrow>
         (case proxy_host_port url of
            None \<Rightarrow> Inl ''cannot read host and port of the proxy''
          | Some (host, port) \<Rightarrow> Inr (JObject [(''mode'', JString (px_mode (se_proxy candidate))),
              (''target'', JString (host @ '':'' @ decimal (unat port))), (''ok'', JBool (no_tcp env host port))]))
      | Inr None \<Rightarrow> Inr (JObject [(''mode'', JString (px_mode (se_proxy candidate))),
          (''target'', JString ''api.openai.com:443''), (''ok'', JBool (no_tcp env ''api.openai.com'' 443))]))"

definition relay_check :: "NetOutside \<Rightarrow> Settings \<Rightarrow> json" where
  "relay_check env candidate =
     (if trim (rl_base_url (se_relay candidate)) = []
      then JObject [(''ok'', JBool False), (''target'', JNull), (''error'', JString ''no relay address'')]
      else case health_call (no_health env) (se_relay candidate) of
        Inr _ \<Rightarrow> JObject [(''ok'', JBool True), (''target'', JString (rl_base_url (se_relay candidate))), (''error'', JNull)]
      | Inl e \<Rightarrow> JObject [(''ok'', JBool False), (''target'', JString (rl_base_url (se_relay candidate))), (''error'', JString e)])"

definition skipped :: json where
  "skipped = JObject [(''skipped'', JBool True)]"

definition test_network_settings :: "NetOutside \<Rightarrow> json \<Rightarrow> json nop" where
  "test_network_settings env p =
     chain (at_world (load_settings (no_out env))) (\<lambda>current.
     chain (from_result (network_settings_from_payload (no_system env) current p)) (\<lambda>candidate.
     if json_get ''proxy'' p = None \<and> json_get ''relay'' p = None then raise ''nothing to test''
     else
     chain (if json_get ''proxy'' p \<noteq> None then from_result (proxy_check env candidate) else give skipped) (\<lambda>proxy.
       give (JObject [(''proxy'', proxy), (''relay'', if json_get ''relay'' p = None then skipped else relay_check env candidate)]))))"

section \<open>Changing settings\<close>

definition observe_tunnel :: "Outside \<Rightarrow> Settings \<Rightarrow> unit op" where
  "observe_tunnel out settings =
     and_then_always (attempt out ''runtime files'') (\<lambda>files w.
       if isl files then (Inr (), w)
       else case tunnel_status out w of (ob, w1) \<Rightarrow> (Inr (), update_runtime_snapshot out ob True settings w1))"

definition take_network :: "bool \<Rightarrow> bool \<Rightarrow> Settings \<Rightarrow> Settings \<Rightarrow> Settings" where
  "take_network proxy relay from_settings current =
     current\<lparr>se_proxy := if proxy then se_proxy from_settings else se_proxy current,
             se_relay := if relay then se_relay from_settings else se_relay current\<rparr>"

text \<open>Each part of the rollback gives its errors.\<close>

definition restore_proxy_runtime :: "NetOutside \<Rightarrow> Settings \<Rightarrow> string option \<Rightarrow> string list nop" where
  "restore_proxy_runtime env previous reconnect_key =
     (case reconnect_key of
        None \<Rightarrow> give [''no runtime key to restore the tunnel's proxy with'']
      | Some key \<Rightarrow>
          and_then_always (at_world (start_runtime_connection (no_out env) (se_tunnel_id previous) key False True)) (\<lambda>started.
            case started of
              Inl e \<Rightarrow> give [''could not restore the tunnel's proxy: '' @ e]
            | Inr _ \<Rightarrow> chain (at_world (observe_tunnel (no_out env) previous)) (\<lambda>_. give [])))"

definition restore_relay_client :: "NetOutside \<Rightarrow> string list nop" where
  "restore_relay_client env =
     and_then_always (start_relay_client_for_settings env) (\<lambda>started.
       give (case started of Inl e \<Rightarrow> [''could not restore the relay: '' @ e] | Inr _ \<Rightarrow> []))"

definition rollback_network_settings ::
  "NetOutside \<Rightarrow> Settings \<Rightarrow> string option \<Rightarrow> bool \<Rightarrow> bool \<Rightarrow> string list nop" where
  "rollback_network_settings env previous reconnect_key restore_proxy restore_relay =
     and_then_always (at_world (update_settings (no_out env) (take_network True True previous))) (\<lambda>restored.
       case restored of
         Inl e \<Rightarrow> give [''could not restore the settings: '' @ e]
       | Inr _ \<Rightarrow>
           chain (if restore_proxy then restore_proxy_runtime env previous reconnect_key else give []) (\<lambda>errors1.
           chain (if restore_relay then restore_relay_client env else give []) (\<lambda>errors2.
             give (errors1 @ errors2))))"

fun joined :: "string list \<Rightarrow> string" where
  "joined [] = []"
| "joined [e] = e"
| "joined (e # es) = e @ ''; '' @ joined es"

definition rollback_suffix :: "string list \<Rightarrow> string" where
  "rollback_suffix errors = (if errors = [] then ''the previous settings are restored'' else ''rollback incomplete: '' @ joined errors)"

text \<open>\<open>undo\<close> takes the settings back and reports \<open>e\<close> with what came of that.\<close>

definition undo :: "string \<Rightarrow> string list nop \<Rightarrow> unit nop" where
  "undo e rollback = chain rollback (\<lambda>errors. raise (e @ ''; '' @ rollback_suffix errors))"

definition apply_proxy :: "NetOutside \<Rightarrow> Settings \<Rightarrow> Settings \<Rightarrow> string option \<Rightarrow> unit nop" where
  "apply_proxy env previous wanted reconnect_key =
     and_then_always (at_world (start_runtime_connection (no_out env) (se_tunnel_id wanted)
         (case reconnect_key of Some key \<Rightarrow> key | None \<Rightarrow> []) False True)) (\<lambda>started.
       case started of
         Inl e \<Rightarrow> undo (''could not apply the proxy: '' @ e) (rollback_network_settings env previous reconnect_key True False)
       | Inr _ \<Rightarrow> at_world (observe_tunnel (no_out env) wanted))"

definition apply_relay :: "NetOutside \<Rightarrow> Settings \<Rightarrow> string option \<Rightarrow> bool \<Rightarrow> unit nop" where
  "apply_relay env previous reconnect_key restarted =
     and_then_always (start_relay_client_for_settings env) (\<lambda>started.
       case started of
         Inl e \<Rightarrow> undo (''could not apply the relay: '' @ e) (rollback_network_settings env previous reconnect_key restarted True)
       | Inr _ \<Rightarrow> give ())"

definition network_reconnect_key :: "NetOutside \<Rightarrow> string option nop" where
  "network_reconnect_key env n =
     (case w_session_key (nt_world n) of
        Some key \<Rightarrow> (Inr (Some key), n)
      | None \<Rightarrow>
         (case at_world (load_runtime_key (no_out env) []) n of
            (Inr key, n1) \<Rightarrow> (Inr (Some key), n1)
          | (Inl _, n1) \<Rightarrow> (Inl ''a new proxy needs a reconnect, and there is no runtime key'', n1)))"

definition change_network :: "NetOutside \<Rightarrow> json \<Rightarrow> Settings \<Rightarrow> Settings \<Rightarrow> json nop" where
  "change_network env p previous wanted n =
     (let update_proxy = (json_get ''proxy'' p \<noteq> None); update_relay = (json_get ''relay'' p \<noteq> None);
          wants = w_desired_connected (nt_world n);
          reconnect = (wants \<and> (se_proxy previous \<noteq> se_proxy wanted \<or> px_mode (se_proxy wanted) = ''system''));
          relay_changed = (se_relay previous \<noteq> se_relay wanted)
      in chain (if reconnect then network_reconnect_key env else give None) (\<lambda>key.
         chain (at_world (update_settings (no_out env) (take_network update_proxy update_relay wanted))) (\<lambda>_.
         chain (if reconnect then apply_proxy env previous wanted key else give ()) (\<lambda>_.
         chain (if relay_changed then apply_relay env previous key reconnect else give ()) (\<lambda>_.
           network_settings_payload env)))) n)"

definition set_network_settings :: "NetOutside \<Rightarrow> json \<Rightarrow> json nop" where
  "set_network_settings env p =
     (if json_get ''proxy'' p = None \<and> json_get ''relay'' p = None then raise ''nothing to save''
      else
      chain (at_world (load_settings (no_out env))) (\<lambda>previous.
      chain (from_result (network_settings_from_payload (no_system env) previous p)) (\<lambda>wanted.
        change_network env p previous wanted)))"

end
