(* ===== verification/Network_Steps.thy ===== *)
theory Network_Steps
  imports Network_Settings
begin

text \<open>
  What the network commands do to the transports: only \<open>set_network_settings\<close> starts anything, the tunnel, and only while it
  is wanted. Everything else about the commands is \<open>Network_Safety\<close>.
\<close>

text \<open>A statement about which transport runs and whether the tunnel is wanted.\<close>

definition running :: "(bool \<Rightarrow> bool \<Rightarrow> bool \<Rightarrow> bool) \<Rightarrow> World \<Rightarrow> bool" where
  "running K w \<longleftrightarrow> K (w_https w) (w_tunnel w) (w_desired_connected w)"

definition running_at :: "(bool \<Rightarrow> bool \<Rightarrow> bool \<Rightarrow> bool) \<Rightarrow> NetWorld \<Rightarrow> bool" where
  "running_at K n \<longleftrightarrow> running K (nt_world n)"

lemma running_simps [simp]:
  "running K (ticked c t w) = running K w" "running K (saved out s w) = running K w"
  "running K (update_runtime_snapshot out ob d s w) = running K w"
  by (simp_all add: running_def)

lemma running_at_simps [simp]:
  "running_at K (n\<lparr>nt_phones := v\<rparr>) = running_at K n" "running_at K (n\<lparr>nt_credentials := c\<rparr>) = running_at K n"
  "running_at K (n\<lparr>nt_client := x\<rparr>) = running_at K n" "running_at K (n\<lparr>nt_status := s\<rparr>) = running_at K n"
  "running_at K (n\<lparr>nt_identity := i\<rparr>) = running_at K n" "running_at K (stop_relay_client n) = running_at K n"
  by (simp_all add: running_at_def stop_relay_client_def)

lemma preserves_wp: "(\<And>w. I w \<Longrightarrow> wp m (\<lambda>r w1. I w1) w) \<Longrightarrow> preserves I m"
  unfolding preserves_def wp_def by (metis case_prod_unfold)

lemma world_calls [preserved]:
  "preserves (running K) (attempt out e)" "preserves (running K) (attempts out es)" "preserves (running K) (load_settings out)"
  "preserves (running K) (update_settings out f)" "preserves (running K) (load_runtime_key out supplied)"
  by (rule preserves_wp; auto intro!: wp_attempt wp_attempts wp_load_settings wp_update_settings wp_load_runtime_key)+

lemma observe_running [preserved]: "preserves (running K) (observe_tunnel out s)"
proof -
  have "preserves (running K) (\<lambda>w. if isl files then (Inr (), w)
      else case tunnel_status out w of (ob, w1) \<Rightarrow> (Inr (), update_runtime_snapshot out ob True s w1))" for files :: "string + unit"
    by (auto simp: preserves_def tunnel_status_def run_tunnel_def passed_def running_def)
  then show ?thesis unfolding observe_tunnel_def by (intro preserved)
qed

lemma start_not_https [preserved]: "preserves (running (\<lambda>h t d. L h d)) (start_runtime_connection out i key reconnect required)"
  by (rule preserves_wp, rule wp_start_runtime) (auto simp: running_def)

lemma at_world_running [preserved]: "preserves (running K) m \<Longrightarrow> preserves (running_at K) (at_world m)"
  by (auto simp: preserves_def running_at_def at_world_def split: prod.splits)

lemma at_phones_running [preserved]: "preserves (running_at K) (at_phones m)"
  by (auto simp: preserves_def at_phones_def split: prod.splits)

lemma modify_running [preserved]: "(\<And>n. running_at K (h n) = running_at K n) \<Longrightarrow> preserves (running_at K) (modify h)"
  by (rule preserves_modify) simp

lemma answer_running [preserved]: "preserves I (\<lambda>n. (f n, n))"
  by (simp add: preserves_def)

lemma credentials_running [preserved]:
  "preserves (running_at K) (credentials_for env s)" "preserves (running_at K) (save_relay_credentials env c)"
  unfolding credentials_for_def read_relay_credentials_def save_relay_credentials_def by (auto intro!: preserved)

lemma start_relay_running [preserved]: "preserves (running_at K) (start_relay_client_for_settings env)"
  unfolding start_relay_client_for_settings_def start_client_def set_status_def by (auto intro!: preserved)

lemma payload_running [preserved]: "preserves (running_at K) (network_settings_payload env)"
  unfolding network_settings_payload_def relay_status_snapshot_def Let_def by (auto intro!: preserved)

lemma identity_running [preserved]: "preserves (running_at K) (ensure_monitor_desktop_id env)"
proof -
  have found: "preserves I (\<lambda>n. case x n of None \<Rightarrow> m n | Some i \<Rightarrow> (Inr i, n))" if "preserves I m" for I x and m :: "string nop"
    using that by (auto simp: preserves_def split: option.splits)
  show ?thesis
    unfolding ensure_monitor_desktop_id_def Let_def by (intro preserved found modify_running) simp
qed

lemma target_running [preserved]: "preserves I (registration_target env s registration_code)"
  by (auto simp: preserves_def registration_target_def chain_def from_result_def give_def raise_def Let_def split: sum.splits prod.splits)

lemma register_running: "preserves (running_at K) (register_relay_desktop env registration_code)"
  unfolding register_relay_desktop_def by (auto intro!: preserved split: prod.split)

lemma test_running: "preserves (running_at K) (test_network_settings env p)"
  unfolding test_network_settings_def by (auto intro!: preserved)

lemma key_running [preserved]: "preserves (running_at K) (network_reconnect_key env)"
proof -
  have "running_at K n1" if "at_world (load_runtime_key (no_out env) []) n = (r, n1)" "running_at K n" for n n1 r
    using preservesD [OF at_world_running [OF world_calls(5)] that(1)] that(2) by blast
  then show ?thesis by (auto simp: preserves_def network_reconnect_key_def split: option.splits sum.splits prod.splits)
qed

lemma rollback_running [preserved]:
  "preserves (running_at (\<lambda>h t d. L h d)) (rollback_network_settings env s key proxy relay)"
  "preserves (running_at K) (rollback_network_settings env s key False relay)"
  unfolding rollback_network_settings_def restore_proxy_runtime_def restore_relay_client_def by (auto intro!: preserved)

lemma apply_running [preserved]:
  "preserves (running_at (\<lambda>h t d. L h d)) (apply_proxy env s wanted key)" "preserves (running_at (\<lambda>h t d. L h d)) (apply_relay env s key proxy)"
  "preserves (running_at K) (apply_relay env s key False)"
  unfolding apply_proxy_def apply_relay_def undo_def by (auto intro!: preserved)

text \<open>A change leaves the transports as they are, or it may start the tunnel, and then it is wanted.\<close>

lemma change_running:
  assumes "w_desired_connected (nt_world n) \<Longrightarrow> \<forall>h t t1 d. K h t d = K h t1 d"
  shows "running_at K n \<Longrightarrow> running_at K (snd (change_network env p s wanted n))"
proof -
  let ?rest = "\<lambda>b key. chain (at_world (update_settings (no_out env) (take_network (json_get ''proxy'' p \<noteq> None) (json_get ''relay'' p \<noteq> None) wanted))) (\<lambda>_.
       chain (if b then apply_proxy env s wanted key else give ()) (\<lambda>_.
       chain (if se_relay s \<noteq> se_relay wanted then apply_relay env s key b else give ()) (\<lambda>_. network_settings_payload env)))"
  obtain b where step: "change_network env p s wanted n = chain (if b then network_reconnect_key env else give None) (?rest b) n"
    and b: "b \<longrightarrow> w_desired_connected (nt_world n)"
    unfolding change_network_def Let_def by blast
  have "preserves (running_at K) (chain (if b then network_reconnect_key env else give None) (?rest b))"
  proof (cases b)
    case True
    with b assms have "\<forall>h t t1 d. K h t d = K h t1 d" by blast
    then have K: "K = (\<lambda>h t d. K h False d)" by (intro ext) blast
    define L where "L = (\<lambda>h d. K h False d)"
    have "running_at K = running_at (\<lambda>h t d. L h d)" unfolding L_def using K by (rule arg_cong)
    then show ?thesis unfolding \<open>running_at K = _\<close> using True by (simp only: if_True) (intro preserved)
  next
    case False
    then show ?thesis by (auto intro!: preserved)
  qed
  then show "running_at K n \<Longrightarrow> running_at K (snd (change_network env p s wanted n))" unfolding step preserves_def by blast
qed

lemma set_settings_running:
  assumes "w_desired_connected (nt_world n) \<Longrightarrow> \<forall>h t t1 d. K h t d = K h t1 d" and "running_at K n"
  shows "running_at K (snd (set_network_settings env p n))"
proof -
  let ?K = "\<lambda>h t d. K h t d \<and> d = w_desired_connected (nt_world n)"
  obtain s m where m: "at_world (load_settings (no_out env)) n = (s, m)" by fastforce
  have "running_at ?K n" using assms(2) by (simp add: running_at_def running_def)
  with preservesD [OF at_world_running [OF world_calls(3)] m] have "running_at ?K m" .
  then have "running_at K m" and "w_desired_connected (nt_world m) = w_desired_connected (nt_world n)"
    by (auto simp: running_at_def running_def)
  with assms change_running [of m K env p] m show ?thesis
    by (auto simp: set_network_settings_def chain_def from_result_def raise_def split: sum.splits prod.splits)
qed

text \<open>What a change may do.\<close>

definition tunnel_restarted :: "World \<Rightarrow> World \<Rightarrow> bool" where
  "tunnel_restarted w w1 \<longleftrightarrow> w_https w1 = w_https w \<and> w_desired_connected w1 = w_desired_connected w
     \<and> (w_tunnel w1 = w_tunnel w \<or> w_desired_connected w)"

lemma set_settings_restarts: "set_network_settings env p n = (r, n1) \<Longrightarrow> tunnel_restarted (nt_world n) (nt_world n1)"
  using set_settings_running [of n "\<lambda>h t d. h = w_https (nt_world n) \<and> d = w_desired_connected (nt_world n)" env p]
    set_settings_running [of n "\<lambda>h t d. t = w_tunnel (nt_world n)" env p]
  by (auto simp: tunnel_restarted_def running_at_def running_def)

lemma others_restart:
  "register_relay_desktop env registration_code n = (r, n1) \<Longrightarrow> tunnel_restarted (nt_world n) (nt_world n1)"
  "test_network_settings env p n = (r, n1) \<Longrightarrow> tunnel_restarted (nt_world n) (nt_world n1)"
  "start_relay_client_for_settings env n = (u, n1) \<Longrightarrow> tunnel_restarted (nt_world n) (nt_world n1)"
  using preservesD [OF register_running [of "\<lambda>h t d. (h, t, d) = (w_https (nt_world n), w_tunnel (nt_world n), w_desired_connected (nt_world n))"]]
    preservesD [OF test_running [of "\<lambda>h t d. (h, t, d) = (w_https (nt_world n), w_tunnel (nt_world n), w_desired_connected (nt_world n))"]]
    preservesD [OF start_relay_running [of "\<lambda>h t d. (h, t, d) = (w_https (nt_world n), w_tunnel (nt_world n), w_desired_connected (nt_world n))"]]
  by (simp_all add: tunnel_restarted_def running_at_def running_def)

end
