(* ===== verification/Https_Authorizations.thy ===== *)
theory Https_Authorizations
  imports Transport_Control Relay_Client Settings_Text
begin

text \<open>
  The authorizations of the HTTPS bridge: its OAuth key and the login password derived from it, the script that lists and
  revokes grants (\<^verbatim>\<open>src-tauri/src/https_mcp_authorizations.rs\<close>), and the rotation of the password
  (\<^verbatim>\<open>rotate_with_recovery\<close> and the commands around it in \<^verbatim>\<open>https_mcp.rs\<close>, the key in \<^verbatim>\<open>secrets.rs\<close>).

  The store of grants belongs to the script, which is a parameter; \<open>ro_revoked\<close> says that it confirmed to have revoked all.
\<close>

section \<open>State\<close>

text \<open>A run of the script: not started, not ended in time, or its success and what it printed, read to one byte over the
  limit.\<close>

datatype AdminRun = Not_Run string | No_Answer | Ran bool "bytes option"

record AuthOutside =
  ao_out :: Outside
  ao_admin :: "string list \<Rightarrow> AdminRun"
  ao_parse :: "bytes \<Rightarrow> json option"
  ao_random :: "nat \<Rightarrow> bytes option"
  ao_monitor_key :: "string + bytes"
  ao_sha :: "bytes \<Rightarrow> bytes"

record AuthWorld =
  ro_world :: World
  ro_key :: "bytes option"
  ro_revoked :: bool

type_synonym 'a rop = "(AuthWorld, 'a) action"

definition at_core :: "'a op \<Rightarrow> 'a rop" where
  "at_core m a = (case m (ro_world a) of (r, w) \<Rightarrow> (r, a\<lparr>ro_world := w\<rparr>))"

section \<open>Grants\<close>

definition MAX_ADMIN_OUTPUT :: nat where
  "MAX_ADMIN_OUTPUT = 1024 * 1024"

definition grant_ok :: "string \<Rightarrow> bool" where
  "grant_ok i \<longleftrightarrow> i = ''legacy'' \<or> length i = 64 \<and> list_all (\<lambda>c. is_ascii_hexdigit c \<and> \<not> (65 \<le> code c \<and> code c \<le> 90)) i"

definition known_action :: "string \<Rightarrow> bool" where
  "known_action a \<longleftrightarrow> a \<in> {''list'', ''revoke'', ''revoke-all''}"

definition confirmed :: "string \<Rightarrow> string option \<Rightarrow> json \<Rightarrow> bool" where
  "confirmed a grant result =
     (if a = ''list'' then (case json_index ''grants'' result of JArray _ \<Rightarrow> True | _ \<Rightarrow> False)
      else if a = ''revoke'' then json_as_str (json_index ''revokedId'' result) = grant
      else if a = ''revoke-all'' then json_index ''revokedAll'' result = JBool True
      else False)"

definition admin_arguments :: "string \<Rightarrow> string option \<Rightarrow> string list" where
  "admin_arguments a grant = a # (case grant of None \<Rightarrow> [] | Some i \<Rightarrow> [i])"

definition admin_answer :: "AuthOutside \<Rightarrow> string \<Rightarrow> string option \<Rightarrow> AdminRun \<Rightarrow> string + json" where
  "admin_answer env a grant answer =
     (case answer of
        Not_Run e \<Rightarrow> Inl e
      | No_Answer \<Rightarrow> Inl ''no answer in time''
      | Ran success output \<Rightarrow>
         (case output of
            None \<Rightarrow> Inl ''cannot read the answer''
          | Some bytes \<Rightarrow>
             if \<not> success then Inl ''the script failed''
             else if MAX_ADMIN_OUTPUT < length bytes then Inl ''too many grants''
             else case ao_parse env bytes of
               None \<Rightarrow> Inl ''the answer is not JSON''
             | Some result \<Rightarrow> if confirmed a grant result then Inr result else Inl ''the answer has the wrong form''))"

definition administer :: "AuthOutside \<Rightarrow> string \<Rightarrow> string option \<Rightarrow> json op" where
  "administer env a grant =
     (if \<not> known_action a then raise ''unknown action''
      else if a = ''revoke'' \<and> \<not> (case grant of None \<Rightarrow> False | Some i \<Rightarrow> grant_ok i) then raise ''invalid grant id''
      else chain (attempts (ao_out env) [''runtime files'', ''script'', ''state directory'']) (\<lambda>_.
        from_result (admin_answer env a grant (ao_admin env (admin_arguments a grant)))))"

text \<open>The revocation counts as done once the script's confirmation is accepted; one whose confirmation is lost is not seen.\<close>

definition revoke_all_sync :: "AuthOutside \<Rightarrow> unit rop" where
  "revoke_all_sync env =
     chain (at_core (administer env ''revoke-all'' None)) (\<lambda>_. modify (\<lambda>a. a\<lparr>ro_revoked := True\<rparr>))"

definition set_https_mcp_authorization_lifetime :: "Outside \<Rightarrow> u32 option \<Rightarrow> u32 option op" where
  "set_https_mcp_authorization_lifetime out hours =
     chain (from_result (validate_authorization_lifetime hours)) (\<lambda>_.
     chain (update_settings out (\<lambda>s. s\<lparr>se_https_mcp := (se_https_mcp s)\<lparr>ht_authorization_ttl_hours := hours\<rparr>\<rparr>)) (\<lambda>_. give hours))"

section \<open>The key and the password\<close>

definition derive_secret :: "AuthOutside \<Rightarrow> bytes \<Rightarrow> string \<Rightarrow> string" where
  "derive_secret env key label = hex_of (ao_sha env (as_bytes ''chatx-https-mcp-v1:'' @ as_bytes label @ key))"

definition save_https_oauth_master_key :: "AuthOutside \<Rightarrow> bytes \<Rightarrow> unit rop" where
  "save_https_oauth_master_key env key =
     chain (at_core (attempt (ao_out env) ''save oauth key'')) (\<lambda>_. modify (\<lambda>a. a\<lparr>ro_key := Some key\<rparr>))"

definition ensure_https_oauth_master_key :: "AuthOutside \<Rightarrow> bytes rop" where
  "ensure_https_oauth_master_key env =
     chain (at_core (attempt (ao_out env) ''read oauth key'')) (\<lambda>_ a.
       case ro_key a of
         Some key \<Rightarrow> (Inr key, a)
       | None \<Rightarrow> chain (from_result (ao_monitor_key env)) (\<lambda>legacy.
                  chain (save_https_oauth_master_key env legacy) (\<lambda>_. give legacy)) a)"

definition rotate_https_oauth_master_key :: "AuthOutside \<Rightarrow> bytes rop" where
  "rotate_https_oauth_master_key env a =
     chain (from_result (generate_master_key (ao_random env (w_calls (ro_world a))))) (\<lambda>key.
     chain (save_https_oauth_master_key env key) (\<lambda>_. give key)) a"

definition get_https_mcp_login_password :: "AuthOutside \<Rightarrow> string rop" where
  "get_https_mcp_login_password env = chain (ensure_https_oauth_master_key env) (\<lambda>key. give (derive_secret env key ''login''))"

section \<open>Rotating the password\<close>

definition rotation_verdict :: "string + 'b \<Rightarrow> string + unit \<Rightarrow> string + 'b" where
  "rotation_verdict rotated recovery =
     (case (rotated, recovery) of
        (Inr secret, Inr _) \<Rightarrow> Inr secret
      | (Inl e, Inr _) \<Rightarrow> Inl (''the key was not changed, the connection was to be restored: '' @ e)
      | (Inr _, Inl e) \<Rightarrow> Inl (''the key was changed, but HTTPS did not come back: '' @ e)
      | (Inl e, Inl e2) \<Rightarrow> Inl (''the key was not changed and HTTPS did not come back: '' @ e @ ''; '' @ e2))"

definition rotate_with_recovery :: "('s, unit) action \<Rightarrow> ('s, unit) action \<Rightarrow> ('s, 'b) action \<Rightarrow> ('s, unit) action \<Rightarrow> ('s, 'b) action" where
  "rotate_with_recovery revoke stop renew reconnect =
     chain revoke (\<lambda>_.
     chain stop (\<lambda>_.
     and_then_always renew (\<lambda>rotated.
     and_then_always reconnect (\<lambda>recovery. from_result (rotation_verdict rotated recovery)))))"

definition rotate_https_mcp_login_password :: "AuthOutside \<Rightarrow> string rop" where
  "rotate_https_mcp_login_password env =
     chain (at_core ensure_available) (\<lambda>_.
     chain (at_core (load_settings (ao_out env))) (\<lambda>settings.
     chain (if ht_enabled (se_https_mcp settings) then at_core (restore_allowed (ao_out env) HttpsMcp) else give False) (\<lambda>should_reconnect.
     chain (rotate_with_recovery (revoke_all_sync env) (at_core stop_inner) (rotate_https_oauth_master_key env)
         (if should_reconnect then at_core (start_inner (ao_out env) (se_https_mcp settings)) else give ())) (\<lambda>key.
       give (derive_secret env key ''login'')))))"

section \<open>Lemmas\<close>

lemma wp_at_core [simp]: "wp (at_core m) Q a = wp m (\<lambda>r w. Q r (a\<lparr>ro_world := w\<rparr>)) (ro_world a)"
  by (simp add: wp_def at_core_def split: prod.splits)

lemma wp_from_result_cases: "wp (from_result x) Q a = Q x a"
  by (simp add: wp_def from_result_def)

text \<open>An accepted answer of the script is one that confirms what was asked, and the script is run only on checked arguments.\<close>

definition well_asked :: "string \<Rightarrow> string option \<Rightarrow> bool" where
  "well_asked a grant \<longleftrightarrow> known_action a \<and> (a = ''revoke'' \<longrightarrow> (\<exists>i. grant = Some i \<and> grant_ok i))"

lemma administer_asked:
  "administer env a grant = (if well_asked a grant
     then chain (attempts (ao_out env) [''runtime files'', ''script'', ''state directory'']) (\<lambda>_.
        from_result (admin_answer env a grant (ao_admin env (admin_arguments a grant))))
     else raise (if known_action a then ''invalid grant id'' else ''unknown action''))"
  by (auto simp: administer_def well_asked_def split: option.splits)

lemma admin_answer_accepted:
  "admin_answer env a grant answer = Inr result \<longleftrightarrow>
    (\<exists>bytes. answer = Ran True (Some bytes) \<and> length bytes \<le> MAX_ADMIN_OUTPUT \<and> ao_parse env bytes = Some result \<and> confirmed a grant result)"
  by (auto simp: admin_answer_def split: AdminRun.split option.split)

lemma wp_administer:
  assumes "\<And>e c t. Q (Inl e) (ticked c t w)"
    and "\<And>result c t. well_asked a grant \<Longrightarrow> admin_answer env a grant (ao_admin env (admin_arguments a grant)) = Inr result \<Longrightarrow> Q (Inr result) (ticked c t w)"
  shows "wp (administer env a grant) Q w"
proof -
  have raised: "Q (Inl e) w" for e using assms(1) [of e "w_calls w" "w_clock w"] by (simp add: ticked_same)
  have answered: "Q (admin_answer env a grant (ao_admin env (admin_arguments a grant))) (ticked c t w)" if "well_asked a grant" for c t
    using assms that by (cases "admin_answer env a grant (ao_admin env (admin_arguments a grant))") auto
  show ?thesis
    unfolding administer_asked
    by (auto intro!: raised answered assms(1) wp_attempts simp: wp_from_result_cases split: sum.splits)
qed

text \<open>What a rotation leaves alone.\<close>

definition others_kept :: "AuthWorld \<Rightarrow> AuthWorld \<Rightarrow> bool" where
  "others_kept a a1 \<longleftrightarrow> w_tunnel (ro_world a1) = w_tunnel (ro_world a) \<and> w_desired_connected (ro_world a1) = w_desired_connected (ro_world a)
     \<and> w_file (ro_world a1) = w_file (ro_world a) \<and> w_stopped (ro_world a1) = w_stopped (ro_world a)"

definition rotation_outcome :: "AuthOutside \<Rightarrow> bool \<Rightarrow> AuthWorld \<Rightarrow> string + string \<Rightarrow> AuthWorld \<Rightarrow> bool" where
  "rotation_outcome env wanted a r a1 \<longleftrightarrow> others_kept a a1 \<and>
     (case r of
        Inr p \<Rightarrow> ro_revoked a1 \<and> w_https (ro_world a1) = wanted \<and> (\<exists>key. ro_key a1 = Some key \<and> p = derive_secret env key ''login'')
      | Inl _ \<Rightarrow> w_https (ro_world a1) = w_https (ro_world a) \<and> ro_key a1 = ro_key a \<and> ro_revoked a1 = ro_revoked a
          \<or> ro_revoked a1 \<and> (w_https (ro_world a1) \<longrightarrow> wanted \<and> ro_key a1 = ro_key a))"

lemma wp_rotate_key:
  assumes "\<And>e c t. Q (Inl e) (a\<lparr>ro_world := ticked c t (ro_world a)\<rparr>)"
    and "\<And>key c t. Q (Inr key) (a\<lparr>ro_world := ticked c t (ro_world a), ro_key := Some key\<rparr>)"
  shows "wp (rotate_https_oauth_master_key env) Q a"
proof -
  have raised: "Q (Inl e) a" for e using assms(1) [of e "w_calls (ro_world a)" "w_clock (ro_world a)"] by (simp add: ticked_same)
  have "wp (chain (from_result (generate_master_key (ao_random env n))) (\<lambda>key. chain (save_https_oauth_master_key env key) (\<lambda>_. give key))) Q a" for n
    unfolding save_https_oauth_master_key_def
    by (auto intro!: raised wp_attempt assms simp: wp_from_result_cases split: sum.splits)
  then show ?thesis by (simp add: wp_def rotate_https_oauth_master_key_def)
qed

lemma https_flags [simp]:
  "\<not> w_https (https_stopped w)" "w_tunnel (https_stopped w) = w_tunnel w" "w_desired_connected (https_stopped w) = w_desired_connected w"
  "w_file (https_stopped w) = w_file w" "w_stopped (https_stopped w) = w_stopped w"
  "w_https (https_started w)" "w_tunnel (https_started w) = w_tunnel w" "w_desired_connected (https_started w) = w_desired_connected w"
  "w_file (https_started w) = w_file w" "w_stopped (https_started w) = w_stopped w"
  by (simp_all add: https_stopped_def https_started_def)

lemma wp_reconnect:
  assumes "\<not> w_https (ro_world a)"
    and "\<And>r w1. w_tunnel w1 = w_tunnel (ro_world a) \<Longrightarrow> w_desired_connected w1 = w_desired_connected (ro_world a) \<Longrightarrow> w_file w1 = w_file (ro_world a)
      \<Longrightarrow> w_stopped w1 = w_stopped (ro_world a) \<Longrightarrow> w_https w1 = (wanted \<and> r = Inr ()) \<Longrightarrow> (\<not> wanted \<longrightarrow> r = Inr ()) \<Longrightarrow> Q r (a\<lparr>ro_world := w1\<rparr>)"
  shows "wp (if wanted then at_core (start_inner out settings) else give ()) Q a"
proof (cases wanted)
  case True
  then show ?thesis
    by simp (rule wp_start_inner; use assms in \<open>auto intro!: assms(2)\<close>)
next
  case False
  have "Q (Inr ()) (a\<lparr>ro_world := ro_world a\<rparr>)" by (rule assms(2)) (use False assms(1) in auto)
  with False show ?thesis by simp
qed

lemma wp_rotation:
  assumes "others_kept a b" and "w_https (ro_world b) = w_https (ro_world a)" and "ro_key b = ro_key a" and "ro_revoked b = ro_revoked a"
  shows "wp (chain (rotate_with_recovery (revoke_all_sync env) (at_core stop_inner) (rotate_https_oauth_master_key env)
      (if wanted then at_core (start_inner (ao_out env) (se_https_mcp s)) else give ())) (\<lambda>key. give (derive_secret env key ''login'')))
    (rotation_outcome env wanted a) b"
proof -
  let ?Q = "rotation_outcome env wanted a" and ?again = "if wanted then at_core (start_inner (ao_out env) (se_https_mcp s)) else give ()"
  have kept: "?Q (Inl e) (b\<lparr>ro_world := ticked c t (ro_world b)\<rparr>)" for e c t
    using assms by (simp add: rotation_outcome_def others_kept_def)
  have again: "wp ?again (\<lambda>recovery a1. wp (from_result (rotation_verdict rotated recovery)) (\<lambda>r w1. case r of Inl e \<Rightarrow> ?Q (Inl e) w1
        | Inr key \<Rightarrow> wp (give (derive_secret env key ''login'')) ?Q w1) a1) c"
    if "others_kept a c" "\<not> w_https (ro_world c)" "ro_revoked c" "case rotated of Inl _ \<Rightarrow> ro_key c = ro_key a | Inr key \<Rightarrow> ro_key c = Some key" for rotated c
    using that(2)
  proof (rule wp_reconnect)
    fix r :: "string + unit" and w1 :: World
    assume "w_tunnel w1 = w_tunnel (ro_world c)" "w_desired_connected w1 = w_desired_connected (ro_world c)" "w_file w1 = w_file (ro_world c)"
      "w_stopped w1 = w_stopped (ro_world c)" "w_https w1 = (wanted \<and> r = Inr ())" "\<not> wanted \<longrightarrow> r = Inr ()"
    with that show "wp (from_result (rotation_verdict rotated r)) (\<lambda>r w1. case r of Inl e \<Rightarrow> ?Q (Inl e) w1
        | Inr key \<Rightarrow> wp (give (derive_secret env key ''login'')) ?Q w1) (c\<lparr>ro_world := w1\<rparr>)"
      by (cases rotated; cases r) (auto simp: wp_from_result_cases rotation_verdict_def rotation_outcome_def others_kept_def)
  qed
  have renewed: "wp (rotate_https_oauth_master_key env) (\<lambda>rotated c. wp ?again (\<lambda>recovery a1. wp (from_result (rotation_verdict rotated recovery))
        (\<lambda>r w1. case r of Inl e \<Rightarrow> ?Q (Inl e) w1 | Inr key \<Rightarrow> wp (give (derive_secret env key ''login'')) ?Q w1) a1) c) d"
    if "others_kept a d" "\<not> w_https (ro_world d)" "ro_revoked d" "ro_key d = ro_key a" for d
    by (rule wp_rotate_key; rule again) (use that in \<open>simp_all add: others_kept_def\<close>)
  have revoked: "wp (at_core stop_inner) (\<lambda>r c. case r of Inl e \<Rightarrow> ?Q (Inl e) c | Inr _ \<Rightarrow>
      wp (rotate_https_oauth_master_key env) (\<lambda>rotated c. wp ?again (\<lambda>recovery a1. wp (from_result (rotation_verdict rotated recovery))
        (\<lambda>r w1. case r of Inl e \<Rightarrow> ?Q (Inl e) w1 | Inr key \<Rightarrow> wp (give (derive_secret env key ''login'')) ?Q w1) a1) c) c)
      (b\<lparr>ro_world := ticked c t (ro_world b), ro_revoked := True\<rparr>)" for c t
    unfolding stop_inner_def wp_at_core wp_modify sum.case
    by (rule renewed) (use assms in \<open>simp_all add: others_kept_def\<close>)
  show ?thesis
    unfolding rotate_with_recovery_def revoke_all_sync_def wp_chain wp_and_then_always wp_at_core [of "administer env x y" for x y]
    by (rule wp_administer) (use kept revoked in \<open>simp_all only: sum.case wp_modify\<close>)
qed

lemma rotate_outcome:
  assumes "fst (load_settings (ao_out env) (ro_world a)) = Inr s"
  shows "wp (rotate_https_mcp_login_password env)
    (rotation_outcome env (ht_enabled (se_https_mcp s) \<and> \<not> w_stopped (ro_world a) HttpsMcp) a) a"
proof -
  let ?wanted = "ht_enabled (se_https_mcp s) \<and> \<not> w_stopped (ro_world a) HttpsMcp"
  let ?Q = "rotation_outcome env ?wanted a"
  let ?rest = "\<lambda>b. chain (rotate_with_recovery (revoke_all_sync env) (at_core stop_inner) (rotate_https_oauth_master_key env)
      (if b then at_core (start_inner (ao_out env) (se_https_mcp s)) else give ())) (\<lambda>key. give (derive_secret env key ''login''))"
  obtain w0 where w0: "load_settings (ao_out env) (ro_world a) = (Inr s, w0)" using assms by (metis prod.collapse)
  then have "\<exists>c t. w0 = ticked c t (ro_world a)"
    using wp_load_settings [of "ao_out env" "ro_world a" "\<lambda>r w. \<exists>c t. w = ticked c t (ro_world a)"] by (auto simp: wp_def)
  then obtain c t where "w0 = ticked c t (ro_world a)" by blast
  then have load: "at_core (load_settings (ao_out env)) a = (Inr s, a\<lparr>ro_world := ticked c t (ro_world a)\<rparr>)"
    using w0 by (simp add: at_core_def)
  let ?m = "a\<lparr>ro_world := ticked c t (ro_world a)\<rparr>"
  have kept: "?Q (Inl e) (a\<lparr>ro_world := ticked c t (ro_world a)\<rparr>)" for e c t by (simp add: rotation_outcome_def others_kept_def)
  have rest: "wp (?rest ?wanted) ?Q (a\<lparr>ro_world := ticked c t (ro_world a)\<rparr>)" for c t
    by (rule wp_rotation) (simp_all add: others_kept_def)
  have allowed: "wp (if ht_enabled (se_https_mcp s) then at_core (restore_allowed (ao_out env) HttpsMcp) else give False)
      (\<lambda>r c. case r of Inl e \<Rightarrow> ?Q (Inl e) c | Inr b \<Rightarrow> wp (?rest b) ?Q c) ?m"
  proof (cases "ht_enabled (se_https_mcp s)")
    case True
    have "wp (restore_allowed (ao_out env) HttpsMcp) (\<lambda>r w. case r of Inl e \<Rightarrow> ?Q (Inl e) (?m\<lparr>ro_world := w\<rparr>)
        | Inr b \<Rightarrow> wp (?rest b) ?Q (?m\<lparr>ro_world := w\<rparr>)) (ro_world ?m)"
      by (rule wp_restore_allowed) (use kept rest True in \<open>simp_all del: wp_chain\<close>)
    then show ?thesis by (simp only: True if_True wp_at_core)
  next
    case False
    show ?thesis using rest [of c t] by (simp only: False if_False wp_give sum.case simp_thms)
  qed
  show ?thesis
  proof (cases "w_quitting (ro_world a)")
    case True
    then show ?thesis using kept [of _ "w_calls (ro_world a)" "w_clock (ro_world a)"]
      by (simp add: rotate_https_mcp_login_password_def wp_def chain_def at_core_def ensure_available_def ticked_same)
  next
    case False
    then have open_: "at_core ensure_available a = (Inr (), a)" by (simp add: at_core_def ensure_available_def)
    have "wp (chain (if ht_enabled (se_https_mcp s) then at_core (restore_allowed (ao_out env) HttpsMcp) else give False) ?rest) ?Q ?m"
      unfolding wp_chain [of "if b then x else y" for b x y] by (rule allowed)
    then show ?thesis
      unfolding rotate_https_mcp_login_password_def wp_def by (simp only: chain_def [of "at_core ensure_available"] chain_def [of "at_core (load_settings (ao_out env))"] open_ load prod.case sum.case)
  qed
qed

lemma rotation_done:
  assumes "rotate_https_mcp_login_password env a = (r, a1)"
  obtains wanted where "wanted \<longrightarrow> \<not> w_stopped (ro_world a) HttpsMcp" and "rotation_outcome env wanted a r a1"
proof -
  obtain s where "fst (load_settings (ao_out env) (ro_world a)) = Inr s"
    using wp_load_settings [of "ao_out env" "ro_world a" "\<lambda>r w. \<exists>s. r = Inr s"] by (auto simp: wp_def split: prod.splits)
  from rotate_outcome [OF this] assms
  have "rotation_outcome env (ht_enabled (se_https_mcp s) \<and> \<not> w_stopped (ro_world a) HttpsMcp) a r a1"
    unfolding wp_def by simp
  then show thesis by (rule that [rotated]) simp
qed

section \<open>Properties\<close>


text \<open>The script that manages grants is run only with a known action, and to revoke one only with an id that is no option and no
  path; its answer counts only if it confirms what was asked.\<close>

theorem administration_confirmed:
  assumes "administer env a grant w = (r, w1)"
  shows "(\<forall>result. r = Inr result \<longrightarrow> well_asked a grant \<and> confirmed a grant result
      \<and> (\<exists>bytes. ao_admin env (admin_arguments a grant) = Ran True (Some bytes) \<and> length bytes \<le> MAX_ADMIN_OUTPUT \<and> ao_parse env bytes = Some result))
    \<and> (\<not> well_asked a grant \<longrightarrow> isl r \<and> w1 = w)"
proof -
  have "wp (administer env a grant) (\<lambda>r w1. \<forall>result. r = Inr result \<longrightarrow> well_asked a grant
      \<and> admin_answer env a grant (ao_admin env (admin_arguments a grant)) = Inr result) w"
    by (rule wp_administer) auto
  moreover have "isl r \<and> w1 = w" if "\<not> well_asked a grant"
    using that assms by (auto simp: administer_asked raise_def)
  ultimately show ?thesis using assms unfolding wp_def by (auto simp: admin_answer_accepted)
qed

text \<open>A rotation starts HTTPS by the settings and the marker alone. Where a start of the program kept it off because a tunnel
  runtime had survived (\<open>https_restore\<close>), the rotation starts it next to that runtime.\<close>

lemma rotation_starts_beside_tunnel:
  assumes "fst (load_settings (ao_out env) (ro_world a)) = Inr s" and "rotate_https_mcp_login_password env a = (Inr p, a1)"
    and "ht_enabled (se_https_mcp s)" and "\<not> w_stopped (ro_world a) HttpsMcp" and "w_tunnel (ro_world a)"
  shows "w_tunnel (ro_world a1) \<and> w_https (ro_world a1)"
  using rotate_outcome [OF assms(1)] assms unfolding wp_def assms(2) by (simp add: rotation_outcome_def others_kept_def)

section \<open>Witnesses\<close>

definition calm_auth :: AuthOutside where
  "calm_auth = \<lparr>ao_out = calm_outside, ao_admin = (\<lambda>_. Ran True (Some [])), ao_parse = (\<lambda>_. Some (JObject [(''revokedAll'', JBool True)])),
     ao_random = (\<lambda>_. Some [1, 2]), ao_monitor_key = Inr [3], ao_sha = id\<rparr>"

definition old_auth :: AuthWorld where
  "old_auth = \<lparr>ro_world = fresh_world, ro_key = Some [9], ro_revoked = False\<rparr>"

lemma calm_auth_read: "fst (load_settings (ao_out calm_auth) (ro_world old_auth)) = Inr default_settings"
  by (simp add: calm_auth_def old_auth_def load_settings_def load_settings_checked_def attempts.simps attempt_def chain_def calm_outside_def
     give_def passed_def fresh_world_def)


theorem administration_confirmed_witness:
  "\<exists>r w1. administer calm_auth ''remove'' None fresh_world = (r, w1) \<and> isl r \<and> w1 = fresh_world"
proof -
  obtain r w1 where run: "administer calm_auth ''remove'' None fresh_world = (r, w1)" by fastforce
  have "\<not> well_asked ''remove'' None" by (simp add: well_asked_def known_action_def)
  with administration_confirmed [OF run] run show ?thesis by blast
qed

end
