(* ===== verification/Transport_Steps.thy ===== *)
theory Transport_Steps
  imports Monitor_Control Network_Steps Https_Authorizations
begin

text \<open>
  All operations on the transports as one step relation, with restarts of the process between and inside
  them: the two transports never run together.
\<close>

section \<open>The invariant\<close>

definition exclusive :: "World \<Rightarrow> bool" where
  "exclusive w \<longleftrightarrow> \<not> (w_tunnel w \<and> w_https w) \<and> \<not> (w_https w \<and> w_desired_connected w)"

lemma exclusive_simps [simp]:
  "exclusive (ticked c t w) = exclusive w" "exclusive (saved out s w) = exclusive w"
  "exclusive (marked m b w) = exclusive w" "exclusive (set_recovery_status p n e w) = exclusive w"
  "exclusive (update_runtime_snapshot out ob d s w) = exclusive w"
  "exclusive (note_moment w) = exclusive w"
  "exclusive (w\<lparr>w_reconnecting := b\<rparr>) = exclusive w" "exclusive (w\<lparr>w_reconnect_attempt := a\<rparr>) = exclusive w"
  "exclusive (w\<lparr>w_session_key := k\<rparr>) = exclusive w" "exclusive (slept ms w) = exclusive w"
  by (simp_all add: exclusive_def slept_def)

lemma wp_ensure_available [simp]:
  "wp ensure_available Q w = Q (if w_quitting w then Inl ''ChatX is quitting'' else Inr ()) w"
  by (simp add: wp_def ensure_available_def)

definition both_off :: "World \<Rightarrow> bool" where
  "both_off w \<longleftrightarrow> \<not> w_tunnel w \<and> \<not> w_https w \<and> \<not> w_desired_connected w"

lemma prepare_https_off:
  assumes "exclusive w"
  shows "wp (prepare_https out) (\<lambda>r w'. exclusive w' \<and> (r = Inr () \<longrightarrow> both_off w')) w"
  using assms unfolding prepare_https_def stage_mode_switch_def
  by (auto intro!: wp_mark_stopped wp_load_settings wp_stop_tunnel wp_persist_disabled split: sum.splits
      simp: stop_inner_def both_off_def exclusive_def)

lemma stop_all_exclusive:
  assumes "exclusive w"
  shows "wp (stop_all out) (\<lambda>r w'. exclusive w') w"
  using assms unfolding stop_all_def
  by (auto intro!: wp_mark_stopped wp_load_settings wp_stop_tunnel wp_update_settings split: sum.splits
      simp: stop_inner_def exclusive_def)

lemma stop_requested_exclusive:
  assumes "exclusive w"
  shows "wp (stop_requested out) (\<lambda>r w'. exclusive w') w"
  using assms unfolding stop_requested_def
  by (auto intro!: wp_mark_stopped wp_load_settings wp_stop_tunnel wp_update_settings split: sum.splits simp: exclusive_def)

lemma https_stop_exclusive:
  assumes "exclusive w"
  shows "wp (https_stop_requested out) (\<lambda>r w'. exclusive w') w"
  using assms unfolding https_stop_requested_def
  by (auto intro!: wp_mark_stopped wp_update_settings split: sum.splits simp: stop_inner_def exclusive_def)

lemma start_https_exclusive:
  assumes "exclusive w"
  shows "wp (start_https_mcp out config) (\<lambda>r w'. exclusive w') w"
  using assms unfolding start_https_mcp_def
  by (auto simp: Let_def stop_inner_def both_off_def exclusive_def split: sum.splits
      intro!: wp_load_settings wp_mono[OF prepare_https_off[unfolded exclusive_def]] wp_start_inner wp_clear_stopped wp_update_settings)

lemma wp_connected:
  assumes "\<And>c t p n e ob d s. Q (Inr ()) (set_recovery_status p n e (update_runtime_snapshot out ob d s (ticked c t w)))"
    and "\<And>c t. Q (Inr ()) (ticked c t w)"
  shows "wp (connected out settings) Q w"
proof -
  have "wp (\<lambda>w. let (ob, w1) = tunnel_status out w in
         (Inr (), set_recovery_status (if ro_active ob then ''idle'' else ''verifying'') 0
            (if ro_active ob then [] else ''waiting for the tunnel'') (update_runtime_snapshot out ob True settings w1))) Q (ticked c t w)" for c t
    using assms(1) tunnel_status_ticks[of out "ticked c t w"] by (auto simp: wp_def)
  with assms(2) show ?thesis
    unfolding connected_def by (auto intro!: wp_attempt simp: wp_if split: sum.splits)
qed

lemma wp_store_runtime_key:
  assumes "\<And>r c t. Q r (ticked c t w)"
  shows "wp (store_runtime_key out remember) Q w"
  using assms by (auto simp: store_runtime_key_def intro: wp_attempts wp_attempt)

lemma connect_prepared_sel [simp]:
  "w_https (connect_prepared w) = w_https w" "w_tunnel (connect_prepared w) = w_tunnel w"
  "w_file (connect_prepared w) = w_file w" "w_stopped (connect_prepared w) = w_stopped w"
  "\<not> w_desired_connected (connect_prepared w)" "file_settings out (connect_prepared w) = file_settings out w"
  by (simp_all add: connect_prepared_def file_settings_def)

text \<open>Where the connection ends: not wanted and still marked as stopped on every error; on success wanted, saved
  as such, and only HTTPS marked as stopped.\<close>

definition connect_post :: "Outside \<Rightarrow> string \<Rightarrow> bool \<Rightarrow> string + unit \<Rightarrow> World \<Rightarrow> bool" where
  "connect_post out i remember r w \<longleftrightarrow> \<not> w_https w
     \<and> (case r of
          Inl _ \<Rightarrow> \<not> w_desired_connected w \<and> w_stopped w Tunnel
        | Inr _ \<Rightarrow> w_desired_connected w \<and> \<not> w_stopped w Tunnel \<and> w_stopped w HttpsMcp \<and> w_tunnel w
             \<and> (\<exists>s. w_file w = Some (os_print_settings out (tunnel_settings i remember s) @ [CHR 0x0A])))"

lemma wp_clear_marker:
  assumes "\<not> w_https w" "w_stopped w Tunnel" "w_stopped w HttpsMcp" "w_tunnel w" "w_desired_connected w"
    and "w_file w = Some (os_print_settings out (tunnel_settings i remember s) @ [CHR 0x0A])"
  shows "wp (clear_marker out ns) (connect_post out i remember) w"
  using assms unfolding clear_marker_def
  by (auto intro!: wp_clear_stopped wp_stop_runtime wp_update_settings wp_connected simp: connect_post_def split: sum.splits) blast+

lemma wp_keep_runtime_key:
  assumes "\<not> w_https w" "w_stopped w Tunnel" "w_stopped w HttpsMcp" "w_tunnel w" "w_desired_connected w"
    and "w_file w = Some (os_print_settings out (tunnel_settings i remember s) @ [CHR 0x0A])"
  shows "wp (keep_runtime_key out remember previous ns) (connect_post out i remember) w"
  using assms unfolding keep_runtime_key_def roll_back_def
  by (auto intro!: wp_store_runtime_key wp_update_settings wp_stop_runtime wp_clear_marker[where s = s]
      simp: connect_post_def split: sum.splits)

lemma wp_commit_connection:
  assumes "\<not> w_https w" "w_stopped w Tunnel" "w_stopped w HttpsMcp" "w_tunnel w"
  shows "wp (commit_connection out i remember previous) (connect_post out i remember) w"
  using assms unfolding commit_connection_def roll_back_def
  by (auto intro!: wp_update_settings wp_stop_runtime wp_keep_runtime_key simp: connect_post_def split: sum.splits)

lemma prepare_tunnel_off:
  "wp (prepare_tunnel out) (\<lambda>r w'. (w_https w' \<longrightarrow> w_https w) \<and> w_tunnel w' = w_tunnel w
      \<and> w_desired_connected w' = w_desired_connected w
      \<and> (w_stopped w' Tunnel \<or> w_file w' = w_file w \<and> w_stopped w' = w_stopped w)
      \<and> (r = Inr () \<longrightarrow> \<not> w_https w' \<and> w_stopped w' Tunnel \<and> w_stopped w' HttpsMcp)) w"
  unfolding prepare_tunnel_def stage_mode_switch_def other_transport_def
  by (auto intro!: wp_mark_stopped wp_persist_disabled split: sum.splits simp: stop_inner_def)

definition connect_outcome :: "Outside \<Rightarrow> World \<Rightarrow> string \<Rightarrow> bool \<Rightarrow> string + unit \<Rightarrow> World \<Rightarrow> bool" where
  "connect_outcome out w i remember r w' \<longleftrightarrow>
     connect_post out i remember r w'
   \<or> isl r \<and> (w_https w' \<longrightarrow> w_https w) \<and> w_tunnel w' = w_tunnel w \<and> w_desired_connected w' = w_desired_connected w
       \<and> (w_stopped w' Tunnel \<or> w_file w' = w_file w \<and> w_stopped w' = w_stopped w)"

lemma connect_tunnel_outcome: "wp (connect_tunnel out i key remember) (connect_outcome out w (trim i) remember) w"
  unfolding connect_tunnel_def
  by (auto simp: Let_def connect_outcome_def connect_post_def split: sum.splits
      intro!: wp_load_runtime_key wp_mono[OF prepare_tunnel_off] wp_load_settings wp_start_runtime
        wp_mono[OF wp_commit_connection])

lemma reconnect_locked_exclusive:
  assumes "exclusive w"
  shows "wp (reconnect_locked out key) (\<lambda>r w'. exclusive w') w"
  using assms unfolding reconnect_locked_def
  by (auto intro!: wp_load_settings wp_start_runtime simp: wp_if tunnel_wanted_def exclusive_def)

lemma connect_tunnel_exclusive:
  assumes "exclusive w"
  shows "wp (connect_tunnel out i key remember) (\<lambda>r w'. exclusive w') w"
  using assms
  by (auto intro!: wp_mono[OF connect_tunnel_outcome] simp: connect_outcome_def connect_post_def exclusive_def)

text \<open>C5: connecting the tunnel is all or nothing. On success the tunnel is wanted, the settings that say so are on
  disk, its stop marker is gone and the one of HTTPS is there. On an error the call either changed
  nothing beyond stopping HTTPS and setting markers, or the tunnel is not wanted any more and its stop marker is
  still on disk, so that a restart does not bring it back.\<close>

theorem connect_tunnel_all_or_nothing:
  assumes "connect_tunnel out i key remember w = (r, w')"
  shows "case r of
      Inr _ \<Rightarrow> w_desired_connected w' \<and> \<not> w_stopped w' Tunnel \<and> w_stopped w' HttpsMcp \<and> \<not> w_https w'
        \<and> (\<exists>s. w_file w' = Some (os_print_settings out (tunnel_settings (trim i) remember s) @ [CHR 0x0A]))
    | Inl _ \<Rightarrow> (\<not> w_desired_connected w' \<and> w_stopped w' Tunnel \<and> \<not> w_https w')
        \<or> w_desired_connected w' = w_desired_connected w \<and> w_tunnel w' = w_tunnel w
            \<and> (w_stopped w' Tunnel \<or> w_file w' = w_file w \<and> w_stopped w' = w_stopped w)"
  using connect_tunnel_outcome[of out i key remember w] assms
  by (auto simp: wp_def connect_outcome_def connect_post_def split: sum.splits)

section \<open>Startup\<close>

text \<open>After the tunnel's state is restored: HTTPS is not running yet, and if the tunnel is wanted, the settings on
  disk do not enable HTTPS.\<close>

definition restored :: "Outside \<Rightarrow> World \<Rightarrow> bool" where
  "restored out w \<longleftrightarrow> \<not> w_https w
     \<and> (w_desired_connected w \<longrightarrow> (\<exists>s. file_settings out w = Inr s \<and> \<not> ht_enabled (se_https_mcp s)))"

lemma restored_simps [simp]:
  "restored out (ticked c t w) = restored out w" "restored out (update_runtime_snapshot out2 ob d s w) = restored out w"
  "restored out (tunnel_gone w) = restored out w" "restored out (set_recovery_status p n e w) = restored out w"
  "restored out (w\<lparr>w_session_key := k\<rparr>) = restored out w"
  "restored out w \<Longrightarrow> restored out (w\<lparr>w_desired_connected := False\<rparr>)"
  by (simp_all add: restored_def file_settings_def)

lemma wp_effect [simp]: "wp (\<lambda>w. (Inr a, f w)) Q w = Q (Inr a) (f w)"
  by (simp add: wp_def)

lemma restore_session_key_restored:
  assumes "restored out w"
  shows "restored out (snd (restore_session_key out w))"
proof -
  have "wp (restore_session_key out) (\<lambda>r w'. restored out w') w"
    using assms unfolding restore_session_key_def
    by (auto intro!: wp_load_runtime_key split: sum.splits)
  then show ?thesis by (simp add: wp_def split: prod.splits)
qed

definition file_kept :: "Outside \<Rightarrow> Settings \<Rightarrow> string + Settings \<Rightarrow> World \<Rightarrow> bool" where
  "file_kept out s r w \<longleftrightarrow> \<not> w_https w
     \<and> (case r of Inl _ \<Rightarrow> False | Inr s' \<Rightarrow> se_connection_intent s' \<longrightarrow>
          (\<exists>f. file_settings out w = Inr f \<and> \<not> ht_enabled (se_https_mcp f)))"

lemma wp_migrated_kept:
  assumes "\<not> w_https w" and "file_settings out w = Inr s"
  shows "wp (migrated out s) (file_kept out s) w"
  using assms unfolding migrated_def
  by (auto intro!: wp_mark_stopped wp_update_settings simp: file_kept_def)

lemma wp_honour_marker_kept:
  assumes "file_kept out s0 (Inr s) w"
  shows "wp (honour_marker out s) (file_kept out s0) w"
  using assms unfolding honour_marker_def
  by (auto intro!: wp_restore_allowed simp: file_kept_def)

lemma restored_restore:
  assumes "\<not> w_https w"
  shows "wp (restore_persisted_connection_state out) (\<lambda>r w'. restored out w') w"
proof -
  have failed: "wp (\<lambda>w. if isl files then (Inr (), w)
       else let (ob, w1) = clean_up out s False w in (Inr (), update_runtime_snapshot out ob False s w1))
      (\<lambda>(r :: string + unit) w'. restored out w') w"
    if "restored out w" for files :: "string + unit" and s w
    using that clean_up_effect[of out s False w] by (auto simp: wp_def)
  have tail: "wp (\<lambda>w. if isl files then (Inr (), w)
       else let (ob, w1) = clean_up out s b w; w2 = update_runtime_snapshot out ob b s w1
            in if \<not> b then (Inr (), w2)
               else if trim (se_tunnel_id s) = []
               then (Inr (), set_recovery_status ''failed'' 0 e (w2\<lparr>w_desired_connected := False\<rparr>))
               else restore_session_key out w2)
      (\<lambda>r w'. restored out w') w"
    if "restored out w" for files :: "string + unit" and s w e b
    using that clean_up_effect[of out s b w] restore_session_key_restored[of out]
    by (auto simp: wp_def Let_def split: prod.splits) (metis snd_conv restored_simps(1,2))+
  have loaded: "wp (chain (migrated out s) (\<lambda>s1. chain (honour_marker out s1) (\<lambda>s2.
      chain (modify (restore_desired_connection_intent s2)) (\<lambda>_. m s2)))) (\<lambda>(r :: string + unit) w'. restored out w') v"
    if "\<not> w_https v" "file_settings out v = Inr s" "\<And>s2 u. restored out u \<Longrightarrow> wp (m s2) (\<lambda>r w'. restored out w') u" for s v m
    using that
    by (auto intro!: wp_mono[OF wp_migrated_kept] wp_mono[OF wp_honour_marker_kept] that(3)
        simp: file_kept_def restored_def restore_desired_connection_intent_def file_settings_def split: sum.splits)
  have off: "restored out (restore_desired_connection_intent default_settings v)" if "\<not> w_https v" for v
    using that by (simp add: restored_def restore_desired_connection_intent_def default_settings_def)
  show ?thesis
    unfolding restore_persisted_connection_state_def wp_and_then_always[of "load_settings_checked out"]
  proof (rule wp_load_settings_checked)
    fix e c t
    show "wp (case Inl e of Inl e \<Rightarrow> chain (modify (\<lambda>w. set_recovery_status ''stopped'' 0 e
             (restore_desired_connection_intent default_settings w))) (\<lambda>_.
           and_then_always (attempt out ''runtime files'') (\<lambda>files w. if isl files then (Inr (), w)
             else let (ob, w1) = clean_up out default_settings False w in
               (Inr (), update_runtime_snapshot out ob False default_settings w1))) | Inr x \<Rightarrow> m x)
        (\<lambda>r w'. restored out w') (ticked c t w)" for m
      using assms off[of "ticked c t w"] by (auto intro!: wp_attempt failed)
  next
    fix s c t assume "file_settings out w = Inr s"
    with assms show "wp (case Inr s of Inl e \<Rightarrow> m e | Inr s0 \<Rightarrow>
           chain (migrated out s0) (\<lambda>settings1.
           chain (honour_marker out settings1) (\<lambda>settings.
           chain (modify (restore_desired_connection_intent settings)) (\<lambda>_.
           and_then_always (attempt out ''runtime files'') (\<lambda>files w.
             if isl files then (Inr (), w)
             else let (ob, w1) = clean_up out settings (se_connection_intent settings) w;
                      w2 = update_runtime_snapshot out ob (se_connection_intent settings) settings w1
               in if \<not> se_connection_intent settings then (Inr (), w2)
                  else if trim (se_tunnel_id settings) = []
                  then (Inr (), set_recovery_status ''failed'' 0 ''connection intent without tunnel id''
                                  (w2\<lparr>w_desired_connected := False\<rparr>))
                  else restore_session_key out w2)))))
        (\<lambda>r w'. restored out w') (ticked c t w)" for m
      by (auto intro!: loaded wp_attempt tail simp del: wp_chain)
  qed
qed

text \<open>What the status command of \<open>https_restore\<close> answers, when it gets there.\<close>

definition https_restore_sees :: "Outside \<Rightarrow> World \<Rightarrow> RuntimeObservation" where
  "https_restore_sees out w =
     (case load_settings out w of (_, w1) \<Rightarrow>
      case restore_allowed out HttpsMcp w1 of (_, w2) \<Rightarrow>
      case attempt out ''runtime files'' w2 of (_, w3) \<Rightarrow> fst (tunnel_status out w3))"

definition sees_survivor :: "Outside \<Rightarrow> World \<Rightarrow> bool" where
  "sees_survivor out w \<longleftrightarrow> (w_tunnel w \<longrightarrow>
     ro_runtime_alive (https_restore_sees out w) \<or> ro_active (https_restore_sees out w))"

lemma https_restore_exclusive:
  assumes "restored out w" and "sees_survivor out w"
  shows "wp (https_restore out) (\<lambda>r w'. exclusive w') w"
proof -
  obtain l w1 where l: "load_settings out w = (l, w1)" by fastforce
  obtain a w2 where a: "restore_allowed out HttpsMcp w1 = (a, w2)" by fastforce
  obtain f w3 where f: "attempt out ''runtime files'' w2 = (f, w3)" by fastforce
  obtain ob w4 where ob: "tunnel_status out w3 = (ob, w4)" by fastforce
  have t1: "\<exists>c t. w1 = ticked c t w" by (rule load_settings_ticks[OF l])
  have t2: "\<exists>c t. w2 = ticked c t w1"
    using wp_restore_allowed[of "\<lambda>r w'. \<exists>c t. w' = ticked c t w1" w1 HttpsMcp out] a by (auto simp: wp_def)
  have t3: "\<exists>c t. w3 = ticked c t w2" by (rule attempt_ticks[OF f])
  have t4: "\<exists>c t. w4 = ticked c t w3"
    using tunnel_status_ticks[of out w3] ob by auto
  have idle: "exclusive w1" "exclusive w2" "exclusive w3" "exclusive w4"
    using assms(1) t1 t2 t3 t4 by (auto simp: restored_def exclusive_def)
  obtain s where s: "l = Inr s" "s = default_settings \<or> file_settings out w = Inr s"
    using wp_load_settings[of out w "\<lambda>r w'. \<exists>s. r = Inr s \<and> (s = default_settings \<or> file_settings out w = Inr s)"] l
    by (auto simp: wp_def)
  have start: "wp (start_inner out (se_https_mcp s)) (\<lambda>r w'. exclusive w') w4"
    if "ht_enabled (se_https_mcp s)" "\<not> (ro_runtime_alive ob \<or> ro_active ob)"
  proof -
    have "\<not> w_desired_connected w"
      using assms(1) s(2) that(1) by (auto simp: restored_def default_settings_def default_https_def)
    moreover have "\<not> w_tunnel w"
      using assms(2) that(2) l a f ob by (auto simp: sees_survivor_def https_restore_sees_def)
    ultimately have "both_off w4"
      using assms(1) t1 t2 t3 t4 by (auto simp: both_off_def restored_def)
    then show ?thesis
      by (auto intro!: wp_start_inner simp: both_off_def exclusive_def)
  qed
  show ?thesis
    using l a f ob s(1) idle start
    by (auto simp: https_restore_def wp_def chain_def and_then_always_def give_def Let_def split: sum.splits prod.splits if_splits)
qed

section \<open>All operations\<close>

text \<open>A step is one operation with the connection lock held, a part of the monitor's round, the change of
  a setting that does not concern the transports, or the end of the process at this or an earlier moment and
  its next start. A request from a phone is one, too, and so are a change of the network settings and a registration at
  a relay. Of a start it is required that the tunnel client's status command sees a runtime that
  survived. Of a rotation of the login password it is required that it does not find HTTPS wanted and yet kept off next to
  such a runtime: it would start it there (\<open>rotation_starts_beside_tunnel\<close>).\<close>

inductive transport_step :: "World \<Rightarrow> World \<Rightarrow> bool" where
  connect: "connect_tunnel out i key remember w = (r, w') \<Longrightarrow> transport_step w w'"
| stop_tunnel: "stop_requested out w = (r, w') \<Longrightarrow> transport_step w w'"
| start_https: "start_https_mcp out config w = (r, w') \<Longrightarrow> transport_step w w'"
| stop_https: "https_stop_requested out w = (r, w') \<Longrightarrow> transport_step w w'"
| stop_all: "stop_all out w = (r, w') \<Longrightarrow> transport_step w w'"
| check: "reconnect_check out w lo = (res, w', lo') \<Longrightarrow> transport_step w w'"
| reconnect: "reconnect_locked out key w = (r, w') \<Longrightarrow> transport_step w w'"
| outcome: "reconnect_outcome fuel out res n w lo = Some (w', lo') \<Longrightarrow> transport_step w w'"
| phone: "handle_locked out cc busy parts d req action cache w = (res, cache', worker, w') \<Longrightarrow> transport_step w w'"
| remote_reconnect: "remote_reconnect_locked out key w = (r, w') \<Longrightarrow> transport_step w w'"
| remote_settles: "remote_outcome fuel out res w = Some w' \<Longrightarrow> transport_step w w'"
| setting: "update_settings out f w = (r, w') \<Longrightarrow> transport_step w w'"
| network: "set_network_settings env p n = (r, n1) \<Longrightarrow> transport_step (nt_world n) (nt_world n1)"
| registration: "register_relay_desktop env registration_code n = (r, n1) \<Longrightarrow> transport_step (nt_world n) (nt_world n1)"
| rotation: "rotate_https_mcp_login_password auth a = (r, a1) \<Longrightarrow> w_https (ro_world a) \<or> both_off (ro_world a)
    \<or> w_stopped (ro_world a) HttpsMcp \<Longrightarrow> transport_step (ro_world a) (ro_world a1)"
| restart: "restore_persisted_connection_state out (rebooted m) = (r, w1) \<Longrightarrow> sees_survivor out w1
    \<Longrightarrow> https_restore out w1 = (r2, w') \<Longrightarrow> transport_step w w'"

inductive transports_reachable :: "World \<Rightarrow> bool" where
  start: "restore_persisted_connection_state out (rebooted m) = (r, w1) \<Longrightarrow> sees_survivor out w1
    \<Longrightarrow> https_restore out w1 = (r2, w) \<Longrightarrow> transports_reachable w"
| step: "transports_reachable w \<Longrightarrow> transport_step w w' \<Longrightarrow> transports_reachable w'"

lemma restart_exclusive:
  assumes "restore_persisted_connection_state out (rebooted m) = (r, w1)" and "sees_survivor out w1"
    and "https_restore out w1 = (r2, w)"
  shows "exclusive w"
  using restored_restore[of "rebooted m" out] https_restore_exclusive[of out w1] assms
  by (auto simp: wp_def rebooted_def)

lemma wp_exclusive: "wp m (\<lambda>r w'. exclusive w') w \<Longrightarrow> m w = (r, w') \<Longrightarrow> exclusive w'"
  by (simp add: wp_def)

text \<open>The parts of the monitor's round outside the lock start and stop nothing.\<close>

definition quieter :: "World \<Rightarrow> World \<Rightarrow> bool" where
  "quieter w w' \<longleftrightarrow> w_tunnel w' = w_tunnel w \<and> w_https w' = w_https w \<and> (w_desired_connected w' \<longrightarrow> w_desired_connected w)"

lemma quieter_trans: "quieter a b \<Longrightarrow> quieter b c \<Longrightarrow> quieter a c"
  by (simp add: quieter_def)

lemma quieter_ticked: "\<exists>c t. w' = ticked c t w \<Longrightarrow> quieter w w'"
  by (auto simp: quieter_def)

lemmas quieter_calls = quieter_ticked[OF load_settings_ticks] quieter_ticked[OF attempt_ticks]

lemma quieter_status: "tunnel_status out w = (ob, w') \<Longrightarrow> quieter w w'"
  using tunnel_status_ticks[of out w] by (auto simp: quieter_def)

lemma quieter_simps [simp]:
  "quieter v (set_recovery_status p n e w) = quieter v w" "quieter v (update_runtime_snapshot out ob d s w) = quieter v w"
  "quieter v (w\<lparr>w_reconnecting := b\<rparr>) = quieter v w" "quieter v (w\<lparr>w_reconnect_attempt := a\<rparr>) = quieter v w"
  "quieter v (Tunnel_Recovery.settled p w) = quieter v w" "quieter v (slept ms w) = quieter v w"
  "quieter w w" "quieter v w \<Longrightarrow> quieter v (w\<lparr>w_desired_connected := False\<rparr>)"
  by (simp_all add: quieter_def Tunnel_Recovery.settled_def slept_def)

lemma quieter_exclusive: "quieter w w' \<Longrightarrow> exclusive w \<Longrightarrow> exclusive w'"
  by (auto simp: quieter_def exclusive_def)

lemma reconnect_due_quieter:
  assumes "reconnect_due out ob w lo = (res, w', lo')"
  shows "quieter w w'"
proof -
  let ?w = "set_recovery_status ''reconnecting'' 0 []
      (w\<lparr>w_reconnecting := True, w_reconnect_attempt := w_reconnect_attempt w + 1\<rparr>)"
  obtain r w2 where l: "load_settings out ?w = (r, w2)" by fastforce
  have "quieter w ?w" by simp
  then have "quieter w w2"
    using quieter_calls(1)[OF l] quieter_trans by blast
  with assms l show ?thesis
    by (auto simp: reconnect_due_def Let_def split: if_splits option.splits sum.splits)
qed

lemma quieter_later:
  "attempt out e v = (r, v') \<Longrightarrow> quieter w v \<Longrightarrow> quieter w v'"
  "load_settings out v = (l, v') \<Longrightarrow> quieter w v \<Longrightarrow> quieter w v'"
  "tunnel_status out v = (ob, v') \<Longrightarrow> quieter w v \<Longrightarrow> quieter w v'"
  "reconnect_due out ob2 v lo = (res, v', lo') \<Longrightarrow> quieter w v \<Longrightarrow> quieter w v'"
  by (meson quieter_calls quieter_status reconnect_due_quieter quieter_trans)+

lemma reconnect_check_quieter:
  assumes "reconnect_check out w lo = (res, w', lo')"
  shows "quieter w w'"
  using assms quieter_simps(7)[of w] unfolding reconnect_check_def
  by (auto simp: Let_def simp del: quieter_simps(7) split: if_splits sum.splits prod.splits dest!: quieter_later)

lemma wait_rounds_quieter: "wait_rounds fuel out d a w = Some (b, w') \<Longrightarrow> quieter w w'"
proof (induction fuel arbitrary: w)
  case (Suc fuel)
  obtain r w1 where l: "load_settings out w = (r, w1)" by fastforce
  obtain ob w2 where st: "tunnel_status out w1 = (ob, w2)" by fastforce
  have q: "quieter w w1" "quieter w w2"
    using quieter_calls(1)[OF l] quieter_status[OF st] quieter_trans by blast+
  have "quieter w w'" if "wait_rounds fuel out d a (slept 2000 (update_runtime_snapshot out ob x s w2)) = Some (b, w')" for x s
    using Suc.IH[OF that] q(2) by (auto simp: quieter_def slept_def)
  with Suc.prems l st q show ?case
    by (auto simp: Let_def split: sum.splits if_splits)
qed simp

lemma reconnect_outcome_quieter:
  assumes "reconnect_outcome fuel out res n w lo = Some (w', lo')"
  shows "quieter w w'"
proof -
  have wait: "quieter w w1" if "wait_for_runtime_recovery fuel out True (set_recovery_status p x e w) = Some (b, w1)" for p x e b w1
    using wait_rounds_quieter that by (fastforce simp: wait_for_runtime_recovery_def quieter_def)
  have load: "quieter w w2" if "wait_for_runtime_recovery fuel out True (set_recovery_status p x e w) = Some (b, w1)"
    "load_settings out w1 = (r, w2)" for p x e b w1 r w2
    using wait[OF that(1)] quieter_calls(1)[OF that(2)] quieter_trans by blast
  show ?thesis
    using assms
    by (auto simp: reconnect_outcome_def Let_def split: sum.splits if_splits option.splits bool.splits prod.splits dest: wait load)
qed

lemma perform_action_quieter:
  assumes "perform_action out busy parts action w = (value, worker, w')"
  shows "quieter w w'"
proof -
  have fresh: "quieter w w1" if "fresh_payload out busy parts w = (r, w1)" for r w1
    using fresh_payload_answer[OF that] quieter_ticked by blast
  have trigger: "quieter w w1" if "trigger_tunnel_reconnect out w = (r, w1)" for r w1
    using trigger_answer[OF that] by (auto simp: quieter_def)
  have "quieter w w2" if "trigger_tunnel_reconnect out w = (r, w1)" "payload out parts w1 = (q, w2)" for r w1 q w2
    using trigger[OF that(1)] payload_honest[of out parts None w1] that(2) by (auto simp: payload_def quieter_def)
  with assms fresh show ?thesis
    by (auto simp: perform_action_def Let_def split: if_splits sum.splits prod.splits)
qed

lemma handle_locked_quieter:
  assumes "handle_locked out cc busy parts d req action cache w = (res, cache', worker, w')"
  shows "quieter w w'"
  using assms perform_action_quieter
  by (auto simp: handle_locked_def split: sum.splits option.splits prod.splits)

lemma remote_locked_exclusive:
  assumes "exclusive w"
  shows "wp (remote_reconnect_locked out key) (\<lambda>r w'. exclusive w') w"
  using assms unfolding remote_reconnect_locked_def
  by (auto intro!: wp_load_settings wp_start_runtime simp: wp_if tunnel_wanted_def exclusive_def)

lemma remote_outcome_quieter:
  assumes "remote_outcome fuel out res w = Some w'"
  shows "quieter w w'"
proof -
  have wait: "quieter w w2" if "attempt out e (set_recovery_status p x m w) = (q, w1)"
    "wait_for_runtime_recovery fuel out False w1 = Some (b, w2)" for e p x m q w1 b w2
    using that(2) wait_rounds_quieter quieter_calls(2)[OF that(1)] quieter_trans
    by (fastforce simp: wait_for_runtime_recovery_def quieter_def)
  have att: "quieter w w1" if "attempt out e (set_recovery_status p x m w) = (q, w1)" for e p x m q w1
    using quieter_calls(2)[OF that] by (simp add: quieter_def)
  have "quieter w w1" if "remote_recovered fuel out res w = Some (b, w1)" for b w1
    using that by (auto simp: remote_recovered_def split: sum.splits prod.splits dest: wait att)
  moreover obtain b w1 where r: "remote_recovered fuel out res w = Some (b, w1)"
    using assms by (auto simp: remote_outcome_def)
  ultimately have "quieter w w1" by blast
  with assms r show ?thesis
    by (auto simp: remote_outcome_def quieter_def split: sum.splits if_splits)
qed

lemma tunnel_restarted_exclusive: "tunnel_restarted w w1 \<Longrightarrow> exclusive w \<Longrightarrow> exclusive w1"
  by (auto simp: tunnel_restarted_def exclusive_def)

lemma rotation_exclusive:
  assumes "rotate_https_mcp_login_password auth a = (r, a1)" and "exclusive (ro_world a)"
    and "w_https (ro_world a) \<or> both_off (ro_world a) \<or> w_stopped (ro_world a) HttpsMcp"
  shows "exclusive (ro_world a1)"
proof -
  obtain wanted where "wanted \<longrightarrow> \<not> w_stopped (ro_world a) HttpsMcp" "rotation_outcome auth wanted a r a1"
    using rotation_done [OF assms(1)] .
  with assms(2,3) show ?thesis
    by (auto simp: rotation_outcome_def others_kept_def exclusive_def both_off_def split: sum.splits)
qed

lemma transport_step_exclusive: "transport_step w w' \<Longrightarrow> exclusive w \<Longrightarrow> exclusive w'"
proof (induction rule: transport_step.induct)
  case connect
  then show ?case using wp_exclusive[OF connect_tunnel_exclusive] by blast
next
  case stop_tunnel
  then show ?case using wp_exclusive[OF stop_requested_exclusive] by blast
next
  case start_https
  then show ?case using wp_exclusive[OF start_https_exclusive] by blast
next
  case stop_https
  then show ?case using wp_exclusive[OF https_stop_exclusive] by blast
next
  case stop_all
  then show ?case using wp_exclusive[OF stop_all_exclusive] by blast
next
  case check
  then show ?case using reconnect_check_quieter quieter_exclusive by blast
next
  case reconnect
  then show ?case using wp_exclusive[OF reconnect_locked_exclusive] by blast
next
  case outcome
  then show ?case using reconnect_outcome_quieter quieter_exclusive by blast
next
  case phone
  then show ?case using handle_locked_quieter quieter_exclusive by blast
next
  case remote_reconnect
  then show ?case using wp_exclusive[OF remote_locked_exclusive] by blast
next
  case remote_settles
  then show ?case using remote_outcome_quieter quieter_exclusive by blast
next
  case rotation
  then show ?case using rotation_exclusive by blast
next
  case (setting out f w r w')
  then have "wp (update_settings out f) (\<lambda>r w'. exclusive w') w"
    by (auto intro!: wp_update_settings)
  with setting show ?case using wp_exclusive by blast
next
  case network
  then show ?case using set_settings_restarts tunnel_restarted_exclusive by blast
next
  case registration
  then show ?case using others_restart(1) tunnel_restarted_exclusive by blast
next
  case restart
  then show ?case using restart_exclusive by blast
qed


section \<open>What a start cannot see\<close>

text \<open>The condition on a start in \<open>transport_step\<close> is needed. At a start \<open>https_restore\<close> asks the tunnel client whether
  a runtime survived; when the status command itself cannot be run, the answer counts as "no runtime". Every run
  of the client fails here, all else works: HTTPS is started next to a runtime that survived.\<close>

theorem unknown_status_counts_as_absent:
  assumes "\<And>n. os_ok out n" and "\<And>n. os_run out n = Inl e"
    and "file_settings out w = Inr s" and "ht_enabled (se_https_mcp s)" and "validate (se_https_mcp s) = Inr ()"
    and "\<not> w_stopped w HttpsMcp" and "w_tunnel w" and "\<not> w_https w"
  shows "\<exists>w'. https_restore out w = (Inr (), w') \<and> w_tunnel w' \<and> w_https w'"
  using assms
  by (simp add: https_restore_def chain_def and_then_always_def load_settings_def load_settings_checked_def attempts.simps
      attempt_def passed_def give_def file_settings_def restore_allowed_def tunnel_status_def run_tunnel_def runtime_status_def
      idle_observation_def start_inner_def modify_def note_moment_def from_result_def)

section \<open>Witnesses\<close>

definition nothing_saved :: Moment where
  "nothing_saved = \<lparr>mo_file = None, mo_stopped = (\<lambda>_. False), mo_tunnel = False, mo_https = False\<rparr>"

lemma clean_up_tunnel_off: "clean_up out s b w = (ob, w') \<Longrightarrow> \<not> w_tunnel w \<Longrightarrow> \<not> w_tunnel w'"
  using clean_up_effect[of out s b w] by auto

lemma sample_restart: "\<not> w_tunnel (snd (restore_persisted_connection_state calm_outside (rebooted nothing_saved)))"
  by (auto simp: restore_persisted_connection_state_def and_then_always_def load_settings_checked_def chain_def attempts.simps
      attempt_def passed_def give_def calm_outside_def migrated_def honour_marker_def modify_def default_settings_def
      default_https_def restore_desired_connection_intent_def update_runtime_snapshot_def rebooted_def nothing_saved_def Let_def
      split: prod.splits dest!: clean_up_tunnel_off)


theorem connect_tunnel_all_or_nothing_witness:
  "\<exists>r w'. connect_tunnel calm_outside ''other'' ''key'' False fresh_world = (r, w') \<and> isl r
     \<and> (\<not> w_desired_connected w' \<or> w_tunnel w' = w_tunnel fresh_world)"
proof -
  obtain r w' where run: "connect_tunnel calm_outside ''other'' ''key'' False fresh_world = (r, w')" by fastforce
  have "\<not> starts_with ''tunnel_'' (trim ''other'')" by code_simp
  then have "isl r"
    using run by (auto simp: connect_tunnel_def raise_def Let_def)
  with run connect_tunnel_all_or_nothing[OF run] show ?thesis
    by (auto split: sum.splits)
qed

end
