(* ===== verification/Relay_Client_Safety.thy ===== *)
theory Relay_Client_Safety
  imports Relay_Client
begin

text \<open>
  What the client of the relay keeps: an honest status, one answer for each request, numbers of uploads that only
  grow, an end to every wait.
\<close>

section \<open>The status\<close>

abbreviation with_status :: "(RelayStatus \<Rightarrow> bool) \<Rightarrow> 'w Client \<Rightarrow> bool" where
  "with_status P c \<equiv> P (cl_status c)"

lemma status_now [preserved]: "preserves (with_status P) (client_now env)"
  by (simp add: preserves_def client_now_def)

lemma status_send [preserved]: "preserves (with_status P) (client_send env x)" "preserves (with_status P) (send_desktop_message env m)"
  by (simp_all add: preserves_def send_desktop_message_def client_send_def)

lemma status_handler [preserved]: "preserves (with_status P) (run_handler m)"
  by (simp add: preserves_def run_handler_def split: prod.splits)

lemma status_on: "(\<And>s. P s \<Longrightarrow> P (f s)) \<Longrightarrow> preserves (with_status P) (on_status f)"
  by (simp add: on_status_def preserves_modify)

text \<open>The acknowledgements among the events of a session, and what the status may say when they are \<open>A\<close>.\<close>

fun acks :: "(string \<Rightarrow> DesktopServerMessage option) \<Rightarrow> client_event list \<Rightarrow> string set" where
  "acks parse [] = {}"
| "acks parse (Ev_Read at (Rd_Text t) # evs) =
     (case parse t of Some (DS_HelloAck i _ _) \<Rightarrow> {i} | _ \<Rightarrow> {}) \<union> acks parse evs"
| "acks parse (_ # evs) = acks parse evs"

definition honest :: "string set \<Rightarrow> RelayStatus \<Rightarrow> bool" where
  "honest A s \<longleftrightarrow> (ry_connected s \<longrightarrow> \<not> ry_connecting s \<and> ry_session_id s \<in> Some ` A \<and> ry_connected_at s \<noteq> None)"

lemma honest_mono: "honest A s \<Longrightarrow> A \<subseteq> B \<Longrightarrow> honest B s"
  by (auto simp: honest_def)

lemma honest_error [preserved]: "preserves (with_status (honest A)) (set_error e)"
  unfolding set_error_def by (rule status_on) (simp add: honest_def)

lemma honest_message:
  assumes "\<And>i t cs. m = DS_HelloAck i t cs \<Longrightarrow> i \<in> A"
  shows "preserves (with_status (honest A)) (server_message env h m)"
proof (cases m)
  case (DS_HelloAck i t cs)
  with assms have "i \<in> A" by blast
  then have "preserves (with_status (honest A)) (on_status (greeted i t1 t2))" for t1 t2
    by (intro status_on) (simp add: honest_def greeted_def)
  with DS_HelloAck show ?thesis by (auto simp: server_message_def intro!: preserved)
qed (auto simp: server_message_def intro!: preserved)

lemma honest_read:
  assumes "\<And>x i t cs. r = Rd_Text x \<Longrightarrow> parse x = Some (DS_HelloAck i t cs) \<Longrightarrow> i \<in> A"
  shows "preserves (with_status (honest A)) (on_client_read env h parse r)"
proof -
  have beat: "preserves (with_status (honest A)) (on_status (\<lambda>s. s\<lparr>ry_last_heartbeat_at := Some t\<rparr>))" for t
    by (rule status_on) (simp add: honest_def)
  show ?thesis
  proof (cases r)
    case (Rd_Text x)
    have "preserves (with_status (honest A)) (case parse x of None \<Rightarrow> set_error e | Some m \<Rightarrow> server_message env h m)" for e
      by (cases "parse x") (use assms [OF Rd_Text] in \<open>auto intro!: preserved honest_message\<close>)
    then show ?thesis unfolding Rd_Text on_client_read_def client_read.case by (intro preserves_chain status_now beat)
  qed (auto simp: on_client_read_def intro!: preserved beat)
qed

lemma honest_loop:
  "acks parse evs \<subseteq> A \<Longrightarrow> preserves (with_status (honest A)) (client_loop env h parse last_activity evs)"
proof (induction env h parse last_activity evs rule: client_loop.induct)
  case (2 env h parse last_activity evs)
  then show ?case by (auto intro!: preserved preserves_modify)
next
  case (4 env h parse last_activity at r evs)
  have "acks parse evs \<subseteq> A" using 4(2) by (cases r) auto
  moreover have "preserves (with_status (honest A)) (on_client_read env h parse r)"
    by (rule honest_read) (use 4(2) in auto)
  ultimately show ?case using 4(1) by (auto intro!: preserved)
qed (auto intro!: preserved)

lemma honest_session:
  assumes "acks parse evs \<subseteq> A"
  shows "honest A (cl_status (snd (relay_session env h parse v p settings credentials connect start evs c)))"
proof -
  let ?first = "on_status (\<lambda>s. s\<lparr>ry_connecting := True, ry_connected := False, ry_last_error := []\<rparr>)"
  let ?rest = "\<lambda>_ :: unit. chain (from_result (websocket_url (rl_base_url settings) (''/v1/ws/desktop?desktopId='' @ rc_desktop_id credentials))) (\<lambda>url.
       if \<not> header_value_ok (''Bearer '' @ rc_desktop_token credentials) then raise ''invalid desktop token''
       else case connect url of
         Connect_Stopped \<Rightarrow> give True
       | Connect_Failed e \<Rightarrow> raise e
       | Connected \<Rightarrow>
           chain (send_desktop_message env (D_Hello PROTOCOL_VERSION (rc_desktop_id credentials) v p device_capabilities)) (\<lambda>_.
             client_loop env h parse start evs))"
  obtain c1 where c1: "?first c = (Inr (), c1)" "\<not> ry_connected (cl_status c1)" by (simp add: on_status_def modify_def)
  have "preserves (with_status (honest A)) (?rest u)" for u
    using honest_loop [OF assms] by (auto intro!: preserved split: connect_result.split)
  then have "honest A (cl_status (snd (?rest () c1)))" using c1(2) by (simp add: preserves_def honest_def)
  with c1(1) show ?thesis by (simp add: relay_session_def chain_def)
qed

text \<open>All acknowledgements a loop saw.\<close>

definition round_acks :: "(string \<Rightarrow> DesktopServerMessage option) \<Rightarrow> LoopRound list \<Rightarrow> string set" where
  "round_acks parse rs = (\<Union>r \<in> set rs. acks parse (lp_events r))"

lemma honest_lost: "honest A (lost n r s)" "honest A (ended s)"
  by (simp_all add: honest_def lost_def ended_def)

lemma relay_loop_honest:
  assumes "relay_loop env h parse v p settings credentials tries rs c = (r, c1)" and "honest A (cl_status c)" and "round_acks parse rs \<subseteq> A"
  shows "honest A (cl_status c1) \<and> (r = Inr True \<longrightarrow> \<not> ry_connected (cl_status c1) \<and> \<not> ry_connecting (cl_status c1) \<and> ry_session_id (cl_status c1) = None)
    \<and> \<not> isl r"
  using assms
proof (induction rs arbitrary: tries c)
  case Nil
  then show ?case by (auto simp: give_def)
next
  case (Cons x rs)
  have sub: "acks parse (lp_events x) \<subseteq> A" "round_acks parse rs \<subseteq> A" using Cons.prems(3) by (auto simp: round_acks_def)
  obtain q c2 where q: "relay_session env h parse v p settings credentials (lp_connect x) (lp_start x) (lp_events x) c = (q, c2)" by (metis surj_pair)
  have c2: "honest A (cl_status c2)" using honest_session [OF sub(1), of env h v p settings credentials "lp_connect x" "lp_start x" c] q by simp
  let ?c3 = "c2\<lparr>cl_status := lost (sat_succ32 tries) q (cl_status c2)\<rparr>"
  consider (stop) "lp_stop_before x \<or> \<not> rl_enabled settings" | (running) "\<not> (lp_stop_before x \<or> \<not> rl_enabled settings)" "q = Inr False"
    | (stopped) "\<not> (lp_stop_before x \<or> \<not> rl_enabled settings)" "q \<noteq> Inr False" "lp_stop_after x"
    | (waits) "\<not> (lp_stop_before x \<or> \<not> rl_enabled settings)" "q \<noteq> Inr False" "\<not> lp_stop_after x" by blast
  then show ?case
  proof cases
    case stop
    with Cons.prems(1) have "r = Inr True" "c1 = c\<lparr>cl_status := ended (cl_status c)\<rparr>"
      by (auto simp: chain_def on_status_def modify_def give_def)
    then show ?thesis using honest_lost by (simp add: ended_def honest_def)
  next
    case running
    with Cons.prems(1) q c2 show ?thesis by (auto simp: and_then_always_def give_def)
  next
    case stopped
    with Cons.prems(1) q have "r = Inr True" "c1 = c2\<lparr>cl_status := ended (cl_status c2)\<rparr>"
      by (auto simp: and_then_always_def chain_def on_status_def modify_def give_def)
    then show ?thesis by (simp add: ended_def honest_def)
  next
    case waits
    have h3: "honest A (cl_status ?c3)" by (simp add: honest_lost)
    show ?thesis
    proof (cases "round_wait settings (sat_succ32 tries) x")
      case None
      with Cons.prems(1) q waits have "r = Inr False" "c1 = ?c3"
        by (auto simp: and_then_always_def chain_def on_status_def modify_def give_def Let_def)
      with h3 show ?thesis by simp
    next
      case (Some b)
      show ?thesis
      proof (cases b)
        case True
        let ?c4 = "?c3\<lparr>cl_status := (cl_status ?c3)\<lparr>ry_reconnect_attempt := 0\<rparr>\<rparr>"
        have "relay_loop env h parse v p settings credentials 0 rs ?c4 = (r, c1)"
          using Cons.prems(1) q waits Some True by (simp add: and_then_always_def chain_def on_status_def modify_def Let_def)
        moreover have "honest A (cl_status ?c4)" using h3 by (simp add: honest_def)
        ultimately show ?thesis using Cons.IH sub(2) by blast
      next
        case False
        have "relay_loop env h parse v p settings credentials (sat_succ32 tries) rs ?c3 = (r, c1)"
          using Cons.prems(1) q waits Some False by (simp add: and_then_always_def chain_def on_status_def modify_def Let_def)
        with h3 show ?thesis using Cons.IH sub(2) by blast
      qed
    qed
  qed
qed

section \<open>One answer for each request\<close>

datatype asked = K_Pair string | K_Revoke string string | K_Control string string

fun request_key :: "DesktopServerMessage \<Rightarrow> asked list" where
  "request_key (DS_PairingRequest _ connection_id _) = [K_Pair connection_id]"
| "request_key (DS_DeviceRevoke device_id request_id) = [K_Revoke device_id request_id]"
| "request_key (DS_DeviceControl device_id request) = [K_Control device_id (cp_request_id request)]"
| "request_key _ = []"

fun answer_key :: "client_out \<Rightarrow> asked list" where
  "answer_key (C_Message (D_PairingResponse _ connection_id _)) = [K_Pair connection_id]"
| "answer_key (C_Message (D_PairingError _ connection_id _)) = [K_Pair connection_id]"
| "answer_key (C_Message (D_RevokeResult device_id request_id)) = [K_Revoke device_id request_id]"
| "answer_key (C_Message (D_RevokeError device_id request_id _)) = [K_Revoke device_id request_id]"
| "answer_key (C_Message (D_ControlResponse device_id response)) = [K_Control device_id (cp_request_id response)]"
| "answer_key (C_Message (D_ControlError device_id request_id _)) = [K_Control device_id request_id]"
| "answer_key _ = []"

definition answers :: "client_out list \<Rightarrow> asked list" where
  "answers outs = concat (map answer_key outs)"

lemma answers_simps [simp]: "answers [] = []" "answers (xs @ ys) = answers xs @ answers ys" "answers [x] = answer_key x"
  by (simp_all add: answers_def)

text \<open>The requests among the events of a session, up to its stop.\<close>

fun requests :: "(string \<Rightarrow> DesktopServerMessage option) \<Rightarrow> client_event list \<Rightarrow> asked list" where
  "requests parse [] = []"
| "requests parse (Ev_Stop # evs) = []"
| "requests parse (Ev_Read at (Rd_Text t) # evs) =
     (case parse t of None \<Rightarrow> [] | Some m \<Rightarrow> request_key m) @ requests parse evs"
| "requests parse (_ # evs) = requests parse evs"

text \<open>What an action sent, as answers; \<open>fine\<close> is an invariant of the desktop's world.\<close>

definition answering :: "('w \<Rightarrow> bool) \<Rightarrow> asked list \<Rightarrow> ('w Client, 'a) action \<Rightarrow> bool" where
  "answering fine ks m \<longleftrightarrow> (\<forall>c r c1. fine (cl_world c) \<longrightarrow> m c = (r, c1) \<longrightarrow> fine (cl_world c1)
     \<and> (\<exists>outs. cl_out c1 = cl_out c @ outs \<and> (if isl r then \<exists>rest. ks = answers outs @ rest else answers outs = ks)))"

lemma answeringD:
  "answering fine ks m \<Longrightarrow> fine (cl_world c) \<Longrightarrow> m c = (r, c1) \<Longrightarrow> fine (cl_world c1)
     \<and> (\<exists>outs. cl_out c1 = cl_out c @ outs \<and> (if isl r then \<exists>rest. ks = answers outs @ rest else answers outs = ks))"
  unfolding answering_def by blast

lemma answering_chain:
  assumes "answering fine ks m" and "\<And>a. answering fine ks' (f a)"
  shows "answering fine (ks @ ks') (chain m f)"
  unfolding answering_def
proof (intro allI impI)
  fix c r c1
  assume fine: "fine (cl_world c)" and "chain m f c = (r, c1)"
  from this(2) show "fine (cl_world c1) \<and> (\<exists>outs. cl_out c1 = cl_out c @ outs
      \<and> (if isl r then \<exists>rest. ks @ ks' = answers outs @ rest else answers outs = ks @ ks'))"
  proof (cases rule: chain_cases)
    case (stopped e)
    with answeringD [OF assms(1) fine stopped(1)] show ?thesis by auto
  next
    case (went_on a c0)
    from answeringD [OF assms(1) fine went_on(1)] obtain outs where o1: "fine (cl_world c0)" "cl_out c0 = cl_out c @ outs" "answers outs = ks"
      by auto
    from answeringD [OF assms(2) o1(1) went_on(2)] obtain outs2 where o2: "fine (cl_world c1)" "cl_out c1 = cl_out c0 @ outs2"
        "if isl r then \<exists>rest. ks' = answers outs2 @ rest else answers outs2 = ks'" by blast
    show ?thesis using o1 o2 by (intro conjI exI [of _ "outs @ outs2"]) (auto split: if_splits)
  qed
qed

lemma answering_chain_quiet: "answering fine [] m \<Longrightarrow> (\<And>a. answering fine ks (f a)) \<Longrightarrow> answering fine ks (chain m f)"
  using answering_chain [of fine "[]" m ks f] by simp

lemma answering_quiet:
  "answering fine [] (client_now env)" "answering fine [] (on_status f)" "answering fine [] (set_error e)"
  "answering fine [] (give a)" "answering fine [] (from_result q)" "answering fine ks (raise e)"
  by (auto simp: answering_def client_now_def on_status_def set_error_def modify_def give_def raise_def from_result_def
      split: prod.splits)

lemma answering_handler: "(\<And>w r w1. fine w \<Longrightarrow> m w = (r, w1) \<Longrightarrow> fine w1) \<Longrightarrow> answering fine [] (run_handler m)"
  by (auto simp: answering_def run_handler_def split: prod.splits)

lemma answering_send:
  "answering fine (answer_key x) (client_send env x)" "answering fine (answer_key (C_Message m)) (send_desktop_message env m)"
  by (auto simp: answering_def client_send_def send_desktop_message_def)

section \<open>What the relay asks of the desktop\<close>

text \<open>The contract between the client and the handlers it is started with. An answer to a control names its request, which
  holds in worlds that are \<open>fine\<close>, and every handler keeps them so.\<close>

locale relay_side = revoker "rh_revoke h" known for h :: "'w RelayHandlers" and known :: "'w \<Rightarrow> string \<Rightarrow> bool" +
  fixes fine :: "'w \<Rightarrow> bool"
  assumes control_names_request: "fine w \<Longrightarrow> rh_control h d req w = (Inr response, w1) \<Longrightarrow> cp_request_id response = cp_request_id req"
    and control_fine: "fine w \<Longrightarrow> rh_control h d req w = (r, w1) \<Longrightarrow> fine w1"
    and revoke_fine: "fine w \<Longrightarrow> rh_revoke h d w = (q, w1) \<Longrightarrow> fine w1"
    and pairing_fine: "fine w \<Longrightarrow> rh_pairing h p w = (a, w1) \<Longrightarrow> fine w1"
begin

lemma control_answered:
  "answering fine [K_Control d (cp_request_id req)]
     (chain (run_handler (rh_control h d req)) (\<lambda>result. case result of
        Inr response \<Rightarrow> send_desktop_message env (D_ControlResponse d response)
      | Inl e \<Rightarrow> chain (set_error (msg e)) (\<lambda>_. send_desktop_message env (D_ControlError d (cp_request_id req) x))))"
  (is "answering fine ?ks ?m")
  unfolding answering_def
proof (intro allI impI)
  fix c r c1
  assume fine: "fine (cl_world c)" and run: "?m c = (r, c1)"
  obtain q w1 where q: "rh_control h d req (cl_world c) = (q, w1)" by fastforce
  note f = control_fine [OF fine q]
  show "fine (cl_world c1) \<and> (\<exists>outs. cl_out c1 = cl_out c @ outs \<and> (if isl r then \<exists>rest. ?ks = answers outs @ rest else answers outs = ?ks))"
  proof (cases q)
    case (Inl e)
    with run q f show ?thesis
      by (auto simp: chain_def run_handler_def set_error_def on_status_def modify_def send_desktop_message_def client_send_def split: if_splits)
  next
    case (Inr response)
    with q control_names_request [OF fine] have "cp_request_id response = cp_request_id req" by blast
    with run q Inr f show ?thesis
      by (auto simp: chain_def run_handler_def send_desktop_message_def client_send_def split: if_splits)
  qed
qed

lemma handlers_quiet:
  "answering fine [] (run_handler (rh_revoke h d))" "answering fine [] (run_handler (rh_pairing h p))"
  by (rule answering_handler, erule (1) revoke_fine) (rule answering_handler, erule (1) pairing_fine)

lemma message_answered: "answering fine (request_key m) (server_message env h m)"
proof (cases m)
  case (DS_DeviceControl d req)
  show ?thesis unfolding DS_DeviceControl server_message_def DesktopServerMessage.case request_key.simps by (rule control_answered)
next
  case (DS_PairingRequest p conn payload)
  have "answer_key (C_Message (pairing_answer p conn result)) = [K_Pair conn]" for result
    by (simp add: pairing_answer_def split: sum.split PairingServerMessage.split)
  then have "answering fine [K_Pair conn] (send_desktop_message env (pairing_answer p conn result))" for result
    by (metis answering_send(2))
  with DS_PairingRequest show ?thesis by (auto simp: server_message_def intro!: answering_chain_quiet handlers_quiet)
next
  case (DS_DeviceRevoke d i)
  have "answering fine [K_Revoke d i] (send_desktop_message env (D_RevokeResult d i))"
      "answering fine [K_Revoke d i] (send_desktop_message env (D_RevokeError d i x))" for x
    using answering_send(2) [of fine "D_RevokeResult d i" env] answering_send(2) [of fine "D_RevokeError d i x" env] by simp_all
  with DS_DeviceRevoke show ?thesis
    by (auto simp: server_message_def split: sum.split intro!: answering_chain_quiet answering_quiet handlers_quiet)
qed (auto simp: server_message_def intro!: answering_chain_quiet answering_quiet handlers_quiet split: sum.split)

lemma read_answered:
  "answering fine (case r of Rd_Text t \<Rightarrow> (case parse t of None \<Rightarrow> [] | Some m \<Rightarrow> request_key m) | _ \<Rightarrow> []) (on_client_read env h parse r)"
  using answering_send(1) [of fine "C_Pong p" env for p]
  by (auto simp: on_client_read_def intro!: answering_chain_quiet answering_quiet message_answered split: client_read.split option.split)

lemma loop_answered: "answering fine (requests parse evs) (client_loop env h parse last_activity evs)"
proof (induction evs arbitrary: last_activity)
  case Nil
  show ?case by (simp add: answering_quiet)
next
  case (Cons ev evs)
  show ?case
  proof (cases ev)
    case Ev_Stop
    have "answering fine [] (modify (\<lambda>c. c\<lparr>cl_out := cl_out c @ [C_Close]\<rparr>))" by (simp add: answering_def modify_def)
    with Ev_Stop show ?thesis by (auto intro!: answering_chain_quiet answering_quiet)
  next
    case (Ev_Tick at)
    with Cons.IH answering_send(2) [of fine "D_Ping t" env for t] show ?thesis by (auto intro!: answering_chain_quiet answering_quiet)
  next
    case (Ev_Read at r)
    have "requests parse (ev # evs) = (case r of Rd_Text t \<Rightarrow> (case parse t of None \<Rightarrow> [] | Some m \<Rightarrow> request_key m) | _ \<Rightarrow> []) @ requests parse evs"
      using Ev_Read by (cases r) auto
    with Ev_Read show ?thesis using answering_chain [OF read_answered Cons.IH] by simp
  qed
qed

text \<open>A revocation the desktop confirmed took effect here.\<close>

lemma confirmed_revocation:
  assumes "server_message env h (DS_DeviceRevoke d i) c = (r, c1)" and "cl_out c1 = cl_out c @ [C_Message (D_RevokeResult d' i')]"
  shows "\<not> known (cl_world c1) d \<and> d' = d \<and> i' = i"
proof -
  obtain q w1 where q: "rh_revoke h d (cl_world c) = (q, w1)" by fastforce
  have "q = Inr ()"
    using assms q by (cases q) (auto simp: server_message_def chain_def run_handler_def set_error_def on_status_def modify_def
        send_desktop_message_def client_send_def split: if_splits)
  with revoke_drops q assms show ?thesis
    by (auto simp: server_message_def chain_def run_handler_def send_desktop_message_def client_send_def split: if_splits)
qed

end

section \<open>Waiting\<close>

lemma jittered_delay_eq:
  assumes "1 \<le> s"
  shows "jittered_delay now s = s * (800 + unat now mod 401)"
proof -
  let ?k = "800 + unat now mod 401"
  have "int s * 1000 * (1000 + (int (unat now mod 401) - 200)) div 1000 = int (s * ?k)" by (simp add: algebra_simps)
  moreover have "200 \<le> s * ?k" using mult_le_mono [OF assms, of 800 ?k] by simp
  moreover have "max (int n) 200 = int n" if "200 \<le> n" for n using that by simp
  then have "max (int (s * ?k)) 200 = int (s * ?k)" using calculation(2) by blast
  ultimately show ?thesis unfolding jittered_delay_def Let_def by (simp only: nat_int)
qed

lemma jitter_bounds:
  assumes "1 \<le> s"
  shows "800 * s \<le> jittered_delay now s \<and> jittered_delay now s \<le> 1200 * s"
proof -
  have "unat now mod 401 \<le> 400" using mod_less_divisor [of 401 "unat now"] by linarith
  then have "s * 800 \<le> s * (800 + unat now mod 401)" "s * (800 + unat now mod 401) \<le> s * 1200" by (intro mult_le_mono; simp)+
  with jittered_delay_eq [OF assms, of now] show ?thesis by (simp add: mult.commute)
qed

lemma reconnect_base_bounds: "1 \<le> reconnect_base n \<and> reconnect_base n \<le> 30"
proof -
  have "min (unat n - 1) 4 \<in> {0, 1, 2, 3, 4}" by auto
  then show ?thesis by (auto simp: reconnect_base_def RECONNECT_DELAYS_def)
qed

text \<open>Rounds as the clock gives them: time does not run back, and a round that sleeps sleeps.\<close>

fun timed :: "bool \<Rightarrow> nat \<Rightarrow> nat \<Rightarrow> RecoveryRound list \<Rightarrow> bool" where
  "timed probing deadline from [] = True"
| "timed probing deadline from (r # rs) \<longleftrightarrow> from \<le> rr_at r \<and> rr_at r \<le> rr_then r
     \<and> timed probing deadline (rr_then r + recovery_sleep probing (deadline - rr_then r)) rs"

lemma wait_settles:
  assumes "timed probing deadline from rs" and "from \<le> deadline" and "deadline - from < 200 * (length rs - 1)"
  shows "wait_for_network_recovery probing deadline saw rs \<noteq> None"
  using assms
proof (induction rs arbitrary: "from" saw)
  case (Cons r rs)
  let ?next = "rr_then r + recovery_sleep probing (deadline - rr_then r)"
  show ?case
  proof (cases "deadline \<le> rr_then r")
    case False
    have step: "?next \<le> deadline" "?next \<ge> min deadline (from + 200)"
      using Cons.prems(1) False by (auto simp: recovery_sleep_def RECOVERY_PROBE_INTERVAL_def min_def)
    have "rs \<noteq> []" using Cons.prems(3) by (cases rs) auto
    show ?thesis
    proof (cases "?next = deadline")
      case True
      obtain r2 rs2 where rs: "rs = r2 # rs2" using \<open>rs \<noteq> []\<close> by (cases rs) auto
      with Cons.prems(1) True have "deadline \<le> rr_at r2" by simp
      then show ?thesis using rs by (simp del: not_None_eq)
    next
      case False
      then have "from + 200 \<le> ?next" using step Cons.prems(2) by (auto simp: min_def split: if_splits)
      moreover have "timed probing deadline ?next rs" using Cons.prems(1) by simp
      moreover have "deadline - ?next < 200 * (length rs - 1)"
        using Cons.prems(3) calculation(1) step(1) False \<open>rs \<noteq> []\<close> by (cases rs) auto
      ultimately show ?thesis using Cons.IH [of ?next] step(1) by (simp del: not_None_eq)
    qed
  qed (simp del: not_None_eq)
qed simp

lemma recovered_after_outage:
  "wait_for_network_recovery probing deadline saw rs = Some True \<Longrightarrow>
     probing \<and> (\<exists>r \<in> set rs. rr_probe r = Probe_Reachable \<and> rr_at r < deadline) \<and> (saw \<or> (\<exists>r \<in> set rs. rr_probe r = Probe_Unreachable))"
proof (induction probing deadline saw rs rule: wait_for_network_recovery.induct)
  case (2 probing deadline saw r rs)
  then show ?case by (cases "rr_probe r") (auto split: if_splits)
qed simp

section \<open>Numbers of uploads\<close>

text \<open>What the uploads of a device look like: numbered with growing numbers, none above the last one counted.\<close>

definition uploads_of :: "string \<Rightarrow> Upload list \<Rightarrow> u64 list" where
  "uploads_of url us = map (sn_sequence \<circ> ul_snapshot) (filter (\<lambda>x. ul_url x = url) us)"

definition counted :: "Uploader \<Rightarrow> string \<Rightarrow> nat" where
  "counted u d = (case up_sequences u d of None \<Rightarrow> 0 | Some n \<Rightarrow> unat n)"

definition upload_url :: "string \<Rightarrow> RelayCredentials \<Rightarrow> string \<Rightarrow> string" where
  "upload_url base credentials d = base @ ''/v1/desktops/'' @ rc_desktop_id credentials @ ''/devices/'' @ d @ ''/snapshot''"

lemma upload_url_inject [simp]: "upload_url base credentials d = upload_url base credentials e \<longleftrightarrow> d = e"
  by (simp add: upload_url_def)

definition growing :: "string \<Rightarrow> RelayCredentials \<Rightarrow> string \<Rightarrow> Uploader \<Rightarrow> bool" where
  "growing base credentials session_id u \<longleftrightarrow>
     (\<forall>d. sorted_wrt (<) (uploads_of (upload_url base credentials d) (up_out u))
        \<and> (\<forall>n \<in> set (uploads_of (upload_url base credentials d) (up_out u)). unat n \<le> counted u d))
     \<and> (\<forall>x \<in> set (up_out u). sn_session_id (ul_snapshot x) = session_id)"

lemma encrypt_snapshot_names:
  "encrypt_snapshot cr rnd key desktop d i n g plain = Inr sn \<Longrightarrow> sn_session_id sn = i \<and> sn_sequence sn = n"
  by (auto simp: encrypt_snapshot_def split: sum.splits)

text \<open>One upload: a new number for its device, and at most one call that carries it.\<close>

lemma upload_snapshot_cases:
  assumes "upload_snapshot env cr key base credentials i source u = u1"
  obtains (unsent) "up_out u1 = up_out u" "up_sequences u1 = (up_sequences u)(so_device_id source \<mapsto>
      sat_add64 (case up_sequences u (so_device_id source) of None \<Rightarrow> 0 | Some n \<Rightarrow> n) 1)"
  | (sent) x where "up_out u1 = up_out u @ [x]" "ul_url x = upload_url base credentials (so_device_id source)"
      "sn_session_id (ul_snapshot x) = i" "up_sequences u1 = (up_sequences u)(so_device_id source \<mapsto> sn_sequence (ul_snapshot x))"
      "sn_sequence (ul_snapshot x) = sat_add64 (case up_sequences u (so_device_id source) of None \<Rightarrow> 0 | Some n \<Rightarrow> n) 1"
proof -
  let ?n = "sat_add64 (case up_sequences u (so_device_id source) of None \<Rightarrow> 0 | Some n \<Rightarrow> n) 1"
  show ?thesis
  proof (cases "encrypt_snapshot cr (ue_nonce env (up_calls u)) key (rc_desktop_id credentials) (so_device_id source) i ?n
      (ue_now env (up_calls u)) (so_plaintext source)")
    case (Inl e)
    with assms show ?thesis by (intro unsent) (auto simp: upload_snapshot_def upload_failed_def Let_def)
  next
    case (Inr sn)
    with assms encrypt_snapshot_names [OF Inr] show ?thesis
      by (intro sent [of "\<lparr>ul_url = upload_url base credentials (so_device_id source), ul_bearer = rc_desktop_token credentials, ul_snapshot = sn\<rparr>"])
        (auto simp: upload_snapshot_def upload_failed_def upload_url_def Let_def split: sum.split)
  qed
qed

lemma counted_step:
  assumes "up_sequences u1 = (up_sequences u)(e \<mapsto> sat_add64 (case up_sequences u e of None \<Rightarrow> 0 | Some n \<Rightarrow> n) 1)"
    and "counted u e < 2 ^ 64 - 1"
  shows "counted u1 d = (if d = e then Suc (counted u e) else counted u d)"
  using assms sat_add64_one [of "0"] sat_add64_one [of "the (up_sequences u e)"] by (auto simp: counted_def split: option.splits)

lemma uploads_of_snoc:
  "uploads_of url (xs @ [x]) = uploads_of url xs @ (if ul_url x = url then [sn_sequence (ul_snapshot x)] else [])"
  by (simp add: uploads_of_def)

lemma upload_growing:
  assumes "growing base credentials i u" and "counted u (so_device_id source) < 2 ^ 64 - 1"
  shows "growing base credentials i (upload_snapshot env cr key base credentials i source u)
    \<and> (\<forall>d. counted (upload_snapshot env cr key base credentials i source u) d \<le> Suc (counted u d))"
proof -
  let ?u1 = "upload_snapshot env cr key base credentials i source u" and ?e = "so_device_id source"
  have "?u1 = ?u1" by simp
  then show ?thesis
  proof (cases rule: upload_snapshot_cases)
    case unsent
    note c = counted_step [OF unsent(2) assms(2)]
    with assms(1) unsent(1) show ?thesis unfolding growing_def c by (auto intro: le_SucI)
  next
    case (sent x)
    have seq: "up_sequences ?u1 = (up_sequences u)(?e \<mapsto> sat_add64 (case up_sequences u ?e of None \<Rightarrow> 0 | Some n \<Rightarrow> n) 1)"
      using sent(4,5) by simp
    note c = counted_step [OF this assms(2)]
    have n: "unat (sn_sequence (ul_snapshot x)) = Suc (counted u ?e)"
      using c [of ?e] sent(4) by (simp add: counted_def)
    have "sorted_wrt (<) (uploads_of (upload_url base credentials d) (up_out ?u1))
        \<and> (\<forall>m \<in> set (uploads_of (upload_url base credentials d) (up_out ?u1)). unat m \<le> counted ?u1 d)" for d
      using assms(1) n unfolding growing_def sent(1,2) uploads_of_snoc c
      by (auto simp: sorted_wrt_append word_less_nat_alt less_Suc_eq_le sent(2) intro: le_SucI)
    moreover have "\<forall>y \<in> set (up_out ?u1). sn_session_id (ul_snapshot y) = i"
      using assms(1) sent(1,3) by (auto simp: growing_def)
    ultimately show ?thesis using c by (simp add: growing_def)
  qed
qed

lemma uploads_growing:
  assumes "growing base credentials i u" and "\<forall>d. counted u d + length sources < 2 ^ 64"
  shows "growing base credentials i (fold (upload_snapshot env cr key base credentials i) sources u)
    \<and> (\<forall>d. counted (fold (upload_snapshot env cr key base credentials i) sources u) d \<le> counted u d + length sources)"
  using assms
proof (induction sources arbitrary: u)
  case (Cons source sources)
  let ?u1 = "upload_snapshot env cr key base credentials i source u"
  have "counted u (so_device_id source) < 2 ^ 64 - 1" using Cons.prems(2) [rule_format, of "so_device_id source"] by simp
  from upload_growing [OF Cons.prems(1) this] have u1: "growing base credentials i ?u1" "counted ?u1 d \<le> Suc (counted u d)" for d by blast+
  have "\<forall>d. counted ?u1 d + length sources < 2 ^ 64"
    using u1(2) Cons.prems(2) by (metis add_Suc_shift add_le_mono1 length_Cons order_le_less_trans add_Suc_right add_Suc)
  from Cons.IH [OF u1(1) this] u1(2) show ?case by (auto intro: order_trans add_mono)
qed simp

lemma ticks_growing:
  assumes "growing base credentials i u" and "\<forall>d. counted u d + length (concat (map snd ticks)) < 2 ^ 64"
  shows "growing base credentials i (upload_ticks env cr key base enabled credentials i ticks u)"
  using assms
proof (induction ticks arbitrary: u)
  case (Cons tick ticks)
  obtain stopped sources where tick: "tick = (stopped, sources)" by fastforce
  let ?u1 = "fold (upload_snapshot env cr key base credentials i) sources u"
  have le: "\<forall>d. counted u d + length sources < 2 ^ 64"
    using Cons.prems(2) tick by (auto dest: add_lessD1 simp: add.assoc [symmetric])
  note g = uploads_growing [OF Cons.prems(1) le, of env cr key]
  have "\<forall>d. counted ?u1 d + length (concat (map snd ticks)) < 2 ^ 64"
  proof
    fix d
    have "counted ?u1 d \<le> counted u d + length sources" using g by blast
    moreover have "counted u d + (length sources + length (concat (map snd ticks))) < 2 ^ 64"
      using Cons.prems(2) [rule_format, of d] tick by simp
    ultimately show "counted ?u1 d + length (concat (map snd ticks)) < 2 ^ 64" by linarith
  qed
  with Cons.IH [of ?u1] g tick Cons.prems(1) show ?case by (cases enabled) simp_all
qed simp

section \<open>An instance\<close>

definition demo_client :: "unit Client" where
  "demo_client = \<lparr>cl_world = (), cl_status = default_relay_status, cl_out = [], cl_calls = 0\<rparr>"

definition demo_handlers :: "unit RelayHandlers" where
  "demo_handlers = \<lparr>rh_snapshots = \<lambda>w. ([], w), rh_pairing = \<lambda>_. raise ''no'', rh_revoke = \<lambda>_. raise ''no'', rh_control = \<lambda>_ _. raise ''no''\<rparr>"

definition demo_client_env :: ClientEnv where
  "demo_client_env = \<lparr>ce_now = of_nat, ce_sent = \<lambda>_. True\<rparr>"

definition demo_relay_settings :: RelaySettings where
  "demo_relay_settings = \<lparr>rl_enabled = True, rl_base_url = ''https://r.example''\<rparr>"

definition demo_credentials :: RelayCredentials where
  "demo_credentials = \<lparr>rc_base_url = ''https://r.example'', rc_desktop_id = ''d_1'', rc_desktop_token = ''s''\<rparr>"

text \<open>A round whose session is acknowledged and then closed by the relay, and whose wait ends at its deadline.\<close>

definition demo_loop_round :: LoopRound where
  "demo_loop_round = \<lparr>lp_stop_before = False, lp_connect = \<lambda>_. Connected, lp_start = 0, lp_events = [Ev_Read 1 (Rd_Text ''ack''), Ev_Read 2 Rd_End],
     lp_stop_after = False, lp_now = 0, lp_wait_from = 2, lp_probing = True,
     lp_waits = [\<lparr>rr_at = 36002, rr_probe = Probe_Reachable, rr_then = 36002, rr_stopped = False\<rparr>]\<rparr>"

definition demo_parse_server :: "string \<Rightarrow> DesktopServerMessage option" where
  "demo_parse_server t = (if t = ''ack'' then Some (DS_HelloAck ''s_1'' 7 []) else None)"

lemma demo_wait: "round_wait demo_relay_settings k demo_loop_round = Some False"
proof -
  have "jittered_delay 0 (reconnect_base k) \<le> 36000"
    using jitter_bounds [of "reconnect_base k" 0] reconnect_base_bounds [of k] by linarith
  then show ?thesis by (simp add: round_wait_def demo_loop_round_def)
qed

section \<open>Properties\<close>

text \<open>C28: the status of the relay is honest. It says connected only with the session id the relay acknowledged in a session of
  this run, never while connecting, and once the client has ended it says neither; an error of a session never
  ends the client.\<close>

theorem relay_status_honest:
  assumes "relay_loop env h parse app_version platform settings credentials 0 rs c = (r, c1)" and "\<not> ry_connected (cl_status c)"
  shows "\<not> isl r
    \<and> (ry_connected (cl_status c1) \<longrightarrow> \<not> ry_connecting (cl_status c1) \<and> (\<exists>i \<in> round_acks parse rs. ry_session_id (cl_status c1) = Some i))
    \<and> (r = Inr True \<longrightarrow> \<not> ry_connected (cl_status c1) \<and> \<not> ry_connecting (cl_status c1) \<and> ry_session_id (cl_status c1) = None)"
  using relay_loop_honest [OF assms(1), of "round_acks parse rs"] assms(2) by (auto simp: honest_def)

theorem relay_status_honest_witness:
  "\<exists>r c1. relay_loop demo_client_env demo_handlers demo_parse_server ''1'' ''linux'' demo_relay_settings demo_credentials 0
      [demo_loop_round\<lparr>lp_events := [Ev_Read 1 (Rd_Text ''ack'')]\<rparr>] demo_client = (r, c1)
    \<and> ry_connected (cl_status c1) \<and> ry_session_id (cl_status c1) = Some ''s_1''"
proof -
  let ?rs = "[demo_loop_round\<lparr>lp_events := [Ev_Read 1 (Rd_Text ''ack'')]\<rparr>]"
  obtain r c1 where r: "relay_loop demo_client_env demo_handlers demo_parse_server ''1'' ''linux'' demo_relay_settings demo_credentials 0 ?rs demo_client = (r, c1)"
    by (metis surj_pair)
  have "websocket_url ''https://r.example'' (''/v1/ws/desktop?desktopId='' @ ''d_1'') = Inr ''wss://r.example/v1/ws/desktop?desktopId=d_1''"
    by code_simp
  moreover have "header_value_ok (''Bearer '' @ ''s'')" by code_simp
  ultimately have "ry_connected (cl_status c1)"
    using r by (auto simp: demo_loop_round_def relay_session_def demo_relay_settings_def demo_credentials_def chain_def and_then_always_def on_status_def
        modify_def from_result_def send_desktop_message_def client_send_def demo_client_env_def client_now_def on_client_read_def
        demo_parse_server_def server_message_def greeted_def give_def demo_client_def)
  moreover have "\<not> ry_connected (cl_status demo_client)" by (simp add: demo_client_def default_relay_status_def)
  moreover have "round_acks demo_parse_server ?rs = {''s_1''}" by (simp add: round_acks_def demo_loop_round_def demo_parse_server_def)
  ultimately show ?thesis using relay_status_honest [OF r] r by auto
qed



text \<open>The snapshots uploaded for a phone are numbered with strictly growing numbers under one session id, whatever fails
  in between: encryption, the network or the relay.\<close>

theorem uploads_numbered:
  assumes "snapshot_http_loop env cr master_key settings credentials session_id ticks
      \<lparr>up_sequences = Map.empty, up_status = status, up_out = [], up_calls = 0\<rparr> = u"
    and "normalized_base_url (rl_base_url settings) = Inr base" and "length (concat (map snd ticks)) < 2 ^ 64"
  shows "sorted_wrt (<) (uploads_of (upload_url base credentials device_id) (up_out u))
    \<and> (\<forall>x \<in> set (up_out u). sn_session_id (ul_snapshot x) = session_id)"
proof -
  let ?u = "\<lparr>up_sequences = Map.empty, up_status = status, up_out = [], up_calls = 0\<rparr>"
  have "growing base credentials session_id ?u" "\<forall>d. counted ?u d + length (concat (map snd ticks)) < 2 ^ 64"
    using assms(3) by (auto simp: growing_def uploads_of_def counted_def)
  from ticks_growing [OF this, of env cr master_key "rl_enabled settings"] assms(1,2) show ?thesis
    by (auto simp: snapshot_http_loop_def growing_def)
qed

theorem uploads_numbered_witness:
  "sorted_wrt (<) (uploads_of (upload_url ''https://r.example'' demo_credentials ''dev_1'')
     (up_out (snapshot_http_loop \<lparr>ue_now = of_nat, ue_nonce = \<lambda>_. Some (replicate 12 7), ue_answer = \<lambda>_. Inr 200\<rparr> demo_crypto [1] demo_relay_settings
        demo_credentials ''s_1'' [(False, [\<lparr>so_device_id = ''dev_1'', so_plaintext = [9]\<rparr>]), (False, [\<lparr>so_device_id = ''dev_1'', so_plaintext = [8]\<rparr>])]
        \<lparr>up_sequences = Map.empty, up_status = default_relay_status, up_out = [], up_calls = 0\<rparr>)))"
proof -
  have "normalized_base_url (rl_base_url demo_relay_settings) = Inr ''https://r.example''"
    unfolding demo_relay_settings_def by code_simp
  from uploads_numbered [OF refl this] show ?thesis by simp
qed

text \<open>The delay before a reconnect never falls again. The count of failures it is taken from goes on through sessions that
  the relay acknowledged; after five losses, however far apart, every reconnect waits for half a minute, unless the
  wait sees the relay go and come back.\<close>

lemma loop_closed: "client_loop env h parse last_activity (evs @ [Ev_Read at Rd_End]) c \<noteq> (Inr False, c1)"
proof (induction evs arbitrary: last_activity c)
  case Nil
  then show ?case by (simp add: chain_def on_client_read_def raise_def)
next
  case (Cons ev evs)
  then show ?case
    by (cases ev) (auto simp: chain_def give_def modify_def raise_def split: prod.splits sum.splits)
qed

lemma session_closed:
  "relay_session env h parse v p settings credentials connect start (evs @ [Ev_Read at Rd_End]) c = (q, c1) \<Longrightarrow> q \<noteq> Inr False"
  by (auto simp: relay_session_def chain_def give_def raise_def from_result_def on_status_def modify_def loop_closed
      split: prod.splits sum.splits if_splits connect_result.splits)

lemma closed_rounds_count:
  assumes "\<forall>r \<in> set rs. \<not> lp_stop_before r \<and> \<not> lp_stop_after r \<and> (\<exists>evs at. lp_events r = evs @ [Ev_Read at Rd_End])
      \<and> (\<forall>k. round_wait settings k r = Some False)"
    and "rl_enabled settings" and "relay_loop env h parse v p settings credentials tries rs c = (q, c1)"
    and "unat tries + length rs < 2 ^ 32" and "rs = [] \<Longrightarrow> ry_reconnect_attempt (cl_status c) = tries"
  shows "q = Inr False \<and> unat (ry_reconnect_attempt (cl_status c1)) = unat tries + length rs"
  using assms
proof (induction rs arbitrary: tries c)
  case (Cons x rs)
  obtain r c2 where r: "relay_session env h parse v p settings credentials (lp_connect x) (lp_start x) (lp_events x) c = (r, c2)" by (metis surj_pair)
  have x: "\<not> lp_stop_before x" "\<not> lp_stop_after x" "round_wait settings k x = Some False" "r \<noteq> Inr False" for k
    using Cons.prems(1) session_closed r by fastforce+
  let ?c3 = "c2\<lparr>cl_status := lost (sat_succ32 tries) r (cl_status c2)\<rparr>"
  have n: "unat (sat_succ32 tries) = Suc (unat tries)"
    using Cons.prems(4) by (auto simp: sat_succ32_def unat_word_ariths)
  have "relay_loop env h parse v p settings credentials (sat_succ32 tries) rs ?c3 = (q, c1)"
    using Cons.prems(2,3) r x by (simp add: and_then_always_def chain_def on_status_def modify_def Let_def)
  from Cons.IH [OF _ Cons.prems(2) this] Cons.prems(1,4) n show ?case by (simp add: lost_def)
qed (auto simp: give_def)

theorem backoff_never_reset:
  assumes "\<forall>r \<in> set rs. \<not> lp_stop_before r \<and> \<not> lp_stop_after r \<and> (\<exists>evs at. lp_events r = evs @ [Ev_Read at Rd_End])
      \<and> (\<forall>k. round_wait settings k r = Some False)"
    and "rl_enabled settings" and "relay_loop env h parse app_version platform settings credentials 0 rs c = (q, c1)"
    and "5 \<le> length rs" and "length rs < 2 ^ 32"
  shows "unat (ry_reconnect_attempt (cl_status c1)) = length rs \<and> reconnect_base (ry_reconnect_attempt (cl_status c1)) = 30"
proof -
  have "unat (ry_reconnect_attempt (cl_status c1)) = length rs"
    using closed_rounds_count [OF assms(1-3)] assms(4,5) by (cases rs) auto
  moreover have "RECONNECT_DELAYS ! 4 = 30" by (simp add: RECONNECT_DELAYS_def)
  ultimately show ?thesis using assms(4) by (simp add: reconnect_base_def min_def RECONNECT_DELAYS_def)
qed

theorem backoff_never_reset_witness:
  "\<exists>q c1. relay_loop demo_client_env demo_handlers demo_parse_server ''1'' ''linux'' demo_relay_settings demo_credentials 0
      (replicate 5 demo_loop_round) demo_client = (q, c1)
    \<and> reconnect_base (ry_reconnect_attempt (cl_status c1)) = 30"
proof -
  obtain q c1 where q: "relay_loop demo_client_env demo_handlers demo_parse_server ''1'' ''linux'' demo_relay_settings demo_credentials 0
      (replicate 5 demo_loop_round) demo_client = (q, c1)" by (metis surj_pair)
  have evs: "\<exists>evs at. lp_events demo_loop_round = evs @ [Ev_Read at Rd_End]"
    by (intro exI [of _ "[Ev_Read 1 (Rd_Text ''ack'')]"] exI [of _ 2]) (simp add: demo_loop_round_def)
  have "reconnect_base (ry_reconnect_attempt (cl_status c1)) = 30"
  proof (rule conjunct2 [OF backoff_never_reset [OF _ _ q]])
    show "\<forall>r \<in> set (replicate 5 demo_loop_round). \<not> lp_stop_before r \<and> \<not> lp_stop_after r \<and> (\<exists>evs at. lp_events r = evs @ [Ev_Read at Rd_End])
      \<and> (\<forall>k. round_wait demo_relay_settings k r = Some False)"
      using evs demo_wait by (simp add: demo_loop_round_def)
  qed (simp_all add: demo_relay_settings_def)
  with q show ?thesis by blast
qed

end
