(* ===== verification/Monitor_Http.thy ===== *)
theory Monitor_Http
  imports Relay_Messages
begin

text \<open>
  The HTTP of the desktop's local monitor server (\<^verbatim>\<open>src-tauri/src/monitor_server.rs\<close>), which the program parses
  itself: reading and parsing the head of a request, its query and the percent encoding. Text is its bytes.
\<close>

section \<open>Bytes as text\<close>

text \<open>\<^verbatim>\<open>String::from_utf8_lossy\<close>: \<open>utf8_step\<close> looks at the first code point and says whether it is well formed and how
  many bytes it has, or how long the malformed part is that becomes one replacement character.\<close>

definition utf8_lead :: "nat \<Rightarrow> nat" where
  "utf8_lead a = (if a < 128 then 1 else if 194 \<le> a \<and> a \<le> 223 then 2 else if 224 \<le> a \<and> a \<le> 239 then 3
     else if 240 \<le> a \<and> a \<le> 244 then 4 else 0)"

definition utf8_second :: "nat \<Rightarrow> nat \<Rightarrow> bool" where
  "utf8_second a b \<longleftrightarrow> (if a = 224 then 160 \<le> b \<and> b \<le> 191 else if a = 237 then 128 \<le> b \<and> b \<le> 159
     else if a = 240 then 144 \<le> b \<and> b \<le> 191 else if a = 244 then 128 \<le> b \<and> b \<le> 143 else 128 \<le> b \<and> b \<le> 191)"

definition utf8_step :: "nat list \<Rightarrow> bool \<times> nat" where
  "utf8_step t = (case t of [] \<Rightarrow> (True, 1) | a # r \<Rightarrow>
     let n = utf8_lead a in
     if n = 0 then (False, 1) else if n = 1 then (True, 1)
     else (case r of [] \<Rightarrow> (False, 1) | b # r2 \<Rightarrow>
       if \<not> utf8_second a b then (False, 1) else if n = 2 then (True, 2)
       else (case r2 of [] \<Rightarrow> (False, 2) | c # r3 \<Rightarrow>
         if \<not> (128 \<le> c \<and> c \<le> 191) then (False, 2) else if n = 3 then (True, 3)
         else (case r3 of [] \<Rightarrow> (False, 3) | d # _ \<Rightarrow> if 128 \<le> d \<and> d \<le> 191 then (True, 4) else (False, 3)))))"

lemma utf8_step_pos [simp]: "0 < snd (utf8_step t)"
  by (auto simp: utf8_step_def Let_def split: list.splits)

function lossy :: "string \<Rightarrow> string" where
  "lossy t = (if t = [] then []
     else (if fst (utf8_step (map code t)) then take (snd (utf8_step (map code t))) t else [CHR 0xEF, CHR 0xBF, CHR 0xBD])
       @ lossy (drop (snd (utf8_step (map code t))) t))"
  by pat_completeness auto
termination
  by (relation "measure length") auto

declare lossy.simps [simp del]

section \<open>The head of a request\<close>

definition MAX_HTTP_HEADER_BYTES :: nat where "MAX_HTTP_HEADER_BYTES = 16 * 1024"
definition HELLO_TIMEOUT :: nat where "HELLO_TIMEOUT = 5000"

abbreviation CR :: char where "CR \<equiv> CHR 0x0D"
abbreviation LF :: char where "LF \<equiv> CHR 0x0A"

fun head_end :: "string \<Rightarrow> nat option" where
  "head_end (a # b # c # d # r) =
     (if a = CR \<and> b = LF \<and> c = CR \<and> d = LF then Some 0 else map_option Suc (head_end (b # c # d # r)))"
| "head_end _ = None"

text \<open>A read gives bytes, the end of the stream, nothing within the timeout, or an error. Each round of the loop
  looks at the clock (milliseconds since the start) before it reads; \<open>None\<close>: still waiting.\<close>

datatype read_result = Got string | Closed | Nothing_Yet | Broken

fun read_head :: "string \<Rightarrow> (nat \<times> read_result) list \<Rightarrow> (string + string) option" where
  "read_head bytes [] =
     (if head_end bytes \<noteq> None then Some (Inr bytes)
      else if MAX_HTTP_HEADER_BYTES \<le> length bytes then Some (Inl ''the request head is too large'') else None)"
| "read_head bytes ((elapsed, r) # rest) =
     (if head_end bytes \<noteq> None then Some (Inr bytes)
      else if MAX_HTTP_HEADER_BYTES \<le> length bytes then Some (Inl ''the request head is too large'')
      else if HELLO_TIMEOUT < elapsed then Some (Inl ''the request head did not arrive in time'')
      else case r of
        Got chunk \<Rightarrow> if chunk = [] then Some (Inl ''the connection was closed'') else read_head (bytes @ chunk) rest
      | Closed \<Rightarrow> Some (Inl ''the connection was closed'')
      | Nothing_Yet \<Rightarrow> read_head bytes rest
      | Broken \<Rightarrow> Some (Inl ''read failed''))"

fun split_crlf :: "string \<Rightarrow> string list" where
  "split_crlf [] = [[]]"
| "split_crlf [c] = [[c]]"
| "split_crlf (c # d # r) =
     (if c = CR \<and> d = LF then [] # split_crlf r
      else case split_crlf (d # r) of [] \<Rightarrow> [[c]] | l # ls \<Rightarrow> (c # l) # ls)"

fun take_word :: "string \<Rightarrow> string" where
  "take_word [] = []"
| "take_word (c # cs) = (if ws_len (map code (c # cs)) \<noteq> 0 then [] else c # take_word cs)"

text \<open>\<^verbatim>\<open>split_whitespace().next().unwrap_or_default()\<close>, with the rest.\<close>

definition next_word :: "string \<Rightarrow> string \<times> string" where
  "next_word t = (let u = strip_ws ws_len t in (take_word u, drop (length (take_word u)) u))"

definition ascii_upper :: "char \<Rightarrow> char" where
  "ascii_upper c = (if 97 \<le> code c \<and> code c \<le> 122 then char_of (code c - 32) else c)"

definition eq_ignore_ascii_case :: "string \<Rightarrow> string \<Rightarrow> bool" where
  "eq_ignore_ascii_case a b \<longleftrightarrow> to_ascii_lowercase a = to_ascii_lowercase b"

definition split_once :: "char \<Rightarrow> string \<Rightarrow> (string \<times> string) option" where
  "split_once d t = (if d \<in> set t then Some (takeWhile (\<lambda>c. c \<noteq> d) t, tl (dropWhile (\<lambda>c. c \<noteq> d) t)) else None)"

record HttpRequestHead =
  hh_method :: string
  hh_path :: string
  hh_bearer_token :: "string option"
  hh_websocket_upgrade :: bool

definition bearer_value :: "string \<Rightarrow> string option" where
  "bearer_value v = (case strip_prefix ''Bearer '' v of
       None \<Rightarrow> None
     | Some t \<Rightarrow> if trim t = [] then None else Some (trim t))"

definition head_line :: "string \<Rightarrow> HttpRequestHead \<Rightarrow> HttpRequestHead" where
  "head_line l head =
     (case split_once CHR '':'' l of
        None \<Rightarrow> head
      | Some (name, v) \<Rightarrow>
          if eq_ignore_ascii_case (trim name) ''authorization'' then head\<lparr>hh_bearer_token := bearer_value (trim v)\<rparr>
          else if eq_ignore_ascii_case (trim name) ''upgrade'' \<and> eq_ignore_ascii_case (trim v) ''websocket''
          then head\<lparr>hh_websocket_upgrade := True\<rparr>
          else head)"

definition parse_head :: "string \<Rightarrow> string + HttpRequestHead" where
  "parse_head bytes =
     (case head_end bytes of
        None \<Rightarrow> Inl ''the request head is malformed''
      | Some n \<Rightarrow>
         (let ls = split_crlf (lossy (take (n + 4) bytes));
              (word, rest) = next_word (hd ls);
              http_method = map ascii_upper word;
              path = fst (next_word rest)
          in if http_method = [] \<or> path = [] then Inl ''the request line is malformed''
             else Inr (fold head_line (tl ls)
               \<lparr>hh_method = http_method, hh_path = path, hh_bearer_token = None, hh_websocket_upgrade = False\<rparr>)))"

definition read_http_request_head :: "(nat \<times> read_result) list \<Rightarrow> (string + string \<times> HttpRequestHead) option" where
  "read_http_request_head reads =
     (case read_head [] reads of
        None \<Rightarrow> None
      | Some (Inl e) \<Rightarrow> Some (Inl e)
      | Some (Inr bytes) \<Rightarrow> Some (case parse_head bytes of Inl e \<Rightarrow> Inl e | Inr head \<Rightarrow> Inr (bytes, head)))"

section \<open>Query and percent encoding\<close>

text \<open>Two characters after a percent sign are sliced out of the text; a slice that ends inside a character panics
  (\<open>None\<close>).\<close>

function percent_bytes :: "string \<Rightarrow> string option" where
  "percent_bytes [] = Some []"
| "percent_bytes (c # cs) =
     (if c = CHR ''%'' \<and> 2 \<le> length cs then
        if 2 < length cs \<and> utf8_cont (cs ! 2) then None
        else (case from_str_radix16_u8 (take 2 cs) of
               Some b \<Rightarrow> map_option (\<lambda>r. char_of (unat b) # r) (percent_bytes (drop 2 cs))
             | None \<Rightarrow> map_option (\<lambda>r. c # r) (percent_bytes cs))
      else map_option (\<lambda>r. (if c = CHR ''+'' then CHR '' '' else c) # r) (percent_bytes cs))"
  by pat_completeness auto
termination
  by (relation "measure length") auto

definition percent_decode :: "string \<Rightarrow> string option" where
  "percent_decode v = map_option lossy (percent_bytes v)"

fun query_pairs :: "string list \<Rightarrow> (string \<rightharpoonup> string) \<Rightarrow> (string \<rightharpoonup> string) option" where
  "query_pairs [] m = Some m"
| "query_pairs (part # ps) m =
     (case split_once CHR ''='' part of
        None \<Rightarrow> query_pairs ps m
      | Some (k, v) \<Rightarrow>
         (case percent_decode k of None \<Rightarrow> None
          | Some k' \<Rightarrow> (case percent_decode v of None \<Rightarrow> None | Some v' \<Rightarrow> query_pairs ps (m(k' \<mapsto> v')))))"

definition parse_query :: "string \<Rightarrow> (string \<rightharpoonup> string) option" where
  "parse_query uri =
     (case split_once CHR ''?'' uri of
        None \<Rightarrow> Some Map.empty
      | Some (_, query) \<Rightarrow> query_pairs (split_on CHR ''&'' query) Map.empty)"

definition route_of :: "string \<Rightarrow> string" where
  "route_of uri = hd (split_on CHR ''?'' uri)"

section \<open>Facts\<close>

definition ascii :: "string \<Rightarrow> bool" where
  "ascii t \<longleftrightarrow> (\<forall>c \<in> set t. code c < 128)"

lemma ascii_simps [simp]: "ascii []" "ascii (c # cs) \<longleftrightarrow> code c < 128 \<and> ascii cs" "ascii (s @ t) \<longleftrightarrow> ascii s \<and> ascii t"
  by (auto simp: ascii_def)

lemma graphic_ascii: "graphic t \<Longrightarrow> ascii t"
  by (auto simp: graphic_def ascii_def)

lemma lossy_ascii: "ascii t \<Longrightarrow> lossy t = t"
proof (induction t)
  case (Cons c cs)
  then show ?case by (simp add: lossy.simps [of "c # cs"] utf8_step_def utf8_lead_def)
qed (simp add: lossy.simps)

subsection \<open>Reading the head\<close>

lemma read_head_done: "read_head bytes reads = Some (Inr r) \<Longrightarrow> head_end r \<noteq> None"
  by (induction bytes reads rule: read_head.induct) (auto split: if_splits read_result.splits)

lemma read_head_bound:
  assumes "read_head bytes reads = Some (Inr r)" and "length bytes < MAX_HTTP_HEADER_BYTES + 1024"
    and "list_all (\<lambda>(_, x). case x of Got chunk \<Rightarrow> length chunk \<le> 1024 | _ \<Rightarrow> True) reads"
  shows "length r < MAX_HTTP_HEADER_BYTES + 1024"
  using assms
proof (induction bytes reads rule: read_head.induct)
  case (2 bytes elapsed x rest)
  then show ?case by (cases x) (auto split: if_splits)
qed (auto split: if_splits)

lemma read_head_settles:
  "\<exists>(t, x) \<in> set reads. HELLO_TIMEOUT < t \<Longrightarrow> read_head bytes reads \<noteq> None"
proof (induction bytes reads rule: read_head.induct)
  case (2 bytes elapsed x rest)
  then show ?case by (cases x) auto
qed simp

lemma head_end_short: "length t < 4 \<Longrightarrow> head_end t = None"
  by (cases t rule: head_end.cases) auto

lemma head_end_no_cr: "CR \<notin> set l \<Longrightarrow> head_end (l @ r) = map_option (\<lambda>n. length l + n) (head_end r)"
proof (induction l)
  case Nil
  then show ?case by (cases "head_end r") auto
next
  case (Cons c l)
  then have ih: "head_end (l @ r) = map_option (\<lambda>n. length l + n) (head_end r)" by simp
  show ?case
  proof (cases "length (l @ r) < 3")
    case True
    then have "head_end (c # l @ r) = None" "head_end (l @ r) = None" by (auto intro: head_end_short)
    with ih show ?thesis by auto
  next
    case False
    then obtain x y z u where "l @ r = x # y # z # u"
      by (metis One_nat_def Suc_1 length_Cons less_Suc_eq list.size(3) neq_Nil_conv not_less_eq numeral_3_eq_3 zero_less_Suc)
    with Cons.prems ih show ?thesis by (cases "head_end r") auto
  qed
qed

lemma head_end_found: "head_end t = Some n \<Longrightarrow> n + 4 \<le> length t"
  by (induction t arbitrary: n rule: head_end.induct) (auto split: if_splits)

lemma head_end_prefix: "head_end (a @ b) = Some n \<Longrightarrow> length a < n + 4 \<Longrightarrow> head_end a = None"
proof (induction a arbitrary: n rule: head_end.induct)
  case (1 x y z u r)
  then show ?case by (cases "n") (auto split: if_splits)
qed simp_all

lemma read_chunks:
  assumes "head_end (bytes @ concat pieces) = Some n" and "length (bytes @ concat pieces) = n + 4"
    and "list_all (\<lambda>c. c \<noteq> []) pieces" and "length (bytes @ concat pieces) \<le> MAX_HTTP_HEADER_BYTES"
  shows "read_head bytes (map (\<lambda>c. (0, Got c)) pieces) = Some (Inr (bytes @ concat pieces))"
  using assms
proof (induction pieces arbitrary: bytes)
  case (Cons c cs)
  then have "length bytes < n + 4" by (cases c) auto
  then have "head_end bytes = None" "length bytes < MAX_HTTP_HEADER_BYTES"
    using Cons.prems head_end_prefix [OF Cons.prems(1)] by auto
  with Cons show ?case by (auto simp: HELLO_TIMEOUT_def)
qed auto

subsection \<open>Words and lines\<close>

lemma split_crlf_line: "CR \<notin> set l \<Longrightarrow> split_crlf (l @ CR # LF # r) = l # split_crlf r"
proof (induction l)
  case (Cons c l)
  then show ?case by (cases l) auto
qed simp

lemma split_crlf_no_cr: "CR \<notin> set l \<Longrightarrow> split_crlf l = [l]"
  by (induction l rule: split_crlf.induct) auto

lemma ws_len_graphic [simp]: "33 \<le> a \<Longrightarrow> a < 127 \<Longrightarrow> ws_len (a # r) = 0"
  by (cases "a # r" rule: ws_len.cases) (auto simp: ws1_def ws2_def ws3_def)

lemma ws_len_space [simp]: "ws_len (32 # r) = 1"
  by (cases "32 # r" rule: ws_len.cases) (auto simp: ws1_def)

lemma take_word_graphic: "graphic w \<Longrightarrow> take_word (w @ '' '' @ r) = w"
  by (induction w) (auto simp: graphic_def code_def)

lemma strip_graphic_head: "graphic w \<Longrightarrow> w \<noteq> [] \<Longrightarrow> strip_ws ws_len (w @ r) = w @ r"
  by (cases w) (auto simp: strip_ws.simps [of _ "_ # _"] graphic_def)

lemma next_word_graphic: "graphic w \<Longrightarrow> w \<noteq> [] \<Longrightarrow> next_word (w @ '' '' @ r) = (w, '' '' @ r)"
  using take_word_graphic [of w r] strip_graphic_head [of w "'' '' @ r"] by (simp add: next_word_def)

lemma next_word_space: "next_word ('' '' @ r) = next_word r"
  by (simp add: next_word_def strip_ws.simps [of _ "CHR '' '' # r"] code_def)

lemma graphic_no_cr: "graphic w \<Longrightarrow> CR \<notin> set w"
  by (auto simp: graphic_def code_def)

lemma ws_len_rev_graphic [simp]: "33 \<le> a \<Longrightarrow> a < 127 \<Longrightarrow> ws_len_rev (a # r) = 0"
  by (cases "a # r" rule: ws_len_rev.cases) (auto simp: ws1_def ws2_def ws3_def)

lemma trim_bearer:
  assumes "graphic token" and "token \<noteq> []"
  shows "trim ('' Bearer '' @ token) = ''Bearer '' @ token"
proof -
  have "strip_ws ws_len ('' Bearer '' @ token) = strip_ws ws_len (''Bearer '' @ token)"
    by (simp add: strip_ws.simps [of _ "CHR '' '' # _"] code_def ws1_def)
  also have "\<dots> = ''Bearer '' @ token" by (simp add: strip_ws.simps [of _ "CHR ''B'' # _"] code_def ws1_def ws2_def ws3_def)
  finally have front: "strip_ws ws_len ('' Bearer '' @ token) = ''Bearer '' @ token" .
  obtain c cs where c: "rev token = c # cs" using assms(2) by (metis list.exhaust rev.simps(1) rev_rev_ident)
  then have "c \<in> set token" by (metis list.set_intros(1) set_rev)
  then have "33 \<le> code c" "code c < 127" using assms(1) by (auto simp: graphic_def)
  then have "strip_ws ws_len_rev (rev (''Bearer '' @ token)) = rev (''Bearer '' @ token)"
    using c by (simp add: strip_ws.simps [of _ "c # _"])
  then show ?thesis unfolding trim_def front by simp
qed

lemma head_line_bearer:
  assumes "graphic token" and "token \<noteq> []"
  shows "head_line (''Authorization: Bearer '' @ token) head = head\<lparr>hh_bearer_token := Some token\<rparr>"
proof -
  have "trim ''Authorization'' = ''Authorization''" by (rule trim_graphic) (simp add: graphic_def code_def)
  moreover have "eq_ignore_ascii_case ''Authorization'' ''authorization''" by code_simp
  moreover have "bearer_value (''Bearer '' @ token) = Some token"
    using assms trim_graphic [of token] by (simp add: bearer_value_def strip_prefix_def starts_with_def)
  moreover have "split_once CHR '':'' (''Authorization: Bearer '' @ token) = Some (''Authorization'', '' Bearer '' @ token)"
    by (simp add: split_once_def)
  ultimately show ?thesis using trim_bearer [OF assms] by (simp add: head_line_def)
qed

lemma head_line_empty [simp]: "head_line [] head = head"
  by (simp add: head_line_def split_once_def)

text \<open>The request a phone sends.\<close>

definition request_text :: "string \<Rightarrow> string \<Rightarrow> string \<Rightarrow> string" where
  "request_text m path token = m @ '' '' @ path @ '' HTTP/1.1'' @ [CR, LF] @ ''Authorization: Bearer '' @ token @ [CR, LF, CR, LF]"

lemma head_end_request:
  assumes "graphic m" "graphic path" "graphic token"
  shows "head_end (request_text m path token) = Some (length (request_text m path token) - 4)"
proof -
  let ?l = "m @ '' '' @ path @ '' HTTP/1.1''" and ?k = "''Authorization: Bearer '' @ token"
  have l: "CR \<notin> set ?l" "CR \<notin> set ?k" using assms graphic_no_cr by auto
  have t: "request_text m path token = ?l @ CR # LF # ?k @ [CR, LF, CR, LF]" by (simp add: request_text_def)
  have "head_end (CR # LF # ?k @ [CR, LF, CR, LF]) = map_option (\<lambda>n. 2 + n) (head_end (?k @ [CR, LF, CR, LF]))"
    by (simp add: option.map_comp comp_def)
  also have "head_end (?k @ [CR, LF, CR, LF]) = Some (length ?k)" using head_end_no_cr [OF l(2), of "[CR, LF, CR, LF]"] by simp
  finally have "head_end (request_text m path token) = Some (length ?l + (2 + length ?k))"
    unfolding t head_end_no_cr [OF l(1)] by simp
  moreover have "length (request_text m path token) = length ?l + 2 + length ?k + 4" unfolding t by simp
  ultimately show ?thesis by simp
qed

lemma parse_request:
  assumes "graphic m" "graphic path" "graphic token" and "m \<noteq> []" "path \<noteq> []" "token \<noteq> []" and "map ascii_upper m = m"
  shows "parse_head (request_text m path token)
    = Inr \<lparr>hh_method = m, hh_path = path, hh_bearer_token = Some token, hh_websocket_upgrade = False\<rparr>"
proof -
  let ?t = "request_text m path token"
  let ?l = "m @ '' '' @ path @ '' HTTP/1.1''" and ?k = "''Authorization: Bearer '' @ token"
  have a: "ascii ?t" using assms graphic_ascii by (simp add: request_text_def code_def)
  have "length ?t \<ge> 4" by (simp add: request_text_def)
  then have all: "take (length ?t - 4 + 4) ?t = ?t" by simp
  have l: "CR \<notin> set ?l" "CR \<notin> set ?k" using assms graphic_no_cr by auto
  have "?t = ?l @ CR # LF # ?k @ CR # LF # CR # LF # []" by (simp add: request_text_def)
  then have ls: "split_crlf ?t = [?l, ?k, [], []]"
    using split_crlf_line [OF l(1)] split_crlf_line [OF l(2)] by simp
  have w: "next_word ?l = (m, '' '' @ path @ '' HTTP/1.1'')"
    using next_word_graphic [OF assms(1,4), of "path @ '' HTTP/1.1''"] by simp
  have p: "fst (next_word ('' '' @ path @ '' HTTP/1.1'')) = path"
    using next_word_space [of "path @ '' HTTP/1.1''"] next_word_graphic [OF assms(2,5), of "''HTTP/1.1''"] by simp
  show ?thesis
    unfolding parse_head_def head_end_request [OF assms(1-3)] option.case all lossy_ascii [OF a] ls
    using w p assms(4,5,7) head_line_bearer [OF assms(3,6)] by (simp add: Let_def)
qed

subsection \<open>Percent encoding\<close>

text \<open>What a careful sender does: escape everything that is not a letter, a digit or one of \<open>-_.~\<close>.\<close>

definition unreserved :: "char \<Rightarrow> bool" where
  "unreserved c \<longleftrightarrow> (48 \<le> code c \<and> code c \<le> 57) \<or> (65 \<le> code c \<and> code c \<le> 90) \<or> (97 \<le> code c \<and> code c \<le> 122)
     \<or> c \<in> {CHR ''-'', CHR ''_'', CHR ''.'', CHR ''~''}"

definition percent_encode :: "string \<Rightarrow> string" where
  "percent_encode t = concat (map (\<lambda>c. if unreserved c then [c] else CHR ''%'' # hex2 (of_nat (code c))) t)"

lemma percent_encode_Cons:
  "percent_encode (c # cs) = (if unreserved c then [c] else CHR ''%'' # hex2 (of_nat (code c))) @ percent_encode cs"
  by (simp add: percent_encode_def)

lemma hex_char_ascii: "n < 16 \<Longrightarrow> code (hex_char n) < 128"
  by (simp add: hex_char_def)

lemma hex2_ascii: "c \<in> set (hex2 b) \<Longrightarrow> code c < 128"
  by (auto simp: hex2_def hex_char_ascii)

lemma unreserved_ascii: "unreserved c \<Longrightarrow> code c < 128 \<and> c \<noteq> CHR ''%'' \<and> c \<noteq> CHR ''+'' \<and> c \<noteq> CHR ''&'' \<and> c \<noteq> CHR ''='' \<and> c \<noteq> CHR ''?''"
  by (auto simp: unreserved_def code_def)

lemma percent_encode_ascii: "c \<in> set (percent_encode t) \<Longrightarrow> code c < 128"
  by (induction t) (auto simp: percent_encode_def unreserved_ascii code_def [of "CHR ''%''"] dest: hex2_ascii split: if_splits)

lemma percent_bytes_escape: "percent_bytes (CHR ''%'' # hex2 b @ r) =
  (if r \<noteq> [] \<and> utf8_cont (hd r) then None else map_option (\<lambda>x. char_of (unat b) # x) (percent_bytes r))"
proof -
  have "(hex2 b @ r) ! 2 = hd r" if "r \<noteq> []" using that by (cases r) (simp_all add: nth_append)
  then show ?thesis by (cases "r = []") simp_all
qed

lemma percent_bytes_encode: "percent_bytes (percent_encode t) = Some t"
proof (induction t)
  case Nil
  then show ?case by (simp add: percent_encode_def)
next
  case (Cons c cs)
  show ?case
  proof (cases "unreserved c")
    case True
    then show ?thesis using Cons unreserved_ascii [OF True] by (simp add: percent_encode_Cons)
  next
    case False
    have "\<not> utf8_cont (hd (percent_encode cs))" if "percent_encode cs \<noteq> []"
      using percent_encode_ascii [of "hd (percent_encode cs)" cs] that by (auto simp: utf8_cont_def)
    moreover have "char_of (unat (of_nat (code c) :: u8)) = c"
      by (simp add: unat_of_nat code_def)
    ultimately show ?thesis using Cons False by (auto simp add: percent_encode_Cons percent_bytes_escape simp del: percent_bytes.simps)
  qed
qed

lemma percent_decode_encode: "ascii t \<Longrightarrow> percent_decode (percent_encode t) = Some t"
  by (simp add: percent_decode_def percent_bytes_encode lossy_ascii)

lemma percent_encode_safe:
  "c \<in> set (percent_encode t) \<Longrightarrow> c \<noteq> CHR ''&'' \<and> c \<noteq> CHR ''='' \<and> c \<noteq> CHR ''?''"
proof (induction t)
  case (Cons d t)
  have "\<forall>x \<in> set (hex2 b). x \<noteq> CHR ''&'' \<and> x \<noteq> CHR ''='' \<and> x \<noteq> CHR ''?''" for b
    using hex2_digits [of b] by (auto simp: is_ascii_hexdigit_def hex_digit_def code_def)
  with Cons show ?case using unreserved_ascii [of d] by (auto simp: percent_encode_Cons split: if_splits)
qed (simp add: percent_encode_def)

lemma split_once_found: "d \<notin> set a \<Longrightarrow> split_once d (a @ d # b) = Some (a, b)"
  by (simp add: split_once_def takeWhile_tail dropWhile_append)

lemma percent_bytes_plain: "(\<And>c. c \<in> set t \<Longrightarrow> c \<noteq> CHR ''%'' \<and> c \<noteq> CHR ''+'') \<Longrightarrow> percent_bytes t = Some t"
  by (induction t) auto

lemma parse_query_ids:
  assumes "ascii desktop_id" and "ascii device_id" and "CHR ''?'' \<notin> set path"
  shows "parse_query (path @ ''?desktopId='' @ percent_encode desktop_id @ ''&deviceId='' @ percent_encode device_id)
    = Some [''desktopId'' \<mapsto> desktop_id, ''deviceId'' \<mapsto> device_id]"
proof -
  let ?a = "''desktopId='' @ percent_encode desktop_id" and ?b = "''deviceId='' @ percent_encode device_id"
  let ?uri = "path @ CHR ''?'' # ?a @ CHR ''&'' # ?b"
  have safe: "CHR ''&'' \<notin> set ?a" "CHR ''&'' \<notin> set ?b" using percent_encode_safe by fastforce+
  have parts: "split_on CHR ''&'' (?a @ CHR ''&'' # ?b) = [?a, ?b]"
    using split_on_append [OF safe(1), of ?b] split_on_no_sep [OF safe(2)] by simp
  have q: "split_once CHR ''?'' ?uri = Some (path, ?a @ CHR ''&'' # ?b)" by (rule split_once_found [OF assms(3)])
  have a: "split_once CHR ''='' ?a = Some (''desktopId'', percent_encode desktop_id)"
    using split_once_found [of "CHR ''=''" "''desktopId''" "percent_encode desktop_id"] by simp
  have b: "split_once CHR ''='' ?b = Some (''deviceId'', percent_encode device_id)"
    using split_once_found [of "CHR ''=''" "''deviceId''" "percent_encode device_id"] by simp
  have k: "percent_decode ''desktopId'' = Some ''desktopId''" "percent_decode ''deviceId'' = Some ''deviceId''"
    unfolding percent_decode_def by (simp_all add: percent_bytes_plain lossy_ascii code_def)
  have "parse_query ?uri = Some [''desktopId'' \<mapsto> desktop_id, ''deviceId'' \<mapsto> device_id]"
    unfolding parse_query_def q option.case prod.case parts query_pairs.simps a b k
    using percent_decode_encode assms(1,2) by simp
  then show ?thesis by simp
qed

text \<open>The query of a phone's request is read as it was written: the two ids a phone puts into its address, percent
  encoded, are what the server looks up.\<close>

theorem query_roundtrip:
  assumes "ascii desktop_id" and "ascii device_id" and "CHR ''?'' \<notin> set path"
  shows "\<exists>q. parse_query (path @ ''?desktopId='' @ percent_encode desktop_id @ ''&deviceId='' @ percent_encode device_id) = Some q
    \<and> q ''desktopId'' = Some desktop_id \<and> q ''deviceId'' = Some device_id
    \<and> route_of (path @ ''?desktopId='' @ percent_encode desktop_id @ ''&deviceId='' @ percent_encode device_id) = path"
  using parse_query_ids [OF assms] split_on_append [OF assms(3)] by (simp add: route_of_def)

theorem query_roundtrip_witness:
  "\<exists>q. parse_query (''/v1/monitor/snapshot'' @ ''?desktopId='' @ percent_encode ''d 1'' @ ''&deviceId='' @ percent_encode ''dev+2'') = Some q
    \<and> q ''desktopId'' = Some ''d 1''"
  using query_roundtrip [of "''d 1''" "''dev+2''" "''/v1/monitor/snapshot''"] by (auto simp: code_def)

text \<open>A percent sign before a character of several bytes panics the thread of the connection. The two characters after
  it are sliced out of the text by their byte positions, whatever they are; the request needs no authorization. An escape
  may also be a plus sign and one digit.\<close>

theorem percent_decode_panics:
  assumes "utf8_cont d"
  shows "percent_decode (CHR ''%'' # a # b # d # rest) = None \<and> percent_decode ''%+a'' = Some [LF]"
proof -
  have "percent_bytes (CHR ''%'' # a # b # d # rest) = None" using assms by simp
  moreover have "percent_decode ''%+a'' = Some [LF]" by code_simp
  ultimately show ?thesis by (simp add: percent_decode_def)
qed

theorem percent_decode_panics_witness:
  "percent_decode (''%a'' @ [CHR 0xC3, CHR 0xA9]) = None"
  using percent_decode_panics [of "CHR 0xA9" "CHR ''a''" "CHR 0xC3" "[]"] by (simp add: utf8_cont_def code_def)

text \<open>The head of a request is read in bounded space and time, and as it was sent. At most 1023 bytes more than the limit
  are ever held, the read has ended once five seconds are over, and a request that arrives in any pieces gives the
  method, path and token its sender wrote.\<close>

theorem head_read:
  assumes "graphic m" "graphic path" "graphic token" and "m \<noteq> []" "path \<noteq> []" "token \<noteq> []" and "map ascii_upper m = m"
    and "concat pieces = request_text m path token" and "list_all (\<lambda>c. c \<noteq> []) pieces"
    and "length (request_text m path token) \<le> MAX_HTTP_HEADER_BYTES"
    and "list_all (\<lambda>(_, x). case x of Got chunk \<Rightarrow> length chunk \<le> 1024 | _ \<Rightarrow> True) reads"
  shows "read_http_request_head (map (\<lambda>c. (0, Got c)) pieces) = Some (Inr (request_text m path token,
      \<lparr>hh_method = m, hh_path = path, hh_bearer_token = Some token, hh_websocket_upgrade = False\<rparr>))
    \<and> (\<forall>bytes head. read_http_request_head reads = Some (Inr (bytes, head)) \<longrightarrow>
          length bytes < MAX_HTTP_HEADER_BYTES + 1024 \<and> head_end bytes \<noteq> None)
    \<and> ((\<exists>(t, x) \<in> set reads. HELLO_TIMEOUT < t) \<longrightarrow> read_http_request_head reads \<noteq> None)"
proof (intro conjI allI impI)
  let ?t = "request_text m path token"
  have "4 \<le> length ?t" by (simp add: request_text_def)
  then have "length ([] @ concat pieces) = length ?t - 4 + 4" using assms(8) by simp
  then have "read_head [] (map (\<lambda>c. (0, Got c)) pieces) = Some (Inr ([] @ concat pieces))"
    using assms(8-10) head_end_request [OF assms(1-3)] by (intro read_chunks [where n = "length ?t - 4"]) simp_all
  then show "read_http_request_head (map (\<lambda>c. (0, Got c)) pieces) = Some (Inr (?t,
      \<lparr>hh_method = m, hh_path = path, hh_bearer_token = Some token, hh_websocket_upgrade = False\<rparr>))"
    using parse_request [OF assms(1-7)] assms(8) by (simp add: read_http_request_head_def)
next
  fix bytes head
  assume "read_http_request_head reads = Some (Inr (bytes, head))"
  then have r: "read_head [] reads = Some (Inr bytes)"
    by (auto simp: read_http_request_head_def split: option.splits sum.splits)
  show "length bytes < MAX_HTTP_HEADER_BYTES + 1024" using read_head_bound [OF r _ assms(11)] by (simp add: MAX_HTTP_HEADER_BYTES_def)
  show "head_end bytes \<noteq> None" by (rule read_head_done [OF r])
next
  assume "\<exists>(t, x) \<in> set reads. HELLO_TIMEOUT < t"
  then show "read_http_request_head reads \<noteq> None"
    using read_head_settles [of reads "[]"] by (auto simp: read_http_request_head_def split: option.splits sum.splits)
qed

theorem head_read_witness:
  "read_http_request_head (map (\<lambda>c. (0, Got c)) [request_text ''GET'' ''/v1'' ''ab'']) = Some (Inr (request_text ''GET'' ''/v1'' ''ab'',
      \<lparr>hh_method = ''GET'', hh_path = ''/v1'', hh_bearer_token = Some ''ab'', hh_websocket_upgrade = False\<rparr>))"
proof -
  have "length (request_text ''GET'' ''/v1'' ''ab'') \<le> MAX_HTTP_HEADER_BYTES" by (simp add: request_text_def MAX_HTTP_HEADER_BYTES_def)
  moreover have "map ascii_upper ''GET'' = ''GET''" by code_simp
  moreover have "graphic ''GET''" "graphic ''/v1''" "graphic ''ab''" by (simp_all add: graphic_def code_def)
  ultimately show ?thesis
    using head_read [of "''GET''" "''/v1''" "''ab''" "[request_text ''GET'' ''/v1'' ''ab'']" "[]"] by (simp add: request_text_def)
qed

end
