(* ===== verification/Monitor_Server.thy ===== *)
theory Monitor_Server
  imports Monitor_Http Effects
begin

text \<open>
  The desktop's local monitor server (\<^verbatim>\<open>src-tauri/src/monitor_server.rs\<close>) behind TLS: the limit on connections, the HTTPS
  routes, and the two kinds of websocket sessions. The handlers the server is started with are the record
  \<open>MonitorHandlers\<close> of actions on a world of type \<open>'w\<close>. A websocket session is a record \<open>Conn\<close> of that world and what
  was sent; sends fail as the argument \<open>ok\<close> says. Clock readings and what is read from the socket are inputs, one
  \<open>RoundInput\<close> for each round of the session's loop.
\<close>

section \<open>Handlers and connections\<close>

record 'w MonitorHandlers =
  mh_auth :: "string \<Rightarrow> string \<Rightarrow> 'w \<Rightarrow> bool \<times> 'w"
  mh_pair :: "PairingWsMessage \<Rightarrow> ('w, PairingServerMessage) action"
  mh_revoke :: "string \<Rightarrow> ('w, unit) action"
  mh_control :: "string \<Rightarrow> EncryptedControlPayload \<Rightarrow> ('w, EncryptedControlPayload) action"
  mh_snapshot :: "string \<Rightarrow> string \<Rightarrow> u64 \<Rightarrow> ('w, EncryptedSnapshot) action"

definition MAX_ACTIVE_CONNECTIONS :: nat where "MAX_ACTIVE_CONNECTIONS = 32"
definition MAX_WS_TEXT_BYTES :: nat where "MAX_WS_TEXT_BYTES = 128 * 1024"
definition SNAPSHOT_INTERVAL :: nat where "SNAPSHOT_INTERVAL = 10000"
definition HEARTBEAT_INTERVAL :: nat where "HEARTBEAT_INTERVAL = 15000"
definition IDLE_TIMEOUT :: nat where "IDLE_TIMEOUT = 45000"

text \<open>The accepting thread counts a connection in, and out again when there are too many; the guard of a connection
  counts it out when its thread ends, also by a panic.\<close>

definition accept_connection :: "nat \<Rightarrow> bool \<times> nat" where
  "accept_connection active = (let counted = active + 1 in
     if MAX_ACTIVE_CONNECTIONS \<le> active then (False, counted - 1) else (True, counted))"

definition connection_ended :: "nat \<Rightarrow> nat" where
  "connection_ended active = active - 1"

datatype server_out =
    Out DeviceServerMessage
  | Out_Pair PairingServerMessage
  | Out_Ping
  | Out_Pong string
  | Out_Close

record 'w Conn =
  cn_world :: 'w
  cn_out :: "server_out list"
  cn_sends :: nat

definition ws_send :: "(nat \<Rightarrow> bool) \<Rightarrow> server_out \<Rightarrow> ('w Conn, unit) action" where
  "ws_send ok x c = (if ok (cn_sends c) then (Inr (), c\<lparr>cn_out := cn_out c @ [x], cn_sends := Suc (cn_sends c)\<rparr>)
     else (Inl ''send failed'', c\<lparr>cn_sends := Suc (cn_sends c)\<rparr>))"

definition close_ws :: "('w Conn, unit) action" where
  "close_ws = modify (\<lambda>c. c\<lparr>cn_out := cn_out c @ [Out_Close]\<rparr>)"

definition on_world :: "('w, 'a) action \<Rightarrow> ('w Conn, 'a) action" where
  "on_world m c = (case m (cn_world c) of (r, w1) \<Rightarrow> (r, c\<lparr>cn_world := w1\<rparr>))"

definition on_auth :: "('w \<Rightarrow> bool \<times> 'w) \<Rightarrow> ('w Conn, bool) action" where
  "on_auth m c = (case m (cn_world c) of (b, w1) \<Rightarrow> (Inr b, c\<lparr>cn_world := w1\<rparr>))"

text \<open>Sends a last message, closes, and ends with an error.\<close>

definition turn_away :: "(nat \<Rightarrow> bool) \<Rightarrow> string \<Rightarrow> string \<Rightarrow> ('w Conn, 'a) action" where
  "turn_away ok message e =
     and_then_always (ws_send ok (Out (VS_Error message))) (\<lambda>_. chain close_ws (\<lambda>_. raise e))"

section \<open>HTTPS\<close>

datatype http_body = B_Message DeviceServerMessage | B_Error string

definition text_at :: "(string \<rightharpoonup> string) \<Rightarrow> string \<Rightarrow> string" where
  "text_at q k = (case q k of None \<Rightarrow> [] | Some v \<Rightarrow> v)"

definition token_of :: "string option \<Rightarrow> string" where
  "token_of bearer_token = (case bearer_token of None \<Rightarrow> [] | Some t \<Rightarrow> t)"

definition authorize_request ::
  "'w MonitorHandlers \<Rightarrow> string \<Rightarrow> (string \<rightharpoonup> string) \<Rightarrow> string \<Rightarrow> 'w \<Rightarrow> bool \<times> 'w" where
  "authorize_request h desktop_id q token w =
     (if text_at q ''desktopId'' = desktop_id \<and> text_at q ''deviceId'' \<noteq> [] \<and> token \<noteq> []
      then mh_auth h (text_at q ''deviceId'') token w else (False, w))"

text \<open>\<open>Inl\<close> is an end without an answer: the panic in the query, or no random session id.\<close>

definition handle_https_request ::
  "'w MonitorHandlers \<Rightarrow> string + string \<Rightarrow> u64 \<Rightarrow> string \<Rightarrow> HttpRequestHead \<Rightarrow> ('w, string \<times> http_body) action" where
  "handle_https_request h rnd now desktop_id request w =
     (case parse_query (hh_path request) of
        None \<Rightarrow> (Inl ''panic in percent_decode'', w)
      | Some q \<Rightarrow>
         (let device_id = text_at q ''deviceId''; token = token_of (hh_bearer_token request); route = route_of (hh_path request);
              (authorized, w1) = authorize_request h desktop_id q token w
          in if hh_method request = ''GET'' \<and> route = ''/v1/monitor/snapshot'' then
               if authorized then
                 (case rnd of
                    Inl e \<Rightarrow> (Inl e, w1)
                  | Inr random \<Rightarrow>
                     (case mh_snapshot h device_id (''s_'' @ take 32 random) 1 w1 of
                        (Inr snapshot, w2) \<Rightarrow> (Inr (''200 OK'', B_Message (VS_Snapshot now snapshot)), w2)
                      | (Inl _, w2) \<Rightarrow> (Inr (''500 Internal Server Error'', B_Error ''snapshot unavailable''), w2)))
               else (Inr (''401 Unauthorized'', B_Error ''unauthorized''), w1)
             else if hh_method request = ''POST'' \<and> route = ''/v1/monitor/revoke'' then
               if authorized then
                 (case mh_revoke h device_id w1 of
                    (Inr _, w2) \<Rightarrow> (Inr (''200 OK'', B_Message (VS_Revoked device_id)), w2)
                  | (Inl _, w2) \<Rightarrow> (Inr (''409 Conflict'', B_Error ''device revoke failed''), w2))
               else (Inr (''401 Unauthorized'', B_Error ''unauthorized''), w1)
             else (Inr (''404 Not Found'', B_Error ''unknown monitor https route''), w1)))"

section \<open>Websocket sessions\<close>

datatype ws_read = W_Ping string | W_Pong | W_Text string | W_Close | W_Other | W_Nothing | W_Failed

text \<open>One message of a given type; \<open>None\<close>: still waiting.\<close>

fun read_json_until :: "(nat \<Rightarrow> bool) \<Rightarrow> (string \<Rightarrow> 'm option) \<Rightarrow> (nat \<times> ws_read) list \<Rightarrow> ('w Conn, 'm option) action" where
  "read_json_until ok parse [] = give None"
| "read_json_until ok parse ((elapsed, r) # rest) =
     (if HELLO_TIMEOUT < elapsed then raise ''timeout''
      else case r of
        W_Ping p \<Rightarrow> chain (ws_send ok (Out_Pong p)) (\<lambda>_. read_json_until ok parse rest)
      | W_Text t \<Rightarrow>
          if MAX_WS_TEXT_BYTES < length t then raise ''the message is too large''
          else (case parse t of None \<Rightarrow> raise ''the message is not valid'' | Some m \<Rightarrow> give (Some m))
      | W_Close \<Rightarrow> raise ''closed''
      | W_Failed \<Rightarrow> raise ''read failed''
      | _ \<Rightarrow> read_json_until ok parse rest)"

record MonitorSession =
  se_device_id :: string
  se_token :: string
  se_session_id :: string
  se_sequence :: u64
  se_last_activity :: nat
  se_last_snapshot :: nat
  se_last_ping :: nat

definition push_snapshot ::
  "(nat \<Rightarrow> bool) \<Rightarrow> 'w MonitorHandlers \<Rightarrow> u64 \<Rightarrow> string \<Rightarrow> string \<Rightarrow> u64 \<Rightarrow> ('w Conn, u64) action" where
  "push_snapshot ok h now device_id session_id sequence =
     (let n = sat_add64 sequence 1 in
      chain (on_world (mh_snapshot h device_id session_id n)) (\<lambda>snapshot.
      chain (ws_send ok (Out (VS_Snapshot now snapshot))) (\<lambda>_. give n)))"

text \<open>The opening of a session: the check of the token, the phone's greeting, and its answer with the first snapshot;
  \<open>start\<close> is the time the loop starts from.\<close>

definition acknowledge ::
  "(nat \<Rightarrow> bool) \<Rightarrow> 'w MonitorHandlers \<Rightarrow> string + string \<Rightarrow> u64 \<Rightarrow> nat \<Rightarrow> string \<Rightarrow> string \<Rightarrow> ('w Conn, MonitorSession option) action" where
  "acknowledge ok h rnd now start device_id token =
     chain (from_result rnd) (\<lambda>random.
     chain (ws_send ok (Out (VS_HelloAck (''s_'' @ take 32 random) now True device_capabilities))) (\<lambda>_.
     chain (push_snapshot ok h now device_id (''s_'' @ take 32 random) 0) (\<lambda>n.
       give (Some \<lparr>se_device_id = device_id, se_token = token, se_session_id = ''s_'' @ take 32 random, se_sequence = n,
         se_last_activity = start, se_last_snapshot = start, se_last_ping = start\<rparr>))))"

definition greet ::
  "(nat \<Rightarrow> bool) \<Rightarrow> 'w MonitorHandlers \<Rightarrow> (string \<Rightarrow> DeviceWsMessage option) \<Rightarrow> string + string \<Rightarrow> u64 \<Rightarrow> nat \<Rightarrow> string
    \<Rightarrow> string \<Rightarrow> string \<Rightarrow> (nat \<times> ws_read) list \<Rightarrow> ('w Conn, MonitorSession option) action" where
  "greet ok h parse rnd now start desktop_id device_id token reads =
     chain (read_json_until ok parse reads) (\<lambda>hello.
       case hello of
         None \<Rightarrow> give None
       | Some message \<Rightarrow>
           if message = V_Hello PROTOCOL_VERSION desktop_id device_id then acknowledge ok h rnd now start device_id token
           else turn_away ok ''invalid hello'' ''invalid hello'')"

definition open_session ::
  "(nat \<Rightarrow> bool) \<Rightarrow> 'w MonitorHandlers \<Rightarrow> (string \<Rightarrow> DeviceWsMessage option) \<Rightarrow> string + string \<Rightarrow> u64 \<Rightarrow> nat \<Rightarrow> string
    \<Rightarrow> string \<Rightarrow> string option \<Rightarrow> (nat \<times> ws_read) list \<Rightarrow> ('w Conn, MonitorSession option) action" where
  "open_session ok h parse rnd now start desktop_id path bearer_token reads =
     (case parse_query path of
        None \<Rightarrow> raise ''panic in percent_decode''
      | Some q \<Rightarrow>
          chain (on_auth (authorize_request h desktop_id q (token_of bearer_token))) (\<lambda>authorized.
            if authorized
            then greet ok h parse rnd now start desktop_id (text_at q ''deviceId'') (token_of bearer_token) reads
            else turn_away ok ''unauthorized'' ''authentication failed''))"

text \<open>One round of the loop. The clock is read before each decision and after each event.\<close>

record RoundInput =
  ri_idle_at :: nat
  ri_snapshot_at :: nat
  ri_snapshot_done :: nat
  ri_ping_at :: nat
  ri_ping_done :: nat
  ri_read_done :: nat
  ri_now :: u64
  ri_read :: ws_read

datatype round_end = Goes_On MonitorSession | Finished

definition device_message ::
  "(nat \<Rightarrow> bool) \<Rightarrow> 'w MonitorHandlers \<Rightarrow> u64 \<Rightarrow> DeviceWsMessage \<Rightarrow> MonitorSession \<Rightarrow> ('w Conn, round_end) action" where
  "device_message ok h now message s =
     (case message of
        V_Ping _ \<Rightarrow> chain (ws_send ok (Out (VS_Pong now))) (\<lambda>_. give (Goes_On s))
      | V_Control request \<Rightarrow>
          and_then_always (on_world (mh_control h (se_device_id s) request)) (\<lambda>r.
          chain (ws_send ok (Out (case r of Inr response \<Rightarrow> VS_ControlResult response | Inl e \<Rightarrow> VS_Error e))) (\<lambda>_. give (Goes_On s)))
      | V_RevokeSelf \<Rightarrow>
          chain (on_world (mh_revoke h (se_device_id s))) (\<lambda>_.
          chain (ws_send ok (Out (VS_Revoked (se_device_id s)))) (\<lambda>_.
          chain close_ws (\<lambda>_. give Finished)))
      | V_Hello _ _ _ \<Rightarrow> give (Goes_On s))"

definition on_read ::
  "(nat \<Rightarrow> bool) \<Rightarrow> 'w MonitorHandlers \<Rightarrow> (string \<Rightarrow> DeviceWsMessage option) \<Rightarrow> RoundInput \<Rightarrow> MonitorSession \<Rightarrow> ('w Conn, round_end) action" where
  "on_read ok h parse ri s =
     (let active = s\<lparr>se_last_activity := ri_read_done ri\<rparr> in
      case ri_read ri of
        W_Ping p \<Rightarrow> chain (ws_send ok (Out_Pong p)) (\<lambda>_. give (Goes_On active))
      | W_Pong \<Rightarrow> give (Goes_On active)
      | W_Text t \<Rightarrow>
          if MAX_WS_TEXT_BYTES < length t then raise ''the message is too large''
          else (case parse t of None \<Rightarrow> give (Goes_On active) | Some message \<Rightarrow> device_message ok h (ri_now ri) message active)
      | W_Close \<Rightarrow> give Finished
      | W_Other \<Rightarrow> give (Goes_On s)
      | W_Nothing \<Rightarrow> give (Goes_On s)
      | W_Failed \<Rightarrow> raise ''read failed'')"

definition snapshot_due ::
  "(nat \<Rightarrow> bool) \<Rightarrow> 'w MonitorHandlers \<Rightarrow> RoundInput \<Rightarrow> MonitorSession \<Rightarrow> ('w Conn, MonitorSession) action" where
  "snapshot_due ok h ri s =
     (if SNAPSHOT_INTERVAL \<le> ri_snapshot_at ri - se_last_snapshot s
      then chain (push_snapshot ok h (ri_now ri) (se_device_id s) (se_session_id s) (se_sequence s)) (\<lambda>n.
             give (s\<lparr>se_sequence := n, se_last_snapshot := ri_snapshot_done ri\<rparr>))
      else give s)"

definition ping_due :: "(nat \<Rightarrow> bool) \<Rightarrow> RoundInput \<Rightarrow> MonitorSession \<Rightarrow> ('w Conn, MonitorSession) action" where
  "ping_due ok ri s =
     (if HEARTBEAT_INTERVAL \<le> ri_ping_at ri - se_last_ping s
      then chain (ws_send ok Out_Ping) (\<lambda>_. give (s\<lparr>se_last_ping := ri_ping_done ri\<rparr>)) else give s)"

definition monitor_round ::
  "(nat \<Rightarrow> bool) \<Rightarrow> 'w MonitorHandlers \<Rightarrow> (string \<Rightarrow> DeviceWsMessage option) \<Rightarrow> RoundInput \<Rightarrow> MonitorSession \<Rightarrow> ('w Conn, round_end) action" where
  "monitor_round ok h parse ri s =
     (if IDLE_TIMEOUT < ri_idle_at ri - se_last_activity s then chain close_ws (\<lambda>_. raise ''heartbeat timeout'')
      else chain (on_auth (mh_auth h (se_device_id s) (se_token s))) (\<lambda>authorized.
        if \<not> authorized then turn_away ok ''device revoked'' ''the authorization was revoked''
        else chain (snapshot_due ok h ri s) (\<lambda>s1. chain (ping_due ok ri s1) (on_read ok h parse ri))))"

fun monitor_rounds ::
  "(nat \<Rightarrow> bool) \<Rightarrow> 'w MonitorHandlers \<Rightarrow> (string \<Rightarrow> DeviceWsMessage option) \<Rightarrow> RoundInput list \<Rightarrow> MonitorSession \<Rightarrow> ('w Conn, round_end) action" where
  "monitor_rounds ok h parse [] s = give (Goes_On s)"
| "monitor_rounds ok h parse (ri # ris) s =
     chain (monitor_round ok h parse ri s) (\<lambda>r. case r of Finished \<Rightarrow> give Finished | Goes_On s1 \<Rightarrow> monitor_rounds ok h parse ris s1)"

definition handle_monitor_socket ::
  "(nat \<Rightarrow> bool) \<Rightarrow> 'w MonitorHandlers \<Rightarrow> (string \<Rightarrow> DeviceWsMessage option) \<Rightarrow> string + string \<Rightarrow> u64 \<Rightarrow> nat \<Rightarrow> string
    \<Rightarrow> string \<Rightarrow> string option \<Rightarrow> (nat \<times> ws_read) list \<Rightarrow> RoundInput list \<Rightarrow> ('w Conn, round_end option) action" where
  "handle_monitor_socket ok h parse rnd now start desktop_id path bearer_token reads ris =
     chain (open_session ok h parse rnd now start desktop_id path bearer_token reads) (\<lambda>s.
       case s of None \<Rightarrow> give None | Some s \<Rightarrow> chain (monitor_rounds ok h parse ris s) (\<lambda>r. give (Some r)))"

definition handle_pair_socket ::
  "(nat \<Rightarrow> bool) \<Rightarrow> 'w MonitorHandlers \<Rightarrow> (string \<Rightarrow> PairingWsMessage option) \<Rightarrow> (nat \<times> ws_read) list \<Rightarrow> ('w Conn, unit) action" where
  "handle_pair_socket ok h parse reads =
     chain (read_json_until ok parse reads) (\<lambda>request.
       case request of
         None \<Rightarrow> give ()
       | Some m \<Rightarrow>
           and_then_always (on_world (mh_pair h m)) (\<lambda>r.
           chain (ws_send ok (Out_Pair (case r of Inr response \<Rightarrow> response | Inl e \<Rightarrow> PS_Error e))) (\<lambda>_. close_ws)))"

text \<open>What becomes of a connection once its head is read: the websocket handshake is that of the library.\<close>

datatype connection_kind = Https_Request | Monitor_Socket | Pair_Socket | Unknown_Socket

definition connection_kind :: "HttpRequestHead \<Rightarrow> connection_kind" where
  "connection_kind head =
     (if \<not> hh_websocket_upgrade head then Https_Request
      else if route_of (hh_path head) = ''/v1/ws/monitor'' then Monitor_Socket
      else if route_of (hh_path head) = ''/v1/ws/pair'' then Pair_Socket
      else Unknown_Socket)"

definition unknown_socket :: "(nat \<Rightarrow> bool) \<Rightarrow> ('w Conn, unit) action" where
  "unknown_socket ok = turn_away ok ''unknown monitor websocket route'' ''unknown websocket path''"

section \<open>What the server asks of its handlers\<close>

text \<open>
  The contract between the server and the registry behind it: who is \<open>known\<close> and which token is let in
  (\<open>admits\<close>). No handler makes an unknown phone known except pairing, which a session of a phone never calls.
\<close>

locale device_gate = revoker "mh_revoke h" known for h :: "'w MonitorHandlers" and known :: "'w \<Rightarrow> string \<Rightarrow> bool" +
  fixes admits :: "'w \<Rightarrow> string \<Rightarrow> string \<Rightarrow> bool"
  assumes auth_admits: "mh_auth h d t w = (True, w1) \<Longrightarrow> admits w d t"
    and admits_known: "admits w d t \<Longrightarrow> known w d"
    and auth_keeps: "mh_auth h d t w = (b, w1) \<Longrightarrow> known w1 x \<Longrightarrow> known w x"
    and snapshot_known: "mh_snapshot h d i n w = (Inr sn, w1) \<Longrightarrow> known w d \<and> sn_session_id sn = i \<and> sn_sequence sn = n"

begin

lemma auth_unknown:
  assumes "\<not> known w d" and "mh_auth h d t w = (b, w1)"
  shows "\<not> b \<and> \<not> known w1 d"
proof
  show "\<not> b"
  proof
    assume b
    with assms(2) have "mh_auth h d t w = (True, w1)" by simp
    from admits_known [OF auth_admits [OF this]] assms(1) show False by blast
  qed
  show "\<not> known w1 d" using auth_keeps [OF assms(2)] assms(1) by blast
qed

text \<open>A round of a session whose phone is no longer known sends nothing but the notice and ends.\<close>

definition dropped :: "'w Conn \<Rightarrow> string \<Rightarrow> string + round_end \<Rightarrow> 'w Conn \<Rightarrow> bool" where
  "dropped c d r c1 \<longleftrightarrow> isl r \<and> \<not> known (cn_world c1) d
     \<and> (\<exists>outs. cn_out c1 = cn_out c @ outs \<and> set outs \<subseteq> {Out (VS_Error ''device revoked''), Out_Close})"

lemma unknown_round:
  assumes "\<not> known (cn_world c) (se_device_id s)" and "monitor_round ok h parse ri s c = (r, c1)"
  shows "dropped c (se_device_id s) r c1"
proof (cases "IDLE_TIMEOUT < ri_idle_at ri - se_last_activity s")
  case True
  with assms show ?thesis
    by (auto simp: monitor_round_def dropped_def chain_def close_ws_def modify_def raise_def)
next
  case False
  obtain b w1 where a: "mh_auth h (se_device_id s) (se_token s) (cn_world c) = (b, w1)" by fastforce
  with auth_unknown [OF assms(1) a] assms(2) False show ?thesis
    by (auto simp: monitor_round_def dropped_def chain_def on_auth_def turn_away_def and_then_always_def ws_send_def
        close_ws_def modify_def raise_def split: if_splits)
qed

lemma unknown_rounds:
  assumes "\<not> known (cn_world c) (se_device_id s)" and "monitor_rounds ok h parse (ri # ris) s c = (r, c1)"
  shows "dropped c (se_device_id s) r c1"
proof -
  obtain r1 c2 where r1: "monitor_round ok h parse ri s c = (r1, c2)" by fastforce
  from unknown_round [OF assms(1) this] assms(2) r1 show ?thesis
    by (cases r1) (auto simp: chain_def dropped_def)
qed

text \<open>A phone that revokes itself is unknown when it is told so.\<close>

lemma revoked_self:
  assumes "device_message ok h now V_RevokeSelf s c = (Inr r, c1)"
  shows "r = Finished \<and> \<not> known (cn_world c1) (se_device_id s)"
proof -
  obtain q w1 where q: "mh_revoke h (se_device_id s) (cn_world c) = (q, w1)" by fastforce
  with assms obtain u where u: "q = Inr u"
    by (cases q) (auto simp: device_message_def chain_def on_world_def)
  with q revoke_drops [of "se_device_id s" "cn_world c" w1] have "\<not> known w1 (se_device_id s)" by simp
  with assms q u show ?thesis
    by (auto simp: device_message_def chain_def on_world_def ws_send_def close_ws_def modify_def give_def split: if_splits)
qed

text \<open>Only a phone that is let in gets a snapshot over HTTPS, or is revoked.\<close>

lemma https_admits:
  assumes "handle_https_request h rnd now desktop_id request w = (Inr (''200 OK'', body), w1)"
  shows "\<exists>q. parse_query (hh_path request) = Some q \<and> text_at q ''desktopId'' = desktop_id
    \<and> admits w (text_at q ''deviceId'') (token_of (hh_bearer_token request))
    \<and> (body = B_Message (VS_Revoked (text_at q ''deviceId'')) \<and> \<not> known w1 (text_at q ''deviceId'')
       \<or> (\<exists>sn. body = B_Message (VS_Snapshot now sn) \<and> sn_sequence sn = 1))"
proof -
  obtain q where q: "parse_query (hh_path request) = Some q"
    using assms by (cases "parse_query (hh_path request)") (auto simp: handle_https_request_def)
  obtain a w2 where a: "authorize_request h desktop_id q (token_of (hh_bearer_token request)) w = (a, w2)" by fastforce
  have "a"
    using assms q a by (cases a) (auto simp: handle_https_request_def Let_def split: if_splits)
  with a have adm: "text_at q ''desktopId'' = desktop_id" "admits w (text_at q ''deviceId'') (token_of (hh_bearer_token request))"
    by (auto simp: authorize_request_def dest: auth_admits split: if_splits)
  have "body = B_Message (VS_Revoked (text_at q ''deviceId'')) \<and> \<not> known w1 (text_at q ''deviceId'')
       \<or> (\<exists>sn. body = B_Message (VS_Snapshot now sn) \<and> sn_sequence sn = 1)"
    using assms q a \<open>a\<close>
    by (auto simp: handle_https_request_def Let_def dest: snapshot_known revoke_drops split: if_splits sum.splits prod.splits)
  with q adm show ?thesis by blast
qed

end

text \<open>A round that reads nothing goes on only within the time for a sign of life, and is no such sign.\<close>

lemma round_silent:
  assumes "monitor_round ok h parse ri s c = (Inr e, c1)" and "ri_read ri \<in> {W_Nothing, W_Other}"
  shows "\<exists>s1. e = Goes_On s1 \<and> se_last_activity s1 = se_last_activity s \<and> ri_idle_at ri - se_last_activity s \<le> IDLE_TIMEOUT"
  using assms
  by (auto simp: monitor_round_def chain_def on_auth_def turn_away_def and_then_always_def close_ws_def modify_def raise_def give_def
      snapshot_due_def ping_due_def on_read_def Let_def split: if_splits prod.splits sum.splits)

section \<open>Numbers of snapshots\<close>

text \<open>The numbers of the snapshots among what was sent.\<close>

fun sent_numbers :: "server_out list \<Rightarrow> u64 list" where
  "sent_numbers [] = []"
| "sent_numbers (Out (VS_Snapshot t sn) # xs) = sn_sequence sn # sent_numbers xs"
| "sent_numbers (_ # xs) = sent_numbers xs"

lemma sent_numbers_append [simp]: "sent_numbers (xs @ ys) = sent_numbers xs @ sent_numbers ys"
  by (induction xs rule: sent_numbers.induct) auto

definition numbered :: "'w Conn \<Rightarrow> nat \<Rightarrow> bool" where
  "numbered c k \<longleftrightarrow> map unat (sent_numbers (cn_out c)) = [1..<Suc k]"

lemma numbered_world [simp]: "numbered (c\<lparr>cn_world := w\<rparr>) k = numbered c k"
  by (simp add: numbered_def)

definition no_snapshot :: "server_out \<Rightarrow> bool" where
  "no_snapshot x \<longleftrightarrow> sent_numbers [x] = []"

lemma no_snapshot_simps [simp]:
  "no_snapshot Out_Ping" "no_snapshot (Out_Pong p)" "no_snapshot Out_Close" "no_snapshot (Out_Pair r)"
  "no_snapshot (Out (VS_HelloAck a b c d))" "no_snapshot (Out (VS_Pong t))" "no_snapshot (Out (VS_Revoked e))"
  "no_snapshot (Out (VS_ControlResult f))" "no_snapshot (Out (VS_Error g))"
  by (simp_all add: no_snapshot_def)

lemma numbered_send: "no_snapshot x \<Longrightarrow> numbered c k \<Longrightarrow> numbered (snd (ws_send ok x c)) k"
  by (simp add: ws_send_def numbered_def no_snapshot_def del: upt_Suc)

text \<open>Actions that keep the numbering whatever they send.\<close>

definition quiet :: "('w Conn, 'a) action \<Rightarrow> bool" where
  "quiet m \<longleftrightarrow> (\<forall>k. preserves (\<lambda>c. numbered c k) m)"

lemma quiet_send: "no_snapshot x \<Longrightarrow> quiet (ws_send ok x)"
  by (simp add: quiet_def preserves_def numbered_send)

lemma quiet_kept:
  "quiet close_ws" "quiet (on_world m)" "quiet (on_auth n)"
  "quiet (give a)" "quiet (raise e)" "quiet (from_result r)"
  by (simp_all add: quiet_def preserves_def numbered_send close_ws_def modify_def on_world_def on_auth_def give_def raise_def from_result_def
      numbered_def split_def del: upt_Suc)

lemma quiet_chain: "quiet m \<Longrightarrow> (\<And>a. quiet (f a)) \<Longrightarrow> quiet (chain m f)"
  by (simp add: quiet_def preserves_chain)

lemma quiet_and_then_always: "quiet m \<Longrightarrow> (\<And>r. quiet (f r)) \<Longrightarrow> quiet (and_then_always m f)"
  by (simp add: quiet_def preserves_and_then_always)

lemma quiet_turn_away: "quiet (turn_away ok message e)"
  unfolding turn_away_def by (intro quiet_and_then_always quiet_chain quiet_kept quiet_send no_snapshot_simps)

lemma quiet_read_json: "quiet (read_json_until ok parse reads)"
proof (induction ok parse reads rule: read_json_until.induct)
  case (2 ok parse elapsed r rest)
  then show ?case
    by (auto simp: quiet_kept intro!: quiet_chain quiet_send split: ws_read.split option.split)
qed (simp add: quiet_kept)

lemma quiet_device_message: "quiet (device_message ok h now message s)"
proof (cases message)
  case (V_Control request)
  have "no_snapshot (Out (case r of Inr response \<Rightarrow> VS_ControlResult response | Inl e \<Rightarrow> VS_Error e))" for r
    by (cases r) simp_all
  then show ?thesis
    unfolding V_Control device_message_def DeviceWsMessage.case
    by (intro quiet_and_then_always quiet_chain quiet_kept quiet_send)
qed (auto simp: device_message_def quiet_kept intro!: quiet_chain quiet_send)

lemma quiet_on_read: "quiet (on_read ok h parse ri s)"
  by (auto simp: on_read_def Let_def quiet_kept quiet_device_message intro!: quiet_chain quiet_send split: ws_read.split option.split)

lemma device_message_sequence:
  "device_message ok h now message s c = (Inr (Goes_On s1), c1) \<Longrightarrow> s1 = s"
  by (cases message) (auto simp: device_message_def chain_def and_then_always_def on_world_def ws_send_def close_ws_def modify_def give_def
      split: if_splits prod.splits sum.splits)

lemma on_read_sequence: "on_read ok h parse ri s c = (Inr (Goes_On s1), c1) \<Longrightarrow> se_sequence s1 = se_sequence s"
  by (cases "ri_read ri") (auto simp: on_read_def Let_def chain_def ws_send_def give_def raise_def
      dest!: device_message_sequence split: if_splits option.splits)

text \<open>Providers that number a snapshot as asked.\<close>

definition echoes :: "'w MonitorHandlers \<Rightarrow> bool" where
  "echoes h \<longleftrightarrow> (\<forall>d i n w sn w1. mh_snapshot h d i n w = (Inr sn, w1) \<longrightarrow> sn_sequence sn = n)"

lemma numbered_snapshot:
  assumes "numbered c k" and "unat (sn_sequence sn) = Suc k" and "cn_out c1 = cn_out c @ [Out (VS_Snapshot t sn)]"
  shows "numbered c1 (Suc k)"
  using assms by (simp add: numbered_def)

lemma push_numbered:
  assumes "push_snapshot ok h now d i n c = (r, c1)" and "numbered c (unat n)" and "unat n < 2 ^ 64 - 1" and "echoes h"
  shows "case r of Inl _ \<Rightarrow> numbered c1 (unat n) | Inr m \<Rightarrow> unat m = Suc (unat n) \<and> numbered c1 (unat m)"
proof -
  obtain q w1 where q: "mh_snapshot h d i (sat_add64 n 1) (cn_world c) = (q, w1)" by fastforce
  let ?c = "c\<lparr>cn_world := w1\<rparr>"
  have n: "unat (sat_add64 n 1) = Suc (unat n)" by (rule sat_add64_one [OF assms(3)])
  show ?thesis
  proof (cases q)
    case (Inl e)
    with assms(1) q have "r = Inl e" "c1 = ?c" by (auto simp: push_snapshot_def Let_def chain_def on_world_def)
    with assms(2) show ?thesis by simp
  next
    case (Inr sn)
    with q assms(4) have sn: "sn_sequence sn = sat_add64 n 1" unfolding echoes_def by blast
    show ?thesis
    proof (cases "ok (cn_sends c)")
      case True
      with assms(1) q Inr have r: "r = Inr (sat_add64 n 1)" "cn_out c1 = cn_out ?c @ [Out (VS_Snapshot now sn)]"
        by (auto simp: push_snapshot_def Let_def chain_def on_world_def ws_send_def give_def)
      have "numbered ?c (unat n)" using assms(2) by simp
      from numbered_snapshot [OF this _ r(2)] r(1) n sn show ?thesis by simp
    next
      case False
      with assms(1) q Inr have "\<exists>e. r = Inl e" "cn_out c1 = cn_out c"
        by (auto simp: push_snapshot_def Let_def chain_def on_world_def ws_send_def)
      with assms(2) show ?thesis by (auto simp: numbered_def)
    qed
  qed
qed

lemma quietD: "quiet m \<Longrightarrow> m c = (r, c1) \<Longrightarrow> numbered c k \<Longrightarrow> numbered c1 k"
  by (auto simp: quiet_def dest: preservesD)

lemma snapshot_due_numbered:
  assumes "snapshot_due ok h ri s c = (r, c1)" and "numbered c (unat (se_sequence s))" and "unat (se_sequence s) < 2 ^ 64 - 1" and "echoes h"
  shows "case r of Inl _ \<Rightarrow> \<exists>k. numbered c1 k
    | Inr s1 \<Rightarrow> numbered c1 (unat (se_sequence s1)) \<and> unat (se_sequence s1) \<le> Suc (unat (se_sequence s))"
proof (cases "SNAPSHOT_INTERVAL \<le> ri_snapshot_at ri - se_last_snapshot s")
  case True
  obtain q c2 where q: "push_snapshot ok h (ri_now ri) (se_device_id s) (se_session_id s) (se_sequence s) c = (q, c2)" by fastforce
  from push_numbered [OF q assms(2-4)] assms(1) q True show ?thesis
    by (auto simp: snapshot_due_def chain_def give_def split: sum.splits)
next
  case False
  with assms show ?thesis by (auto simp: snapshot_due_def give_def)
qed

lemma quiet_ping_due: "quiet (ping_due ok ri s)"
  unfolding ping_due_def by (auto simp: quiet_kept intro!: quiet_chain quiet_send)

lemma ping_due_sequence: "ping_due ok ri s c = (Inr s1, c1) \<Longrightarrow> se_sequence s1 = se_sequence s"
  by (auto simp: ping_due_def chain_def ws_send_def give_def split: if_splits)

lemma round_numbered:
  assumes "monitor_round ok h parse ri s c = (r, c1)" and "numbered c (unat (se_sequence s))" and "unat (se_sequence s) < 2 ^ 64 - 1" and "echoes h"
  shows "(\<exists>k. numbered c1 k) \<and> (\<forall>s1. r = Inr (Goes_On s1) \<longrightarrow>
    numbered c1 (unat (se_sequence s1)) \<and> unat (se_sequence s1) \<le> Suc (unat (se_sequence s)))"
proof (cases "IDLE_TIMEOUT < ri_idle_at ri - se_last_activity s")
  case True
  then have "chain close_ws (\<lambda>_. raise ''heartbeat timeout'') c = (r, c1)" using assms(1) by (simp add: monitor_round_def)
  with assms(2) show ?thesis
    by (auto simp: chain_def close_ws_def modify_def raise_def numbered_def)
next
  case False
  then have "chain (on_auth (mh_auth h (se_device_id s) (se_token s))) (\<lambda>authorized.
        if \<not> authorized then turn_away ok ''device revoked'' ''the authorization was revoked''
        else chain (snapshot_due ok h ri s) (\<lambda>s1. chain (ping_due ok ri s1) (on_read ok h parse ri))) c = (r, c1)"
    using assms(1) by (simp add: monitor_round_def)
  then show ?thesis
  proof (cases rule: chain_cases)
    case (stopped e)
    with quietD [OF quiet_kept(3) stopped(1) assms(2)] show ?thesis by auto
  next
    case (went_on b c2)
    have c2: "numbered c2 (unat (se_sequence s))" by (rule quietD [OF quiet_kept(3) went_on(1) assms(2)])
    show ?thesis
    proof (cases b)
      case False
      with went_on(2) have t: "turn_away ok ''device revoked'' ''the authorization was revoked'' c2 = (r, c1)" by simp
      then have "isl r" by (auto simp: turn_away_def and_then_always_def chain_def close_ws_def modify_def raise_def split: prod.splits)
      with quietD [OF quiet_turn_away t c2] show ?thesis by auto
    next
      case True
      with went_on(2) have "chain (snapshot_due ok h ri s) (\<lambda>s1. chain (ping_due ok ri s1) (on_read ok h parse ri)) c2 = (r, c1)" by simp
      then show ?thesis
      proof (cases rule: chain_cases)
        case (stopped e)
        with snapshot_due_numbered [OF stopped(1) c2 assms(3,4)] show ?thesis by auto
      next
        case (went_on s1 c3)
        with snapshot_due_numbered [OF went_on(1) c2 assms(3,4)]
        have c3: "numbered c3 (unat (se_sequence s1))" "unat (se_sequence s1) \<le> Suc (unat (se_sequence s))" by auto
        from went_on(2) show ?thesis
        proof (cases rule: chain_cases)
          case (stopped e)
          with quietD [OF quiet_ping_due stopped(1) c3(1)] show ?thesis by auto
        next
          case (went_on s2 c4)
          have "numbered c4 (unat (se_sequence s1))" by (rule quietD [OF quiet_ping_due went_on(1) c3(1)])
          from quietD [OF quiet_on_read went_on(2) this] ping_due_sequence [OF went_on(1)] c3(2) on_read_sequence [of ok h parse ri s2 c4 _ c1] went_on(2)
          show ?thesis by auto
        qed
      qed
    qed
  qed
qed

lemma rounds_numbered:
  assumes "monitor_rounds ok h parse ris s c = (r, c1)" and "numbered c (unat (se_sequence s))"
    and "unat (se_sequence s) + length ris < 2 ^ 64 - 1" and "echoes h"
  shows "\<exists>k. numbered c1 k"
  using assms
proof (induction ris arbitrary: s c)
  case Nil
  then show ?case by (auto simp: give_def)
next
  case (Cons ri ris)
  from Cons.prems(1) have "chain (monitor_round ok h parse ri s)
      (\<lambda>r. case r of Finished \<Rightarrow> give Finished | Goes_On s1 \<Rightarrow> monitor_rounds ok h parse ris s1) c = (r, c1)" by simp
  then show ?case
  proof (cases rule: chain_cases)
    case (stopped e)
    with round_numbered [OF stopped(1) Cons.prems(2) _ Cons.prems(4)] Cons.prems(3) show ?thesis by auto
  next
    case (went_on a c2)
    note rn = round_numbered [OF went_on(1) Cons.prems(2) _ Cons.prems(4)]
    show ?thesis
    proof (cases a)
      case (Goes_On s1)
      with rn Cons.prems(3) have "numbered c2 (unat (se_sequence s1))" "unat (se_sequence s1) + length ris < 2 ^ 64 - 1" by auto
      with Cons.IH [of s1 c2] went_on(2) Goes_On Cons.prems(4) show ?thesis by simp
    next
      case Finished
      with rn Cons.prems(3) went_on(2) show ?thesis by (auto simp: give_def)
    qed
  qed
qed

lemma acknowledge_numbered:
  assumes "acknowledge ok h rnd now start d t c = (r, c1)" and "numbered c 0" and "echoes h"
  shows "(\<exists>k. numbered c1 k) \<and> (\<forall>s. r = Inr (Some s) \<longrightarrow> se_sequence s = 1 \<and> numbered c1 1)"
  using assms(1) unfolding acknowledge_def
proof (cases rule: chain_cases)
  case (stopped e)
  with quietD [OF quiet_kept(6) stopped(1) assms(2)] show ?thesis by auto
next
  case (went_on random c2)
  have c2: "numbered c2 0" by (rule quietD [OF quiet_kept(6) went_on(1) assms(2)])
  from went_on(2) show ?thesis
  proof (cases rule: chain_cases)
    case (stopped e)
    with quietD [OF quiet_send stopped(1) c2] show ?thesis by auto
  next
    case (went_on u c3)
    have c3: "numbered c3 (unat (0 :: u64))" using quietD [OF quiet_send went_on(1) c2] by simp
    from went_on(2) show ?thesis
    proof (cases rule: chain_cases)
      case (stopped e)
      with push_numbered [OF stopped(1) c3 _ assms(3)] show ?thesis by auto
    next
      case (went_on n c4)
      with push_numbered [OF went_on(1) c3 _ assms(3)] have n: "unat n = 1" "numbered c4 1" by auto
      then have "n = 1" by (metis unat_1 word_unat_eq_iff)
      with n(2) went_on(2) show ?thesis by (auto simp: give_def)
    qed
  qed
qed

lemma turned_away:
  assumes "turn_away ok m e c = (r, c1)" and "numbered c k"
  shows "isl r \<and> (\<exists>k. numbered c1 k)"
  using assms(1) quietD [OF quiet_turn_away assms]
  by (auto simp: turn_away_def and_then_always_def chain_def close_ws_def modify_def raise_def split: prod.splits)

lemma greet_numbered:
  assumes "greet ok h parse rnd now start desktop_id d t reads c = (r, c1)" and "numbered c 0" and "echoes h"
  shows "(\<exists>k. numbered c1 k) \<and> (\<forall>s. r = Inr (Some s) \<longrightarrow> se_sequence s = 1 \<and> numbered c1 1)"
  using assms(1) unfolding greet_def
proof (cases rule: chain_cases)
  case (stopped e)
  with quietD [OF quiet_read_json stopped(1) assms(2)] show ?thesis by auto
next
  case (went_on hello c2)
  have c2: "numbered c2 0" by (rule quietD [OF quiet_read_json went_on(1) assms(2)])
  consider (waiting) "hello = None" | (hello) "hello = Some (V_Hello PROTOCOL_VERSION desktop_id d)"
    | (other) m where "hello = Some m" "m \<noteq> V_Hello PROTOCOL_VERSION desktop_id d" by (cases hello) auto
  then show ?thesis
  proof cases
    case waiting
    with went_on(2) c2 show ?thesis by (auto simp: give_def)
  next
    case hello
    with went_on(2) have "acknowledge ok h rnd now start d t c2 = (r, c1)" by simp
    from acknowledge_numbered [OF this c2 assms(3)] show ?thesis .
  next
    case (other m)
    with went_on(2) have "turn_away ok ''invalid hello'' ''invalid hello'' c2 = (r, c1)" by simp
    from turned_away [OF this c2] show ?thesis by auto
  qed
qed

lemma open_numbered:
  assumes "open_session ok h parse rnd now start desktop_id path bearer_token reads c = (r, c1)" and "cn_out c = []" and "echoes h"
  shows "(\<exists>k. numbered c1 k) \<and> (\<forall>s. r = Inr (Some s) \<longrightarrow> se_sequence s = 1 \<and> numbered c1 1)"
proof (cases "parse_query path")
  case None
  with assms show ?thesis by (auto simp: open_session_def raise_def numbered_def intro: exI [of _ 0])
next
  case (Some q)
  have c0: "numbered c 0" using assms(2) by (simp add: numbered_def)
  from assms(1) Some have "chain (on_auth (authorize_request h desktop_id q (token_of bearer_token))) (\<lambda>authorized.
            if authorized
            then greet ok h parse rnd now start desktop_id (text_at q ''deviceId'') (token_of bearer_token) reads
            else turn_away ok ''unauthorized'' ''authentication failed'') c = (r, c1)"
    by (simp add: open_session_def)
  then show ?thesis
  proof (cases rule: chain_cases)
    case (stopped e)
    with quietD [OF quiet_kept(3) stopped(1) c0] show ?thesis by auto
  next
    case (went_on b c2)
    have c2: "numbered c2 0" by (rule quietD [OF quiet_kept(3) went_on(1) c0])
    show ?thesis
    proof (cases b)
      case True
      with went_on(2) have "greet ok h parse rnd now start desktop_id (text_at q ''deviceId'') (token_of bearer_token) reads c2 = (r, c1)" by simp
      from greet_numbered [OF this c2 assms(3)] show ?thesis .
    next
      case False
      with went_on(2) have "turn_away ok ''unauthorized'' ''authentication failed'' c2 = (r, c1)" by simp
      from turned_away [OF this c2] show ?thesis by auto
    qed
  qed
qed

lemma socket_numbered:
  assumes "handle_monitor_socket ok h parse rnd now start desktop_id path bearer_token reads ris c = (r, c1)"
    and "cn_out c = []" and "echoes h" and "length ris < 2 ^ 64 - 2"
  shows "\<exists>k. numbered c1 k"
  using assms(1) unfolding handle_monitor_socket_def
proof (cases rule: chain_cases)
  case (stopped e)
  with open_numbered [OF stopped(1) assms(2,3)] show ?thesis by auto
next
  case (went_on s c2)
  note on = open_numbered [OF went_on(1) assms(2,3)]
  show ?thesis
  proof (cases s)
    case None
    with went_on(2) on show ?thesis by (auto simp: give_def)
  next
    case (Some s')
    with on have s': "numbered c2 (unat (se_sequence s'))" "unat (se_sequence s') + length ris < 2 ^ 64 - 1"
      using assms(4) by auto
    from went_on(2) Some have "chain (monitor_rounds ok h parse ris s') (\<lambda>r. give (Some r)) c2 = (r, c1)" by simp
    then show ?thesis
      by (cases rule: chain_cases) (use rounds_numbered [OF _ s' assms(3)] in \<open>auto simp: give_def\<close>)
  qed
qed

end
