(* ===== verification/Monitor_Device_Safety.thy ===== *)
theory Monitor_Device_Safety
  imports Monitor_Devices "HOL-Library.Multiset"
begin

text \<open>
  What pairing, authorization and revocation of phones guarantee: a pairing code enrolls at most one device, the
  registry in memory is the one a restart would read, a revoked device is locked out. The rules \<open>*_cases\<close> say how
  each operation can end; the properties follow by going through them.
\<close>

section \<open>How the operations end\<close>

lemma wp_os_call [simp]:
  "wp (os_call env e) Q w = Q (if me_ok env (mw_calls w) then Inr () else Inl e) (passed_by w)"
  by (simp add: wp_def os_call_def)

lemma wp_iff: "wp m Q w \<longleftrightarrow> Q (fst (m w)) (snd (m w))"
  by (simp add: wp_def split_def)

lemma save_outcome:
  "wp (save_monitor_devices env ds)
     (\<lambda>r w1. (\<exists>n. r = Inr () \<and> w1 = w\<lparr>mw_calls := n, mw_file := Some (me_print env ds @ [CHR 0x0A])\<rparr>)
       \<or> (\<exists>n e. r = Inl e \<and> w1 = w\<lparr>mw_calls := n\<rparr>)
       \<or> (\<exists>n e. me_windows env \<and> r = Inl e \<and> w1 = w\<lparr>mw_calls := n, mw_file := None\<rparr>)) w"
  by (cases w) (auto simp: save_monitor_devices_def passed_by_def wp_if_fun)

lemma save_cases:
  obtains (saved) n where "save_monitor_devices env ds w = (Inr (), w\<lparr>mw_calls := n, mw_file := Some (me_print env ds @ [CHR 0x0A])\<rparr>)"
  | (kept) n e where "save_monitor_devices env ds w = (Inl e, w\<lparr>mw_calls := n\<rparr>)"
  | (lost) n e where "me_windows env" and "save_monitor_devices env ds w = (Inl e, w\<lparr>mw_calls := n, mw_file := None\<rparr>)"
  using save_outcome [of env ds w] by (cases "save_monitor_devices env ds w") (auto simp: wp_def)

lemma relay_cases:
  obtains (finished) n where "relay_call env e f w = (Inr (), w\<lparr>mw_calls := n, mw_relay := f (mw_relay w)\<rparr>)"
  | (unchanged) n d where "relay_call env e f w = (Inl d, w\<lparr>mw_calls := n\<rparr>)"
  | (doubtful) n d where "relay_call env e f w = (Inl d, w\<lparr>mw_calls := n, mw_relay := f (mw_relay w)\<rparr>)"
proof (cases "normalized_base_url (me_relay_base_url env)")
  case (Inl invalid)
  have "relay_call env e f w = (Inl invalid, w\<lparr>mw_calls := mw_calls w\<rparr>)"
    using Inl by (simp add: relay_call_def)
  then show ?thesis by (rule unchanged)
next
  case (Inr base)
  show ?thesis
  proof (cases "me_answer env (mw_calls w)")
    case Call_Done
    then show ?thesis using Inr finished by (simp add: relay_call_def passed_by_def)
  next
    case Call_Failed
    then show ?thesis using Inr unchanged by (simp add: relay_call_def passed_by_def)
  next
    case (Call_Unknown effect)
    then show ?thesis using Inr unchanged doubtful by (cases effect) (simp_all add: relay_call_def passed_by_def)
  qed
qed

lemma load_outcome:
  assumes "mw_devices w = None"
  shows "wp (ensure_monitor_devices_loaded env)
     (\<lambda>r w1. (\<exists>n ds. r = Inr ds \<and> devices_of_file env (mw_file w) = Inr ds \<and> w1 = w\<lparr>mw_calls := n, mw_devices := Some ds\<rparr>)
       \<or> (\<exists>n e. r = Inl e \<and> w1 = w\<lparr>mw_calls := n\<rparr>)) w"
proof -
  have "wp (load_monitor_devices env)
     (\<lambda>r w1. \<exists>n. w1 = w\<lparr>mw_calls := n\<rparr> \<and> (\<forall>ds. r = Inr ds \<longrightarrow> devices_of_file env (mw_file w) = Inr ds)) w"
    by (auto simp: load_monitor_devices_def passed_by_def)
  with assms show ?thesis
    by (auto simp: ensure_monitor_devices_loaded_def wp_def chain_def split: prod.splits sum.splits)
qed

lemma load_cases:
  obtains (known) ds where "mw_devices w = Some ds" and "ensure_monitor_devices_loaded env w = (Inr ds, w)"
  | (read) n ds where "mw_devices w = None" and "devices_of_file env (mw_file w) = Inr ds"
      and "ensure_monitor_devices_loaded env w = (Inr ds, w\<lparr>mw_calls := n, mw_devices := Some ds\<rparr>)"
  | (unread) n e where "mw_devices w = None" and "ensure_monitor_devices_loaded env w = (Inl e, w\<lparr>mw_calls := n\<rparr>)"
proof (cases "mw_devices w")
  case None
  with load_outcome [OF this, of env] read unread show ?thesis
    by (cases "ensure_monitor_devices_loaded env w") (auto simp: wp_def)
next
  case (Some ds)
  then show ?thesis using known by (simp add: ensure_monitor_devices_loaded_def)
qed

section \<open>What they leave alone\<close>

lemma keeps_os_call [kept]: "(\<And>w. part (passed_by w) = part w) \<Longrightarrow> keeps part (os_call env e)"
  by (simp add: keeps_def os_call_def)

lemma keeps_token [kept]: "(\<And>w. part (passed_by w) = part w) \<Longrightarrow> keeps part (generate_monitor_token env)"
  by (simp add: keeps_def generate_monitor_token_def)

lemma keeps_clock [kept]: "(\<And>w. part (passed_by w) = part w) \<Longrightarrow> keeps part (timestamp_ms env)"
  by (simp add: keeps_def timestamp_ms_def)

lemma keeps_relay_call [kept]: "keeps mw_pairing (relay_call env e f)"
proof -
  have "mw_pairing (snd (relay_call env e f w)) = mw_pairing w" for w
    by (rule relay_cases [of env e f w]) simp_all
  then show ?thesis by (simp add: keeps_def)
qed

lemma keeps_load [kept]: "keeps mw_pairing (ensure_monitor_devices_loaded env)"
proof -
  have "mw_pairing (snd (ensure_monitor_devices_loaded env w)) = mw_pairing w" for w
    by (rule load_cases [of w env]) simp_all
  then show ?thesis by (simp add: keeps_def)
qed

lemma keeps_save [kept]: "keeps mw_pairing (save_monitor_devices env ds)"
proof -
  have "mw_pairing (snd (save_monitor_devices env ds w)) = mw_pairing w" for w
    by (rule save_cases [of env ds w]) simp_all
  then show ?thesis by (simp add: keeps_def)
qed

lemma keeps_set_devices [kept]: "keeps mw_pairing (set_devices ds)"
  by (simp add: keeps_def set_devices_def modify_def)

lemma passed_by_simps [simp]:
  "mw_pairing (passed_by w) = mw_pairing w" "mw_devices (passed_by w) = mw_devices w"
  "mw_file (passed_by w) = mw_file w" "mw_relay (passed_by w) = mw_relay w"
  by (simp_all add: passed_by_def)

lemma keeps_revoke [kept]: "keeps mw_pairing (revoke_monitor_device_everywhere env device_id)"
  unfolding revoke_monitor_device_everywhere_def revoke_monitor_device_local_def relay_revoke_def relay_authorize_def Let_def
  by (intro kept passed_by_simps)

lemma keeps_complete [kept]: "keeps mw_pairing (complete_claimed_monitor_pairing env pairing_id name)"
  unfolding complete_claimed_monitor_pairing_def enroll_device_def store_new_device_def relay_revoke_def relay_authorize_def Let_def
  by (intro kept passed_by_simps)

lemma keeps_authorized: "mw_pairing (snd (monitor_device_token_authorized env device_id token w)) = mw_pairing w"
  by (auto simp: monitor_device_token_authorized_def Let_def
        dest!: keepsD [OF keeps_load] keepsD [OF keeps_save] split: prod.splits sum.splits option.splits)

section \<open>What they do to the registry\<close>

text \<open>The devices an operation works on: those in memory, or those of the file when none are in memory yet.\<close>

definition registry :: "MonitorEnv \<Rightarrow> MonitorWorld \<Rightarrow> string + MonitorDeviceRecord list" where
  "registry env w = (case mw_devices w of Some ds \<Rightarrow> Inr ds | None \<Rightarrow> devices_of_file env (mw_file w))"

text \<open>A write of the registry to the file either happened or left the file alone; on Windows it may be gone.\<close>

definition unwritten :: "MonitorEnv \<Rightarrow> MonitorWorld \<Rightarrow> MonitorWorld \<Rightarrow> bool" where
  "unwritten env w w1 \<longleftrightarrow> (mw_file w1 = mw_file w \<or> me_windows env \<and> mw_file w1 = None)
     \<and> (mw_devices w1 = mw_devices w \<or> mw_devices w = None \<and> (\<exists>ds. devices_of_file env (mw_file w) = Inr ds \<and> mw_devices w1 = Some ds))"

definition written :: "MonitorEnv \<Rightarrow> MonitorDeviceRecord list \<Rightarrow> MonitorWorld \<Rightarrow> bool" where
  "written env ds w1 \<longleftrightarrow> mw_devices w1 = Some ds \<and> mw_file w1 = Some (me_print env ds @ [CHR 0x0A])"

lemma load_registry:
  "ensure_monitor_devices_loaded env w = (Inr ds, w1) \<Longrightarrow>
   registry env w = Inr ds \<and> mw_devices w1 = Some ds \<and> mw_file w1 = mw_file w \<and> mw_relay w1 = mw_relay w \<and> unwritten env w w1"
  by (rule load_cases [of w env]) (auto simp: registry_def unwritten_def)

lemma load_failed:
  "ensure_monitor_devices_loaded env w = (Inl e, w1) \<Longrightarrow>
   mw_devices w1 = None \<and> mw_devices w = None \<and> mw_file w1 = mw_file w \<and> mw_relay w1 = mw_relay w \<and> unwritten env w w1"
  by (rule load_cases [of w env]) (auto simp: unwritten_def)

definition removal :: "MonitorEnv \<Rightarrow> string \<Rightarrow> MonitorWorld \<Rightarrow> string + bool \<Rightarrow> MonitorWorld \<Rightarrow> bool" where
  "removal env device_id w r w1 =
     (case r of Inl _ \<Rightarrow> unwritten env w w1
       | Inr removed \<Rightarrow> (\<exists>ds. registry env w = Inr ds
           \<and> mw_devices w1 = Some (filter (\<lambda>d. md_id d \<noteq> device_id) ds)
           \<and> (removed \<longleftrightarrow> (\<exists>d \<in> set ds. md_id d = device_id))
           \<and> (if removed then written env (filter (\<lambda>d. md_id d \<noteq> device_id) ds) w1 else unwritten env w w1)))"

lemma revoke_local_outcome:
  assumes "revoke_monitor_device_local env device_id w = (r, w1)"
  shows "mw_relay w1 = mw_relay w \<and> removal env device_id w r w1"
proof -
  obtain l w2 where l: "ensure_monitor_devices_loaded env w = (l, w2)" by fastforce
  show ?thesis
  proof (cases l)
    case (Inl e)
    with l have "ensure_monitor_devices_loaded env w = (Inl e, w2)" by simp
    with assms load_failed [OF this] show ?thesis by (auto simp: revoke_monitor_device_local_def removal_def chain_def)
  next
    case (Inr ds)
    with l have l: "ensure_monitor_devices_loaded env w = (Inr ds, w2)" by simp
    note lr = load_registry [OF l]
    let ?f = "filter (\<lambda>d. md_id d \<noteq> device_id) ds"
    show ?thesis
    proof (cases "\<exists>d \<in> set ds. md_id d = device_id")
      case False
      then have same: "?f = ds" by (auto simp: filter_id_conv)
      with assms l have "r = Inr False" "w1 = w2" by (auto simp: revoke_monitor_device_local_def chain_def give_def)
      with lr same False show ?thesis by (auto simp: removal_def)
    next
      case True
      then have shorter: "length ?f \<noteq> length ds"
        by (metis (mono_tags, lifting) length_filter_less less_irrefl)
      obtain s w3 where s: "save_monitor_devices env ?f (w2\<lparr>mw_devices := Some ?f\<rparr>) = (s, w3)" by fastforce
      have run: "(r, w1) = (case s of Inl e \<Rightarrow> (Inl e, w3\<lparr>mw_devices := Some ds\<rparr>) | Inr _ \<Rightarrow> (Inr True, w3))"
        using assms l shorter s
        by (auto simp: revoke_monitor_device_local_def chain_def set_devices_def modify_def and_then_always_def raise_def give_def Let_def
            split: sum.splits)
      show ?thesis
        by (rule save_cases [of env ?f "w2\<lparr>mw_devices := Some ?f\<rparr>"])
          (use s run lr True in \<open>auto simp: removal_def written_def unwritten_def\<close>)
    qed
  qed
qed

lemma removal_from:
  assumes "removal env device_id w0 r w1" and "mw_devices w0 = mw_devices w" and "mw_file w0 = mw_file w"
  shows "removal env device_id w r w1"
proof -
  have same: "registry env w0 = registry env w" "unwritten env w0 w1 = unwritten env w w1"
    using assms by (simp_all add: registry_def unwritten_def cong: option.case_cong)
  show ?thesis using assms(1) unfolding removal_def same .
qed

lemma removal_unwritten: "unwritten env w w1 \<Longrightarrow> removal env device_id w (Inl e) w1"
  by (simp add: removal_def)

lemma removal_error: "removal env device_id w (Inl e) w1 \<longleftrightarrow> unwritten env w w1"
  by (simp add: removal_def)

lemma unwritten_refl [simp]:
  "unwritten env w (w\<lparr>mw_calls := n\<rparr>)" "unwritten env w (w\<lparr>mw_calls := n, mw_relay := x\<rparr>)" "unwritten env w w"
  by (simp_all add: unwritten_def)

lemma unwritten_then:
  "unwritten env w w0 \<Longrightarrow> mw_devices w1 = mw_devices w0 \<Longrightarrow> mw_file w1 = mw_file w0 \<Longrightarrow> unwritten env w w1"
  by (simp add: unwritten_def)

text \<open>A call to the relay about one device changes at most what the relay holds of that device.\<close>

definition relay_only :: "string \<Rightarrow> MonitorWorld \<Rightarrow> MonitorWorld \<Rightarrow> bool" where
  "relay_only device_id w w1 \<longleftrightarrow> mw_devices w1 = mw_devices w \<and> mw_file w1 = mw_file w
     \<and> (\<forall>x. x \<noteq> device_id \<longrightarrow> mw_relay w1 x = mw_relay w x)"

lemma relay_revoke_outcome:
  assumes "relay_revoke env device_id w = (r, w1)"
  shows "relay_only device_id w w1 \<and> (\<forall>u. r = Inr u \<longrightarrow> mw_relay w1 device_id = None)"
  by (rule relay_cases [of env "''relay revocation failed''" "\<lambda>r. r(device_id := None)" w])
    (use assms in \<open>auto simp: relay_revoke_def relay_only_def\<close>)

lemma relay_authorize_outcome:
  assumes "relay_authorize env device_id token w = (r, w1)"
  shows "relay_only device_id w w1 \<and> (\<forall>u. r = Inr u \<longrightarrow> mw_relay w1 device_id = Some token)"
  by (rule relay_cases [of env "''relay authorization failed''" "\<lambda>r. r(device_id \<mapsto> token)" w])
    (use assms in \<open>auto simp: relay_authorize_def relay_only_def\<close>)

lemma relay_restored:
  assumes "(if relay_matches env then and_then_always (os_call env m) (\<lambda>key. if isl key then raise e
        else and_then_always (relay_authorize env device_id token) (\<lambda>_. raise e)) else raise e) w = (r, w1)"
  shows "r = Inl e \<and> relay_only device_id w w1"
  using assms
  by (auto simp: and_then_always_def os_call_def raise_def relay_only_def passed_by_def
      dest!: relay_authorize_outcome split: if_splits prod.splits)

lemma revoke_everywhere_outcome:
  assumes "revoke_monitor_device_everywhere env device_id w = (r, w1)"
  shows "removal env device_id w r w1 \<and> (\<forall>x. x \<noteq> device_id \<longrightarrow> mw_relay w1 x = mw_relay w x)
    \<and> (\<forall>removed. r = Inr removed \<longrightarrow> relay_matches env \<longrightarrow> mw_relay w1 device_id = None)"
proof -
  obtain a w2 where a: "(if relay_matches env then relay_revoke env device_id else give ()) w = (a, w2)" by fastforce
  then have at_relay: "relay_only device_id w w2" "\<And>u. a = Inr u \<Longrightarrow> relay_matches env \<Longrightarrow> mw_relay w2 device_id = None"
    using relay_revoke_outcome [of env device_id w a w2] by (auto simp: give_def relay_only_def split: if_splits)
  show ?thesis
  proof (cases a)
    case (Inl e)
    with assms a have "r = Inl e" "w1 = w2" by (auto simp: revoke_monitor_device_everywhere_def chain_def)
    with at_relay show ?thesis by (auto simp: removal_error unwritten_def relay_only_def)
  next
    case (Inr u)
    obtain b w3 where b: "revoke_monitor_device_local env device_id w2 = (b, w3)" by fastforce
    note local = revoke_local_outcome [OF b]
    show ?thesis
    proof (cases b)
      case (Inl e)
      with assms a b \<open>a = Inr u\<close> have "(if relay_matches env then and_then_always (os_call env ''monitor master key'') (\<lambda>key. if isl key then raise e
          else and_then_always (relay_authorize env device_id (me_relay_token env device_id)) (\<lambda>_. raise e)) else raise e) w3 = (r, w1)"
        by (simp add: revoke_monitor_device_everywhere_def chain_def and_then_always_def split: if_splits)
      from relay_restored [OF this] local Inl at_relay show ?thesis
        by (auto simp: removal_error unwritten_def relay_only_def)
    next
      case (Inr removed)
      with assms a b \<open>a = Inr u\<close> have "r = Inr removed" "w1 = w3"
        by (auto simp: revoke_monitor_device_everywhere_def chain_def and_then_always_def give_def split: if_splits)
      with local at_relay Inr \<open>a = Inr u\<close> removal_from [of env device_id w2 r w1 w] show ?thesis
        by (auto simp: relay_only_def)
    qed
  qed
qed

text \<open>The record a completed pairing leaves of its device.\<close>

definition enrolled_as :: "MonitorEnv \<Rightarrow> Enrollment \<Rightarrow> MonitorDeviceRecord \<Rightarrow> bool" where
  "enrolled_as env en d \<longleftrightarrow> md_id d = en_device_id en \<and> md_name d = en_device_name en
     \<and> md_token_hash d = me_sha env (en_direct_token en)"

definition enrollment :: "MonitorEnv \<Rightarrow> MonitorWorld \<Rightarrow> string + Enrollment \<Rightarrow> MonitorWorld \<Rightarrow> bool" where
  "enrollment env w r w1 =
     (case r of Inl _ \<Rightarrow> unwritten env w w1
      | Inr en \<Rightarrow> (\<exists>ds d. registry env w = Inr ds \<and> length ds < MAX_MONITOR_DEVICES \<and> written env (ds @ [d]) w1
          \<and> enrolled_as env en d \<and> (\<forall>desktop token. en_relay en = Some (desktop, token) \<longrightarrow> mw_relay w1 (en_device_id en) = Some token)))"

lemma store_outcome:
  assumes "store_new_device env previous d at_relay finished w = (r, w1)"
    and "mw_devices w = Some previous" and "registry env w0 = Inr previous" and "unwritten env w0 w"
    and "\<And>w w1 r. finished w = (r, w1) \<Longrightarrow> r = Inr en \<and> (\<exists>n. w1 = w\<lparr>mw_calls := n\<rparr>)"
    and "length previous < MAX_MONITOR_DEVICES" and "enrolled_as env en d"
    and "\<And>desktop token. en_relay en = Some (desktop, token) \<Longrightarrow> mw_relay w (en_device_id en) = Some token"
  shows "enrollment env w0 r w1 \<and> (\<forall>x. r = Inr x \<longrightarrow> x = en)"
proof -
  let ?ds = "previous @ [d]"
  obtain s w2 where s: "save_monitor_devices env ?ds (w\<lparr>mw_devices := Some ?ds\<rparr>) = (s, w2)" by fastforce
  have disk: "mw_file w2 = mw_file w \<or> me_windows env \<and> mw_file w2 = None" if "s = Inl e" for e
    by (rule save_cases [of env ?ds "w\<lparr>mw_devices := Some ?ds\<rparr>"]) (use s that in auto)
  show ?thesis
  proof (cases s)
    case (Inr u)
    obtain q w3 where q: "finished w2 = (q, w3)" by fastforce
    with assms(5) [OF q] obtain n where n: "q = Inr en" "w3 = w2\<lparr>mw_calls := n\<rparr>" by auto
    with assms(1) s Inr q have run: "r = Inr en" "w1 = w2\<lparr>mw_calls := n\<rparr>"
      by (auto simp: store_new_device_def chain_def set_devices_def modify_def and_then_always_def)
    have "written env ?ds w1 \<and> mw_relay w1 = mw_relay w"
      by (rule save_cases [of env ?ds "w\<lparr>mw_devices := Some ?ds\<rparr>"]) (use s Inr run in \<open>auto simp: written_def\<close>)
    with run assms(3,6-8) show ?thesis by (auto simp: enrollment_def)
  next
    case (Inl e)
    obtain b w3 where b: "(if at_relay then relay_revoke env (md_id d) else give ()) w2 = (b, w3)" by fastforce
    then have "mw_file w3 = mw_file w2"
      using relay_revoke_outcome [of env "md_id d" w2 b w3] by (auto simp: relay_only_def give_def split: if_splits)
    moreover have "(\<exists>e. r = Inl e) \<and> w1 = w3\<lparr>mw_devices := Some previous\<rparr>"
      using assms(1) s Inl b
      by (simp add: store_new_device_def chain_def set_devices_def modify_def and_then_always_def raise_def split: if_splits) auto
    ultimately show ?thesis
      using disk [OF Inl] assms(2,4) by (auto simp: enrollment_def unwritten_def)
  qed
qed

lemma enrollment_error: "enrollment env w (Inl e) w1 \<longleftrightarrow> unwritten env w w1"
  by (simp add: enrollment_def)

lemma enroll_outcome:
  assumes run: "enroll_device env device_id name devices relay w = (r, w1)"
    and at: "mw_devices w = Some devices" "registry env w0 = Inr devices" "unwritten env w0 w" "length devices < MAX_MONITOR_DEVICES"
  shows "enrollment env w0 r w1
    \<and> (\<forall>en. r = Inr en \<longrightarrow> en_device_id en = device_id \<and> en_device_name en = name \<and> en_direct_token en = me_direct_token env device_id)"
  using run unfolding enroll_device_def Let_def
proof (cases rule: chain_cases)
  case (stopped e)
  then have "relay_only device_id w w1"
    using relay_authorize_outcome [of env device_id _ w] by (auto simp: give_def relay_only_def split: if_splits)
  with at stopped show ?thesis by (auto simp: enrollment_error relay_only_def unwritten_def)
next
  case (went_on u w2)
  let ?token = "me_relay_token env device_id"
  let ?en = "\<lparr>en_device_id = device_id, en_device_name = name, en_direct_token = me_direct_token env device_id,
      en_device_key = me_device_key env device_id, en_relay = map_option (\<lambda>credentials. (rc_desktop_id credentials, ?token)) relay\<rparr>"
  let ?finished = "and_then_always (if relay \<noteq> None then os_call env ''delete pairing route'' else give ()) (\<lambda>_. give ?en)"
  let ?d = "\<lambda>now. \<lparr>md_id = device_id, md_name = name, md_token_hash = me_sha env (me_direct_token env device_id),
      md_created_at = now, md_last_seen_at = Some now\<rparr>"
  have w2: "relay_only device_id w w2 \<and> (relay \<noteq> None \<longrightarrow> mw_relay w2 device_id = Some ?token)"
    using went_on(1) relay_authorize_outcome [of env device_id ?token w] by (auto simp: give_def relay_only_def split: if_splits)
  obtain now where store: "store_new_device env devices (?d now) (relay \<noteq> None) ?finished (passed_by w2) = (r, w1)"
    using went_on(2) by (simp add: chain_def timestamp_ms_def)
  have finished: "r = Inr ?en \<and> (\<exists>n. w1 = w\<lparr>mw_calls := n\<rparr>)" if "?finished w = (r, w1)" for w w1 r
    using that by (cases w) (auto simp: and_then_always_def give_def os_call_def passed_by_def split: if_splits)
  have "enrollment env w0 r w1 \<and> (\<forall>x. r = Inr x \<longrightarrow> x = ?en)"
  proof (rule store_outcome [OF store _ at(2) _ finished at(4)])
    show "mw_devices (passed_by w2) = Some devices" using at(1) w2 by (simp add: relay_only_def)
    show "unwritten env w0 (passed_by w2)" using at(3) w2 by (auto intro: unwritten_then simp: relay_only_def)
    show "enrolled_as env ?en (?d now)" by (simp add: enrolled_as_def)
    show "mw_relay (passed_by w2) (en_device_id ?en) = Some token" if "en_relay ?en = Some (desktop, token)" for desktop token
      using that w2 by auto
  qed
  then show ?thesis by auto
qed

lemma complete_claimed_outcome:
  assumes "complete_claimed_monitor_pairing env pairing_id name w = (r, w1)"
  shows "enrollment env w r w1 \<and> (\<forall>en. r = Inr en \<longrightarrow> en_device_name en = name \<and> en_direct_token en = me_direct_token env (en_device_id en))"
  using assms unfolding complete_claimed_monitor_pairing_def
proof (cases rule: chain_cases)
  case (stopped e)
  with load_failed [OF stopped(1)] show ?thesis by (simp add: enrollment_error)
next
  case (went_on devices w2)
  note l = load_registry [OF went_on(1)]
  show ?thesis
  proof (cases "MAX_MONITOR_DEVICES \<le> length devices")
    case True
    with went_on(2) l show ?thesis by (auto simp: raise_def enrollment_error)
  next
    case False
    let ?relay = "if me_relay_enabled env then relay_credentials_for_settings env else None"
    from went_on(2) False consider
      (early) e where "r = Inl e" "mw_devices w1 = mw_devices w2" "mw_file w1 = mw_file w2"
      | (late) device_id where "enroll_device env device_id name devices ?relay (passed_by (passed_by w2)) = (r, w1)"
      by (auto simp: chain_def os_call_def generate_monitor_token_def split: if_splits)
    then show ?thesis
    proof cases
      case early
      with l show ?thesis by (auto simp: enrollment_error unwritten_def)
    next
      case (late device_id)
      from enroll_outcome [OF this] l False show ?thesis by (auto simp: unwritten_def)
    qed
  qed
qed

lemma mark_seen_ids [simp]: "map md_id (mark_seen p now ds) = map md_id ds"
  by (induction ds) auto

lemma mark_seen_length [simp]: "length (mark_seen p now ds) = length ds"
  by (induction ds) auto

lemma find_matches: "find p ds = None \<longleftrightarrow> \<not> (\<exists>d \<in> set ds. p d)"
  by (auto simp: find_None_iff)

definition authorization :: "MonitorEnv \<Rightarrow> string \<Rightarrow> string \<Rightarrow> MonitorWorld \<Rightarrow> bool \<Rightarrow> MonitorWorld \<Rightarrow> bool" where
  "authorization env device_id token w b w1 \<longleftrightarrow> mw_relay w1 = mw_relay w
     \<and> (case registry env w of
          Inl _ \<Rightarrow> \<not> b \<and> unwritten env w w1
        | Inr ds \<Rightarrow> (b \<longrightarrow> (\<exists>d \<in> set ds. matching_device env device_id token d))
            \<and> (mw_devices w \<noteq> None \<longrightarrow> b = (\<exists>d \<in> set ds. matching_device env device_id token d))
            \<and> (unwritten env w w1 \<or> (\<exists>now. written env (mark_seen (matching_device env device_id token) now ds) w1)))"

lemma authorized_outcome:
  assumes "monitor_device_token_authorized env device_id token w = (b, w1)"
  shows "authorization env device_id token w b w1"
proof -
  obtain l w2 where l: "ensure_monitor_devices_loaded env w = (l, w2)" by fastforce
  show ?thesis
  proof (cases l)
    case (Inl e)
    with l load_failed [of env w e w2] assms show ?thesis
      by (auto simp: monitor_device_token_authorized_def authorization_def split: sum.splits)
  next
    case (Inr ds)
    with l have lr: "registry env w = Inr ds" "mw_devices w2 = Some ds" "mw_file w2 = mw_file w" "mw_relay w2 = mw_relay w" "unwritten env w w2"
      using load_registry [of env w ds w2] by auto
    let ?p = "matching_device env device_id token"
    let ?ds = "mark_seen ?p (me_now env (mw_calls w2)) ds"
    obtain s w3 where s: "save_monitor_devices env ?ds (passed_by w2\<lparr>mw_devices := Some ?ds\<rparr>) = (s, w3)" by fastforce
    have "(b, w1) = (case find ?p ds of None \<Rightarrow> (False, passed_by w2)
        | Some d \<Rightarrow> if seen_now (me_now env (mw_calls w2)) d
            then (case s of Inl _ \<Rightarrow> (True, w3\<lparr>mw_devices := Some ds\<rparr>) | Inr _ \<Rightarrow> (True, w3)) else (True, passed_by w2))"
      using assms l Inr s by (auto simp: monitor_device_token_authorized_def Let_def split: option.splits sum.splits)
    moreover have "(case s of Inl _ \<Rightarrow> mw_file w3 = mw_file w \<or> me_windows env \<and> mw_file w3 = None | Inr _ \<Rightarrow> written env ?ds w3)
        \<and> mw_relay w3 = mw_relay w"
      by (rule save_cases [of env ?ds "passed_by w2\<lparr>mw_devices := Some ?ds\<rparr>"]) (use s lr in \<open>auto simp: written_def\<close>)
    ultimately show ?thesis
      using lr find_matches [of ?p ds]
      by (auto simp: authorization_def unwritten_def split: option.splits sum.splits if_splits)
  qed
qed

lemma open_pairing_outcome:
  assumes "open_pairing env direct w = (r, w1)"
  shows "mw_devices w1 = mw_devices w \<and> mw_file w1 = mw_file w \<and> mw_pairing w1 = (case r of Inl _ \<Rightarrow> mw_pairing w | Inr g \<Rightarrow> Some g)"
proof -
  have routed: "mw_devices w2 = mw_devices w \<and> mw_file w2 = mw_file w \<and> mw_pairing w2 = mw_pairing w"
    if "(if b then chain (generate_monitor_token env) (\<lambda>t. and_then_always (relay_call env e id) (\<lambda>opened. give (\<not> isl opened)))
         else give False) w = (q, w2)" for b e w q w2
  proof -
    obtain x w3 where x: "relay_call env e id (passed_by w) = (x, w3)" by fastforce
    have "mw_devices w3 = mw_devices w \<and> mw_file w3 = mw_file w \<and> mw_pairing w3 = mw_pairing w"
      by (rule relay_cases [of env e id "passed_by w"]) (use x in auto)
    with that x show ?thesis
      by (auto simp: chain_def generate_monitor_token_def and_then_always_def give_def split: if_splits)
  qed
  let ?w3 = "passed_by (passed_by (passed_by w))"
  from assms consider
    (early) "\<exists>e. r = Inl e" "w1 = passed_by w \<or> w1 = passed_by (passed_by w)"
    | (late) g b q w4 where
      "(if b then chain (generate_monitor_token env) (\<lambda>t. and_then_always (relay_call env ''open pairing route'' id) (\<lambda>opened. give (\<not> isl opened)))
         else give False) ?w3 = (q, w4)"
      "(\<exists>e. r = Inl e \<and> w1 = w4) \<or> r = Inr g \<and> w1 = w4\<lparr>mw_pairing := Some g\<rparr>"
  proof -
    show ?thesis
    proof (cases "me_ok env (mw_calls w) \<and> me_ok env (mw_calls (passed_by w))")
      case False
      with assms early show ?thesis
        by (auto simp: open_pairing_def chain_def generate_monitor_token_def split: if_splits)
    next
      case True
      obtain q w4 where q: "(if me_relay_enabled env \<and> pairing_relay_ready env then chain (generate_monitor_token env)
            (\<lambda>t. and_then_always (relay_call env ''open pairing route'' id) (\<lambda>opened. give (\<not> isl opened))) else give False) ?w3 = (q, w4)"
        by fastforce
      let ?g = "\<lparr>pg_pairing_id = ''p_'' @ take 24 (me_random env (mw_calls (passed_by w))), pg_pairing_code = me_random env (mw_calls w),
         pg_code_hash = me_sha env (me_random env (mw_calls w)),
         pg_expires_at = sat_add64 (me_now env (mw_calls (passed_by (passed_by w)))) (5 * 60000)\<rparr>"
      have "open_pairing env direct w = (case q of Inl e \<Rightarrow> (Inl e, w4)
          | Inr routed \<Rightarrow> if \<not> direct \<and> \<not> routed then (Inl ''no route for pairing'', w4) else (Inr ?g, w4\<lparr>mw_pairing := Some ?g\<rparr>))"
        using True q
        by (simp add: open_pairing_def chain_def [of "generate_monitor_token env" _ w] chain_def [of "generate_monitor_token env" _ "passed_by w"]
              chain_def [of "timestamp_ms env"] chain_def [of "if _ then _ else _"] chain_def [of "modify _"]
              generate_monitor_token_def timestamp_ms_def Let_def raise_def give_def modify_def split: sum.splits)
      with assms late [OF q] show ?thesis by (auto split: sum.splits if_splits)
    qed
  qed
  then show ?thesis
  proof cases
    case early
    then show ?thesis by auto
  next
    case (late g b q w4)
    from routed [OF late(1)] late(2) show ?thesis by auto
  qed
qed

section \<open>Runs of the desktop\<close>

text \<open>
  The ghost lists of a run: the pairing codes that were issued, the grants a request holds between claiming and
  completing, those whose completion failed and which are not put back yet, and the pairings that enrolled a device.
\<close>

record PairingRun =
  pt_world :: MonitorWorld
  pt_issued :: "string list"
  pt_claimed :: "MonitorPairingGrant list"
  pt_failed :: "MonitorPairingGrant list"
  pt_enrolled :: "string list"

definition restarted :: "MonitorWorld \<Rightarrow> MonitorWorld" where
  "restarted w = w\<lparr>mw_pairing := None, mw_devices := None\<rparr>"

inductive pairing_step :: "MonitorEnv \<Rightarrow> PairingRun \<Rightarrow> PairingRun \<Rightarrow> bool" for env where
  opened: "open_pairing env direct (pt_world s) = (Inr g, w1) \<Longrightarrow> pg_pairing_id g \<notin> set (pt_issued s) \<Longrightarrow>
    pairing_step env s (s\<lparr>pt_world := w1, pt_issued := pg_pairing_id g # pt_issued s\<rparr>)"
| not_opened: "open_pairing env direct (pt_world s) = (Inl e, w1) \<Longrightarrow> pairing_step env s (s\<lparr>pt_world := w1\<rparr>)"
| looked: "pairing_grant_for pairing_id now (pt_world s) = (r, w1) \<Longrightarrow> pairing_step env s (s\<lparr>pt_world := w1\<rparr>)"
| claimed: "claim_pairing_grant env pairing_code now (pt_world s) = (Inr g, w1) \<Longrightarrow>
    pairing_step env s (s\<lparr>pt_world := w1, pt_claimed := g # pt_claimed s\<rparr>)"
| refused: "claim_pairing_grant env pairing_code now (pt_world s) = (Inl e, w1) \<Longrightarrow> pairing_step env s (s\<lparr>pt_world := w1\<rparr>)"
| enrolled: "g \<in> set (pt_claimed s) \<Longrightarrow> complete_claimed_monitor_pairing env (pg_pairing_id g) name (pt_world s) = (Inr en, w1) \<Longrightarrow>
    pairing_step env s (s\<lparr>pt_world := w1, pt_claimed := remove1 g (pt_claimed s), pt_enrolled := pg_pairing_id g # pt_enrolled s\<rparr>)"
| failed: "g \<in> set (pt_claimed s) \<Longrightarrow> complete_claimed_monitor_pairing env (pg_pairing_id g) name (pt_world s) = (Inl e, w1) \<Longrightarrow>
    pairing_step env s (s\<lparr>pt_world := w1, pt_claimed := remove1 g (pt_claimed s), pt_failed := g # pt_failed s\<rparr>)"
| restored: "g \<in> set (pt_failed s) \<Longrightarrow>
    pairing_step env s (s\<lparr>pt_world := restore_pairing_grant g now (pt_world s), pt_failed := remove1 g (pt_failed s)\<rparr>)"
| revoked: "revoke_monitor_device_everywhere env device_id (pt_world s) = (r', w1) \<Longrightarrow> pairing_step env s (s\<lparr>pt_world := w1\<rparr>)"
| checked: "monitor_device_token_authorized env device_id token (pt_world s) = (b, w1) \<Longrightarrow> pairing_step env s (s\<lparr>pt_world := w1\<rparr>)"
| listed: "monitor_devices_snapshot env (pt_world s) = (l, w1) \<Longrightarrow> pairing_step env s (s\<lparr>pt_world := w1\<rparr>)"
| restarted: "pairing_step env s (s\<lparr>pt_world := restarted (pt_world s), pt_claimed := [], pt_failed := []\<rparr>)"

definition first_run :: "PairingRun \<Rightarrow> bool" where
  "first_run s \<longleftrightarrow> mw_pairing (pt_world s) = None \<and> mw_devices (pt_world s) = None \<and> mw_file (pt_world s) = None
     \<and> pt_issued s = [] \<and> pt_claimed s = [] \<and> pt_failed s = [] \<and> pt_enrolled s = []"

inductive pairing_reachable :: "MonitorEnv \<Rightarrow> PairingRun \<Rightarrow> bool" for env where
  start: "first_run s \<Longrightarrow> pairing_reachable env s"
| step: "pairing_reachable env s \<Longrightarrow> pairing_step env s s1 \<Longrightarrow> pairing_reachable env s1"

subsection \<open>Codes\<close>

definition pending_ids :: "PairingRun \<Rightarrow> string list" where
  "pending_ids s = (case mw_pairing (pt_world s) of None \<Rightarrow> [] | Some g \<Rightarrow> [pg_pairing_id g])
     @ map pg_pairing_id (pt_claimed s) @ map pg_pairing_id (pt_failed s) @ pt_enrolled s"

definition codes_once :: "PairingRun \<Rightarrow> bool" where
  "codes_once s \<longleftrightarrow> distinct (pending_ids s) \<and> set (pending_ids s) \<subseteq> set (pt_issued s)"

lemma removed_ids:
  assumes "g \<in> set gs"
  shows "mset (map f gs) = add_mset (f g) (mset (map f (remove1 g gs)))"
proof -
  have "mset gs = add_mset g (mset (remove1 g gs))"
    using assms unfolding mset_remove1 by (metis insert_DiffM set_mset_mset)
  then have "image_mset f (mset gs) = image_mset f (add_mset g (mset (remove1 g gs)))" by (rule arg_cong)
  then show ?thesis by (simp only: mset_map image_mset_add_mset)
qed

lemma distinct_count: "distinct xs \<longleftrightarrow> (\<forall>a. count (mset xs) a \<le> 1)"
proof
  assume "distinct xs"
  then show "\<forall>a. count (mset xs) a \<le> 1" unfolding distinct_count_atmost_1 by auto
next
  assume le: "\<forall>a. count (mset xs) a \<le> 1"
  have "count (mset xs) a = (if a \<in> set xs then 1 else 0)" for a
  proof (cases "a \<in> set xs")
    case True
    then have "0 < count (mset xs) a" unfolding count_greater_zero_iff by simp
    with le True show ?thesis by (metis One_nat_def Suc_leI antisym)
  next
    case False
    then show ?thesis by (simp add: count_mset_0_iff)
  qed
  then show "distinct xs" unfolding distinct_count_atmost_1 by blast
qed

text \<open>Only the ids count: a step that leaves their multiset alone, or drops some, keeps the invariant.\<close>

lemma codes_once_mono:
  assumes "codes_once s" and "mset (pending_ids s1) \<subseteq># mset (pending_ids s)" and "pt_issued s1 = pt_issued s"
  shows "codes_once s1"
proof -
  have "distinct (pending_ids s1)"
    using assms(1) mset_subset_eq_count [OF assms(2)] by (meson codes_once_def distinct_count le_trans)
  moreover have "set (pending_ids s1) \<subseteq> set (pending_ids s)"
    using set_mset_mono [OF assms(2)] by simp
  ultimately show ?thesis using assms by (auto simp: codes_once_def)
qed

definition slot_ids :: "MonitorWorld \<Rightarrow> string multiset" where
  "slot_ids w = (case mw_pairing w of None \<Rightarrow> {#} | Some g \<Rightarrow> {#pg_pairing_id g#})"

lemma pending_mset:
  "mset (pending_ids s) = slot_ids (pt_world s) + mset (map pg_pairing_id (pt_claimed s))
     + mset (map pg_pairing_id (pt_failed s)) + mset (pt_enrolled s)"
  by (simp add: pending_ids_def slot_ids_def split: option.splits)

lemma slot_grant_for: "pairing_grant_for pairing_id now w = (r, w1) \<Longrightarrow> slot_ids w1 \<subseteq># slot_ids w"
  by (auto simp: pairing_grant_for_def slot_ids_def split: option.splits if_splits)

lemma slot_claimed: "claim_pairing_grant env pairing_code now w = (Inr g, w1) \<Longrightarrow> add_mset (pg_pairing_id g) (slot_ids w1) = slot_ids w"
  by (auto simp: claim_pairing_grant_def slot_ids_def split: option.splits if_splits)

lemma slot_refused: "claim_pairing_grant env pairing_code now w = (Inl e, w1) \<Longrightarrow> slot_ids w1 \<subseteq># slot_ids w"
  by (auto simp: claim_pairing_grant_def slot_ids_def split: option.splits if_splits)

lemma slot_restored: "slot_ids (restore_pairing_grant g now w) \<subseteq># add_mset (pg_pairing_id g) (slot_ids w)"
  by (auto simp: restore_pairing_grant_def slot_ids_def split: option.splits)

lemma slot_kept: "mw_pairing w1 = mw_pairing w \<Longrightarrow> slot_ids w1 = slot_ids w"
  by (simp add: slot_ids_def)

lemma snapshot_keeps: "monitor_devices_snapshot env w = (l, w1) \<Longrightarrow> mw_pairing w1 = mw_pairing w"
  unfolding monitor_devices_snapshot_def by (rule keepsD [OF keeps_load])

lemma codes_once_step: "pairing_step env s s1 \<Longrightarrow> codes_once s \<Longrightarrow> codes_once s1"
proof (induction rule: pairing_step.induct)
  case (opened direct s g w1)
  then have "mset (pending_ids (s\<lparr>pt_world := w1, pt_issued := pg_pairing_id g # pt_issued s\<rparr>)) \<subseteq># add_mset (pg_pairing_id g) (mset (pending_ids s))"
    using open_pairing_outcome [OF opened(1)] by (simp add: pending_mset slot_ids_def)
  then have sub: "mset (pending_ids (s\<lparr>pt_world := w1, pt_issued := pg_pairing_id g # pt_issued s\<rparr>)) \<subseteq># mset (pg_pairing_id g # pending_ids s)"
    by simp
  have "distinct (pg_pairing_id g # pending_ids s)"
    using opened by (auto simp: codes_once_def)
  then have "distinct (pending_ids (s\<lparr>pt_world := w1, pt_issued := pg_pairing_id g # pt_issued s\<rparr>))"
    using mset_subset_eq_count [OF sub] by (meson distinct_count le_trans)
  with set_mset_mono [OF sub] opened(3) show ?case by (auto simp: codes_once_def)
next
  case (not_opened direct s e w1)
  then show ?case using open_pairing_outcome [OF not_opened(1)]
    by (elim codes_once_mono) (simp_all add: pending_mset slot_ids_def)
next
  case (looked pairing_id now s r w1)
  then show ?case using slot_grant_for [OF looked(1)] by (elim codes_once_mono) (simp_all add: pending_mset)
next
  case (claimed pairing_code now s g w1)
  then show ?case using slot_claimed [OF claimed(1), symmetric] by (elim codes_once_mono) (simp_all add: pending_mset)
next
  case (refused pairing_code now s e w1)
  then show ?case using slot_refused [OF refused(1)] by (elim codes_once_mono) (simp_all add: pending_mset)
next
  case (enrolled g s name en w1)
  then show ?case using slot_kept [OF keepsD [OF keeps_complete enrolled(2)]] removed_ids [OF enrolled(1), of pg_pairing_id]
    by (elim codes_once_mono) (simp_all add: pending_mset)
next
  case (failed g s name e w1)
  then show ?case using slot_kept [OF keepsD [OF keeps_complete failed(2)]] removed_ids [OF failed(1), of pg_pairing_id]
    by (elim codes_once_mono) (simp_all add: pending_mset)
next
  case (restored g s now)
  then show ?case using slot_restored [of g now "pt_world s"] removed_ids [OF restored(1), of pg_pairing_id]
    by (elim codes_once_mono) (simp_all add: pending_mset ac_simps subset_mset.add_mono)
next
  case (revoked device_id s r' w1)
  then show ?case using slot_kept [OF keepsD [OF keeps_revoke revoked(1)]] by (elim codes_once_mono) (simp_all add: pending_mset)
next
  case (checked device_id token s b w1)
  then show ?case using slot_kept [of w1 "pt_world s"] keeps_authorized [of env device_id token "pt_world s"]
    by (elim codes_once_mono) (simp_all add: pending_mset)
next
  case (listed s l w1)
  then show ?case using slot_kept [OF snapshot_keeps [OF listed(1)]] by (elim codes_once_mono) (simp_all add: pending_mset)
next
  case (restarted s)
  then show ?case by (elim codes_once_mono) (simp_all add: pending_mset slot_ids_def restarted_def)
qed

lemma reachable_codes_once: "pairing_reachable env s \<Longrightarrow> codes_once s"
proof (induction rule: pairing_reachable.induct)
  case (start s)
  then show ?case by (simp add: codes_once_def first_run_def pending_ids_def)
qed (rule codes_once_step)

subsection \<open>The registry and its file\<close>

text \<open>What is in memory is what the file says: a restart finds the same devices.\<close>

definition in_step :: "MonitorEnv \<Rightarrow> MonitorWorld \<Rightarrow> bool" where
  "in_step env w \<longleftrightarrow> (\<forall>ds. mw_devices w = Some ds \<longrightarrow> devices_of_file env (mw_file w) = Inr ds)"

definition bounded :: "MonitorEnv \<Rightarrow> MonitorWorld \<Rightarrow> bool" where
  "bounded env w \<longleftrightarrow> (\<forall>ds. mw_devices w = Some ds \<or> devices_of_file env (mw_file w) = Inr ds \<longrightarrow> length ds \<le> MAX_MONITOR_DEVICES)"

definition reads_back :: "MonitorEnv \<Rightarrow> bool" where
  "reads_back env \<longleftrightarrow> (\<forall>ds. me_parse env (me_print env ds @ [CHR 0x0A]) = Some ds)"

definition file_ok :: "MonitorEnv \<Rightarrow> MonitorWorld \<Rightarrow> bool" where
  "file_ok env w \<longleftrightarrow> (\<not> me_windows env \<longrightarrow> in_step env w) \<and> bounded env w"

lemma written_reads: "reads_back env \<Longrightarrow> written env ds w1 \<Longrightarrow> mw_devices w1 = Some ds \<and> devices_of_file env (mw_file w1) = Inr ds"
  by (simp add: reads_back_def written_def devices_of_file_def)

lemma file_ok_written: "reads_back env \<Longrightarrow> written env ds w1 \<Longrightarrow> length ds \<le> MAX_MONITOR_DEVICES \<Longrightarrow> file_ok env w1"
  using written_reads [of env ds w1] by (auto simp: file_ok_def in_step_def bounded_def)

lemma no_file [simp]: "devices_of_file env None = Inr []"
  by (simp add: devices_of_file_def)

lemma file_ok_unwritten:
  assumes "file_ok env w" and "unwritten env w w1"
  shows "file_ok env w1"
proof -
  have "in_step env w1" if "\<not> me_windows env"
    using assms that unfolding file_ok_def in_step_def unwritten_def by auto
  moreover have "bounded env w1"
    using assms unfolding file_ok_def bounded_def unwritten_def by auto
  ultimately show ?thesis by (simp add: file_ok_def)
qed

lemma file_ok_registry: "file_ok env w \<Longrightarrow> registry env w = Inr ds \<Longrightarrow> length ds \<le> MAX_MONITOR_DEVICES"
  by (auto simp: file_ok_def bounded_def registry_def split: option.splits)

lemma file_ok_same:
  "file_ok env w \<Longrightarrow> mw_devices w1 = mw_devices w \<Longrightarrow> mw_file w1 = mw_file w \<Longrightarrow> file_ok env w1"
  by (rule file_ok_unwritten) (auto simp: unwritten_def)

lemma file_ok_enrollment:
  assumes "reads_back env" and "enrollment env w r w1" and "file_ok env w"
  shows "file_ok env w1"
proof (cases r)
  case (Inl e)
  with assms show ?thesis by (auto simp: enrollment_def intro: file_ok_unwritten)
next
  case (Inr en)
  with assms obtain ds d where "length ds < MAX_MONITOR_DEVICES" "written env (ds @ [d]) w1"
    by (auto simp: enrollment_def)
  with assms(1) show ?thesis by (auto intro: file_ok_written)
qed

lemma file_ok_removal:
  assumes "reads_back env" and "removal env device_id w r w1" and "file_ok env w"
  shows "file_ok env w1"
proof (cases r)
  case (Inl e)
  with assms show ?thesis by (auto simp: removal_error intro: file_ok_unwritten)
next
  case (Inr removed)
  with assms(2) obtain ds where ds: "registry env w = Inr ds"
      "if removed then written env (filter (\<lambda>d. md_id d \<noteq> device_id) ds) w1 else unwritten env w w1"
    by (auto simp: removal_def)
  have "length (filter (\<lambda>d. md_id d \<noteq> device_id) ds) \<le> MAX_MONITOR_DEVICES"
    using file_ok_registry [OF assms(3) ds(1)] length_filter_le order_trans by blast
  with ds(2) assms show ?thesis
    by (cases removed) (auto intro: file_ok_written file_ok_unwritten)
qed

lemma file_ok_authorization:
  assumes "reads_back env" and "authorization env device_id token w b w1" and "file_ok env w"
  shows "file_ok env w1"
proof (cases "registry env w")
  case (Inl e)
  with assms show ?thesis by (auto simp: authorization_def intro: file_ok_unwritten)
next
  case (Inr ds)
  with assms(2) have "unwritten env w w1 \<or> (\<exists>now. written env (mark_seen (matching_device env device_id token) now ds) w1)"
    by (auto simp: authorization_def)
  with assms file_ok_registry [OF assms(3) Inr] show ?thesis
    by (auto intro: file_ok_unwritten file_ok_written)
qed

lemma file_ok_step:
  assumes "pairing_step env s s1" and "reads_back env" and "file_ok env (pt_world s)"
  shows "file_ok env (pt_world s1)"
  using assms
proof (induction rule: pairing_step.induct)
  case (opened direct s g w1)
  then show ?case using open_pairing_outcome [OF opened(1)] by (auto intro: file_ok_same)
next
  case (not_opened direct s e w1)
  then show ?case using open_pairing_outcome [OF not_opened(1)] by (auto intro: file_ok_same)
next
  case (looked pairing_id now s r w1)
  then show ?case by (auto simp: pairing_grant_for_def intro: file_ok_same split: option.splits if_splits)
next
  case (claimed pairing_code now s g w1)
  then show ?case by (auto simp: claim_pairing_grant_def intro: file_ok_same split: option.splits if_splits)
next
  case (refused pairing_code now s e w1)
  then show ?case by (auto simp: claim_pairing_grant_def intro: file_ok_same split: option.splits if_splits)
next
  case (enrolled g s name en w1)
  then show ?case using complete_claimed_outcome [OF enrolled(2)] by (auto intro: file_ok_enrollment)
next
  case (failed g s name e w1)
  then show ?case using complete_claimed_outcome [OF failed(2)] by (auto intro: file_ok_enrollment)
next
  case (restored g s now)
  then show ?case by (auto simp: restore_pairing_grant_def intro: file_ok_same)
next
  case (revoked device_id s r' w1)
  then show ?case using revoke_everywhere_outcome [OF revoked(1)] by (auto intro: file_ok_removal)
next
  case (checked device_id token s b w1)
  then show ?case using authorized_outcome [OF checked(1)] by (auto intro: file_ok_authorization)
next
  case (listed s l w1)
  then have "unwritten env (pt_world s) w1"
    using load_registry [of env "pt_world s" _ w1] load_failed [of env "pt_world s" _ w1]
    by (cases l) (auto simp: monitor_devices_snapshot_def)
  with listed show ?case by (auto intro: file_ok_unwritten)
next
  case (restarted s)
  then show ?case by (auto simp: file_ok_def in_step_def bounded_def restarted_def)
qed

lemma reachable_file_ok:
  assumes "pairing_reachable env s" and "reads_back env"
  shows "file_ok env (pt_world s)"
  using assms
proof (induction rule: pairing_reachable.induct)
  case (start s)
  then show ?case by (simp add: first_run_def file_ok_def in_step_def bounded_def)
qed (rule file_ok_step)

text \<open>
  The registry as its owner sees it: a list of devices that survives restarts, and what may happen to it. A damaged
  registry stays as it is.
\<close>

definition durable :: "MonitorEnv \<Rightarrow> PairingRun \<Rightarrow> string + MonitorDeviceRecord list" where
  "durable env s = devices_of_file env (mw_file (pt_world s))"

inductive registry_spec :: "string + MonitorDeviceRecord list \<Rightarrow> string + MonitorDeviceRecord list \<Rightarrow> bool" where
  same: "registry_spec r r"
| added: "length ds < MAX_MONITOR_DEVICES \<Longrightarrow> registry_spec (Inr ds) (Inr (ds @ [d]))"
| removed: "registry_spec (Inr ds) (Inr (filter (\<lambda>d. md_id d \<noteq> device_id) ds))"
| seen: "registry_spec (Inr ds) (Inr (mark_seen p now ds))"

definition refines :: "MonitorEnv \<Rightarrow> MonitorWorld \<Rightarrow> MonitorWorld \<Rightarrow> bool" where
  "refines env w w1 \<longleftrightarrow> registry_spec (devices_of_file env (mw_file w)) (devices_of_file env (mw_file w1))"

lemma refines_same_file: "mw_file w1 = mw_file w \<Longrightarrow> refines env w w1"
  by (simp add: refines_def registry_spec.same)

lemma refines_unwritten: "unwritten env w w1 \<Longrightarrow> \<not> me_windows env \<Longrightarrow> refines env w w1"
  by (auto simp: unwritten_def intro: refines_same_file)

lemma in_step_registry: "in_step env w \<Longrightarrow> registry env w = Inr ds \<Longrightarrow> devices_of_file env (mw_file w) = Inr ds"
  by (auto simp: in_step_def registry_def split: option.splits)

lemma refines_enrollment:
  assumes "enrollment env w r w1" and "in_step env w" and "reads_back env" and "\<not> me_windows env"
  shows "refines env w w1"
proof (cases r)
  case (Inl e)
  with assms show ?thesis by (auto simp: enrollment_def intro: refines_unwritten)
next
  case (Inr en)
  with assms obtain ds d where at: "registry env w = Inr ds" "length ds < MAX_MONITOR_DEVICES" "written env (ds @ [d]) w1"
    by (auto simp: enrollment_def)
  with in_step_registry [OF assms(2) at(1)] written_reads [OF assms(3) at(3)] show ?thesis
    by (simp add: refines_def registry_spec.added)
qed

lemma refines_removal:
  assumes "removal env device_id w r w1" and "in_step env w" and "reads_back env" and "\<not> me_windows env"
  shows "refines env w w1"
proof (cases r)
  case (Inl e)
  with assms show ?thesis by (auto simp: removal_error intro: refines_unwritten)
next
  case (Inr removed)
  with assms(1) obtain ds where ds: "registry env w = Inr ds"
      "if removed then written env (filter (\<lambda>d. md_id d \<noteq> device_id) ds) w1 else unwritten env w w1"
    by (auto simp: removal_def)
  show ?thesis
  proof (cases removed)
    case True
    with ds(2) have "written env (filter (\<lambda>d. md_id d \<noteq> device_id) ds) w1" by simp
    from written_reads [OF assms(3) this] in_step_registry [OF assms(2) ds(1)] show ?thesis
      by (simp add: refines_def registry_spec.removed)
  next
    case False
    with ds(2) assms(4) show ?thesis by (auto intro: refines_unwritten)
  qed
qed

lemma refines_authorization:
  assumes "authorization env device_id token w b w1" and "in_step env w" and "reads_back env" and "\<not> me_windows env"
  shows "refines env w w1"
proof (cases "registry env w")
  case (Inl e)
  with assms show ?thesis by (auto simp: authorization_def intro: refines_unwritten)
next
  case (Inr ds)
  with assms(1) consider "unwritten env w w1"
    | now where "written env (mark_seen (matching_device env device_id token) now ds) w1"
    by (auto simp: authorization_def)
  then show ?thesis
  proof cases
    case 1
    with assms(4) show ?thesis by (auto intro: refines_unwritten)
  next
    case 2
    from written_reads [OF assms(3) 2] in_step_registry [OF assms(2) Inr] show ?thesis
      by (simp add: refines_def registry_spec.seen)
  qed
qed

lemma refines_step:
  assumes "pairing_step env s s1" and "in_step env (pt_world s)" and "reads_back env" and "\<not> me_windows env"
  shows "refines env (pt_world s) (pt_world s1)"
  using assms
proof (induction rule: pairing_step.induct)
  case (opened direct s g w1)
  then show ?case using open_pairing_outcome [OF opened(1)] by (auto intro: refines_same_file)
next
  case (not_opened direct s e w1)
  then show ?case using open_pairing_outcome [OF not_opened(1)] by (auto intro: refines_same_file)
next
  case (looked pairing_id now s r w1)
  then show ?case by (auto simp: pairing_grant_for_def intro: refines_same_file split: option.splits if_splits)
next
  case (claimed pairing_code now s g w1)
  then show ?case by (auto simp: claim_pairing_grant_def intro: refines_same_file split: option.splits if_splits)
next
  case (refused pairing_code now s e w1)
  then show ?case by (auto simp: claim_pairing_grant_def intro: refines_same_file split: option.splits if_splits)
next
  case (enrolled g s name en w1)
  then show ?case using complete_claimed_outcome [OF enrolled(2)] by (auto intro: refines_enrollment)
next
  case (failed g s name e w1)
  then show ?case using complete_claimed_outcome [OF failed(2)] by (auto intro: refines_enrollment)
next
  case (restored g s now)
  then show ?case by (auto simp: restore_pairing_grant_def intro: refines_same_file)
next
  case (revoked device_id s r' w1)
  then show ?case using revoke_everywhere_outcome [OF revoked(1)] by (auto intro: refines_removal)
next
  case (checked device_id token s b w1)
  then show ?case using authorized_outcome [OF checked(1)] by (auto intro: refines_authorization)
next
  case (listed s l w1)
  then have "mw_file w1 = mw_file (pt_world s)"
    using load_registry [of env "pt_world s" _ w1] load_failed [of env "pt_world s" _ w1]
    by (cases l) (auto simp: monitor_devices_snapshot_def)
  then show ?case by (auto intro: refines_same_file)
next
  case (restarted s)
  then show ?case by (auto simp: restarted_def intro: refines_same_file)
qed

section \<open>A desktop to evaluate\<close>

text \<open>A text form of the registry that reads back, with numbers as rows of marks.\<close>

definition put_nat :: "nat \<Rightarrow> string" where "put_nat n = replicate n CHR ''1'' @ ''0''"

definition get_nat :: "string \<Rightarrow> nat \<times> string" where
  "get_nat t = (length (takeWhile (\<lambda>c. c = CHR ''1'') t), tl (dropWhile (\<lambda>c. c = CHR ''1'') t))"

lemma get_put_nat [simp]: "get_nat (put_nat n @ t) = (n, t)"
  by (simp add: get_nat_def put_nat_def takeWhile_append dropWhile_append)

definition put_str :: "string \<Rightarrow> string" where "put_str x = put_nat (length x) @ x"

definition get_str :: "string \<Rightarrow> string \<times> string" where
  "get_str t = (case get_nat t of (n, u) \<Rightarrow> (take n u, drop n u))"

lemma get_put_str [simp]: "get_str (put_str x @ t) = (x, t)"
  by (simp add: get_str_def put_str_def)

definition put_device :: "MonitorDeviceRecord \<Rightarrow> string" where
  "put_device d = put_str (md_id d) @ put_str (md_name d) @ put_str (md_token_hash d) @ put_nat (unat (md_created_at d))
     @ put_nat (case md_last_seen_at d of None \<Rightarrow> 0 | Some t \<Rightarrow> Suc (unat t))"

definition get_device :: "string \<Rightarrow> MonitorDeviceRecord \<times> string" where
  "get_device t = (let (i, t1) = get_str t; (n, t2) = get_str t1; (h, t3) = get_str t2; (c, t4) = get_nat t3; (l, t5) = get_nat t4
     in (\<lparr>md_id = i, md_name = n, md_token_hash = h, md_created_at = word_of_nat c,
          md_last_seen_at = (if l = 0 then None else Some (word_of_nat (l - 1)))\<rparr>, t5))"

lemma get_put_device [simp]: "get_device (put_device d @ t) = (d, t)"
  by (cases d) (simp add: get_device_def put_device_def split: option.splits)

fun get_devices :: "nat \<Rightarrow> string \<Rightarrow> MonitorDeviceRecord list" where
  "get_devices 0 t = []"
| "get_devices (Suc n) t = (case get_device t of (d, u) \<Rightarrow> d # get_devices n u)"

lemma get_put_devices [simp]: "get_devices (length ds) (concat (map put_device ds) @ t) = ds"
  by (induction ds) simp_all

definition demo_print :: "MonitorDeviceRecord list \<Rightarrow> string" where
  "demo_print ds = put_nat (length ds) @ concat (map put_device ds)"

definition demo_parse :: "string \<Rightarrow> MonitorDeviceRecord list option" where
  "demo_parse t = (case get_nat t of (n, u) \<Rightarrow> Some (get_devices n u))"

definition demo_env :: MonitorEnv where
  "demo_env = \<lparr>me_ok = \<lambda>_. True, me_windows = False, me_now = of_nat, me_random = \<lambda>n. replicate 32 (char_of n),
     me_answer = \<lambda>_. Call_Done, me_parse = demo_parse, me_print = demo_print, me_sha = \<lambda>t. ''h'' @ t,
     me_direct_token = \<lambda>i. ''t'' @ i, me_relay_token = \<lambda>i. ''r'' @ i, me_device_key = \<lambda>i. ''k'' @ i,
     me_relay_enabled = True, me_relay_base_url = ''https://r.example'',
     me_credentials = Some \<lparr>rc_base_url = ''https://r.example'', rc_desktop_id = ''d_1'', rc_desktop_token = ''s''\<rparr>,
     me_desktop_id = ''d_1''\<rparr>"

lemma demo_reads_back: "reads_back demo_env"
  unfolding reads_back_def demo_env_def by (simp add: demo_print_def demo_parse_def)

definition fresh_world :: MonitorWorld where
  "fresh_world = \<lparr>mw_calls = 0, mw_pairing = None, mw_devices = None, mw_file = None, mw_relay = Map.empty\<rparr>"

definition fresh_run :: PairingRun where
  "fresh_run = \<lparr>pt_world = fresh_world, pt_issued = [], pt_claimed = [], pt_failed = [], pt_enrolled = []\<rparr>"

subsection \<open>Its runs\<close>

lemma demo_base: "normalized_base_url ''https://r.example'' = Inr ''https://r.example''"
  by code_simp

lemmas demo_run_defs = demo_env_def chain_def generate_monitor_token_def timestamp_ms_def passed_by_def
  and_then_always_def give_def raise_def modify_def os_call_def relay_call_def demo_base Let_def

definition demo_code :: string where "demo_code = replicate 32 (char_of (0::nat))"

lemma demo_open:
  "\<exists>g w1. open_pairing demo_env True fresh_world = (Inr g, w1) \<and> pg_code_hash g = me_sha demo_env demo_code
    \<and> mw_devices w1 = None \<and> mw_file w1 = None \<and> mw_pairing w1 = Some g"
  by (simp add: demo_run_defs open_pairing_def pairing_relay_ready_def same_ok_def fresh_world_def demo_code_def)

lemma demo_complete:
  assumes "mw_devices w = None" and "mw_file w = None"
  shows "\<exists>en w1. complete_claimed_monitor_pairing demo_env pairing_id ''Phone'' w = (Inr en, w1)"
  using assms
  by (simp add: complete_claimed_monitor_pairing_def enroll_device_def store_new_device_def save_monitor_devices_def
      ensure_monitor_devices_loaded_def load_monitor_devices_def set_devices_def devices_of_file_def relay_authorize_def
      relay_credentials_for_settings_def MAX_MONITOR_DEVICES_def demo_run_defs)

text \<open>A run that enrolls one phone.\<close>

lemma demo_run:
  "\<exists>s s1. pairing_reachable demo_env s \<and> pairing_step demo_env s s1 \<and> length (pt_enrolled s) = 0 \<and> length (pt_enrolled s1) = 1"
proof -
  have start: "pairing_reachable demo_env fresh_run"
    by (rule pairing_reachable.start) (simp add: first_run_def fresh_run_def fresh_world_def)
  obtain g w1 where o1: "open_pairing demo_env True fresh_world = (Inr g, w1)" "pg_code_hash g = me_sha demo_env demo_code"
      "mw_devices w1 = None" "mw_file w1 = None" "mw_pairing w1 = Some g" using demo_open by blast
  let ?s1 = "fresh_run\<lparr>pt_world := w1, pt_issued := [pg_pairing_id g]\<rparr>"
  let ?w2 = "w1\<lparr>mw_pairing := None\<rparr>"
  let ?s2 = "?s1\<lparr>pt_world := ?w2, pt_claimed := [g]\<rparr>"
  have r1: "pairing_reachable demo_env ?s1"
    using pairing_reachable.step [OF start pairing_step.opened [of demo_env True fresh_run g w1]] o1 by (simp add: fresh_run_def)
  have "claim_pairing_grant demo_env demo_code 0 w1 = (Inr g, ?w2)"
    using o1 by (simp add: claim_pairing_grant_def verify_token_hash_hex_iff)
  then have r2: "pairing_reachable demo_env ?s2"
    using pairing_reachable.step [OF r1 pairing_step.claimed [of demo_env demo_code 0 ?s1 g ?w2]] by (simp add: fresh_run_def)
  obtain en w3 where "complete_claimed_monitor_pairing demo_env (pg_pairing_id g) ''Phone'' ?w2 = (Inr en, w3)"
    using demo_complete [of ?w2 "pg_pairing_id g"] o1(3,4) by auto
  then have "pairing_step demo_env ?s2 (?s2\<lparr>pt_world := w3, pt_claimed := remove1 g (pt_claimed ?s2), pt_enrolled := pg_pairing_id g # pt_enrolled ?s2\<rparr>)"
    by (intro pairing_step.enrolled) simp_all
  with r2 show ?thesis by (intro exI conjI) (assumption | simp add: fresh_run_def)+
qed

lemma demo_revoke:
  assumes "mw_devices w = Some [d]"
  shows "\<exists>w1. revoke_monitor_device_everywhere demo_env (md_id d) w = (Inr True, w1)"
  using assms
  by (simp add: revoke_monitor_device_everywhere_def revoke_monitor_device_local_def relay_matches_def relay_revoke_def set_devices_def
      ensure_monitor_devices_loaded_def save_monitor_devices_def same_ok_def demo_run_defs)

section \<open>Properties\<close>

text \<open>C17: a pairing code enrolls at most one phone. However requests, failed completions, revocations and restarts are
  interleaved, no issued code appears twice among the pairings that enrolled a device, and a code that did is neither
  open nor in the hands of another request.\<close>

theorem pairing_code_single_use:
  assumes "pairing_reachable env s"
  shows "distinct (pt_enrolled s) \<and> set (pt_enrolled s) \<subseteq> set (pt_issued s)
    \<and> (\<forall>g. mw_pairing (pt_world s) = Some g \<or> g \<in> set (pt_claimed s) \<or> g \<in> set (pt_failed s) \<longrightarrow>
          pg_pairing_id g \<notin> set (pt_enrolled s))"
  using reachable_codes_once [OF assms]
  by (auto simp: codes_once_def pending_ids_def split: option.splits)

theorem pairing_code_single_use_witness:
  "\<exists>s :: PairingRun. length (pt_enrolled s) = 1 \<and> distinct (pt_enrolled s) \<and> set (pt_enrolled s) \<subseteq> set (pt_issued s)"
proof -
  obtain s s1 where "pairing_reachable demo_env s" "pairing_step demo_env s s1" and one: "length (pt_enrolled s1) = 1"
    using demo_run by blast
  then have "pairing_reachable demo_env s1" by (auto intro: pairing_reachable.step)
  from pairing_code_single_use [OF this] one show ?thesis by blast
qed





text \<open>C20: a revoked phone is locked out. After a revocation that reported success its tokens open nothing, at the
  desktop and, if the relay is set up, at the relay, and not after a restart either, while every other phone is let
  in as before; after one that failed the registry is as before.\<close>

theorem revoked_device_locked_out:
  assumes "revoke_monitor_device_everywhere env device_id w = (r, w1)"
  shows "case r of
      Inl _ \<Rightarrow> me_windows env \<or> registry env w1 = registry env w \<and> mw_file w1 = mw_file w
    | Inr found \<Rightarrow> \<not> fst (monitor_device_token_authorized env device_id token w1)
        \<and> (relay_matches env \<longrightarrow> mw_relay w1 device_id = None)
        \<and> (found \<and> reads_back env \<longrightarrow> \<not> fst (monitor_device_token_authorized env device_id token (restarted w1)))
        \<and> (\<forall>other. other \<noteq> device_id \<longrightarrow>
              fst (monitor_device_token_authorized env other token w1) =
              (\<exists>ds. registry env w = Inr ds \<and> (\<exists>d \<in> set ds. matching_device env other token d)))"
proof (cases r)
  case (Inl e)
  with revoke_everywhere_outcome [OF assms] show ?thesis
    by (auto simp: removal_error unwritten_def registry_def split: option.splits)
next
  case (Inr found)
  note out = revoke_everywhere_outcome [OF assms]
  obtain ds where ds: "registry env w = Inr ds" "mw_devices w1 = Some (filter (\<lambda>d. md_id d \<noteq> device_id) ds)"
      "found \<longrightarrow> written env (filter (\<lambda>d. md_id d \<noteq> device_id) ds) w1"
    using out Inr by (auto simp: removal_def split: if_splits)
  let ?left = "filter (\<lambda>d. md_id d \<noteq> device_id) ds"
  have now: "fst (monitor_device_token_authorized env i token w1) = (\<exists>d \<in> set ?left. matching_device env i token d)" for i
    using authorized_outcome [of env i token w1 "fst (monitor_device_token_authorized env i token w1)"
        "snd (monitor_device_token_authorized env i token w1)"] ds
    by (simp add: authorization_def registry_def)
  have later: "\<not> fst (monitor_device_token_authorized env device_id token (restarted w1))" if "found" "reads_back env"
  proof -
    have "registry env (restarted w1) = Inr ?left"
      using written_reads [OF that(2), of ?left w1] ds(3) that by (simp add: registry_def restarted_def)
    then show ?thesis
      using authorized_outcome [of env device_id token "restarted w1" "fst (monitor_device_token_authorized env device_id token (restarted w1))"
          "snd (monitor_device_token_authorized env device_id token (restarted w1))"]
      by (auto simp: authorization_def matching_device_def)
  qed
  from out Inr now later ds(1) show ?thesis by (auto simp: matching_device_def)
qed

theorem revoked_device_locked_out_witness:
  "\<exists>d w w1. mw_devices w = Some [d] \<and> revoke_monitor_device_everywhere demo_env (md_id d) w = (Inr True, w1)
     \<and> \<not> fst (monitor_device_token_authorized demo_env (md_id d) ''t'' w1)"
proof -
  let ?d = "\<lparr>md_id = ''dev_1'', md_name = ''Phone'', md_token_hash = ''ht'', md_created_at = 1, md_last_seen_at = None\<rparr>"
  let ?w = "fresh_world\<lparr>mw_devices := Some [?d]\<rparr>"
  obtain w1 where r: "revoke_monitor_device_everywhere demo_env (md_id ?d) ?w = (Inr True, w1)"
    using demo_revoke [of ?w ?d] by auto
  from revoked_device_locked_out [OF r, of "''t''"] r have "\<not> fst (monitor_device_token_authorized demo_env (md_id ?d) ''t'' w1)" by simp
  moreover have "mw_devices ?w = Some [?d]" by simp
  ultimately show ?thesis using r by blast
qed

text \<open>On Windows a save of the paired phones removes the old file first. If the rename that follows fails, the save
  reports an error and the caller puts the list in memory back, but the file is gone, and the next start finds no
  phone paired.\<close>

theorem windows_save_loses_devices:
  assumes "me_windows env" and "mw_file w = Some text"
    and "\<forall>k \<in> {0, 1, 2, 3}. me_ok env (mw_calls w + k)" and "\<not> me_ok env (mw_calls w + 4)"
  shows "isl (fst (save_monitor_devices env ds w)) \<and> mw_file (snd (save_monitor_devices env ds w)) = None
    \<and> registry env (restarted (snd (save_monitor_devices env ds w))) = Inr []"
proof -
  have "wp (save_monitor_devices env ds) (\<lambda>r w1. isl r \<and> mw_file w1 = None) w"
    using assms by (simp add: save_monitor_devices_def passed_by_def wp_if_fun numeral_eq_Suc)
  then show ?thesis by (simp add: wp_iff registry_def restarted_def)
qed

theorem windows_save_loses_devices_witness:
  "\<exists>env w. mw_file w = Some ''[]'' \<and> mw_file (snd (save_monitor_devices env [] w)) = None"
proof -
  let ?env = "demo_env\<lparr>me_windows := True, me_ok := \<lambda>n. n \<noteq> 4\<rparr>"
  let ?w = "fresh_world\<lparr>mw_file := Some ''[]''\<rparr>"
  have "mw_file (snd (save_monitor_devices ?env [] ?w)) = None"
    using windows_save_loses_devices [of ?env ?w "''[]''" "[]"] by (simp add: fresh_world_def)
  then show ?thesis by (intro exI [of _ ?env] exI [of _ ?w]) simp
qed

end
