(* ===== verification/Monitor_Service.thy ===== *)
theory Monitor_Service
  imports Monitor_Server Monitor_Crypto Monitor_Device_Safety
begin

text \<open>
  The monitor server as the desktop starts it (\<^verbatim>\<open>start_monitor_service\<close> of \<^verbatim>\<open>src-tauri/src/monitor_manager.rs\<close>): the handlers on
  the registry of phones and the encryption of snapshots. The world is the registry's and a rest of type
  \<open>'c\<close>, which the payload of a snapshot is read from and controls act on.
\<close>

section \<open>The handlers\<close>

record 'c ServiceEnv =
  sv_env :: MonitorEnv
  sv_pairing :: PairingCipher
  sv_crypto :: Crypto
  sv_master_key :: bytes
  sv_desktop_id :: string
  sv_nonce :: "nat \<Rightarrow> bytes option"
  sv_payload :: "'c \<Rightarrow> bytes \<times> 'c"
  sv_control :: "string + bool \<Rightarrow> string \<Rightarrow> EncryptedControlPayload \<Rightarrow> ('c, EncryptedControlPayload) action"

type_synonym 'c desk = "MonitorWorld \<times> 'c"

definition auth_checker :: "MonitorEnv \<Rightarrow> string \<Rightarrow> string \<Rightarrow> 'c desk \<Rightarrow> bool \<times> 'c desk" where
  "auth_checker env device_id token w =
     (case monitor_device_token_authorized env device_id token (fst w) of (b, w1) \<Rightarrow> (b, (w1, snd w)))"

definition pair_handler :: "'c ServiceEnv \<Rightarrow> PairingWsMessage \<Rightarrow> ('c desk, PairingServerMessage) action" where
  "pair_handler sv m w = (case handle_encrypted_monitor_pairing (sv_env sv) (sv_pairing sv) m (fst w) of (r, w1) \<Rightarrow> (r, (w1, snd w)))"

definition revoke_handler :: "MonitorEnv \<Rightarrow> string \<Rightarrow> ('c desk, unit) action" where
  "revoke_handler env device_id w =
     (case revoke_monitor_device_everywhere env device_id (fst w) of
        (Inl e, w1) \<Rightarrow> (Inl e, (w1, snd w))
      | (Inr removed, w1) \<Rightarrow> (if removed then Inr () else Inl ''no such paired device'', (w1, snd w)))"

definition control_handler :: "'c ServiceEnv \<Rightarrow> string \<Rightarrow> EncryptedControlPayload \<Rightarrow> ('c desk, EncryptedControlPayload) action" where
  "control_handler sv device_id request w =
     (case has_monitor_device (sv_env sv) device_id (fst w) of
        (known, w1) \<Rightarrow> (case sv_control sv known device_id request (snd w) of (r, c1) \<Rightarrow> (r, (w1, c1))))"

definition snapshot_provider :: "'c ServiceEnv \<Rightarrow> string \<Rightarrow> string \<Rightarrow> u64 \<Rightarrow> ('c desk, EncryptedSnapshot) action" where
  "snapshot_provider sv device_id session_id sequence w =
     (case has_monitor_device (sv_env sv) device_id (fst w) of
        (Inl e, w1) \<Rightarrow> (Inl e, (w1, snd w))
      | (Inr known, w1) \<Rightarrow>
         if \<not> known then (Inl ''the monitor device was revoked'', (w1, snd w))
         else (case sv_payload sv (snd w) of
            (plaintext, c1) \<Rightarrow>
              (encrypt_snapshot (sv_crypto sv) (sv_nonce sv (mw_calls w1)) (sv_master_key sv) (sv_desktop_id sv) device_id session_id sequence
                 (me_now (sv_env sv) (mw_calls w1)) plaintext, (passed_by w1, c1))))"

definition service_handlers :: "'c ServiceEnv \<Rightarrow> 'c desk MonitorHandlers" where
  "service_handlers sv = \<lparr>mh_auth = auth_checker (sv_env sv), mh_pair = pair_handler sv, mh_revoke = revoke_handler (sv_env sv),
     mh_control = control_handler sv, mh_snapshot = snapshot_provider sv\<rparr>"

section \<open>The contract holds\<close>

definition known_phone :: "MonitorEnv \<Rightarrow> 'c desk \<Rightarrow> string \<Rightarrow> bool" where
  "known_phone env w device_id \<longleftrightarrow> (\<exists>ds. registry env (fst w) = Inr ds \<and> (\<exists>d \<in> set ds. md_id d = device_id))"

definition admitted :: "MonitorEnv \<Rightarrow> 'c desk \<Rightarrow> string \<Rightarrow> string \<Rightarrow> bool" where
  "admitted env w device_id token \<longleftrightarrow>
     (\<exists>ds. registry env (fst w) = Inr ds \<and> (\<exists>d \<in> set ds. matching_device env device_id token d))"

lemma registry_unwritten:
  "unwritten env w w1 \<Longrightarrow> registry env w1 = registry env w \<or> registry env w1 = Inr []"
  by (auto simp: unwritten_def registry_def split: option.splits)

lemma known_unwritten:
  assumes "unwritten env w w1" and "known_phone env (w1, c) x"
  shows "known_phone env (w, c') x"
  using registry_unwritten [OF assms(1)] assms(2) by (auto simp: known_phone_def)

lemma mark_seen_mem: "d \<in> set (mark_seen p now ds) \<Longrightarrow> \<exists>d' \<in> set ds. md_id d' = md_id d"
  by (induction ds) (auto split: if_splits)

lemma auth_checker_admits: "auth_checker env d t w = (True, w1) \<Longrightarrow> admitted env w d t"
  using authorized_outcome [of env d t "fst w" True]
  by (auto simp: auth_checker_def admitted_def authorization_def split: prod.splits sum.splits)

lemma auth_checker_keeps:
  assumes "auth_checker env d t w = (b, w1)" and "known_phone env w1 x"
  shows "known_phone env w x"
proof -
  obtain w2 where w2: "monitor_device_token_authorized env d t (fst w) = (b, w2)" "w1 = (w2, snd w)"
    using assms(1) by (auto simp: auth_checker_def split: prod.splits)
  note out = authorized_outcome [OF w2(1)]
  consider "unwritten env (fst w) w2"
    | ds now where "registry env (fst w) = Inr ds" "written env (mark_seen (matching_device env d t) now ds) w2"
    using out by (auto simp: authorization_def split: sum.splits)
  then show ?thesis
  proof cases
    case 1
    from known_unwritten [OF this] assms(2) w2(2) show ?thesis by (metis prod.collapse)
  next
    case 2
    then have "registry env w2 = Inr (mark_seen (matching_device env d t) now ds)" by (simp add: written_def registry_def)
    with assms(2) w2(2) 2(1) show ?thesis by (auto simp: known_phone_def dest!: mark_seen_mem)
  qed
qed

lemma has_device_outcome:
  "has_monitor_device env d w = (Inr b, w1) \<Longrightarrow> (\<exists>ds. registry env w = Inr ds \<and> b = (\<exists>r \<in> set ds. md_id r = d))"
  by (auto simp: has_monitor_device_def monitor_devices_snapshot_def chain_def give_def list_ex_iff
      dest!: load_registry split: prod.splits sum.splits)

lemma snapshot_provider_known:
  assumes "snapshot_provider sv d i n w = (Inr sn, w1)"
  shows "known_phone (sv_env sv) w d \<and> sn_session_id sn = i \<and> sn_sequence sn = n"
proof -
  obtain k w2 where k: "has_monitor_device (sv_env sv) d (fst w) = (k, w2)" by fastforce
  with assms obtain b where b: "k = Inr b" "b" by (cases k) (auto simp: snapshot_provider_def split: if_splits)
  with k has_device_outcome [of "sv_env sv" d "fst w" True w2] have "known_phone (sv_env sv) w d" by (auto simp: known_phone_def)
  moreover have "sn_session_id sn = i \<and> sn_sequence sn = n"
    using assms k b by (auto simp: snapshot_provider_def encrypt_snapshot_def split: prod.splits sum.splits)
  ultimately show ?thesis by simp
qed

lemma revoke_handler_drops:
  assumes "revoke_handler env d w = (Inr (), w1)"
  shows "\<not> known_phone env w1 d"
proof -
  obtain w2 where w2: "revoke_monitor_device_everywhere env d (fst w) = (Inr True, w2)" "w1 = (w2, snd w)"
    using assms by (auto simp: revoke_handler_def split: prod.splits sum.splits if_splits)
  from revoke_everywhere_outcome [OF w2(1)] obtain ds where "mw_devices w2 = Some (filter (\<lambda>r. md_id r \<noteq> d) ds)"
    by (auto simp: removal_def)
  with w2(2) show ?thesis by (auto simp: known_phone_def registry_def)
qed

interpretation gate: device_gate "service_handlers sv" "known_phone (sv_env sv)" "admitted (sv_env sv)" for sv :: "'c ServiceEnv"
proof
  fix d t i x :: string and n :: u64 and sn b and w w1 :: "'c desk"
  show "mh_auth (service_handlers sv) d t w = (True, w1) \<Longrightarrow> admitted (sv_env sv) w d t"
    by (simp add: service_handlers_def auth_checker_admits)
  show "admitted (sv_env sv) w d t \<Longrightarrow> known_phone (sv_env sv) w d"
    by (auto simp: admitted_def known_phone_def matching_device_def)
  show "mh_auth (service_handlers sv) d t w = (b, w1) \<Longrightarrow> known_phone (sv_env sv) w1 x \<Longrightarrow> known_phone (sv_env sv) w x"
    by (auto simp: service_handlers_def intro: auth_checker_keeps)
  show "mh_snapshot (service_handlers sv) d i n w = (Inr sn, w1) \<Longrightarrow> known_phone (sv_env sv) w d \<and> sn_session_id sn = i \<and> sn_sequence sn = n"
    by (simp add: service_handlers_def snapshot_provider_known)
  show "mh_revoke (service_handlers sv) d w = (Inr (), w1) \<Longrightarrow> \<not> known_phone (sv_env sv) w1 d"
    by (simp add: service_handlers_def revoke_handler_drops)
qed

lemma service_echoes: "echoes (service_handlers sv)"
  unfolding echoes_def using gate.snapshot_known by blast

section \<open>Connections at a time\<close>

text \<open>A run of the accepting thread: connections that are served, with the counter. Ghost: how many are served.\<close>

inductive slots_reachable :: "nat \<Rightarrow> nat \<Rightarrow> bool" where
  start: "slots_reachable 0 0"
| accepted: "slots_reachable served counter \<Longrightarrow> accept_connection counter = (True, counter') \<Longrightarrow> slots_reachable (Suc served) counter'"
| refused: "slots_reachable served counter \<Longrightarrow> accept_connection counter = (False, counter') \<Longrightarrow> slots_reachable served counter'"
| ended: "slots_reachable (Suc served) counter \<Longrightarrow> slots_reachable served (connection_ended counter)"

lemma slots_exact: "slots_reachable served counter \<Longrightarrow> counter = served \<and> served \<le> MAX_ACTIVE_CONNECTIONS"
  by (induction rule: slots_reachable.induct)
     (auto simp: accept_connection_def connection_ended_def MAX_ACTIVE_CONNECTIONS_def Let_def split: if_splits)

section \<open>Pairing through its cipher\<close>

text \<open>The cipher \<^verbatim>\<open>handle_encrypted_monitor_pairing\<close> uses: the functions of \<^verbatim>\<open>monitor_crypto.rs\<close> with the two directions, between
  serde's parser and printer.\<close>

definition text_of :: "bytes \<Rightarrow> string" where
  "text_of b = map (\<lambda>x. char_of (unat x)) b"

lemma as_bytes_text_of [simp]: "as_bytes (text_of b) = b"
proof -
  have "(of_char (char_of (unat x)) :: u8) = x" for x :: u8
  proof -
    have "(of_char (char_of (unat x)) :: u8) = of_nat (of_char (char_of (unat x) :: char))" by (simp only: of_nat_of_char)
    then show ?thesis by simp
  qed
  then show ?thesis by (simp add: as_bytes_def text_of_def comp_def)
qed

definition pairing_cipher :: "Crypto \<Rightarrow> bytes option \<Rightarrow> (string \<Rightarrow> json option) \<Rightarrow> (Enrollment \<Rightarrow> string) \<Rightarrow> PairingCipher" where
  "pairing_cipher cr rnd parse print =
     \<lparr>pc_open = \<lambda>pairing_code pairing_id sealed. map_sum id text_of (decrypt_pairing_payload cr pairing_code pairing_id ''request'' sealed),
      pc_parse = parse,
      pc_seal = \<lambda>pairing_code pairing_id en. encrypt_pairing_payload cr rnd pairing_code pairing_id ''response'' (as_bytes (print en))\<rparr>"

text \<open>What a request that got an answer went through.\<close>

lemma complete_pairing_outcome:
  assumes "complete_monitor_pairing env doc w = (Inr en, w1)"
  shows "\<exists>g secret name. pairing_request_of doc = Inr (secret, name) \<and> mw_pairing w = Some g \<and> me_sha env secret = pg_code_hash g
    \<and> en_device_name en = name \<and> fst (monitor_device_token_authorized env (en_device_id en) (en_direct_token en) w1)"
proof -
  obtain secret name where p: "pairing_request_of doc = Inr (secret, name)"
    using assms by (cases "pairing_request_of doc") (auto simp: complete_monitor_pairing_def chain_def from_result_def)
  obtain q w2 where q: "claim_pairing_grant env secret (me_now env (mw_calls w)) (passed_by w) = (q, w2)" by fastforce
  with assms p obtain g where g: "q = Inr g"
    by (cases q) (auto simp: complete_monitor_pairing_def chain_def from_result_def timestamp_ms_def)
  obtain r w3 where r: "complete_claimed_monitor_pairing env (pg_pairing_id g) name w2 = (r, w3)" by fastforce
  with assms p q g have ran: "r = Inr en" "w1 = w3"
    by (cases r; auto simp: complete_monitor_pairing_def chain_def from_result_def timestamp_ms_def and_then_always_def give_def modify_def)+
  obtain ds d where at: "written env (ds @ [d]) w3" "enrolled_as env en d" "en_device_name en = name"
    using complete_claimed_outcome [OF r] ran(1) by (auto simp: enrollment_def)
  obtain b w4 where b: "monitor_device_token_authorized env (en_device_id en) (en_direct_token en) w3 = (b, w4)" by fastforce
  have "matching_device env (en_device_id en) (en_direct_token en) d"
    using at(2) by (simp add: matching_device_def enrolled_as_def verify_token_hash_hex_iff)
  with authorized_outcome [OF b] at(1) have "b" by (auto simp: authorization_def written_def registry_def)
  moreover have "mw_pairing w = Some g \<and> me_sha env secret = pg_code_hash g"
    using q g by (auto simp: claim_pairing_grant_def verify_token_hash_hex_iff split: option.splits if_splits)
  ultimately show ?thesis using p b ran(2) at(3) by auto
qed

section \<open>An instance\<close>

text \<open>A desktop with one paired phone, for the witnesses.\<close>

definition demo_phone :: MonitorDeviceRecord where
  "demo_phone = \<lparr>md_id = ''dev_1'', md_name = ''Phone'', md_token_hash = ''htoken'', md_created_at = 1, md_last_seen_at = Some 1\<rparr>"

definition demo_paired :: MonitorWorld where
  "demo_paired = fresh_world\<lparr>mw_devices := Some [demo_phone]\<rparr>"

abbreviation demo_after :: "nat \<Rightarrow> unit desk" where
  "demo_after k \<equiv> (demo_paired\<lparr>mw_calls := k\<rparr>, ())"

definition demo_json :: "string \<Rightarrow> json option" where
  "demo_json t = Some (JObject [(''pairingCode'', JString t), (''deviceName'', JString ''Phone'')])"

definition demo_sv :: "unit ServiceEnv" where
  "demo_sv = \<lparr>sv_env = demo_env, sv_pairing = pairing_cipher demo_crypto (Some (replicate 12 7)) demo_json en_device_id,
     sv_crypto = demo_crypto, sv_master_key = [1], sv_desktop_id = ''d_1'', sv_nonce = \<lambda>_. Some (replicate 12 7),
     sv_payload = \<lambda>c. ([9], c), sv_control = \<lambda>_ _ _. raise ''no control''\<rparr>"

definition demo_session :: MonitorSession where
  "demo_session = \<lparr>se_device_id = ''dev_1'', se_token = ''token'', se_session_id = ''s_1'', se_sequence = 1,
     se_last_activity = 0, se_last_snapshot = 0, se_last_ping = 0\<rparr>"

definition demo_round :: RoundInput where
  "demo_round = \<lparr>ri_idle_at = 1, ri_snapshot_at = 1, ri_snapshot_done = 1, ri_ping_at = 1, ri_ping_done = 1, ri_read_done = 1,
     ri_now = 1, ri_read = W_Nothing\<rparr>"

definition demo_address :: string where
  "demo_address = ''/v1/monitor/snapshot'' @ ''?desktopId='' @ percent_encode ''d_1'' @ ''&deviceId='' @ percent_encode ''dev_1''"

lemma demo_query: "parse_query demo_address = Some [''desktopId'' \<mapsto> ''d_1'', ''deviceId'' \<mapsto> ''dev_1'']"
  unfolding demo_address_def by (rule parse_query_ids) (simp_all add: code_def)

lemma demo_route: "route_of demo_address = ''/v1/monitor/snapshot''"
  unfolding demo_address_def by code_simp

lemmas demo_serving = demo_sv_def demo_session_def demo_round_def demo_paired_def demo_phone_def fresh_world_def demo_env_def
  service_handlers_def auth_checker_def snapshot_provider_def has_monitor_device_def monitor_devices_snapshot_def
  ensure_monitor_devices_loaded_def monitor_device_token_authorized_def matching_device_def seen_now_def verify_token_hash_hex_iff
  authorize_request_def text_at_def token_of_def passed_by_def Let_def sat_sub64_def sat_add64_def
  chain_def give_def on_auth_def on_world_def ws_send_def push_snapshot_def snapshot_due_def ping_due_def on_read_def monitor_round_def
  encrypt_snapshot_def seal_box_def demo_crypto_def from_result_def HELLO_TIMEOUT_def MAX_WS_TEXT_BYTES_def
  SNAPSHOT_INTERVAL_def HEARTBEAT_INTERVAL_def IDLE_TIMEOUT_def

lemma demo_admits: "k = 0 \<or> k = 2 \<Longrightarrow> mh_auth (service_handlers demo_sv) ''dev_1'' ''token'' (demo_after k) = (True, demo_after (Suc k))"
  by (auto simp: demo_serving word_le_nat_alt)

lemma demo_snapshot: "\<exists>sn. mh_snapshot (service_handlers demo_sv) ''dev_1'' i n (demo_after k) = (Inr sn, demo_after (Suc k)) \<and> sn_sequence sn = n"
  by (simp add: demo_serving)

lemma demo_push:
  "\<exists>sn. push_snapshot (\<lambda>_. True) (service_handlers demo_sv) now ''dev_1'' i n \<lparr>cn_world = demo_after k, cn_out = outs, cn_sends = m\<rparr>
    = (Inr (sat_add64 n 1), \<lparr>cn_world = demo_after (Suc k), cn_out = outs @ [Out (VS_Snapshot now sn)], cn_sends = Suc m\<rparr>)"
proof -
  obtain sn where "mh_snapshot (service_handlers demo_sv) ''dev_1'' i (sat_add64 n 1) (demo_after k) = (Inr sn, demo_after (Suc k))"
    using demo_snapshot by blast
  then show ?thesis by (simp add: push_snapshot_def Let_def chain_def on_world_def ws_send_def give_def)
qed

text \<open>A session with the snapshot of its opening and one more.\<close>

lemma demo_session_runs:
  "\<exists>r c1. handle_monitor_socket (\<lambda>_. True) (service_handlers demo_sv) (\<lambda>_. Some (V_Hello PROTOCOL_VERSION ''d_1'' ''dev_1''))
      (Inr (replicate 32 CHR ''0'')) 5 0 ''d_1'' demo_address (Some ''token'') [(0, W_Text ''hello'')] [demo_round\<lparr>ri_snapshot_at := 10000\<rparr>]
      \<lparr>cn_world = demo_after 0, cn_out = [], cn_sends = 0\<rparr> = (r, c1) \<and> length (sent_numbers (cn_out c1)) = 2"
proof -
  let ?h = "service_handlers demo_sv"
  let ?parse = "\<lambda>_. Some (V_Hello PROTOCOL_VERSION ''d_1'' ''dev_1'')"
  let ?sid = "''s_'' @ take 32 (replicate 32 CHR ''0'')"
  let ?ack = "Out (VS_HelloAck ?sid 5 True device_capabilities)"
  let ?s = "\<lparr>se_device_id = ''dev_1'', se_token = ''token'', se_session_id = ?sid, se_sequence = 1,
         se_last_activity = 0, se_last_snapshot = 0, se_last_ping = 0\<rparr>"
  let ?ri = "demo_round\<lparr>ri_snapshot_at := 10000\<rparr>"
  obtain sn where sn: "push_snapshot (\<lambda>_. True) ?h 5 ''dev_1'' ?sid 0 \<lparr>cn_world = demo_after 1, cn_out = [?ack], cn_sends = 1\<rparr>
      = (Inr (sat_add64 0 1), \<lparr>cn_world = demo_after 2, cn_out = [?ack, Out (VS_Snapshot 5 sn)], cn_sends = 2\<rparr>)"
    using demo_push [of 5 ?sid 0 1 "[?ack]" 1] by (auto simp: numeral_2_eq_2)
  have one: "sat_add64 0 1 = 1" by (simp add: sat_add64_def)
  have ack: "acknowledge (\<lambda>_. True) ?h (Inr (replicate 32 CHR ''0'')) 5 0 ''dev_1'' ''token'' \<lparr>cn_world = demo_after 1, cn_out = [], cn_sends = 0\<rparr>
      = (Inr (Some ?s), \<lparr>cn_world = demo_after 2, cn_out = [?ack, Out (VS_Snapshot 5 sn)], cn_sends = 2\<rparr>)"
    using sn one by (simp add: acknowledge_def chain_def from_result_def ws_send_def give_def)
  have auth: "authorize_request ?h ''d_1'' [''desktopId'' \<mapsto> ''d_1'', ''deviceId'' \<mapsto> ''dev_1''] ''token'' (demo_after 0) = (True, demo_after 1)"
    using demo_admits [of 0] by (simp add: authorize_request_def text_at_def)
  have opened: "open_session (\<lambda>_. True) ?h ?parse (Inr (replicate 32 CHR ''0'')) 5 0 ''d_1'' demo_address (Some ''token'') [(0, W_Text ''hello'')]
      \<lparr>cn_world = demo_after 0, cn_out = [], cn_sends = 0\<rparr>
      = (Inr (Some ?s), \<lparr>cn_world = demo_after 2, cn_out = [?ack, Out (VS_Snapshot 5 sn)], cn_sends = 2\<rparr>)"
    using auth ack
    by (simp add: open_session_def demo_query chain_def on_auth_def token_of_def greet_def text_at_def HELLO_TIMEOUT_def
        MAX_WS_TEXT_BYTES_def give_def)
  obtain sn2 where sn2: "push_snapshot (\<lambda>_. True) ?h 1 ''dev_1'' ?sid 1 \<lparr>cn_world = demo_after 3, cn_out = [?ack, Out (VS_Snapshot 5 sn)], cn_sends = 2\<rparr>
      = (Inr (sat_add64 1 1), \<lparr>cn_world = demo_after 4, cn_out = [?ack, Out (VS_Snapshot 5 sn), Out (VS_Snapshot 1 sn2)], cn_sends = 3\<rparr>)"
    using demo_push [of 1 ?sid 1 3 "[?ack, Out (VS_Snapshot 5 sn)]" 2] by (auto simp: numeral_eq_Suc)
  have admits3: "mh_auth ?h ''dev_1'' ''token'' (demo_after 2) = (True, demo_after 3)" using demo_admits [of 2] by (simp add: numeral_eq_Suc)
  have "\<exists>r. monitor_round (\<lambda>_. True) ?h ?parse ?ri ?s \<lparr>cn_world = demo_after 2, cn_out = [?ack, Out (VS_Snapshot 5 sn)], cn_sends = 2\<rparr>
      = (Inr (Goes_On r), \<lparr>cn_world = demo_after 4, cn_out = [?ack, Out (VS_Snapshot 5 sn), Out (VS_Snapshot 1 sn2)], cn_sends = 3\<rparr>)"
    using admits3 sn2
    by (simp add: monitor_round_def chain_def on_auth_def snapshot_due_def ping_due_def on_read_def Let_def demo_round_def give_def
        IDLE_TIMEOUT_def SNAPSHOT_INTERVAL_def HEARTBEAT_INTERVAL_def)
  then obtain s1 where round: "monitor_round (\<lambda>_. True) ?h ?parse ?ri ?s \<lparr>cn_world = demo_after 2, cn_out = [?ack, Out (VS_Snapshot 5 sn)], cn_sends = 2\<rparr>
      = (Inr (Goes_On s1), \<lparr>cn_world = demo_after 4, cn_out = [?ack, Out (VS_Snapshot 5 sn), Out (VS_Snapshot 1 sn2)], cn_sends = 3\<rparr>)" by blast
  show ?thesis
    unfolding handle_monitor_socket_def chain_def opened sum.case prod.case option.case monitor_rounds.simps round
    by (simp add: give_def)
qed

subsection \<open>A phone that pairs\<close>

definition demo_secret :: string where "demo_secret = replicate 64 CHR ''0''"

definition demo_grant :: MonitorPairingGrant where
  "demo_grant = \<lparr>pg_pairing_id = ''p_1'', pg_pairing_code = demo_secret, pg_code_hash = ''h'' @ demo_secret, pg_expires_at = 1000\<rparr>"

lemma demo_request: "pairing_request_of (JObject [(''pairingCode'', JString demo_secret), (''deviceName'', JString ''Phone'')]) = Inr (demo_secret, ''Phone'')"
proof -
  have "trim demo_secret = demo_secret" "trim ''Phone'' = ''Phone''"
    by (rule trim_graphic, simp add: graphic_def code_def demo_secret_def)+
  moreover have "chars_take 80 ''Phone'' = ''Phone''" by code_simp
  moreover have "demo_secret \<noteq> []" by (simp add: demo_secret_def)
  ultimately show ?thesis by (simp add: pairing_request_of_def nonempty_text_def json_str_at_def)
qed

lemma demo_pairs:
  "\<exists>sealed reply w1. encrypt_pairing_payload demo_crypto (Some (replicate 12 7)) demo_secret ''p_1'' ''request'' (as_bytes demo_secret) = Inr sealed
     \<and> handle_encrypted_monitor_pairing demo_env (pairing_cipher demo_crypto (Some (replicate 12 7)) demo_json en_device_id)
        (P_Pair ''p_1'' sealed) (fresh_world\<lparr>mw_pairing := Some demo_grant\<rparr>) = (Inr reply, w1)"
proof -
  have key: "pairing_key demo_secret = Inr (replicate 32 0)" unfolding demo_secret_def by (rule demo_pairing_key)
  obtain n c where box: "seal_box demo_crypto (Some (replicate 12 7)) (replicate 32 0) (pairing_aad ''p_1'' ''request'') (as_bytes demo_secret) = Inr (n, c)"
    by (simp add: seal_box_def demo_crypto_def)
  let ?sealed = "\<lparr>pp_nonce = n, pp_ciphertext = c\<rparr>"
  have sealed: "encrypt_pairing_payload demo_crypto (Some (replicate 12 7)) demo_secret ''p_1'' ''request'' (as_bytes demo_secret) = Inr ?sealed"
    using key box by (simp add: encrypt_pairing_payload_def)
  have opened: "decrypt_pairing_payload demo_crypto demo_secret ''p_1'' ''request'' ?sealed = Inr (as_bytes demo_secret)"
    using key open_seal [OF demo_aead_ok demo_base64_ok box] by (simp add: decrypt_pairing_payload_def NONCE_LEN_def)
  have same_text: "text_of (as_bytes demo_secret) = demo_secret" using as_bytes_inject by fastforce
  let ?w = "fresh_world\<lparr>mw_pairing := Some demo_grant, mw_calls := Suc 0\<rparr>"
  let ?w2 = "fresh_world\<lparr>mw_calls := Suc (Suc 0)\<rparr>"
  obtain en w3 where done3: "complete_claimed_monitor_pairing demo_env ''p_1'' ''Phone'' ?w2 = (Inr en, w3)"
    using demo_complete [of ?w2 "''p_1''"] by (auto simp: fresh_world_def)
  have complete: "complete_monitor_pairing demo_env (JObject [(''pairingCode'', JString demo_secret), (''deviceName'', JString ''Phone'')]) ?w = (Inr en, w3)"
    using done3 by (simp add: complete_monitor_pairing_def demo_request chain_def from_result_def timestamp_ms_def claim_pairing_grant_def
        demo_grant_def verify_token_hash_hex_iff demo_env_def passed_by_def and_then_always_def give_def fresh_world_def)
  obtain answer where answer: "encrypt_pairing_payload demo_crypto (Some (replicate 12 7)) demo_secret ''p_1'' ''response'' (as_bytes (en_device_id en)) = Inr answer"
    using key by (simp add: encrypt_pairing_payload_def seal_box_def demo_crypto_def)
  have "handle_encrypted_monitor_pairing demo_env (pairing_cipher demo_crypto (Some (replicate 12 7)) demo_json en_device_id)
        (P_Pair ''p_1'' ?sealed) (fresh_world\<lparr>mw_pairing := Some demo_grant\<rparr>) = (Inr (PS_PairResult ''p_1'' answer), w3)"
  proof -
    have t: "timestamp_ms demo_env (fresh_world\<lparr>mw_pairing := Some demo_grant\<rparr>) = (Inr 0, ?w)"
      by (simp add: timestamp_ms_def passed_by_def fresh_world_def demo_env_def)
    have g: "pairing_grant_for ''p_1'' 0 ?w = (Inr demo_grant, ?w)"
      by (simp add: pairing_grant_for_def demo_grant_def)
    have k: "pg_pairing_code demo_grant = demo_secret" by (simp add: demo_grant_def)
    show ?thesis
      by (simp add: handle_encrypted_monitor_pairing_def chain_def t g k pairing_cipher_def opened from_result_def same_text demo_json_def complete answer give_def)
  qed
  with sealed show ?thesis by blast
qed

section \<open>Properties\<close>

text \<open>At most 32 connections are served, and no slot is lost: a connection is turned away only while 32 others are
  served, also after refusals and ends in any order.\<close>

theorem connections_limited:
  assumes "slots_reachable served counter"
  shows "served \<le> 32 \<and> (fst (accept_connection counter) \<longleftrightarrow> served < 32)"
  using slots_exact [OF assms] by (auto simp: accept_connection_def MAX_ACTIVE_CONNECTIONS_def Let_def)

theorem connections_limited_witness: "slots_reachable 1 1 \<and> fst (accept_connection 1)"
proof -
  have "accept_connection 0 = (True, 1)" by (simp add: accept_connection_def MAX_ACTIVE_CONNECTIONS_def)
  from slots_reachable.accepted [OF slots_reachable.start this] have r: "slots_reachable 1 1" by simp
  with connections_limited [OF r] show ?thesis by simp
qed

text \<open>C22: the session of a revoked phone ends at its next round. Once a revocation reported success, on whatever
  connection, another session of that phone sends nothing more than the notice and its close, whatever it had received,
  and ends with an error; no control is executed and no snapshot sent.\<close>

theorem revoked_session_dropped:
  fixes sv :: "'c ServiceEnv"
  assumes "revoke_monitor_device_everywhere (sv_env sv) (se_device_id s) w = (Inr found, w1)" and "fst (cn_world c) = w1"
    and "monitor_rounds ok (service_handlers sv) parse (ri # ris) s c = (r, c1)"
  shows "isl r \<and> snd (cn_world c1) = snd (cn_world c)
    \<and> (\<exists>outs. cn_out c1 = cn_out c @ outs \<and> set outs \<subseteq> {Out (VS_Error ''device revoked''), Out_Close})"
proof -
  from revoke_everywhere_outcome [OF assms(1)] obtain ds where "mw_devices w1 = Some (filter (\<lambda>r. md_id r \<noteq> se_device_id s) ds)"
    by (auto simp: removal_def)
  with assms(2) have gone: "\<not> known_phone (sv_env sv) (cn_world c) (se_device_id s)"
    by (auto simp: known_phone_def registry_def)
  have rest: "snd (cn_world c1) = snd (cn_world c)"
  proof -
    obtain r1 c2 where r1: "monitor_round ok (service_handlers sv) parse ri s c = (r1, c2)" by fastforce
    from gate.unknown_round [OF gone r1] have "isl r1" by (simp add: gate.dropped_def)
    with assms(3) r1 have "c1 = c2" by (cases r1) (auto simp: chain_def)
    moreover have "snd (cn_world c2) = snd (cn_world c)"
    proof (cases "IDLE_TIMEOUT < ri_idle_at ri - se_last_activity s")
      case True
      with r1 show ?thesis by (auto simp: monitor_round_def chain_def close_ws_def modify_def raise_def)
    next
      case False
      obtain b w2 where a: "mh_auth (service_handlers sv) (se_device_id s) (se_token s) (cn_world c) = (b, w2)" by (metis surj_pair)
      moreover have "snd w2 = snd (cn_world c)" using a by (auto simp: service_handlers_def auth_checker_def split: prod.splits)
      ultimately show ?thesis
        using r1 False gate.auth_unknown [OF gone a]
        by (auto simp: monitor_round_def chain_def on_auth_def turn_away_def and_then_always_def ws_send_def
            close_ws_def modify_def raise_def split: if_splits)
    qed
    ultimately show ?thesis by simp
  qed
  with gate.unknown_rounds [OF gone assms(3)] show ?thesis by (auto simp: gate.dropped_def)
qed

theorem revoked_session_dropped_witness:
  "\<exists>w1 r c1. revoke_monitor_device_everywhere demo_env ''dev_1'' demo_paired = (Inr True, w1)
     \<and> monitor_rounds (\<lambda>_. True) (service_handlers demo_sv) (\<lambda>_. None) [demo_round] demo_session \<lparr>cn_world = (w1, ()), cn_out = [], cn_sends = 0\<rparr> = (r, c1)
     \<and> isl r"
proof -
  obtain w1 where "revoke_monitor_device_everywhere demo_env (md_id demo_phone) demo_paired = (Inr True, w1)"
    using demo_revoke [of demo_paired demo_phone] by (auto simp: demo_paired_def)
  then have w1: "revoke_monitor_device_everywhere (sv_env demo_sv) (se_device_id demo_session) demo_paired = (Inr True, w1)"
    by (simp add: demo_sv_def demo_session_def demo_phone_def)
  obtain r c1 where r: "monitor_rounds (\<lambda>_. True) (service_handlers demo_sv) (\<lambda>_. None) [demo_round] demo_session
      \<lparr>cn_world = (w1, ()), cn_out = [], cn_sends = 0\<rparr> = (r, c1)" by (metis surj_pair)
  from revoked_session_dropped [OF w1 _ r] have "isl r" by simp
  with w1 r show ?thesis by (auto simp: demo_sv_def demo_session_def)
qed

text \<open>Snapshots of a session are numbered one, two, three, without gap or repetition, whatever else is sent between
  them and however the session ends.\<close>

theorem snapshots_numbered:
  assumes "handle_monitor_socket ok (service_handlers sv) parse rnd now start desktop_id path bearer_token reads ris c = (r, c1)"
    and "cn_out c = []" and "length ris < 2 ^ 64 - 2"
  shows "\<exists>k. map unat (sent_numbers (cn_out c1)) = [1..<Suc k]"
  using socket_numbered [OF assms(1,2) service_echoes assms(3)] unfolding numbered_def .

theorem snapshots_numbered_witness:
  "\<exists>r c1. handle_monitor_socket (\<lambda>_. True) (service_handlers demo_sv) (\<lambda>_. Some (V_Hello PROTOCOL_VERSION ''d_1'' ''dev_1'')) (Inr (replicate 32 CHR ''0'')) 5 0
       ''d_1'' demo_address (Some ''token'') [(0, W_Text ''hello'')] [demo_round\<lparr>ri_snapshot_at := 10000\<rparr>]
       \<lparr>cn_world = demo_after 0, cn_out = [], cn_sends = 0\<rparr> = (r, c1)
     \<and> map unat (sent_numbers (cn_out c1)) = [1, 2]"
proof -
  obtain r c1 where r: "handle_monitor_socket (\<lambda>_. True) (service_handlers demo_sv) (\<lambda>_. Some (V_Hello PROTOCOL_VERSION ''d_1'' ''dev_1''))
      (Inr (replicate 32 CHR ''0'')) 5 0 ''d_1'' demo_address (Some ''token'') [(0, W_Text ''hello'')] [demo_round\<lparr>ri_snapshot_at := 10000\<rparr>]
      \<lparr>cn_world = demo_after 0, cn_out = [], cn_sends = 0\<rparr> = (r, c1)" "length (sent_numbers (cn_out c1)) = 2"
    using demo_session_runs by blast
  obtain k where k: "map unat (sent_numbers (cn_out c1)) = [1..<Suc k]" using snapshots_numbered [OF r(1)] by auto
  with r(2) have "k = 2" by (metis length_map length_upt diff_Suc_1)
  with k have "map unat (sent_numbers (cn_out c1)) = [1, 2]" by (simp add: numeral_eq_Suc)
  with r(1) show ?thesis by (intro exI conjI)
qed

text \<open>C25: a phone that falls silent is hung up on. Once a round starts more than 45 seconds after the last sign of life, the
  session has ended with an error, whatever the handlers did and however sends went; no session survives on
  reads that bring nothing.\<close>

theorem silent_session_ends:
  assumes "\<forall>ri \<in> set ris. ri_read ri \<in> {W_Nothing, W_Other}" and "se_last_activity s = since"
    and "\<exists>ri \<in> set ris. since + 45000 < ri_idle_at ri"
  shows "isl (fst (monitor_rounds ok h parse ris s c))"
  using assms
proof (induction ris arbitrary: s c)
  case (Cons ri ris)
  obtain r c1 where r: "monitor_round ok h parse ri s c = (r, c1)" by fastforce
  show ?case
  proof (cases r)
    case (Inr e)
    with r Cons.prems(1) obtain s1 where s1: "e = Goes_On s1" "se_last_activity s1 = since" "\<not> since + 45000 < ri_idle_at ri"
      using round_silent [of ok h parse ri s c e c1] Cons.prems(2) by (auto simp: IDLE_TIMEOUT_def)
    with Cons have "isl (fst (monitor_rounds ok h parse ris s1 c1))" by auto
    with r Inr s1(1) show ?thesis by (simp add: chain_def)
  qed (use r in \<open>simp add: chain_def\<close>)
qed simp

theorem silent_session_ends_witness:
  "isl (fst (monitor_rounds (\<lambda>_. True) (service_handlers demo_sv) (\<lambda>_. None) [demo_round, demo_round\<lparr>ri_idle_at := 45001\<rparr>] demo_session
     \<lparr>cn_world = demo_after 0, cn_out = [], cn_sends = 0\<rparr>))"
  using silent_session_ends [of "[demo_round, demo_round\<lparr>ri_idle_at := 45001\<rparr>]" demo_session 0]
  by (simp add: demo_round_def demo_session_def)



text \<open>C24: pairing, from the phone's sealed request to its opened answer. The answer a phone gets opens with the code that is open on
  the desktop, and only a request sealed with that code leads to one; what the phone reads names a device that is let in
  with the token in it.\<close>

theorem pairing_end_to_end:
  assumes "handle_encrypted_monitor_pairing env (pairing_cipher cr (Some nonce) parse print) (P_Pair pairing_id sealed) w = (Inr reply, w1)"
    and "encrypt_pairing_payload cr rnd phone_code pairing_id ''request'' request = Inr sealed"
    and "aead_ok cr" and "base64_ok cr" and "length nonce = NONCE_LEN"
  shows "\<exists>g answer en. mw_pairing w = Some g \<and> pg_pairing_id g = pairing_id \<and> pairing_key phone_code = pairing_key (pg_pairing_code g)
    \<and> reply = PS_PairResult pairing_id answer
    \<and> decrypt_pairing_payload cr phone_code pairing_id ''response'' answer = Inr (as_bytes (print en))
    \<and> fst (monitor_device_token_authorized env (en_device_id en) (en_direct_token en) w1)"
proof -
  let ?pc = "pairing_cipher cr (Some nonce) parse print"
  obtain q w2 where q: "pairing_grant_for pairing_id (me_now env (mw_calls w)) (passed_by w) = (q, w2)" by fastforce
  with assms(1) obtain g where g: "q = Inr g"
    by (cases q) (auto simp: handle_encrypted_monitor_pairing_def chain_def timestamp_ms_def)
  with q have slot: "mw_pairing w = Some g" "pg_pairing_id g = pairing_id" "w2 = passed_by w"
    by (auto simp: pairing_grant_for_def split: option.splits if_splits)
  obtain plain where plain: "decrypt_pairing_payload cr (pg_pairing_code g) pairing_id ''request'' sealed = Inr plain"
    using assms(1) q g by (cases "decrypt_pairing_payload cr (pg_pairing_code g) pairing_id ''request'' sealed")
      (auto simp: handle_encrypted_monitor_pairing_def pairing_cipher_def chain_def timestamp_ms_def from_result_def)
  obtain doc where doc: "parse (text_of plain) = Some doc"
    using assms(1) q g plain by (cases "parse (text_of plain)")
      (auto simp: handle_encrypted_monitor_pairing_def pairing_cipher_def chain_def timestamp_ms_def from_result_def)
  obtain r w3 where r: "complete_monitor_pairing env doc w2 = (r, w3)" by fastforce
  with assms(1) q g plain doc obtain en where en: "r = Inr en"
    by (cases r) (auto simp: handle_encrypted_monitor_pairing_def pairing_cipher_def chain_def timestamp_ms_def from_result_def)
  with assms(1) q g plain doc r obtain answer where answer:
      "encrypt_pairing_payload cr (Some nonce) (pg_pairing_code g) pairing_id ''response'' (as_bytes (print en)) = Inr answer"
      "reply = PS_PairResult pairing_id answer" "w1 = w3"
    by (auto simp: handle_encrypted_monitor_pairing_def pairing_cipher_def chain_def timestamp_ms_def from_result_def give_def split: sum.splits)
  have key: "pairing_key phone_code = pairing_key (pg_pairing_code g)"
  proof -
    obtain k n c where k: "pairing_key phone_code = Inr k" "seal_box cr rnd k (pairing_aad pairing_id ''request'') request = Inr (n, c)"
        "sealed = \<lparr>pp_nonce = n, pp_ciphertext = c\<rparr>"
      using assms(2) by (auto simp: encrypt_pairing_payload_def split: sum.splits)
    obtain k' where k': "pairing_key (pg_pairing_code g) = Inr k'" "open_box cr k' (pairing_aad pairing_id ''request'') n c = Inr plain"
      using plain k(3) by (auto simp: decrypt_pairing_payload_def split: sum.splits)
    from open_bound [OF assms(3,4) k(2) k'(2)] k(1) k'(1) show ?thesis by simp
  qed
  have "decrypt_pairing_payload cr (pg_pairing_code g) pairing_id ''response'' answer = Inr (as_bytes (print en))"
    using answer(1) open_seal [OF assms(3,4), of "Some nonce"] assms(5)
    by (auto simp: encrypt_pairing_payload_def decrypt_pairing_payload_def split: sum.splits)
  then have "decrypt_pairing_payload cr phone_code pairing_id ''response'' answer = Inr (as_bytes (print en))"
    using key by (simp add: decrypt_pairing_payload_def)
  with slot key answer complete_pairing_outcome [of env doc w2 en w3] r en show ?thesis by blast
qed

theorem pairing_end_to_end_witness:
  "\<exists>pairing_id sealed w reply w1 answer. handle_encrypted_monitor_pairing demo_env (pairing_cipher demo_crypto (Some (replicate 12 7)) demo_json en_device_id)
       (P_Pair pairing_id sealed) w = (Inr reply, w1) \<and> reply = PS_PairResult pairing_id answer"
proof -
  obtain sealed reply w1 where run: "encrypt_pairing_payload demo_crypto (Some (replicate 12 7)) demo_secret ''p_1'' ''request'' (as_bytes demo_secret) = Inr sealed"
      "handle_encrypted_monitor_pairing demo_env (pairing_cipher demo_crypto (Some (replicate 12 7)) demo_json en_device_id)
        (P_Pair ''p_1'' sealed) (fresh_world\<lparr>mw_pairing := Some demo_grant\<rparr>) = (Inr reply, w1)"
    using demo_pairs by blast
  from pairing_end_to_end [OF run(2,1) demo_aead_ok demo_base64_ok] obtain answer where "reply = PS_PairResult ''p_1'' answer"
    by (auto simp: NONCE_LEN_def)
  with run(2) show ?thesis by blast
qed

end
