(* ===== verification/Relay_Paths.thy ===== *)
theory Relay_Paths
  imports Relay_Client_Safety Monitor_Service Monitor_Control
begin

text \<open>
  A phone's requests through the relay and back: the client's handlers as the desktop starts them
  (\<^verbatim>\<open>start_relay_client_for_settings\<close> of \<^verbatim>\<open>src-tauri/src/network_commands.rs\<close>), on the registry of phones and the control of the
  desktop, composed with the relay's sessions of the phone and of the desktop.
\<close>

section \<open>Control with its cipher\<close>

text \<open>\<open>draw\<close> gives the nonce of the answer to a request.\<close>

text \<open>The rest of the desktop a control acts on. The keys handed to workers are in \<open>cd_workers\<close>.\<close>

record ControlDesk =
  cd_world :: World
  cd_cache :: ControlCache
  cd_workers :: "string list"

definition control_crypto ::
  "Crypto \<Rightarrow> (string \<Rightarrow> EncryptedControlPayload \<Rightarrow> bytes option) \<Rightarrow> bytes \<Rightarrow> string \<Rightarrow> (string \<Rightarrow> json option) \<Rightarrow> (json \<Rightarrow> string) \<Rightarrow> ControlCrypto" where
  "control_crypto cr draw master_key desktop_id parse print =
     \<lparr>cc_keys = \<lambda>_. Inr (),
      cc_decrypt = \<lambda>device_id request. map_sum id text_of
        (decrypt_control_payload cr (derive_device_key cr master_key device_id) desktop_id device_id ''request'' request),
      cc_parse = parse,
      cc_encrypt = \<lambda>device_id request v. encrypt_control_payload cr (draw device_id request) (derive_device_key cr master_key device_id) desktop_id device_id
        (cp_request_id request) ''response'' (cp_issued_at request) (cp_expires_at request) (as_bytes (print v))\<rparr>"

text \<open>\<^verbatim>\<open>monitor_control::handle\<close>, its two parts without a request in between; \<open>busy\<close> and \<open>parts\<close> are read at the time.\<close>

definition control_handle ::
  "Outside \<Rightarrow> ControlCrypto \<Rightarrow> (ControlDesk \<Rightarrow> bool) \<Rightarrow> (ControlDesk \<Rightarrow> MonitorParts) \<Rightarrow> string + bool \<Rightarrow> string \<Rightarrow> EncryptedControlPayload
    \<Rightarrow> (ControlDesk, EncryptedControlPayload) action" where
  "control_handle out cc busy parts known device_id request c =
     (case handle_begin cc known (Desktop_State.timestamp_ms out (cd_world c)) device_id request of
        Inl e \<Rightarrow> (Inl e, c)
      | Inr action \<Rightarrow>
          (case handle_locked out cc (busy c) (parts c) device_id request action (cd_cache c) (cd_world c) of
             (r, cache, worker, w1) \<Rightarrow>
               (r, \<lparr>cd_world = w1, cd_cache = cache, cd_workers = cd_workers c @ (case worker of None \<Rightarrow> [] | Some key \<Rightarrow> [key])\<rparr>)))"

section \<open>The handlers of the relay's client\<close>

definition relay_snapshots :: "'c ServiceEnv \<Rightarrow> 'c desk \<Rightarrow> SnapshotSource list \<times> 'c desk" where
  "relay_snapshots sv w =
     (case monitor_device_ids (sv_env sv) (fst w) of
        (Inl _, w1) \<Rightarrow> ([], (w1, snd w))
      | (Inr ids, w1) \<Rightarrow>
          if ids = [] then ([], (w1, snd w))
          else (case sv_payload sv (snd w) of
             (plaintext, c1) \<Rightarrow> (map (\<lambda>i. \<lparr>so_device_id = i, so_plaintext = plaintext\<rparr>) ids, (w1, c1))))"

definition relay_revoke_handler :: "MonitorEnv \<Rightarrow> string \<Rightarrow> ('c desk, unit) action" where
  "relay_revoke_handler env device_id w =
     (case revoke_monitor_device_local env device_id (fst w) of (r, w1) \<Rightarrow> (map_sum id (\<lambda>_. ()) r, (w1, snd w)))"

definition relay_handlers :: "'c ServiceEnv \<Rightarrow> 'c desk RelayHandlers" where
  "relay_handlers sv = \<lparr>rh_snapshots = relay_snapshots sv, rh_pairing = pair_handler sv, rh_revoke = relay_revoke_handler (sv_env sv),
     rh_control = control_handler sv\<rparr>"

section \<open>The contract holds\<close>

text \<open>Every cached answer names the request it is cached for.\<close>

definition cache_named :: "ControlCache \<Rightarrow> bool" where
  "cache_named cache \<longleftrightarrow> (\<forall>k e. cache k = Some e \<longrightarrow> (\<exists>d. k = cache_key d (cp_request_id (ce_response e))) \<and> no_bar (cp_request_id (ce_response e)))"

lemma begin_valid: "handle_begin cc known now d request = Inr action \<Longrightarrow> validate_request now request = Inr ()"
  by (auto simp: handle_begin_def split: sum.splits bool.splits option.splits)

text \<open>\<open>cc\<close> seals an answer under the id of its request.\<close>

definition names_request :: "ControlCrypto \<Rightarrow> bool" where
  "names_request cc \<longleftrightarrow> (\<forall>d r v p. cc_encrypt cc d r v = Inr p \<longrightarrow> cp_request_id p = cp_request_id r)"

lemma control_crypto_names: "names_request (control_crypto cr draw key desktop parse print)"
  by (auto simp: names_request_def control_crypto_def encrypt_control_payload_def split: sum.splits)

lemma cached_named:
  assumes "cache_named cache" and "cached_response now d req cache = (hit, entries)"
  shows "cache_named entries"
  using assms by (auto simp: cache_named_def cached_response_def retain_def Let_def split: option.splits if_splits)

lemma locked_named:
  assumes "cache_named cache" and "names_request cc" and "no_bar (cp_request_id req)"
    and "handle_locked out cc busy parts d req action cache w = (r, cache', worker, w')"
  shows "cache_named cache' \<and> (\<forall>response. r = Inr response \<longrightarrow> cp_request_id response = cp_request_id req)"
proof -
  obtain hit entries where c: "cached_response (Desktop_State.timestamp_ms out w) d req cache = (hit, entries)" by fastforce
  note named = cached_named [OF assms(1) c]
  consider (conflict) e where "hit = Inl e" | (found) response where "hit = Inr (Some response)" | (missed) "hit = Inr None"
    by (cases hit) (auto simp: option.exhaust_sel)
  then show ?thesis
  proof cases
    case (conflict e)
    with assms(4) c named show ?thesis by (auto simp: handle_locked_def)
  next
    case (found response)
    then have "\<exists>e. entries (cache_key d (cp_request_id req)) = Some e \<and> ce_response e = response"
      using c by (auto simp: cached_response_def Let_def split: option.splits if_splits)
    then obtain e d2 where "cache_key d (cp_request_id req) = cache_key d2 (cp_request_id response)" "no_bar (cp_request_id response)"
      using named by (auto simp: cache_named_def)
    then have "cp_request_id response = cp_request_id req"
      using after_last_bar [of d "cp_request_id req" d2 "cp_request_id response"] assms(3) by (simp add: cache_key_def)
    with assms(4) c found named show ?thesis by (auto simp: handle_locked_def)
  next
    case missed
    obtain v worker1 w1 where p: "perform_action out busy parts action w = (v, worker1, w1)" by (metis surj_pair)
    show ?thesis
    proof (cases "cc_encrypt cc d req v")
      case (Inl e)
      with assms(4) c missed p named show ?thesis by (auto simp: handle_locked_def)
    next
      case (Inr sealed)
      with assms(2) have name: "cp_request_id sealed = cp_request_id req" by (auto simp: names_request_def)
      have out: "cache' = control_insert d req sealed entries" "r = Inr sealed"
        using assms(4) c missed p Inr by (simp_all add: handle_locked_def)
      then have "cache_named cache'" using named name assms(3) by (auto simp: cache_named_def control_insert_def)
      with out name show ?thesis by simp
    qed
  qed
qed

lemma control_handle_named:
  assumes "cache_named (cd_cache c)" and "names_request cc" and "control_handle out cc busy parts known d req c = (r, c1)"
  shows "cache_named (cd_cache c1) \<and> (\<forall>response. r = Inr response \<longrightarrow> cp_request_id response = cp_request_id req)"
proof (cases "handle_begin cc known (Desktop_State.timestamp_ms out (cd_world c)) d req")
  case (Inl e)
  with assms show ?thesis by (auto simp: control_handle_def)
next
  case (Inr action)
  obtain q cache worker w1 where l: "handle_locked out cc (busy c) (parts c) d req action (cd_cache c) (cd_world c) = (q, cache, worker, w1)"
    by (metis surj_pair)
  have eq: "(q, \<lparr>cd_world = w1, cd_cache = cache, cd_workers = cd_workers c @ (case worker of None \<Rightarrow> [] | Some key \<Rightarrow> [key])\<rparr>) = (r, c1)"
    using assms(3) unfolding control_handle_def Inr sum.case l prod.case .
  then have ends: "r = q" "cd_cache c1 = cache" by auto
  show ?thesis unfolding ends by (rule locked_named [OF assms(1,2) valid_no_bar [OF begin_valid [OF Inr]] l])
qed

lemma revoke_local_drops:
  assumes "relay_revoke_handler env d w = (Inr (), w1)"
  shows "\<not> known_phone env w1 d"
proof -
  obtain q w2 where q: "revoke_monitor_device_local env d (fst w) = (q, w2)" by fastforce
  with assms obtain b where "q = Inr b" "w1 = (w2, snd w)" by (cases q) (auto simp: relay_revoke_handler_def)
  with revoke_local_outcome [OF q] show ?thesis by (auto simp: removal_def known_phone_def registry_def)
qed

text \<open>The service of a desktop with this control.\<close>

definition desk_service ::
  "ControlDesk ServiceEnv \<Rightarrow> Outside \<Rightarrow> (string \<Rightarrow> EncryptedControlPayload \<Rightarrow> bytes option) \<Rightarrow> (string \<Rightarrow> json option) \<Rightarrow> (json \<Rightarrow> string)
    \<Rightarrow> (ControlDesk \<Rightarrow> bool) \<Rightarrow> (ControlDesk \<Rightarrow> MonitorParts) \<Rightarrow> ControlDesk ServiceEnv" where
  "desk_service sv out draw parse print busy parts =
     sv\<lparr>sv_control := control_handle out (control_crypto (sv_crypto sv) draw (sv_master_key sv) (sv_desktop_id sv) parse print) busy parts\<rparr>"

abbreviation desk_named :: "ControlDesk desk \<Rightarrow> bool" where
  "desk_named w \<equiv> cache_named (cd_cache (snd w))"

lemma desk_control_named:
  assumes "desk_named w" and "control_handler (desk_service sv out draw parse print busy parts) d req w = (r, w1)"
  shows "desk_named w1 \<and> (\<forall>response. r = Inr response \<longrightarrow> cp_request_id response = cp_request_id req)"
proof -
  let ?cc = "control_crypto (sv_crypto sv) draw (sv_master_key sv) (sv_desktop_id sv) parse print"
  obtain known w2 where known: "has_monitor_device (sv_env sv) d (fst w) = (known, w2)" by fastforce
  obtain q c1 where q: "control_handle out ?cc busy parts known d req (snd w) = (q, c1)" by fastforce
  have "sv_env (desk_service sv out draw parse print busy parts) = sv_env sv"
      "sv_control (desk_service sv out draw parse print busy parts) = control_handle out ?cc busy parts"
    by (simp_all add: desk_service_def)
  then have eq: "(q, (w2, c1)) = (r, w1)"
    using assms(2) known q by (simp add: control_handler_def)
  then have ends: "r = q" "snd w1 = c1" by auto
  show ?thesis unfolding ends by (rule control_handle_named [OF assms(1) control_crypto_names q])
qed

interpretation relayed: relay_side "relay_handlers (desk_service sv out draw parse print busy parts)" "known_phone (sv_env sv)" desk_named
  for sv :: "ControlDesk ServiceEnv" and out draw parse print busy parts
proof
  fix d and req response :: EncryptedControlPayload and w w1 :: "ControlDesk desk" and r q a p
  let ?h = "relay_handlers (desk_service sv out draw parse print busy parts)"
  show "rh_revoke ?h d w = (Inr (), w1) \<Longrightarrow> \<not> known_phone (sv_env sv) w1 d"
    using revoke_local_drops by (simp add: relay_handlers_def desk_service_def)
  show "desk_named w \<Longrightarrow> rh_control ?h d req w = (Inr response, w1) \<Longrightarrow> cp_request_id response = cp_request_id req"
    using desk_control_named by (fastforce simp: relay_handlers_def)
  show "desk_named w \<Longrightarrow> rh_control ?h d req w = (r, w1) \<Longrightarrow> desk_named w1"
    using desk_control_named by (fastforce simp: relay_handlers_def)
  show "desk_named w \<Longrightarrow> rh_revoke ?h d w = (q, w1) \<Longrightarrow> desk_named w1"
    by (auto simp: relay_handlers_def relay_revoke_handler_def split: prod.splits)
  show "desk_named w \<Longrightarrow> rh_pairing ?h p w = (a, w1) \<Longrightarrow> desk_named w1"
    by (auto simp: relay_handlers_def pair_handler_def split: prod.splits)
qed

section \<open>Through the relay and back\<close>

text \<open>What the relay makes of the desktop's only message.\<close>

lemma relay_revoke_waits:
  assumes "request_revoke_begin alive rnd fresh desktop d st = (Inr k, st1, es)"
  obtains s r where "k = (desktop, d, r)" "es = [ToDesktop s (DS_DeviceRevoke d r)]"
  using assms by (auto simp: request_revoke_begin_def Let_def split: option.splits if_splits sum.splits)

lemma relay_takes_revoke:
  assumes "st_revoke_connections st (desktop, d, r) = Some fresh" and "Desktop_Session.desktop_message now x desktop (Some m) st = (go, st1, es, ans)"
    and "m = D_RevokeResult d r \<or> (\<exists>e. m = D_RevokeError d r e)"
  shows "es = [ToRevoke fresh (case m of D_RevokeResult _ _ \<Rightarrow> Inr () | D_RevokeError _ _ e \<Rightarrow> Inl (chars_take 240 e))]"
  using assms by (auto simp: desktop_message_def complete_revoke_def Let_def)

lemma relay_takes_control:
  assumes "st_control_connections st (desktop, d, r) = Some fresh" and "Desktop_Session.desktop_message now x desktop (Some m) st = (go, st1, es, ans)"
    and "(\<exists>p. m = D_ControlResponse d p \<and> cp_request_id p = r) \<or> (\<exists>e. m = D_ControlError d r e)"
  shows "es = [ToControl fresh (case m of D_ControlResponse _ p \<Rightarrow> Inr p | D_ControlError _ _ e \<Rightarrow> Inl (chars_take 240 e))]"
  using assms by (auto simp: desktop_message_def complete_control_def Let_def)

text \<open>What the desktop answers to a control.\<close>

lemma desktop_control_answer:
  assumes "server_message env h (DS_DeviceControl d req) c = (q, c1)" and "cl_out c1 = cl_out c @ [C_Message a]"
  obtains (answered) p where "rh_control h d req (cl_world c) = (Inr p, cl_world c1)" "a = D_ControlResponse d p"
  | (refused) e where "rh_control h d req (cl_world c) = (Inl e, cl_world c1)"
      "a = D_ControlError d (cp_request_id req) ''desktop rejected control request''"
proof -
  obtain r w1 where r: "rh_control h d req (cl_world c) = (r, w1)" by fastforce
  show ?thesis
  proof (cases r)
    case (Inl e)
    with assms r show ?thesis
      by (intro refused) (auto simp: server_message_def chain_def run_handler_def set_error_def on_status_def modify_def send_desktop_message_def
          client_send_def split: if_splits)
  next
    case (Inr p)
    with assms r show ?thesis
      by (intro answered) (auto simp: server_message_def chain_def run_handler_def send_desktop_message_def client_send_def split: if_splits)
  qed
qed

lemma desktop_revoke_answer:
  assumes "server_message env h (DS_DeviceRevoke d i) c = (q, c1)" and "cl_out c1 = cl_out c @ [C_Message a]"
  shows "a = D_RevokeResult d i \<or> (\<exists>e. a = D_RevokeError d i e)"
proof -
  obtain r w1 where r: "rh_revoke h d (cl_world c) = (r, w1)" by fastforce
  with assms show ?thesis
    by (cases r) (auto simp: server_message_def chain_def run_handler_def set_error_def on_status_def modify_def send_desktop_message_def
        client_send_def split: if_splits)
qed

text \<open>A control executed for the first time: the action is the one that was sealed, and the answer opens to its result.\<close>

lemma first_control:
  assumes "control_handle out (control_crypto cr draw key desktop parse print) busy parts known d req c = (Inr p, c1)"
    and "cd_cache c (cache_key d (cp_request_id req)) = None"
    and "encrypt_control_payload cr (Some b) (derive_device_key cr key d) desktop d i ''request'' issued expires plain = Inr req"
    and "aead_ok cr" and "base64_ok cr" and "length b = NONCE_LEN" and "\<forall>d r b. draw d r = Some b \<longrightarrow> length b = NONCE_LEN"
  shows "cp_request_id p = cp_request_id req \<and> (\<exists>doc v worker. parse (text_of plain) = Some doc
    \<and> perform_action out (busy c) (parts c) (case json_str_at ''action'' doc of Some a \<Rightarrow> a | None \<Rightarrow> []) (cd_world c) = (v, worker, cd_world c1)
    \<and> decrypt_control_payload cr (derive_device_key cr key d) desktop d ''response'' p = Inr (as_bytes (print v)))"
proof -
  let ?cc = "control_crypto cr draw key desktop parse print"
  have opened: "decrypt_control_payload cr (derive_device_key cr key d) desktop d ''request'' req = Inr plain"
    using assms(3) open_seal [OF assms(4,5), of "Some b"] assms(6)
    by (auto simp: encrypt_control_payload_def decrypt_control_payload_def split: sum.splits)
  obtain action where action: "handle_begin ?cc known (Desktop_State.timestamp_ms out (cd_world c)) d req = Inr action"
    using assms(1) by (cases "handle_begin ?cc known (Desktop_State.timestamp_ms out (cd_world c)) d req") (auto simp: control_handle_def)
  then obtain doc where doc: "parse (text_of plain) = Some doc" "action = (case json_str_at ''action'' doc of Some a \<Rightarrow> a | None \<Rightarrow> [])"
    using opened by (auto simp: handle_begin_def control_crypto_def split: sum.splits bool.splits option.splits)
  obtain entries where miss: "cached_response (Desktop_State.timestamp_ms out (cd_world c)) d req (cd_cache c) = (Inr None, entries)"
    using assms(2) by (simp add: cached_response_def retain_def Let_def)
  obtain v worker w1 where v: "perform_action out (busy c) (parts c) action (cd_world c) = (v, worker, w1)" by (metis surj_pair)
  have sealed: "cc_encrypt ?cc d req v = Inr p" and world: "cd_world c1 = w1"
  proof -
    have "cc_encrypt ?cc d req v = Inr p \<and> cd_world c1 = w1"
      using assms(1) action miss v by (cases "cc_encrypt ?cc d req v") (auto simp: control_handle_def handle_locked_def)
    then show "cc_encrypt ?cc d req v = Inr p" "cd_world c1 = w1" by blast+
  qed
  have "decrypt_control_payload cr (derive_device_key cr key d) desktop d ''response'' p = Inr (as_bytes (print v))"
    using sealed open_seal [OF assms(4,5), of "draw d req"] assms(7)
    by (auto simp: control_crypto_def encrypt_control_payload_def decrypt_control_payload_def split: sum.splits)
  moreover have "cp_request_id p = cp_request_id req" using sealed control_crypto_names by (auto simp: names_request_def)
  ultimately show ?thesis using doc v world by blast
qed

lemma revoke_finish_outcome:
  "case revoke_self_finish save explain (Some reply) k desktop d st of (st1, es, answer) \<Rightarrow>
     (case answer of VS_Revoked e \<Rightarrow> e = d \<and> \<not> device_exists st1 desktop d | VS_Error _ \<Rightarrow> st_registry st1 = st_registry st | _ \<Rightarrow> False)"
proof (cases reply)
  case (Inr u)
  let ?st1 = "st\<lparr>st_revoke_connections := (st_revoke_connections st)(k := None)\<rparr>"
  obtain r st2 es where f: "finalize_device_revoke save desktop d ?st1 = (r, st2, es)" by (metis surj_pair)
  then show ?thesis
    by (rule finalize_device_revoke_cases) (use f Inr in \<open>simp_all add: revoke_self_finish_def request_revoke_finish_def\<close>)
qed (simp add: revoke_self_finish_def request_revoke_finish_def)

section \<open>An instance\<close>

text \<open>The desktop \<open>''d''\<close> with the phone \<open>''v''\<close>, for the witnesses.\<close>

definition demo_desk_sv :: "ControlDesk ServiceEnv" where
  "demo_desk_sv = \<lparr>sv_env = demo_env, sv_pairing = pairing_cipher demo_crypto (Some (replicate 12 7)) demo_json en_device_id,
     sv_crypto = demo_crypto, sv_master_key = [1], sv_desktop_id = ''d'', sv_nonce = \<lambda>_. Some (replicate 12 7),
     sv_payload = \<lambda>c. ([9], c), sv_control = \<lambda>_ _ _. raise ''no control''\<rparr>"

definition demo_desk_client :: "ControlDesk desk Client" where
  "demo_desk_client = \<lparr>cl_world = (Monitor_Device_Safety.fresh_world\<lparr>mw_devices := Some [demo_phone\<lparr>md_id := ''v''\<rparr>]\<rparr>,
       \<lparr>cd_world = Settings_Text.fresh_world, cd_cache = Map.empty, cd_workers = []\<rparr>),
     cl_status = default_relay_status, cl_out = [], cl_calls = 0\<rparr>"

abbreviation demo_desk :: "ControlDesk desk RelayHandlers" where
  "demo_desk \<equiv> relay_handlers (desk_service demo_desk_sv calm_outside (\<lambda>_ _. Some (replicate 12 7)) (\<lambda>_. Some (JObject [])) (\<lambda>_. ''{}'')
     (\<lambda>_. False) (\<lambda>_. sample_parts))"

lemma demo_control_begin:
  assumes "cp_request_id req = cp_request_id Device_Session.sample_control" and "cp_issued_at req = 1000" and "cp_expires_at req = 2000"
  shows "\<exists>st1. control_begin 1500 (\<lambda>_. True) 8 ''d'' ''v'' req sample_online
    = (Inr (''d'', ''v'', cp_request_id req), st1, [ToDesktop 3 (DS_DeviceControl ''v'' req)]) \<and> st_control_connections st1 (''d'', ''v'', cp_request_id req) = Some 8"
proof -
  have "valid_control_id (cp_request_id req)"
    by (simp add: assms valid_control_id_def Device_Session.sample_control_def starts_with_def list_all_iff is_ascii_hexdigit_def
        hex_digit_def code_def)
  moreover have "valid_control_time 1500 req"
    by (simp add: assms valid_control_time_def le_sat_add64_iff)
  moreover have "control_rate 1500 (''d'', ''v'') Map.empty = (False, [(''d'', ''v'') \<mapsto> 1500])"
    by (simp add: control_rate_def Let_def)
  moreover have "route_supports_control \<lparr>dr_session_id = ''s'', dr_sender = 3, dr_capabilities = device_capabilities\<rparr>"
    by (simp add: route_supports_control_def device_capabilities_def)
  ultimately show ?thesis
    by (simp add: control_begin_def sample_online_def sample_session_state_def MAX_PENDING_CONTROLS_def Let_def)
qed

lemma demo_control_answer:
  assumes "encrypt_control_payload demo_crypto (Some (replicate 12 7)) (derive_device_key demo_crypto [1] ''v'') ''d'' ''v'' i ''request'' 1000 2000 [9] = Inr req"
    and "i = cp_request_id Device_Session.sample_control"
  shows "\<exists>q c1 p. server_message demo_client_env demo_desk (DS_DeviceControl ''v'' req) demo_desk_client = (q, c1)
    \<and> cl_out c1 = [C_Message (D_ControlResponse ''v'' p)] \<and> cp_request_id p = cp_request_id req"
proof -
  let ?cc = "control_crypto demo_crypto (\<lambda>_ _. Some (replicate 12 7)) [1] ''d'' (\<lambda>_. Some (JObject [])) (\<lambda>_. ''{}'')"
  have req: "cp_request_id req = i" "cp_issued_at req = 1000" "cp_expires_at req = 2000"
    using assms(1) by (auto simp: encrypt_control_payload_def split: sum.splits)
  have "decrypt_control_payload demo_crypto (derive_device_key demo_crypto [1] ''v'') ''d'' ''v'' ''request'' req = Inr [9]"
    using assms(1) open_seal [OF demo_aead_ok demo_base64_ok, of "Some (replicate 12 7)"]
    by (auto simp: encrypt_control_payload_def decrypt_control_payload_def NONCE_LEN_def split: sum.splits)
  moreover have "validate_request 0 req = Inr ()"
    by (simp add: validate_request_def req assms(2) Device_Session.sample_control_def starts_with_def list_all_iff is_ascii_hexdigit_def
        hex_digit_def code_def sat_add64_def sat_sub64_def)
  ultimately have opened: "handle_begin ?cc (Inr True) 0 ''v'' req = Inr []"
    by (simp add: handle_begin_def control_crypto_def json_str_at_def as_bytes_def text_of_def)
  obtain p where p: "cc_encrypt ?cc ''v'' req (action_reply False [] [(''message'', JString ''unsupported control action'')]) = Inr p"
    by (simp add: control_crypto_def encrypt_control_payload_def seal_box_def demo_crypto_def)
  then have name: "cp_request_id p = cp_request_id req" using control_crypto_names by (auto simp: names_request_def)
  have now: "Desktop_State.timestamp_ms calm_outside Settings_Text.fresh_world = 0"
    by (simp add: Desktop_State.timestamp_ms_def calm_outside_def)
  have "\<exists>w1. control_handler (desk_service demo_desk_sv calm_outside (\<lambda>_ _. Some (replicate 12 7)) (\<lambda>_. Some (JObject [])) (\<lambda>_. ''{}'')
     (\<lambda>_. False) (\<lambda>_. sample_parts)) ''v'' req (cl_world demo_desk_client) = (Inr p, w1)"
    using opened p now
    by (simp add: control_handler_def desk_service_def demo_desk_sv_def demo_desk_client_def has_monitor_device_def monitor_devices_snapshot_def
        ensure_monitor_devices_loaded_def Monitor_Device_Safety.fresh_world_def demo_phone_def chain_def give_def control_handle_def
        handle_locked_def cached_response_def retain_def Let_def perform_action_def)
  then show ?thesis using name
    by (auto simp: server_message_def relay_handlers_def chain_def run_handler_def send_desktop_message_def client_send_def
        demo_client_env_def demo_desk_client_def)
qed

lemma saved_record: "\<exists>b st1. revoke_device_record (\<lambda>reg disk. (Inr (), [disk])) desktop d st = (Inr b, st1)"
  by (cases "desktops (st_registry st) desktop") (auto simp: revoke_device_record_def update_devices_def save_registry_def Let_def)

section \<open>Properties\<close>

text \<open>The desktop answers each request that comes through the relay exactly once, under its own ids and in order. Over
  any session the answers are those to the requests read, or to the first of them when the session broke off.\<close>

theorem relay_requests_answered:
  assumes "client_loop env (relay_handlers (desk_service sv out draw parse print busy parts)) parse_message last_activity evs c = (r, c1)"
    and "desk_named (cl_world c)"
  shows "desk_named (cl_world c1) \<and> (\<exists>outs. cl_out c1 = cl_out c @ outs
    \<and> (if isl r then \<exists>rest. requests parse_message evs = answers outs @ rest else answers outs = requests parse_message evs))"
  by (rule answeringD [OF relayed.loop_answered assms(2,1)])

theorem relay_requests_answered_witness:
  "\<exists>r c1. client_loop demo_client_env demo_desk (\<lambda>t. Some (DS_DeviceRevoke t ''r_1'')) 0 [Ev_Read 1 (Rd_Text ''v''), Ev_Tick 2, Ev_Read 3 (Rd_Text ''u'')]
      demo_desk_client = (r, c1) \<and> (isl r \<or> answers (cl_out c1) = [K_Revoke ''v'' ''r_1'', K_Revoke ''u'' ''r_1''])"
proof -
  let ?parse = "\<lambda>t. Some (DS_DeviceRevoke t ''r_1'')" and ?evs = "[Ev_Read 1 (Rd_Text ''v''), Ev_Tick 2, Ev_Read 3 (Rd_Text ''u'')]"
  obtain r c1 where r: "client_loop demo_client_env demo_desk ?parse 0 ?evs demo_desk_client = (r, c1)" by (metis surj_pair)
  have "desk_named (cl_world demo_desk_client)" by (simp add: demo_desk_client_def cache_named_def)
  from relay_requests_answered [OF r this] r show ?thesis by (auto simp: demo_desk_client_def split: if_splits)
qed

text \<open>C26: a control through the relay, from the phone and back. What the phone sealed is what the desktop does, once, and if the
  phone gets a result, it opens with the phone's key to what came of that action; otherwise it is told that the desktop
  refused.\<close>

theorem relayed_control:
  fixes sv :: "ControlDesk ServiceEnv" and d :: string
  defines "cr \<equiv> sv_crypto sv" and "key \<equiv> derive_device_key (sv_crypto sv) (sv_master_key sv) d" and "desktop \<equiv> sv_desktop_id sv"
  assumes "encrypt_control_payload cr (Some b) key desktop d i ''request'' issued expires plain = Inr req"
    and "Device_Session.device_message now alive rnd fresh desktop d (Some (V_Control req)) st = (AwaitControl k, st1, [ToDesktop s m], outs)"
    and "server_message env (relay_handlers (desk_service sv out draw parse print busy parts)) m c = (q, c1)"
    and "cl_out c1 = cl_out c @ [C_Message a]"
    and "cd_cache (snd (cl_world c)) (cache_key d (cp_request_id req)) = None"
    and "st_control_connections st2 k = Some fresh"
    and "Desktop_Session.desktop_message now2 x desktop (Some a) st2 = (go, st3, es3, ans)"
    and "aead_ok cr" and "base64_ok cr" and "length b = NONCE_LEN" and "\<forall>d r b. draw d r = Some b \<longrightarrow> length b = NONCE_LEN"
  shows "\<exists>reply. es3 = [ToControl fresh reply] \<and> (case snd (control_finish (Some reply) k st4) of
      VS_ControlResult p \<Rightarrow> \<exists>doc v worker. parse (text_of plain) = Some doc
        \<and> perform_action out (busy (snd (cl_world c))) (parts (snd (cl_world c))) (case json_str_at ''action'' doc of Some a \<Rightarrow> a | None \<Rightarrow> [])
            (cd_world (snd (cl_world c))) = (v, worker, cd_world (snd (cl_world c1)))
        \<and> decrypt_control_payload cr key desktop d ''response'' p = Inr (as_bytes (print v))
    | VS_Error e \<Rightarrow> e = chars_take 240 ''desktop rejected control request''
    | _ \<Rightarrow> False)"
proof -
  obtain k' st' es' where kb: "control_begin now alive fresh desktop d req st = (Inr k', st', es')" "k' = k" "es' = [ToDesktop s m]"
    using assms(5) by (auto simp: Device_Session.device_message_def split: sum.splits prod.splits)
  from kb(1) have "k' = (desktop, d, cp_request_id req)" "\<exists>s. es' = [ToDesktop s (DS_DeviceControl d req)]"
    by (auto elim!: control_begin_Inr)
  with kb(2,3) have k: "k = (desktop, d, cp_request_id req)" "m = DS_DeviceControl d req" by auto
  note waiting = assms(9) [unfolded k(1)]
  have run: "server_message env (relay_handlers (desk_service sv out draw parse print busy parts)) (DS_DeviceControl d req) c = (q, c1)"
    using assms(6) k(2) by simp
  from run assms(7) show ?thesis
  proof (cases rule: desktop_control_answer)
    case (answered p)
    let ?cc = "control_crypto cr draw (sv_master_key sv) desktop parse print"
    obtain known w2 where known: "has_monitor_device (sv_env sv) d (fst (cl_world c)) = (known, w2)" by fastforce
    obtain r cd where h: "control_handle out ?cc busy parts known d req (snd (cl_world c)) = (r, cd)" by fastforce
    have sv: "sv_env (desk_service sv out draw parse print busy parts) = sv_env sv"
        "sv_control (desk_service sv out draw parse print busy parts) = control_handle out ?cc busy parts"
      by (simp_all add: desk_service_def cr_def desktop_def)
    have "control_handler (desk_service sv out draw parse print busy parts) d req (cl_world c) = (Inr p, cl_world c1)"
      using answered(1) by (simp add: relay_handlers_def)
    then have "(r, (w2, cd)) = (Inr p, cl_world c1)" using known h sv by (simp add: control_handler_def)
    then have ends: "r = Inr p" "snd (cl_world c1) = cd" by (metis prod.inject, metis prod.inject snd_conv)
    note executed = first_control [OF h [unfolded ends(1)] assms(8) assms(4) [unfolded key_def, folded cr_def] assms(11-14)]
    have "es3 = [ToControl fresh (Inr p)]"
      using relay_takes_control [OF waiting assms(10)] answered(2) executed by auto
    with executed ends show ?thesis by (auto simp: control_finish_def key_def cr_def)
  next
    case (refused e)
    with relay_takes_control [OF waiting assms(10)] show ?thesis by (auto simp: control_finish_def)
  qed
qed

text \<open>C27: a phone that revokes itself through the relay. If it is told that it was revoked, neither the desktop nor the relay
  knows it any more; on any other answer the relay's registry is as it was.\<close>

theorem relayed_revocation:
  assumes "Device_Session.device_message now alive rnd fresh desktop d (Some V_RevokeSelf) st = (AwaitRevoke k, st1, [ToDesktop s m], outs)"
    and "server_message env (relay_handlers (desk_service sv out draw parse print busy parts)) m c = (q, c1)"
    and "cl_out c1 = cl_out c @ [C_Message a]"
    and "st_revoke_connections st2 k = Some fresh"
    and "Desktop_Session.desktop_message now2 x desktop (Some a) st2 = (go, st3, es3, ans)"
  shows "\<exists>reply. es3 = [ToRevoke fresh reply] \<and> (case revoke_self_finish save explain (Some reply) k desktop d st4 of (st5, es5, answer) \<Rightarrow>
     (case answer of VS_Revoked e \<Rightarrow> e = d \<and> \<not> known_phone (sv_env sv) (cl_world c1) d \<and> \<not> device_exists st5 desktop d
      | VS_Error _ \<Rightarrow> st_registry st5 = st_registry st4
      | _ \<Rightarrow> False))"
proof -
  obtain k' st' es' where b: "request_revoke_begin alive rnd fresh desktop d st = (Inr k', st', es')" "k' = k" "es' = [ToDesktop s m]"
    using assms(1) by (auto simp: Device_Session.device_message_def split: sum.splits prod.splits)
  from b(1) obtain r where "k' = (desktop, d, r)" "\<exists>s. es' = [ToDesktop s (DS_DeviceRevoke d r)]"
    by (rule relay_revoke_waits) blast
  with b(2,3) have k: "k = (desktop, d, r)" "m = DS_DeviceRevoke d r" by auto
  note answer = desktop_revoke_answer [OF assms(2) [unfolded k(2)] assms(3)]
  note taken = relay_takes_revoke [OF assms(4) [unfolded k(1)] assms(5) answer]
  show ?thesis
  proof (cases "a = D_RevokeResult d r")
    case True
    have "\<not> known_phone (sv_env sv) (cl_world c1) d"
      using relayed.confirmed_revocation [OF assms(2) [unfolded k(2)]] assms(3) True by blast
    moreover have "es3 = [ToRevoke fresh (Inr ())]" using taken True by simp
    ultimately show ?thesis using revoke_finish_outcome [where save = save and explain = explain and reply = "Inr ()" and k = k and desktop = desktop and d = d and st = st4] by auto
  next
    case False
    with answer obtain e where "a = D_RevokeError d r e" by blast
    with taken have "es3 = [ToRevoke fresh (Inl (chars_take 240 e))]" by simp
    then show ?thesis by (simp add: revoke_self_finish_def request_revoke_finish_def)
  qed
qed

theorem relayed_control_witness:
  "\<exists>req q c1 p. encrypt_control_payload demo_crypto (Some (replicate 12 7)) (derive_device_key demo_crypto [1] ''v'') ''d'' ''v''
       (cp_request_id Device_Session.sample_control) ''request'' 1000 2000 [9] = Inr req
    \<and> server_message demo_client_env demo_desk (DS_DeviceControl ''v'' req) demo_desk_client = (q, c1)
    \<and> cl_out c1 = [C_Message (D_ControlResponse ''v'' p)]
    \<and> decrypt_control_payload demo_crypto (derive_device_key demo_crypto [1] ''v'') ''d'' ''v'' ''response'' p = Inr (as_bytes ''{}'')"
proof -
  let ?key = "derive_device_key demo_crypto [1] ''v''"
  let ?i = "cp_request_id Device_Session.sample_control"
  obtain req where req: "encrypt_control_payload demo_crypto (Some (replicate 12 7)) ?key ''d'' ''v'' ?i ''request'' 1000 2000 [9] = Inr req"
      "cp_request_id req = ?i" "cp_issued_at req = 1000" "cp_expires_at req = 2000"
    by (simp add: encrypt_control_payload_def seal_box_def demo_crypto_def)
  from demo_control_begin [OF req(2-4)] obtain st1 where b: "control_begin 1500 (\<lambda>_. True) 8 ''d'' ''v'' req sample_online
      = (Inr (''d'', ''v'', cp_request_id req), st1, [ToDesktop 3 (DS_DeviceControl ''v'' req)])"
      "st_control_connections st1 (''d'', ''v'', cp_request_id req) = Some 8" by blast
  have sent: "Device_Session.device_message 1500 (\<lambda>_. True) None 8 ''d'' ''v'' (Some (V_Control req)) sample_online
      = (AwaitControl (''d'', ''v'', cp_request_id req), st1, [ToDesktop 3 (DS_DeviceControl ''v'' req)], [])"
    using b(1) by (simp add: Device_Session.device_message_def)
  from demo_control_answer [OF req(1) refl] obtain q c1 p where a:
      "server_message demo_client_env demo_desk (DS_DeviceControl ''v'' req) demo_desk_client = (q, c1)"
      "cl_out c1 = cl_out demo_desk_client @ [C_Message (D_ControlResponse ''v'' p)]" "cp_request_id p = cp_request_id req"
    by (auto simp: demo_desk_client_def)
  obtain go st3 es3 ans where r: "Desktop_Session.desktop_message 1600 0 ''d'' (Some (D_ControlResponse ''v'' p)) st1 = (go, st3, es3, ans)"
    by (metis surj_pair)
  have sv: "sv_crypto demo_desk_sv = demo_crypto" "sv_master_key demo_desk_sv = [1]" "sv_desktop_id demo_desk_sv = ''d''"
    by (simp_all add: demo_desk_sv_def)
  have es3: "es3 = [ToControl 8 (Inr p)]" using relay_takes_control [OF b(2) r] a(3) by simp
  from relayed_control [where sv = demo_desk_sv, unfolded sv, OF req(1) sent a(1,2) _ b(2) r demo_aead_ok demo_base64_ok] es3 req(1) a(1,2)
  show ?thesis by (auto simp: demo_desk_client_def NONCE_LEN_def control_finish_def)
qed

theorem relayed_revocation_witness:
  "\<exists>k st1 q c1 m s. Device_Session.device_message 1500 (\<lambda>_. True) (Some (replicate 16 0)) 8 ''d'' ''v'' (Some V_RevokeSelf) sample_online
       = (AwaitRevoke k, st1, [ToDesktop s m], [])
    \<and> server_message demo_client_env demo_desk m demo_desk_client = (q, c1) \<and> known_phone demo_env (cl_world demo_desk_client) ''v''
    \<and> \<not> known_phone demo_env (cl_world c1) ''v''"
proof -
  obtain r where r: "random_hex (Some (replicate 16 (0 :: u8))) = Inr r" by (auto simp: random_hex_def)
  let ?k = "(''d'', ''v'', ''r_'' @ r)" and ?m = "DS_DeviceRevoke ''v'' (''r_'' @ r)"
  let ?st1 = "sample_online\<lparr>st_revoke_connections := (st_revoke_connections sample_online)(?k \<mapsto> 8)\<rparr>"
  have sent: "Device_Session.device_message 1500 (\<lambda>_. True) (Some (replicate 16 0)) 8 ''d'' ''v'' (Some V_RevokeSelf) sample_online
       = (AwaitRevoke ?k, ?st1, [ToDesktop 3 ?m], [])"
    using r by (simp add: Device_Session.device_message_def request_revoke_begin_def sample_online_def sample_session_state_def
        route_supports_revoke_def device_capabilities_def MAX_PENDING_REVOKES_def Let_def)
  obtain w1 where gone: "revoke_monitor_device_local demo_env ''v'' (fst (cl_world demo_desk_client)) = (Inr True, w1)"
    by (simp add: revoke_monitor_device_local_def ensure_monitor_devices_loaded_def demo_desk_client_def Monitor_Device_Safety.fresh_world_def
        demo_phone_def set_devices_def save_monitor_devices_def os_call_def demo_env_def modify_def chain_def and_then_always_def give_def
        from_result_def raise_def Let_def)
  have sv: "sv_env (desk_service demo_desk_sv out draw parse print busy parts) = demo_env" for out draw parse print busy parts
    by (simp add: desk_service_def demo_desk_sv_def)
  obtain q c1 where a: "server_message demo_client_env demo_desk ?m demo_desk_client = (q, c1)"
      "cl_out c1 = cl_out demo_desk_client @ [C_Message (D_RevokeResult ''v'' (''r_'' @ r))]"
    using gone by (simp add: server_message_def relay_handlers_def relay_revoke_handler_def chain_def run_handler_def send_desktop_message_def
        client_send_def demo_client_env_def sv)
  obtain go st3 es3 ans where d: "Desktop_Session.desktop_message 1600 0 ''d'' (Some (D_RevokeResult ''v'' (''r_'' @ r))) ?st1 = (go, st3, es3, ans)"
    by (metis surj_pair)
  have "st_revoke_connections ?st1 ?k = Some 8" by simp
  note outcome = relayed_revocation [OF sent a this d]
  have es3: "es3 = [ToRevoke 8 (Inr ())]"
    using relay_takes_revoke [OF _ d] by simp
  have known: "known_phone demo_env (cl_world demo_desk_client) ''v''"
    by (simp add: known_phone_def registry_def demo_desk_client_def)
  have desk: "sv_env demo_desk_sv = demo_env" by (simp add: demo_desk_sv_def)
  let ?save = "\<lambda>reg disk. (Inr (), [disk])"
  obtain st5 es5 answer where f: "revoke_self_finish ?save (\<lambda>_. []) (Some (Inr ())) ?k ''d'' ''v'' st3 = (st5, es5, answer)"
    by (metis surj_pair)
  obtain b st6 where "revoke_device_record ?save ''d'' ''v'' (st3\<lparr>st_revoke_connections := (st_revoke_connections st3)(?k := None),
      st_snapshots := (st_snapshots st3)((''d'', ''v'') := None)\<rparr>) = (Inr b, st6)"
    by (metis saved_record)
  with f have "answer = VS_Revoked ''v''"
    by (simp add: revoke_self_finish_def request_revoke_finish_def finalize_device_revoke_def Let_def)
  with outcome [where save = ?save and explain = "\<lambda>_. []" and ?st4.0 = st3] es3 f have "\<not> known_phone demo_env (cl_world c1) ''v''"
    by (simp add: desk)
  with sent a known show ?thesis by blast
qed

end
