(* ===== verification/Network_Safety.thy ===== *)
theory Network_Safety
  imports Network_Settings Settings_Text Monitor_Device_Safety
begin

text \<open>
  What the network commands keep: a change is applied or taken back, and where it could not be taken back the user is told so;
  the relay's client runs with the settings on disk; the tunnel is started only while it is wanted.
\<close>

section \<open>Rules\<close>

lemma wp_at_world [simp]: "wp (at_world m) Q n = wp m (\<lambda>r w. Q r (n\<lparr>nt_world := w\<rparr>)) (nt_world n)"
  by (simp add: wp_def at_world_def split: prod.splits)

lemma wp_at_phones: "(\<And>r w. Q r (n\<lparr>nt_phones := w\<rparr>)) \<Longrightarrow> wp (at_phones m) Q n"
  by (simp add: wp_def at_phones_def split: prod.splits)

lemma wp_either: "(b \<Longrightarrow> wp m Q w) \<Longrightarrow> (\<not> b \<Longrightarrow> wp m' Q w) \<Longrightarrow> wp (if b then m else m') Q w"
  by simp

lemma wp_case_found:
  "wp (\<lambda>n. case x n of None \<Rightarrow> a n | Some i \<Rightarrow> b i n) Q n = (case x n of None \<Rightarrow> wp a Q n | Some i \<Rightarrow> wp (b i) Q n)"
  by (simp add: wp_def split: option.split)

definition stored :: "NetOutside \<Rightarrow> NetWorld \<Rightarrow> string + Settings" where
  "stored env n = file_settings (no_out env) (nt_world n)"

text \<open>Nothing on disk, in the key store or about the client changes.\<close>

definition steady :: "NetOutside \<Rightarrow> NetWorld \<Rightarrow> NetWorld \<Rightarrow> bool" where
  "steady env n n1 \<longleftrightarrow> stored env n1 = stored env n \<and> nt_credentials n1 = nt_credentials n \<and> nt_identity n1 = nt_identity n
     \<and> nt_client n1 = nt_client n"

lemma steady_refl [simp]: "steady env n n"
  by (simp add: steady_def)

lemma steady_trans: "steady env a b \<Longrightarrow> steady env b c \<Longrightarrow> steady env a c"
  by (simp add: steady_def)

lemma steady_world [simp]:
  "steady env n (n1\<lparr>nt_world := ticked c t w\<rparr>) = steady env n (n1\<lparr>nt_world := w\<rparr>)"
  "steady env n (n1\<lparr>nt_phones := v\<rparr>) = steady env n n1" "steady env n (n1\<lparr>nt_status := s\<rparr>) = steady env n n1"
  by (simp_all add: steady_def stored_def)

lemma wp_credentials_for:
  assumes "\<And>found c t. (\<And>x. found = Some x \<Longrightarrow> nt_credentials n = Some x \<and> credentials_match x settings)
      \<Longrightarrow> Q (Inr found) (n\<lparr>nt_world := ticked c t (nt_world n)\<rparr>)"
  shows "wp (credentials_for env settings) Q n"
  unfolding credentials_for_def read_relay_credentials_def
  by (auto intro!: wp_attempt assms split: sum.splits option.splits if_splits)

lemma wp_payload:
  assumes "\<And>v n1. steady env n n1 \<Longrightarrow> Q (Inr v) n1"
  shows "wp (network_settings_payload env) Q n"
  unfolding network_settings_payload_def relay_status_snapshot_def
  by (auto intro!: wp_load_settings wp_credentials_for assms simp: Let_def)

text \<open>The client runs with what is stored, for a relay its credentials are for.\<close>

definition client_fits :: "NetOutside \<Rightarrow> NetWorld \<Rightarrow> bool" where
  "client_fits env n \<longleftrightarrow> (\<forall>relay credentials. nt_client n = Some (relay, credentials) \<longrightarrow>
     rl_enabled relay \<and> nt_credentials n = Some credentials
     \<and> (\<exists>s. stored env n = Inr s \<and> relay = se_relay s \<and> credentials_match credentials s))"

lemma client_fits_steady: "steady env n n1 \<Longrightarrow> client_fits env n1 = client_fits env n"
  by (simp add: client_fits_def steady_def)

text \<open>Starting the client: whatever fails, a client that runs afterwards fits, and none runs after an error.\<close>

lemma wp_start_relay:
  assumes "\<And>r n1. stored env n1 = stored env n \<Longrightarrow> nt_credentials n1 = nt_credentials n \<Longrightarrow> nt_identity n1 = nt_identity n \<Longrightarrow> client_fits env n1
      \<Longrightarrow> (isl r \<Longrightarrow> nt_client n1 = None) \<Longrightarrow> Q r n1"
  shows "wp (start_relay_client_for_settings env) Q n"
proof -
  have final: "Q r n1"
    if "stored env n1 = stored env n" "nt_credentials n1 = nt_credentials n" "nt_identity n1 = nt_identity n"
      "case nt_client n1 of None \<Rightarrow> True | Some (relay, credentials) \<Rightarrow> r = Inr () \<and> rl_enabled relay \<and> nt_credentials n = Some credentials
        \<and> (\<exists>s. (s = default_settings \<or> stored env n = Inr s) \<and> relay = se_relay s \<and> credentials_match credentials s)" for r n1
  proof (rule assms)
    show "client_fits env n1"
      unfolding client_fits_def
    proof (intro allI impI)
      fix relay x assume "nt_client n1 = Some (relay, x)"
      with that(4) obtain s where s: "rl_enabled relay" "nt_credentials n = Some x" "s = default_settings \<or> stored env n = Inr s"
          "relay = se_relay s" "credentials_match x s" by auto
      then have "stored env n = Inr s" by (auto simp: default_settings_def)
      with s that(1,2) show "rl_enabled relay \<and> nt_credentials n1 = Some x \<and> (\<exists>s. stored env n1 = Inr s \<and> relay = se_relay s \<and> credentials_match x s)"
        by auto
    qed
  qed (use that in \<open>auto split: option.splits\<close>)
  show ?thesis
    unfolding start_relay_client_for_settings_def start_client_def set_status_def wp_chain wp_modify sum.case wp_at_world
    by (rule wp_load_settings)
      (auto intro!: final wp_credentials_for wp_at_phones wp_attempt simp: wp_if stored_def stop_relay_client_def
         split: sum.splits option.splits)
qed

lemma wp_observe:
  assumes "\<And>c t. Q (Inr ()) (ticked c t w)" and "\<And>ob s c t. Q (Inr ()) (update_runtime_snapshot out ob True s (ticked c t w))"
  shows "wp (observe_tunnel out settings) Q w"
proof -
  have "wp (\<lambda>w. case tunnel_status out w of (ob, w1) \<Rightarrow> (Inr (), update_runtime_snapshot out ob True settings w1)) Q (ticked c t w)" for c t
    by (auto simp: wp_def tunnel_status_def run_tunnel_def passed_def ticked_def intro: assms(2) [unfolded ticked_def])
  with assms(1) show ?thesis
    unfolding observe_tunnel_def by (auto intro!: wp_attempt simp: wp_if split: sum.splits)
qed

lemma stored_world [simp]: "stored env (n\<lparr>nt_world := w\<rparr>) = file_settings (no_out env) w"
  by (simp add: stored_def)

lemma wp_start_tunnel:
  assumes "\<And>r n1. steady env n n1 \<Longrightarrow> Q r n1"
  shows "wp (at_world (start_runtime_connection (no_out env) i key reconnect required)) Q n"
  unfolding wp_at_world
  by (rule wp_start_runtime) (auto intro!: assms simp: steady_def stored_def)

lemma wp_observe_at:
  assumes "\<And>n1. steady env n n1 \<Longrightarrow> Q (Inr ()) n1"
  shows "wp (at_world (observe_tunnel (no_out env) settings)) Q n"
  unfolding wp_at_world by (rule wp_observe) (auto intro!: assms simp: steady_def stored_def)

section \<open>Taking settings back\<close>

definition others_same :: "Settings \<Rightarrow> Settings \<Rightarrow> bool" where
  "others_same s s1 \<longleftrightarrow> s1\<lparr>se_proxy := se_proxy s, se_relay := se_relay s\<rparr> = s"

text \<open>Settings as a file gives them.\<close>

definition as_read :: "Outside \<Rightarrow> Settings \<Rightarrow> bool" where
  "as_read out s \<longleftrightarrow> normalize_settings out s = s \<and> \<not> (se_connection_intent s \<and> trim (se_tunnel_id s) = [])"

lemma normalize_again: "normalize_settings out (normalize_settings out s) = normalize_settings out s"
proof -
  have relay: "rl_enabled (se_relay t) \<and> trim (rl_base_url (se_relay t)) = [] \<longrightarrow> \<not> rl_enabled (se_relay t)"
    if "t = normalize_settings out s" for t
    unfolding that normalize_settings_def Let_def by simp
  show ?thesis
  proof (cases "px_mode (se_proxy s) \<in> {''direct'', ''system'', ''manual''}")
    case False
    then have "px_mode (se_proxy (normalize_settings out s)) = ''direct''" by (simp add: normalize_settings_def default_proxy_def Let_def)
    then show ?thesis using relay [OF refl] by (subst normalize_settings_def) (auto simp: Let_def)
  next
    case True
    then have mode: "px_mode (se_proxy (normalize_settings out s)) = px_mode (se_proxy s)"
      by (simp add: normalize_settings_def Let_def split: option.split)
    have "normalize_settings out (normalize_settings out s) = normalize_settings out s"
      if "px_mode (se_proxy s) = ''system'' \<longrightarrow> trim (px_applied_url (se_proxy (normalize_settings out s))) = [] \<longrightarrow>
        (case os_system_proxy out of None \<Rightarrow> True | Some url \<Rightarrow> px_applied_url (se_proxy (normalize_settings out s)) = url)"
      using relay [OF refl] that mode True
      by (subst normalize_settings_def) (auto simp: Let_def split: option.split)
    moreover have "px_mode (se_proxy s) = ''system'' \<longrightarrow> trim (px_applied_url (se_proxy (normalize_settings out s))) = [] \<longrightarrow>
        (case os_system_proxy out of None \<Rightarrow> True | Some url \<Rightarrow> px_applied_url (se_proxy (normalize_settings out s)) = url)"
      by (auto simp: normalize_settings_def Let_def split: option.split)
    ultimately show ?thesis by blast
  qed
qed

lemma default_as_read: "as_read out default_settings" "as_read out (default_settings\<lparr>se_tunnel_id := i, se_remember_key := b\<rparr>)"
  by (auto simp: as_read_def normalize_settings_def default_settings_def default_proxy_def Let_def)

lemma file_as_read: "file_settings out w = Inr s \<Longrightarrow> as_read out s"
  using default_as_read normalize_again
  by (auto simp: file_settings_def settings_of_text_def as_read_def split: option.splits if_splits)

lemma stored_as_read: "stored env n = Inr s \<Longrightarrow> as_read (no_out env) s"
  by (simp add: stored_def file_as_read)

lemma take_network_sel [simp]:
  "se_connection_intent (take_network a b s c) = se_connection_intent c" "se_tunnel_id (take_network a b s c) = se_tunnel_id c"
  by (simp_all add: take_network_def)

lemma take_back: "others_same s c \<Longrightarrow> take_network True True s c = s"
  by (simp add: take_network_def others_same_def)

lemma wp_take_network:
  assumes "faithful (no_out env)" and "stored env n = Inr c"
    and "\<And>e n1. steady env n n1 \<Longrightarrow> Q (Inl e) n1"
    and "\<And>n1. stored env n1 = Inr (normalize_settings (no_out env) (take_network a b s c)) \<Longrightarrow> nt_client n1 = nt_client n
      \<Longrightarrow> nt_credentials n1 = nt_credentials n \<Longrightarrow> Q (Inr (take_network a b s c)) n1"
  shows "wp (at_world (update_settings (no_out env) (take_network a b s))) Q n"
proof -
  have c: "file_settings (no_out env) (nt_world n) = Inr c" using assms(2) by (simp add: stored_def)
  have "\<not> (se_connection_intent c \<and> trim (se_tunnel_id c) = [])" using stored_as_read [OF assms(2)] by (simp add: as_read_def)
  then have new: "file_settings (no_out env) (saved (no_out env) (take_network a b s c) w) = Inr (normalize_settings (no_out env) (take_network a b s c))" for w
    by (simp add: file_settings_saved [OF assms(1)])
  show ?thesis
    unfolding wp_at_world
  proof (rule wp_update_settings)
    fix d k t assume "file_settings (no_out env) (nt_world n) = Inr d"
    with c show "Q (Inr (take_network a b s d)) (n\<lparr>nt_world := saved (no_out env) (take_network a b s d) (ticked k t (nt_world n))\<rparr>)"
      by (auto intro!: assms(4) simp: new)
  qed (auto intro!: assms(3) simp: steady_def stored_def)
qed

lemma wp_restore_tunnel:
  assumes "\<And>es n1. steady env n n1 \<Longrightarrow> Q (Inr es) n1"
  shows "wp (if proxy then restore_proxy_runtime env s key else give []) Q n"
proof -
  have "wp (restore_proxy_runtime env s (Some k)) Q n" for k
    unfolding restore_proxy_runtime_def option.case wp_and_then_always
  proof (rule wp_start_tunnel)
    fix r n1 assume n1: "steady env n n1"
    then show "wp (case r of Inl e \<Rightarrow> give [''could not restore the tunnel's proxy: '' @ e]
        | Inr _ \<Rightarrow> chain (at_world (observe_tunnel (no_out env) s)) (\<lambda>_. give [])) Q n1"
      unfolding wp_chain by (cases r) (auto simp del: wp_at_world intro!: assms wp_observe_at intro: steady_trans)
  qed
  moreover have "wp (restore_proxy_runtime env s None) Q n" by (simp add: restore_proxy_runtime_def assms)
  ultimately show ?thesis by (cases key) (simp_all add: assms)
qed

lemma wp_restore_client:
  assumes "\<And>es n1. stored env n1 = stored env n \<Longrightarrow> client_fits env n1 \<or> \<not> relay \<and> nt_client n1 = nt_client n \<and> nt_credentials n1 = nt_credentials n
      \<Longrightarrow> Q (Inr es) n1"
  shows "wp (if relay then restore_relay_client env else give []) Q n"
  using assms by (auto simp: restore_relay_client_def intro!: wp_start_relay)

text \<open>A rollback without errors restored the settings; one with errors left the new or the old ones.\<close>

lemma wp_rollback:
  assumes "faithful (no_out env)" and "stored env n = Inr c" and "others_same s c" and "as_read (no_out env) s"
    and failed: "\<And>errors n1. errors \<noteq> [] \<Longrightarrow> stored env n1 \<in> {Inr c, Inr s} \<Longrightarrow> Q (Inr errors) n1"
    and undone: "\<And>n1. stored env n1 = Inr s \<Longrightarrow> client_fits env n1 \<or> \<not> relay \<and> nt_client n1 = nt_client n \<and> nt_credentials n1 = nt_credentials n
      \<Longrightarrow> Q (Inr []) n1"
  shows "wp (rollback_network_settings env s key proxy relay) Q n"
proof -
  have old: "normalize_settings (no_out env) (take_network True True s c) = s"
    using take_back [OF assms(3)] assms(4) by (simp add: as_read_def)
  show ?thesis
    unfolding rollback_network_settings_def wp_and_then_always
  proof (rule wp_take_network [OF assms(1,2)])
    fix e n1 assume "steady env n n1"
    with assms(2) show "wp (case Inl e of Inl e \<Rightarrow> give [''could not restore the settings: '' @ e] | Inr (u :: Settings) \<Rightarrow> m u) Q n1" for m
      by (auto intro!: failed simp: steady_def)
  next
    fix n1
    assume n1: "stored env n1 = Inr (normalize_settings (no_out env) (take_network True True s c))" "nt_client n1 = nt_client n"
      "nt_credentials n1 = nt_credentials n"
    have ends: "Q (Inr es) n3" if "stored env n3 = Inr s" "client_fits env n3 \<or> \<not> relay \<and> nt_client n3 = nt_client n \<and> nt_credentials n3 = nt_credentials n" for es n3
      using failed [of es n3] undone [of n3] that by (cases es) auto
    show "wp (case Inr (take_network True True s c) of Inl e \<Rightarrow> m e
        | Inr _ \<Rightarrow> chain (if proxy then restore_proxy_runtime env s key else give []) (\<lambda>errors1.
           chain (if relay then restore_relay_client env else give []) (\<lambda>errors2. give (errors1 @ errors2)))) Q n1" for m
      unfolding sum.case wp_chain
      by (rule wp_restore_tunnel, unfold sum.case, rule wp_restore_client) (use n1 old in \<open>auto intro!: ends simp: steady_def\<close>)
  qed
qed

section \<open>Changing settings\<close>

text \<open>An error that says a rollback was not complete.\<close>

definition reported :: "string \<Rightarrow> bool" where
  "reported e \<longleftrightarrow> (\<exists>head errors. errors \<noteq> [] \<and> e = head @ ''; '' @ rollback_suffix errors)"

lemma wp_undo:
  assumes "faithful (no_out env)" and "stored env n = Inr c" and "others_same s c" and "as_read (no_out env) s"
    and told: "\<And>e n1. reported e \<Longrightarrow> stored env n1 \<in> {Inr c, Inr s} \<Longrightarrow> Q (Inl e) n1"
    and kept: "\<And>e n1. stored env n1 = Inr s \<Longrightarrow> client_fits env n1 \<or> \<not> relay \<and> nt_client n1 = nt_client n \<and> nt_credentials n1 = nt_credentials n
      \<Longrightarrow> Q (Inl e) n1"
  shows "wp (undo e (rollback_network_settings env s key proxy relay)) Q n"
proof -
  have r: "reported (e @ ''; '' @ rollback_suffix errors)" if "errors \<noteq> []" for errors
    unfolding reported_def using that by blast
  show ?thesis
    unfolding undo_def wp_chain
    by (rule wp_rollback [OF assms(1-4)], unfold sum.case wp_raise) (blast intro: told r, blast intro: kept)
qed

lemma wp_apply_proxy:
  assumes "faithful (no_out env)" and "stored env n = Inr c" and "others_same s c" and "as_read (no_out env) s"
    and "\<And>n1. steady env n n1 \<Longrightarrow> Q (Inr ()) n1"
    and told: "\<And>e n1. reported e \<Longrightarrow> stored env n1 \<in> {Inr c, Inr s} \<Longrightarrow> Q (Inl e) n1"
    and kept: "\<And>e n1. stored env n1 = Inr s \<Longrightarrow> client_fits env n1 \<or> nt_client n1 = nt_client n \<and> nt_credentials n1 = nt_credentials n
      \<Longrightarrow> Q (Inl e) n1"
  shows "wp (apply_proxy env s wanted key) Q n"
  unfolding apply_proxy_def wp_and_then_always
proof (rule wp_start_tunnel)
  fix r n1 assume n1: "steady env n n1"
  then have c: "stored env n1 = Inr c" using assms(2) by (simp add: steady_def)
  show "wp (case r of Inl e \<Rightarrow> undo (''could not apply the proxy: '' @ e) (rollback_network_settings env s key True False)
      | Inr _ \<Rightarrow> at_world (observe_tunnel (no_out env) wanted)) Q n1"
  proof (cases r)
    case (Inl e)
    show ?thesis
      unfolding Inl sum.case
      by (rule wp_undo [OF assms(1) c assms(3,4)], erule (1) told, erule kept) (use n1 in \<open>auto simp: steady_def\<close>)
  next
    case (Inr u)
    show ?thesis
      unfolding Inr sum.case by (rule wp_observe_at) (rule assms(5), rule steady_trans [OF n1])
  qed
qed

lemma wp_apply_relay:
  assumes "faithful (no_out env)" and "stored env n = Inr c" and "others_same s c" and "as_read (no_out env) s"
    and "\<And>n1. stored env n1 = Inr c \<Longrightarrow> client_fits env n1 \<Longrightarrow> Q (Inr ()) n1"
    and told: "\<And>e n1. reported e \<Longrightarrow> stored env n1 \<in> {Inr c, Inr s} \<Longrightarrow> Q (Inl e) n1"
    and kept: "\<And>e n1. stored env n1 = Inr s \<Longrightarrow> client_fits env n1 \<Longrightarrow> Q (Inl e) n1"
  shows "wp (apply_relay env s key proxy) Q n"
  unfolding apply_relay_def wp_and_then_always
proof (rule wp_start_relay)
  fix r n1 assume n1: "stored env n1 = stored env n" "client_fits env n1"
  then have c: "stored env n1 = Inr c" using assms(2) by simp
  show "wp (case r of Inl e \<Rightarrow> undo (''could not apply the relay: '' @ e) (rollback_network_settings env s key proxy True)
      | Inr _ \<Rightarrow> give ()) Q n1"
  proof (cases r)
    case (Inl e)
    show ?thesis
      unfolding Inl sum.case
      by (rule wp_undo [OF assms(1) c assms(3,4)], erule (1) told, erule kept) simp
  qed (simp add: assms(5) c n1)
qed

lemma payload_parts:
  assumes "network_settings_from_payload system s p = Inr wanted"
  shows "take_network (json_get ''proxy'' p \<noteq> None) (json_get ''relay'' p \<noteq> None) wanted s = wanted" and "others_same s wanted"
    and "json_get ''proxy'' p = None \<Longrightarrow> se_proxy wanted = se_proxy s" and "json_get ''relay'' p = None \<Longrightarrow> se_relay wanted = se_relay s"
  using assms by (auto simp: network_settings_from_payload_def take_network_def others_same_def split: sum.splits option.splits)

lemma normalize_parts:
  "others_same s (normalize_settings out t) = others_same s t"
  "se_proxy t = se_proxy s \<Longrightarrow> as_read out s \<Longrightarrow> se_proxy (normalize_settings out t) = se_proxy s"
  "se_relay t = se_relay s \<Longrightarrow> as_read out s \<Longrightarrow> se_relay (normalize_settings out t) = se_relay s"
proof -
  show "others_same s (normalize_settings out t) = others_same s t"
    by (simp add: others_same_def normalize_settings_def Let_def split: option.split)
  have parts: "se_proxy (normalize_settings out a) = se_proxy (normalize_settings out b)" if "se_proxy a = se_proxy b" for a b
    using that by (simp add: normalize_settings_def Let_def split: option.split)
  have relay: "se_relay (normalize_settings out a) = se_relay (normalize_settings out b)" if "se_relay a = se_relay b" for a b
    using that by (simp add: normalize_settings_def Let_def split: option.split)
  show "se_proxy t = se_proxy s \<Longrightarrow> as_read out s \<Longrightarrow> se_proxy (normalize_settings out t) = se_proxy s"
    using parts [of t s] by (simp add: as_read_def)
  show "se_relay t = se_relay s \<Longrightarrow> as_read out s \<Longrightarrow> se_relay (normalize_settings out t) = se_relay s"
    using relay [of t s] by (simp add: as_read_def)
qed

text \<open>\<open>s1\<close> are the settings the request asks for.\<close>

definition asked_for :: "NetOutside \<Rightarrow> json \<Rightarrow> Settings \<Rightarrow> Settings \<Rightarrow> bool" where
  "asked_for env p s s1 \<longleftrightarrow> (\<exists>wanted. network_settings_from_payload (no_system env) s p = Inr wanted \<and> s1 = normalize_settings (no_out env) wanted)"

definition change_outcome :: "NetOutside \<Rightarrow> json \<Rightarrow> Settings \<Rightarrow> string + json \<Rightarrow> NetWorld \<Rightarrow> bool" where
  "change_outcome env p s r n1 \<longleftrightarrow> (\<exists>s1. stored env n1 = Inr s1 \<and> others_same s s1
     \<and> (json_get ''proxy'' p = None \<longrightarrow> se_proxy s1 = se_proxy s) \<and> (json_get ''relay'' p = None \<longrightarrow> se_relay s1 = se_relay s)
     \<and> (case r of
          Inl e \<Rightarrow> s1 = s \<and> client_fits env n1 \<or> reported e \<and> (s1 = s \<or> asked_for env p s s1)
        | Inr _ \<Rightarrow> client_fits env n1 \<and> asked_for env p s s1))"

lemma wp_reconnect_key:
  assumes "\<And>r n1. steady env n n1 \<Longrightarrow> Q r n1"
  shows "wp (network_reconnect_key env) Q n"
proof -
  have "wp (at_world (load_runtime_key (no_out env) [])) (\<lambda>r n1. case r of Inr key \<Rightarrow> Q (Inr (Some key)) n1
      | Inl _ \<Rightarrow> Q (Inl ''a new proxy needs a reconnect, and there is no runtime key'') n1) n"
    unfolding wp_at_world by (rule wp_load_runtime_key) (auto intro!: assms split: sum.split)
  then show ?thesis
    using assms [OF steady_refl] by (auto simp: wp_def network_reconnect_key_def split: option.splits prod.splits sum.splits)
qed

lemma change_network_outcome:
  assumes "faithful (no_out env)" and n: "stored env n = Inr s" "client_fits env n"
    and wanted: "network_settings_from_payload (no_system env) s p = Inr wanted" and m: "steady env n m"
  shows "wp (change_network env p s wanted) (change_outcome env p s) m"
proof -
  let ?Q = "change_outcome env p s" and ?new = "normalize_settings (no_out env) wanted"
  note s = stored_as_read [OF n(1)] and parts = payload_parts [OF wanted]
  have self: "others_same s s" by (simp add: others_same_def)
  have same: "others_same s ?new" using parts(2) by (simp add: normalize_parts)
  have absent: "json_get ''proxy'' p = None \<longrightarrow> se_proxy ?new = se_proxy s" "json_get ''relay'' p = None \<longrightarrow> se_relay ?new = se_relay s"
    using parts(3,4) normalize_parts(2,3) s by blast+
  have ok: "?Q (Inr v) n1" if "stored env n1 = Inr ?new" "client_fits env n1" for v n1
    using that same absent wanted by (auto simp: change_outcome_def asked_for_def)
  have told: "?Q (Inl e) n1" if "reported e" "stored env n1 \<in> {Inr ?new, Inr s}" for e n1
    using that same self absent wanted by (auto simp: change_outcome_def asked_for_def)
  have kept: "?Q (Inl e) n1" if "stored env n1 = Inr s" "client_fits env n1" for e n1
    using that self by (auto simp: change_outcome_def)
  have fits: "client_fits env n1" if "stored env n1 = Inr s1" "se_relay s1 = se_relay s" "nt_client n1 = nt_client n" "nt_credentials n1 = nt_credentials n" for n1 s1
  proof -
    have "credentials_match x s1 = credentials_match x s" for x unfolding credentials_match_def that(2) ..
    with n that show ?thesis by (auto simp: client_fits_def)
  qed
  have relay: "wp (chain (if se_relay s \<noteq> se_relay wanted then apply_relay env s key proxy else give ()) (\<lambda>_. network_settings_payload env)) ?Q n1"
    if n1: "stored env n1 = Inr ?new" "nt_client n1 = nt_client n" "nt_credentials n1 = nt_credentials n" for n1 key proxy
  proof (cases "se_relay s = se_relay wanted")
    case True
    then have "se_relay ?new = se_relay s" using normalize_parts(3) s by metis
    with n1 fits have "client_fits env n1" by blast
    with True n1 show ?thesis by (auto intro!: wp_payload ok simp: client_fits_steady) (simp add: steady_def)
  next
    case False
    have "wp (apply_relay env s key proxy) (\<lambda>r n2. case r of Inl e \<Rightarrow> ?Q (Inl e) n2 | Inr _ \<Rightarrow> wp (network_settings_payload env) ?Q n2) n1"
    proof (rule wp_apply_relay [OF assms(1) n1(1) same s], unfold sum.case)
      fix n2 assume "stored env n2 = Inr ?new" "client_fits env n2"
      then show "wp (network_settings_payload env) ?Q n2"
        by (intro wp_payload ok) (simp_all add: client_fits_steady, simp add: steady_def)
    qed (blast intro: told kept)+
    with False show ?thesis by simp
  qed
  have proxy: "wp (chain (if b then apply_proxy env s wanted key else give ()) (\<lambda>_.
       chain (if se_relay s \<noteq> se_relay wanted then apply_relay env s key b else give ()) (\<lambda>_. network_settings_payload env))) ?Q n1"
    if n1: "stored env n1 = Inr ?new" "nt_client n1 = nt_client n" "nt_credentials n1 = nt_credentials n" for n1 key b
  proof (cases b)
    case False
    with relay [OF n1, of key b] show ?thesis by simp
  next
    case True
    have "wp (apply_proxy env s wanted key) (\<lambda>r n2. case r of Inl e \<Rightarrow> ?Q (Inl e) n2
        | Inr _ \<Rightarrow> wp (chain (if se_relay s \<noteq> se_relay wanted then apply_relay env s key b else give ()) (\<lambda>_. network_settings_payload env)) ?Q n2) n1"
    proof (rule wp_apply_proxy [OF assms(1) n1(1) same s])
      fix n2 assume "steady env n1 n2"
      with n1 show "case Inr () of Inl e \<Rightarrow> ?Q (Inl e) n2 | Inr _ \<Rightarrow>
          wp (chain (if se_relay s \<noteq> se_relay wanted then apply_relay env s key b else give ()) (\<lambda>_. network_settings_payload env)) ?Q n2"
        unfolding sum.case by (intro relay) (simp_all add: steady_def)
    next
      fix e n2 assume "reported e" "stored env n2 \<in> {Inr ?new, Inr s}"
      then show "case Inl e of Inl e \<Rightarrow> ?Q (Inl e) n2 | Inr (u :: unit) \<Rightarrow> z u n2" for z by (simp add: told)
    next
      fix e n2 assume "stored env n2 = Inr s" "client_fits env n2 \<or> nt_client n2 = nt_client n1 \<and> nt_credentials n2 = nt_credentials n1"
      with n1 fits have "client_fits env n2" by auto
      with \<open>stored env n2 = Inr s\<close> show "case Inl e of Inl e \<Rightarrow> ?Q (Inl e) n2 | Inr (u :: unit) \<Rightarrow> z u n2" for z by (simp add: kept)
    qed
    with True show ?thesis by (simp del: wp_chain add: wp_chain [of "apply_proxy env s wanted key"])
  qed
  have update: "wp (chain (at_world (update_settings (no_out env) (take_network (json_get ''proxy'' p \<noteq> None) (json_get ''relay'' p \<noteq> None) wanted))) (\<lambda>_.
       chain (if b then apply_proxy env s wanted key else give ()) (\<lambda>_.
       chain (if se_relay s \<noteq> se_relay wanted then apply_relay env s key b else give ()) (\<lambda>_. network_settings_payload env)))) ?Q n1"
    if n1: "steady env n n1" for n1 key b
    unfolding wp_chain [of "at_world x" for x]
  proof (rule wp_take_network [OF assms(1)])
    show "stored env n1 = Inr s" using n1 n(1) by (simp add: steady_def)
  next
    fix e n2 assume "steady env n1 n2"
    then have "steady env n n2" by (rule steady_trans [OF n1])
    with n have "stored env n2 = Inr s" "client_fits env n2" by (simp_all add: client_fits_steady, simp add: steady_def)
    then show "case Inl e of Inl e \<Rightarrow> ?Q (Inl e) n2 | Inr (u :: Settings) \<Rightarrow> z u n2" for z by (simp add: kept)
  next
    fix n2
    assume "stored env n2 = Inr (normalize_settings (no_out env) (take_network (json_get ''proxy'' p \<noteq> None) (json_get ''relay'' p \<noteq> None) wanted s))"
      "nt_client n2 = nt_client n1" "nt_credentials n2 = nt_credentials n1"
    with n1 parts(1) show "case Inr (take_network (json_get ''proxy'' p \<noteq> None) (json_get ''relay'' p \<noteq> None) wanted s) of Inl e \<Rightarrow> ?Q (Inl e) n2
        | Inr _ \<Rightarrow> wp (chain (if b then apply_proxy env s wanted key else give ()) (\<lambda>_.
       chain (if se_relay s \<noteq> se_relay wanted then apply_relay env s key b else give ()) (\<lambda>_. network_settings_payload env))) ?Q n2"
      unfolding sum.case by (intro proxy) (simp_all add: steady_def)
  qed
  have none: "?Q (Inl e) n1" if "steady env n n1" for e n1
    using kept that n client_fits_steady [OF that] by (simp add: steady_def)
  let ?rest = "\<lambda>b key. chain (at_world (update_settings (no_out env) (take_network (json_get ''proxy'' p \<noteq> None) (json_get ''relay'' p \<noteq> None) wanted))) (\<lambda>_.
       chain (if b then apply_proxy env s wanted key else give ()) (\<lambda>_.
       chain (if se_relay s \<noteq> se_relay wanted then apply_relay env s key b else give ()) (\<lambda>_. network_settings_payload env)))"
  obtain b where step: "change_network env p s wanted m = chain (if b then network_reconnect_key env else give None) (?rest b) m"
    unfolding change_network_def Let_def by blast
  have rest: "case r of Inl e \<Rightarrow> ?Q (Inl e) n1 | Inr key \<Rightarrow> wp (?rest b key) ?Q n1" if "steady env m n1" for r n1
    using none [OF steady_trans [OF m that]] update [OF steady_trans [OF m that]] by (cases r) (simp_all only: sum.case)
  have "wp (if b then network_reconnect_key env else give None) (\<lambda>r n1. case r of Inl e \<Rightarrow> ?Q (Inl e) n1 | Inr key \<Rightarrow> wp (?rest b key) ?Q n1) m"
    by (rule wp_either) (rule wp_reconnect_key, erule rest, unfold wp_give, rule rest, rule steady_refl)
  then have "wp (chain (if b then network_reconnect_key env else give None) (?rest b)) ?Q m" by (simp only: wp_chain)
  then show ?thesis unfolding wp_def step .
qed

lemma change_settled:
  assumes "faithful (no_out env)" and first: "fst (load_settings_checked (no_out env) (nt_world n)) = Inr s" and "client_fits env n"
  shows "wp (set_network_settings env p) (change_outcome env p s) n"
proof -
  let ?Q = "change_outcome env p s"
  obtain w0 where w0: "load_settings_checked (no_out env) (nt_world n) = (Inr s, w0)" using first by (metis prod.collapse)
  have "stored env n = Inr s" and "\<exists>c t. w0 = ticked c t (nt_world n)"
    using wp_load_settings_checked [of "\<lambda>r w. \<forall>a. r = Inr a \<longrightarrow> stored env n = Inr a \<and> (\<exists>c t. w = ticked c t (nt_world n))" "nt_world n" "no_out env"]
      w0 by (auto simp: wp_def stored_def)
  then have n0: "steady env n (n\<lparr>nt_world := w0\<rparr>)" by auto
  let ?n = "n\<lparr>nt_world := w0\<rparr>"
  note s = stored_as_read [OF \<open>stored env n = Inr s\<close>]
  have self: "others_same s s" by (simp add: others_same_def)
  have unchanged: "?Q (Inl e) n1" if "steady env n n1" for e n1
    using that assms(3) \<open>stored env n = Inr s\<close> self client_fits_steady [OF that] by (auto simp: change_outcome_def steady_def)
  show ?thesis
  proof (cases "network_settings_from_payload (no_system env) s p")
    case (Inl e)
    then show ?thesis using n0 w0 unchanged
      by (simp add: set_network_settings_def load_settings_def wp_def chain_def at_world_def from_result_def raise_def Let_def)
  next
    case (Inr wanted)
    have "wp (change_network env p s wanted) ?Q ?n"
      by (rule change_network_outcome [OF assms(1) _ assms(3) Inr n0]) (use \<open>stored env n = Inr s\<close> in simp)
    then show ?thesis using w0 Inr unchanged [OF steady_refl]
      by (simp add: set_network_settings_def load_settings_def wp_def chain_def at_world_def from_result_def raise_def Let_def)
  qed
qed

section \<open>Registering\<close>

text \<open>The credentials in the key store are for the relay in the settings on disk.\<close>

definition registered_here :: "NetOutside \<Rightarrow> NetWorld \<Rightarrow> bool" where
  "registered_here env n \<longleftrightarrow> (\<exists>credentials s. nt_credentials n = Some credentials \<and> stored env n = Inr s \<and> credentials_match credentials s)"

lemma trim_end_slashes_again: "trim_end_slashes (trim_end_slashes s) = trim_end_slashes s"
  by (simp add: trim_end_slashes_def dropWhile_idem)

lemma normalized_base_again: "normalized_base_url x = Inr base \<Longrightarrow> normalized_base_url base = Inr base"
  by (auto simp: normalized_base_url_def Let_def trim_no_whitespace trim_end_slashes_again split: if_splits)

lemma register_call_base: "register_desktop_call http target token request = Inr c \<Longrightarrow> normalized_base_url (rl_base_url target) = Inr (rc_base_url c)"
  by (auto simp: register_desktop_call_def Let_def split: sum.splits if_splits option.splits prod.splits)

lemma registered_settings_sel [simp]:
  "se_connection_intent (registered_settings b s) = se_connection_intent s" "se_tunnel_id (registered_settings b s) = se_tunnel_id s"
  "rl_base_url (se_relay (registered_settings b s)) = b"
  by (simp_all add: registered_settings_def Let_def)

lemma normalize_base: "rl_base_url (se_relay (normalize_settings out s)) = rl_base_url (se_relay s)"
  by (simp add: normalize_settings_def Let_def split: option.split)

text \<open>The identity of the desktop may be new; nothing else is.\<close>

definition same_relay :: "NetOutside \<Rightarrow> NetWorld \<Rightarrow> NetWorld \<Rightarrow> bool" where
  "same_relay env n n1 \<longleftrightarrow> stored env n1 = stored env n \<and> nt_credentials n1 = nt_credentials n \<and> nt_client n1 = nt_client n"

lemma wp_ensure_id:
  assumes "\<And>r n1. same_relay env n n1 \<Longrightarrow> Q r n1"
  shows "wp (ensure_monitor_desktop_id env) Q n"
  unfolding ensure_monitor_desktop_id_def
  by (auto intro!: wp_attempts wp_attempt wp_at_phones assms simp: wp_case_found Let_def same_relay_def stored_def split: sum.splits option.splits)

lemma wp_registration_target:
  assumes "\<And>e. Q (Inl e) n" and "\<And>token target. Q (Inr (token, target)) n"
  shows "wp (registration_target env settings registration_code) Q n"
  using assms unfolding registration_target_def
  by (auto simp: wp_def chain_def from_result_def give_def raise_def Let_def split: sum.splits)

text \<open>What a registration leaves.\<close>

definition registration_outcome :: "NetOutside \<Rightarrow> NetWorld \<Rightarrow> string + json \<Rightarrow> NetWorld \<Rightarrow> bool" where
  "registration_outcome env n r n1 \<longleftrightarrow>
     registered_here env n1 \<and> client_fits env n1
     \<or> isl r \<and> (same_relay env n n1 \<or> stored env n1 = stored env n \<and> nt_client n1 = nt_client n \<and> nt_credentials n1 \<noteq> None)"

lemma same_relay_trans: "same_relay env a b \<Longrightarrow> same_relay env b c \<Longrightarrow> same_relay env a c"
  by (simp add: same_relay_def)

lemma wp_save_credentials:
  assumes "\<And>e n1. same_relay env n n1 \<Longrightarrow> Q (Inl e) n1"
    and "\<And>n1. stored env n1 = stored env n \<Longrightarrow> nt_client n1 = nt_client n \<Longrightarrow> nt_credentials n1 = Some c \<Longrightarrow> Q (Inr ()) n1"
  shows "wp (save_relay_credentials env c) Q n"
  unfolding save_relay_credentials_def by (auto intro!: wp_attempt assms simp: same_relay_def stored_def split: sum.splits)

text \<open>The settings on disk get the address that was registered at.\<close>

lemma wp_note_relay:
  assumes "faithful (no_out env)" and "stored env n = Inr s" and "normalized_base_url b = Inr (rc_base_url c)" and "nt_credentials n = Some c"
    and "\<And>e n1. steady env n n1 \<Longrightarrow> Q (Inl e) n1"
    and "\<And>u n1. registered_here env n1 \<Longrightarrow> nt_client n1 = nt_client n \<Longrightarrow> Q (Inr u) n1"
  shows "wp (at_world (update_settings (no_out env) (registered_settings b))) Q n"
proof -
  have s: "file_settings (no_out env) (nt_world n) = Inr s" using assms(2) by (simp add: stored_def)
  have "\<not> (se_connection_intent s \<and> trim (se_tunnel_id s) = [])" using stored_as_read [OF assms(2)] by (simp add: as_read_def)
  then have new: "file_settings (no_out env) (saved (no_out env) (registered_settings b s) w) = Inr (normalize_settings (no_out env) (registered_settings b s))" for w
    by (simp add: file_settings_saved [OF assms(1)])
  have "credentials_match c (normalize_settings (no_out env) (registered_settings b s))"
    using assms(3) normalized_base_again [OF assms(3)] by (simp add: credentials_match_def normalize_base)
  then have reg: "registered_here env (n\<lparr>nt_world := saved (no_out env) (registered_settings b s) w\<rparr>)" for w
    using assms(4) new by (simp add: registered_here_def)
  show ?thesis
    unfolding wp_at_world
  proof (rule wp_update_settings)
    fix d k t assume "file_settings (no_out env) (nt_world n) = Inr d"
    with s show "Q (Inr (registered_settings b d)) (n\<lparr>nt_world := saved (no_out env) (registered_settings b d) (ticked k t (nt_world n))\<rparr>)"
      by (auto intro!: assms(6) reg)
  qed (auto intro!: assms(5) simp: steady_def stored_def)
qed

lemma registered_kept: "registered_here env n \<Longrightarrow> stored env n1 = stored env n \<Longrightarrow> nt_credentials n1 = nt_credentials n \<Longrightarrow> registered_here env n1"
  by (simp add: registered_here_def)

lemma wp_register_rest:
  assumes "faithful (no_out env)" and s: "stored env n = Inr s" "client_fits env n" and m: "same_relay env n m"
    and base: "normalized_base_url b = Inr (rc_base_url c)"
  shows "wp (chain (save_relay_credentials env c) (\<lambda>_.
     chain (at_world (update_settings (no_out env) (registered_settings b))) (\<lambda>_.
     chain (if rl_enabled (se_relay s) then start_relay_client_for_settings env else give ()) (\<lambda>_.
       network_settings_payload env)))) (registration_outcome env n) m"
proof -
  let ?Q = "registration_outcome env n"
  have done_: "?Q r n2" if "registered_here env n1" "steady env n1 n2" "client_fits env n1" for r n1 n2
    using registered_kept [OF that(1)] that(2,3) client_fits_steady [OF that(2)] by (simp add: registration_outcome_def steady_def)
  have start: "wp (chain (if rl_enabled (se_relay s) then start_relay_client_for_settings env else give ()) (\<lambda>_. network_settings_payload env)) ?Q n1"
    if n1: "registered_here env n1" "nt_client n1 = nt_client n" for n1
  proof (cases "rl_enabled (se_relay s)")
    case True
    have "wp (start_relay_client_for_settings env) (\<lambda>r n2. case r of Inl e \<Rightarrow> ?Q (Inl e) n2 | Inr _ \<Rightarrow> wp (network_settings_payload env) ?Q n2) n1"
    proof (rule wp_start_relay)
      fix r n2 assume n2: "stored env n2 = stored env n1" "nt_credentials n2 = nt_credentials n1" "client_fits env n2"
      then have "registered_here env n2" using registered_kept n1(1) by blast
      with n2(3) show "case r of Inl e \<Rightarrow> ?Q (Inl e) n2 | Inr _ \<Rightarrow> wp (network_settings_payload env) ?Q n2"
        by (auto intro!: wp_payload done_ split: sum.split)
    qed
    with True show ?thesis by simp
  next
    case False
    with s n1 have "nt_client n1 = None" by (cases "nt_client n") (auto simp: client_fits_def)
    then have "client_fits env n1" by (simp add: client_fits_def)
    with n1 False show ?thesis by (auto intro!: wp_payload done_)
  qed
  show ?thesis
    unfolding wp_chain [of "save_relay_credentials env c"]
  proof (rule wp_save_credentials)
    fix e n1 assume "same_relay env m n1"
    then show "case Inl e of Inl e \<Rightarrow> ?Q (Inl e) n1 | Inr (u :: unit) \<Rightarrow> z u n1" for z
      using same_relay_trans [OF m] by (simp add: registration_outcome_def)
  next
    fix n1 assume n1: "stored env n1 = stored env m" "nt_client n1 = nt_client m" "nt_credentials n1 = Some c"
    then have n1': "stored env n1 = Inr s" "nt_client n1 = nt_client n" "stored env n1 = stored env n" using m s by (simp_all add: same_relay_def)
    have "wp (at_world (update_settings (no_out env) (registered_settings b))) (\<lambda>r n2. case r of Inl e \<Rightarrow> ?Q (Inl e) n2
        | Inr _ \<Rightarrow> wp (chain (if rl_enabled (se_relay s) then start_relay_client_for_settings env else give ()) (\<lambda>_. network_settings_payload env)) ?Q n2) n1"
      by (rule wp_note_relay [OF assms(1) n1'(1) base n1(3)])
        (use n1' n1(3) start in \<open>auto simp: steady_def registration_outcome_def simp del: wp_chain\<close>)
    then show "case Inr () of Inl e \<Rightarrow> ?Q (Inl e) n1 | Inr _ \<Rightarrow>
        wp (chain (at_world (update_settings (no_out env) (registered_settings b))) (\<lambda>_.
     chain (if rl_enabled (se_relay s) then start_relay_client_for_settings env else give ()) (\<lambda>_.
       network_settings_payload env))) ?Q n1" by (simp only: sum.case wp_chain [of "at_world x" for x])
  qed
qed

lemma register_outcome:
  assumes "faithful (no_out env)" and first: "fst (load_settings_checked (no_out env) (nt_world n)) = Inr s" and "client_fits env n"
  shows "wp (register_relay_desktop env registration_code) (registration_outcome env n) n"
proof -
  let ?Q = "registration_outcome env n"
  obtain w0 where w0: "load_settings_checked (no_out env) (nt_world n) = (Inr s, w0)" using first by (metis prod.collapse)
  have s: "stored env n = Inr s" and "\<exists>c t. w0 = ticked c t (nt_world n)"
    using wp_load_settings_checked [of "\<lambda>r w. \<forall>a. r = Inr a \<longrightarrow> stored env n = Inr a \<and> (\<exists>c t. w = ticked c t (nt_world n))" "nt_world n" "no_out env"]
      w0 by (auto simp: wp_def stored_def)
  then have m: "same_relay env n (n\<lparr>nt_world := w0\<rparr>)" by (auto simp: same_relay_def stored_def)
  let ?m = "n\<lparr>nt_world := w0\<rparr>"
  have stop: "?Q (Inl e) n1" if "same_relay env n n1" for e n1 using that by (simp add: registration_outcome_def)
  define finish where "finish b c = chain (save_relay_credentials env c) (\<lambda>_.
     chain (at_world (update_settings (no_out env) (registered_settings b))) (\<lambda>_.
     chain (if rl_enabled (se_relay s) then start_relay_client_for_settings env else give ()) (\<lambda>_.
       network_settings_payload env)))" for b c
  have rest: "wp (finish b c) ?Q n1" if "same_relay env ?m n1" "normalized_base_url b = Inr (rc_base_url c)" for n1 b c
    unfolding finish_def by (rule wp_register_rest [OF assms(1) s assms(3) same_relay_trans [OF m that(1)] that(2)])
  have "wp (register_relay_desktop env registration_code) ?Q n = wp (if ht_enabled (se_https_mcp s) then raise ''stop HTTPS MCP first''
     else
     chain (registration_target env s registration_code) (\<lambda>(token, target).
     if trim (rl_base_url target) = [] then raise ''configure the relay address first''
     else
     chain (from_result (normalized_base_url (rl_base_url target))) (\<lambda>_.
     chain (ensure_monitor_desktop_id env) (\<lambda>desktop_id.
     chain (from_result (register_desktop_call (no_register env) target token
         \<lparr>rq_desktop_id = desktop_id, rq_device_name = no_host_name env, rq_app_version = no_version env, rq_platform = no_platform env\<rparr>))
       (finish (rl_base_url target)))))) ?Q ?m"
    using w0 unfolding register_relay_desktop_def finish_def
    by (simp only: wp_def chain_def at_world_def load_settings_def split: prod.split) simp
  also have "\<dots>"
    by (auto intro!: wp_registration_target stop m wp_ensure_id rest split: sum.splits prod.splits intro: same_relay_trans [OF m] register_call_base
       simp del: wp_at_world simp: wp_if)
  finally show ?thesis .
qed

section \<open>Properties\<close>



text \<open>C34: whatever the settings file holds, the settings the program works with are well formed, and reading them never fails
  nor writes: the proxy mode is a known one, a relay that is enabled has an address, and a tunnel that is to be connected has an
  id.\<close>

theorem settings_well_formed:
  assumes "load_settings out w = (r, w1)"
  shows "w_file w1 = w_file w \<and> (\<exists>s. r = Inr s \<and> px_mode (se_proxy s) \<in> {''direct'', ''system'', ''manual''}
     \<and> (rl_enabled (se_relay s) \<longrightarrow> trim (rl_base_url (se_relay s)) \<noteq> [])
     \<and> (se_connection_intent s \<longrightarrow> trim (se_tunnel_id s) \<noteq> []))"
proof -
  have ok: "px_mode (se_proxy s) \<in> {''direct'', ''system'', ''manual''} \<and> (rl_enabled (se_relay s) \<longrightarrow> trim (rl_base_url (se_relay s)) \<noteq> [])
      \<and> (se_connection_intent s \<longrightarrow> trim (se_tunnel_id s) \<noteq> [])" if "as_read out s" for s
  proof -
    have "px_mode (se_proxy (normalize_settings out s)) \<in> {''direct'', ''system'', ''manual''}"
      by (auto simp: normalize_settings_def default_proxy_def Let_def split: option.split)
    moreover have "rl_enabled (se_relay (normalize_settings out s)) \<longrightarrow> trim (rl_base_url (se_relay (normalize_settings out s))) \<noteq> []"
      by (simp add: normalize_settings_def Let_def)
    ultimately show ?thesis using that unfolding as_read_def by metis
  qed
  have "wp (load_settings out) (\<lambda>r w1. w_file w1 = w_file w \<and> (\<exists>s. r = Inr s \<and> as_read out s)) w"
    by (rule wp_load_settings) (auto simp: default_as_read file_as_read)
  with assms ok show ?thesis unfolding wp_def by auto
qed

section \<open>Witnesses\<close>

definition calm_net :: NetOutside where
  "calm_net = \<lparr>no_out = calm_outside, no_env = demo_env, no_system = Inr None, no_setup = Inr ''token'', no_invite = (\<lambda>_. None),
     no_register = (\<lambda>_. Inr (200, Some \<lparr>rs_desktop_id = ''d_1'', rs_desktop_token = ''new''\<rparr>)), no_health = (\<lambda>_. Inr 200),
     no_tcp = (\<lambda>_ _. True), no_print = (\<lambda>_. []), no_host_name = ''pc'', no_version = ''1'', no_platform = ''linux''\<rparr>"

definition fresh_net :: NetWorld where
  "fresh_net = \<lparr>nt_world = Settings_Text.fresh_world, nt_phones = Monitor_Device_Safety.fresh_world, nt_credentials = None,
     nt_client = None, nt_status = default_relay_status, nt_identity = None\<rparr>"

lemma calm_net_out: "no_out calm_net = calm_outside" "client_fits calm_net fresh_net"
  by (simp_all add: calm_net_def client_fits_def fresh_net_def)

lemma fresh_net_read: "fst (load_settings_checked (no_out calm_net) (nt_world fresh_net)) = Inr default_settings"
  by (simp add: calm_net_def fresh_net_def load_settings_checked_def attempts.simps attempt_def chain_def calm_outside_def
     give_def passed_def Settings_Text.fresh_world_def)

definition direct_payload :: json where
  "direct_payload = JObject [(''proxy'', JObject [(''mode'', JString ''direct'')])]"



theorem settings_well_formed_witness:
  "\<exists>s w1. load_settings calm_outside Settings_Text.fresh_world = (Inr s, w1) \<and> px_mode (se_proxy s) \<in> {''direct'', ''system'', ''manual''}"
proof -
  obtain r w1 where run: "load_settings calm_outside Settings_Text.fresh_world = (r, w1)" by fastforce
  from settings_well_formed [OF run] run show ?thesis by blast
qed

section \<open>A registration that is lost\<close>

text \<open>A desktop is registered at one relay and uses the code of another. The new credentials reach the key store, then the
  settings cannot be read any more: the desktop is registered nowhere it would connect to.\<close>

definition new_code :: string where
  "new_code = CODE_PREFIX @ ''.'' @ hex_of [1] @ ''.'' @ hex_of (replicate 32 7)"

definition old_settings :: Settings where
  "old_settings = default_settings\<lparr>se_relay := \<lparr>rl_enabled = False, rl_base_url = ''https://old.example''\<rparr>\<rparr>"

definition failing_net :: NetOutside where
  "failing_net = calm_net\<lparr>no_out := calm_outside\<lparr>os_ok := \<lambda>k. k < 7\<rparr>, no_invite := \<lambda>_. Some sample_invite\<rparr>"

definition old_net :: NetWorld where
  "old_net = fresh_net\<lparr>nt_world := Settings_Text.fresh_world\<lparr>w_file := Some (os_print_settings calm_outside old_settings @ [CHR 0x0A])\<rparr>,
     nt_credentials := Some \<lparr>rc_base_url = ''https://old.example'', rc_desktop_id = ''d_1'', rc_desktop_token = ''old''\<rparr>\<rparr>"

lemma failing_faithful: "faithful (no_out failing_net)"
  using calm_faithful by (simp add: failing_net_def faithful_def)

lemma old_bases: "normalized_base_url ''https://old.example'' = Inr ''https://old.example''"
  "normalized_base_url (base_url sample_invite) = Inr (base_url sample_invite)" "base_url sample_invite \<noteq> ''https://old.example''"
  by code_simp+

lemma old_stored: "stored failing_net old_net = Inr old_settings"
  using calm_faithful
  by (simp add: stored_def file_settings_def old_net_def settings_of_text_def failing_net_def faithful_def fresh_net_def
     old_settings_def default_settings_def normalize_settings_def default_proxy_def)

lemma new_code_plain: "trim new_code = new_code" "new_code \<noteq> []"
  by (code_simp, code_simp)

lemma new_code_accepted: "parse_code (\<lambda>_. Some sample_invite) new_code = Inr (sample_invite, SIGNING_CONTEXT @ hex_of [1], replicate 32 7)"
  unfolding new_code_def by (rule sample_code_accepted)

lemma failing_sel: "os_ok (no_out failing_net) k = (k < 7)" "no_invite failing_net = (\<lambda>_. Some sample_invite)"
  "Desktop_State.timestamp_ms (no_out failing_net) w = 0" "no_register failing_net = no_register calm_net" "no_env failing_net = demo_env"
  by (simp_all add: failing_net_def calm_net_def Desktop_State.timestamp_ms_def calm_outside_def)

lemma failing_attempt: "attempt (no_out failing_net) e w = (if w_calls w < 7 then Inr () else Inl e, passed (no_out failing_net) w)"
  by (simp add: attempt_def failing_sel)

lemma failing_calls: "w_calls (passed out w) = Suc (w_calls w)" "w_file (passed out w) = w_file w"
  by (simp_all add: passed_def)

lemma old_read: "load_settings_checked (no_out failing_net) (nt_world old_net)
  = (Inr old_settings, passed (no_out failing_net) (passed (no_out failing_net) (nt_world old_net)))"
proof -
  have "w_calls (nt_world old_net) = 0" by (simp add: old_net_def fresh_net_def Settings_Text.fresh_world_def)
  with old_stored show ?thesis
    by (simp add: load_settings_checked_def attempts.simps chain_def failing_attempt failing_calls give_def stored_def file_settings_def)
qed

lemma registration_lost:
  "registered_here failing_net old_net \<and> (\<exists>e n1. register_relay_desktop failing_net new_code old_net = (Inl e, n1)
     \<and> stored failing_net n1 = stored failing_net old_net \<and> \<not> registered_here failing_net n1)"
proof
  show "registered_here failing_net old_net"
    using old_stored old_bases by (simp add: registered_here_def old_net_def fresh_net_def credentials_match_def old_settings_def default_settings_def)
  let ?out = "no_out failing_net"
  have zero: "w_calls (nt_world old_net) = 0" by (simp add: old_net_def fresh_net_def Settings_Text.fresh_world_def)
  have off: "\<not> ht_enabled (se_https_mcp old_settings)" "\<not> rl_enabled (se_relay old_settings)"
    by (simp_all add: old_settings_def default_settings_def default_https_def)
  have base: "trim (base_url sample_invite) \<noteq> []" by code_simp
  have target: "registration_target failing_net old_settings new_code n = (Inr (new_code, (se_relay old_settings)\<lparr>rl_base_url := base_url sample_invite\<rparr>), n)" for n
    by (simp add: registration_target_def new_code_plain new_code_accepted failing_sel) (simp add: sample_invite_def)
  let ?settings = "(se_relay old_settings)\<lparr>rl_base_url := base_url sample_invite\<rparr>"
  let ?c = "\<lparr>rc_base_url = base_url sample_invite, rc_desktop_id = ''d_1'', rc_desktop_token = ''new''\<rparr>"
  have call: "register_desktop_call (no_register failing_net) ?settings new_code request = Inr ?c" for request
    using old_bases(2) new_code_plain by (simp add: register_desktop_call_def Let_def failing_sel) (simp add: calm_net_def is_success_def)
  have id: "nt_identity old_net = None" "me_ok demo_env k" for k by (simp_all add: old_net_def fresh_net_def demo_env_def)
  have no_update: "update_settings ?out f w = (Inl ''state directory'', passed ?out w)" if "7 \<le> w_calls w" for f w
    using that by (simp add: update_settings_def load_settings_checked_def attempts.simps chain_def failing_attempt)
  have "\<exists>e n1. register_relay_desktop failing_net new_code old_net = (Inl e, n1)
     \<and> w_file (nt_world n1) = w_file (nt_world old_net) \<and> nt_credentials n1 = Some ?c"
    unfolding register_relay_desktop_def
    by (simp add: at_world_def chain_def load_settings_def old_read off target base from_result_def old_bases
      ensure_monitor_desktop_id_def failing_attempt failing_calls zero and_then_always_def stored_desktop_id_def
      at_phones_def generate_monitor_token_def failing_sel attempts.simps modify_def give_def raise_def Let_def call save_relay_credentials_def
      no_update id call [unfolded failing_sel])
  then obtain e n1 where run: "register_relay_desktop failing_net new_code old_net = (Inl e, n1)"
      and n1: "w_file (nt_world n1) = w_file (nt_world old_net)" "nt_credentials n1 = Some ?c" by blast
  from n1(1) have "stored failing_net n1 = stored failing_net old_net" by (simp add: stored_def file_settings_def)
  moreover from this n1(2) old_stored old_bases have "\<not> registered_here failing_net n1"
    by (simp add: registered_here_def credentials_match_def old_settings_def)
  ultimately show "\<exists>e n1. register_relay_desktop failing_net new_code old_net = (Inl e, n1)
     \<and> stored failing_net n1 = stored failing_net old_net \<and> \<not> registered_here failing_net n1" using run by blast
qed

end
