(* ===== verification/Https_Supervisor.thy ===== *)
theory Https_Supervisor
  imports Network_Settings Monitor_Status
begin

text \<open>
  The thread that keeps the HTTPS bridge running (\<^verbatim>\<open>run\<close> of \<^verbatim>\<open>src-tauri/src/https_mcp.rs\<close>): it starts the local bridge and, once
  that answers, the transport to the public address, an ssh process or the websocket client; it asks the public address whether
  it works, and writes what it knows into the status.

  One pass of its loop is a function of the state and a \<open>Round\<close> of answers: whether children still run, what starting them
  gives, the HTTP answers, the clock and the reconnect switch. \<open>sv_events\<close> records what it did. A child that has ended and one
  that is killed are both \<open>Ended\<close>. \<^verbatim>\<open>Instant::now() - 30 s\<close> is a subtraction of integers.
\<close>

section \<open>Probes\<close>

definition probe_local_bridge :: "(string \<Rightarrow> string \<Rightarrow> (nat \<times> json option) option) \<Rightarrow> u16 \<Rightarrow> string \<Rightarrow> bool" where
  "probe_local_bridge http port instance_nonce =
     (instance_nonce \<noteq> [] \<and>
      (case http (''http://127.0.0.1:'' @ decimal (unat port) @ ''/healthz'') instance_nonce of
         Some (status, Some value) \<Rightarrow> status = 200 \<and> json_index ''status'' value = JString ''ready''
           \<and> json_index ''instance'' value = JString instance_nonce
       | _ \<Rightarrow> False))"

text \<open>What a web client answers: the metadata with its JSON, and the MCP entry with its \<^verbatim>\<open>WWW-Authenticate\<close> header.\<close>

record WebClient =
  wb_get :: "string \<Rightarrow> string + nat \<times> json option"
  wb_post :: "string \<Rightarrow> string + nat \<times> string option"

definition probe_public_mcp :: "WebClient \<Rightarrow> string \<Rightarrow> string + unit" where
  "probe_public_mcp client issuer =
     (case wb_get client (issuer @ ''/.well-known/oauth-authorization-server'') of
        Inl e \<Rightarrow> Inl (''metadata probe failed: '' @ e)
      | Inr (status, response) \<Rightarrow>
          if status \<noteq> 200 then Inl (''metadata answered '' @ decimal status)
          else case response of
            None \<Rightarrow> Inl ''metadata is not JSON''
          | Some value \<Rightarrow>
              if json_as_str (json_index ''issuer'' value) \<noteq> Some issuer then Inl ''the issuer is another one''
              else case wb_post client (issuer @ ''/mcp'') of
                Inl e \<Rightarrow> Inl (''MCP probe failed: '' @ e)
              | Inr (status, challenge) \<Rightarrow>
                  if status \<noteq> 401 \<or> \<not> (case challenge of None \<Rightarrow> False | Some h \<Rightarrow> contains_text ''resource_metadata'' h)
                  then Inl (''the MCP entry asks for no authorization: '' @ decimal status) else Inr ())"

section \<open>State\<close>

datatype part = Bridge | Forward | Wss

datatype sup_event =
    Tried part
  | Launched part
  | Ended part
  | Probed bool u64

record Supervisor =
  sv_local :: bool
  sv_forward :: bool
  sv_wss :: bool
  sv_bridge_attempted :: bool
  sv_forward_attempted :: bool
  sv_nonce :: string
  sv_retries :: u32
  sv_last_error :: string
  sv_public_ready :: bool
  sv_probe_error :: string
  sv_last_public_probe_at :: u64
  sv_last_probe :: int
  sv_snapshot :: HttpsSnapshot
  sv_events :: "sup_event list"

record Round =
  rd_local_first :: bool             \<comment> \<open>the bridge still runs, at the start of the pass\<close>
  rd_retry_bridge :: bool            \<comment> \<open>the reconnect switch\<close>
  rd_nonce :: "string + string"
  rd_bridge :: "string + unit"
  rd_bridge_at :: int
  rd_local_again :: bool
  rd_loopback :: "string \<Rightarrow> string \<Rightarrow> (nat \<times> json option) option"
  rd_wss_alive :: bool
  rd_forward_first :: bool
  rd_retry_forward :: bool
  rd_forward :: "string + unit"
  rd_forward_at :: int
  rd_wss_connected :: bool
  rd_forward_again :: bool
  rd_wss_error :: "string option"
  rd_now :: int
  rd_stamp :: u64
  rd_client :: "string + WebClient"

definition started :: "int \<Rightarrow> HttpsSnapshot \<Rightarrow> Supervisor" where
  "started now snapshot = \<lparr>sv_local = False, sv_forward = False, sv_wss = False, sv_bridge_attempted = False,
     sv_forward_attempted = False, sv_nonce = [], sv_retries = 0, sv_last_error = [], sv_public_ready = False,
     sv_probe_error = [], sv_last_public_probe_at = 0, sv_last_probe = now - 30000, sv_snapshot = snapshot, sv_events = []\<rparr>"

definition noted :: "sup_event \<Rightarrow> Supervisor \<Rightarrow> Supervisor" where
  "noted e sv = sv\<lparr>sv_events := sv_events sv @ [e]\<rparr>"

definition drop_local :: "Supervisor \<Rightarrow> Supervisor" where
  "drop_local sv = (if sv_local sv then noted (Ended Bridge) (sv\<lparr>sv_local := False\<rparr>) else sv)"

definition drop_forward :: "Supervisor \<Rightarrow> Supervisor" where
  "drop_forward sv = (if sv_forward sv then noted (Ended Forward) (sv\<lparr>sv_forward := False\<rparr>) else sv)"

definition drop_wss :: "Supervisor \<Rightarrow> Supervisor" where
  "drop_wss sv = (if sv_wss sv then noted (Ended Wss) (sv\<lparr>sv_wss := False\<rparr>) else sv)"

definition failed :: "string \<Rightarrow> Supervisor \<Rightarrow> Supervisor" where
  "failed e sv = sv\<lparr>sv_last_error := e, sv_retries := sat_succ32 (sv_retries sv)\<rparr>"

section \<open>One pass\<close>

definition should_launch :: "bool \<Rightarrow> bool \<Rightarrow> bool" where
  "should_launch tried retry_enabled \<longleftrightarrow> \<not> tried \<or> retry_enabled"

definition bridge_step :: "Round \<Rightarrow> Supervisor \<Rightarrow> Supervisor" where
  "bridge_step i sv =
     (let alive = (sv_local sv \<and> rd_local_first i); sv1 = (if alive then sv else drop_local sv) in
      if \<not> alive \<and> should_launch (sv_bridge_attempted sv1) (rd_retry_bridge i) then
        let sv2 = drop_wss (drop_forward (noted (Tried Bridge) (sv1\<lparr>sv_bridge_attempted := True, sv_forward_attempted := False,
              sv_public_ready := False, sv_last_probe := rd_bridge_at i - 30000\<rparr>)))
        in case rd_nonce i of
             Inl e \<Rightarrow> failed e sv2
           | Inr new_nonce \<Rightarrow>
              (case rd_bridge i of
                 Inl e \<Rightarrow> failed e sv2
               | Inr _ \<Rightarrow> noted (Launched Bridge) (sv2\<lparr>sv_nonce := new_nonce, sv_local := True, sv_last_error := []\<rparr>))
      else sv1)"

definition ready_step :: "HttpsMcpSettings \<Rightarrow> Round \<Rightarrow> Supervisor \<Rightarrow> bool \<times> Supervisor" where
  "ready_step settings i sv =
     (let alive = (sv_local sv \<and> rd_local_again i)
      in (alive \<and> probe_local_bridge (rd_loopback i) (ht_local_port settings) (sv_nonce sv), if alive then sv else drop_local sv))"

definition uses_wss :: "HttpsMcpSettings \<Rightarrow> bool" where
  "uses_wss settings \<longleftrightarrow> ht_transport settings = ''wss''"

text \<open>Whether there is no transport to the public address; a websocket client reconnects by itself.\<close>

definition needs_transport :: "HttpsMcpSettings \<Rightarrow> Round \<Rightarrow> Supervisor \<Rightarrow> bool \<times> Supervisor" where
  "needs_transport settings i sv =
     (let sv1 = (if rd_wss_alive i then sv else drop_wss sv) in
      if uses_wss settings then (\<not> sv_wss sv1, sv1)
      else if sv_forward sv1 \<and> rd_forward_first i then (False, sv1) else (True, drop_forward sv1))"

definition launch_transport :: "HttpsMcpSettings \<Rightarrow> bool \<Rightarrow> Round \<Rightarrow> Supervisor \<Rightarrow> Supervisor" where
  "launch_transport settings credentials i sv =
     (let sv1 = noted (Tried (if uses_wss settings then Wss else Forward)) (sv\<lparr>sv_forward_attempted := True,
            sv_public_ready := False, sv_last_probe := rd_forward_at i - 30000\<rparr>)
      in if uses_wss settings then
           (if credentials then noted (Launched Wss) (sv1\<lparr>sv_wss := True, sv_last_error := []\<rparr>)
            else failed ''no relay credentials'' sv1)
         else case rd_forward i of
           Inl e \<Rightarrow> failed e sv1
         | Inr _ \<Rightarrow> noted (Launched Forward) (sv1\<lparr>sv_forward := True, sv_last_error := []\<rparr>))"

definition forward_step :: "HttpsMcpSettings \<Rightarrow> bool \<Rightarrow> Round \<Rightarrow> bool \<Rightarrow> Supervisor \<Rightarrow> Supervisor" where
  "forward_step settings credentials i ready sv =
     (case needs_transport settings i sv of (needs, sv1) \<Rightarrow>
        if ready \<and> needs \<and> should_launch (sv_forward_attempted sv1) (rd_retry_forward i)
        then launch_transport settings credentials i sv1 else sv1)"

definition connected_step :: "HttpsMcpSettings \<Rightarrow> Round \<Rightarrow> bool \<Rightarrow> Supervisor \<Rightarrow> bool \<times> Supervisor" where
  "connected_step settings i ready sv =
     (let sv1 = (if ready then sv else drop_wss (drop_forward sv));
          up = (ready \<and> (if uses_wss settings then sv_wss sv1 \<and> rd_wss_connected i else sv_forward sv1 \<and> rd_forward_again i));
          sv2 = (if ready \<and> \<not> uses_wss settings \<and> \<not> up then drop_forward sv1 else sv1)
      in (up,
          if up then (if uses_wss settings then sv2\<lparr>sv_last_error := []\<rparr> else sv2)
          else let sv3 = sv2\<lparr>sv_public_ready := False\<rparr>
               in case (if uses_wss settings \<and> sv_wss sv3 then rd_wss_error i else None) of
                    None \<Rightarrow> sv3
                  | Some e \<Rightarrow> sv3\<lparr>sv_last_error := ''WSS Relay: '' @ e\<rparr>))"

definition probe_step :: "HttpsMcpSettings \<Rightarrow> Round \<Rightarrow> bool \<Rightarrow> Supervisor \<Rightarrow> Supervisor" where
  "probe_step settings i up sv =
     (if up \<and> 15000 \<le> rd_now i - sv_last_probe sv then
        let sv1 = sv\<lparr>sv_last_probe := rd_now i, sv_last_public_probe_at := rd_stamp i\<rparr>
        in case (case rd_client i of Inl e \<Rightarrow> Inl e | Inr client \<Rightarrow> probe_public_mcp client (ht_base_url settings)) of
             Inr _ \<Rightarrow> noted (Probed True (rd_stamp i)) (sv1\<lparr>sv_public_ready := True, sv_probe_error := []\<rparr>)
           | Inl e \<Rightarrow> noted (Probed False (rd_stamp i)) (sv1\<lparr>sv_public_ready := False, sv_probe_error := e\<rparr>)
      else sv)"

definition show_status :: "HttpsMcpSettings \<Rightarrow> bool \<Rightarrow> bool \<Rightarrow> Supervisor \<Rightarrow> Supervisor" where
  "show_status settings ready up sv =
     sv\<lparr>sv_snapshot := \<lparr>hs_local_ready = ready, hs_ssh_connected = (ht_transport settings = ''ssh'' \<and> up),
       hs_transport_connected = up, hs_remote_ready = (up \<and> sv_public_ready sv),
       hs_last_public_probe_at = sv_last_public_probe_at sv, hs_remote_last_error = sv_probe_error sv,
       hs_last_error = sv_last_error sv, hs_restarts = sv_retries sv\<rparr>\<rparr>"

definition pass :: "HttpsMcpSettings \<Rightarrow> bool \<Rightarrow> Round \<Rightarrow> Supervisor \<Rightarrow> Supervisor" where
  "pass settings credentials i sv =
     (case ready_step settings i (bridge_step i sv) of (ready, sv1) \<Rightarrow>
      case connected_step settings i ready (forward_step settings credentials i ready sv1) of (up, sv2) \<Rightarrow>
        show_status settings ready up (probe_step settings i up sv2))"

text \<open>The loop until the stop flag, and what follows it.\<close>

definition passes :: "HttpsMcpSettings \<Rightarrow> bool \<Rightarrow> Round list \<Rightarrow> Supervisor \<Rightarrow> Supervisor" where
  "passes settings credentials rounds sv = fold (pass settings credentials) rounds sv"

definition wind_down :: "Supervisor \<Rightarrow> Supervisor" where
  "wind_down sv =
     (let sv1 = drop_local (drop_wss (drop_forward sv))
      in sv1\<lparr>sv_snapshot := (sv_snapshot sv1)\<lparr>hs_local_ready := False, hs_ssh_connected := False,
           hs_transport_connected := False, hs_remote_ready := False\<rparr>\<rparr>)"

definition run_supervisor :: "HttpsMcpSettings \<Rightarrow> bool \<Rightarrow> int \<Rightarrow> HttpsSnapshot \<Rightarrow> Round list \<Rightarrow> Supervisor" where
  "run_supervisor settings credentials now snapshot rounds = wind_down (passes settings credentials rounds (started now snapshot))"

section \<open>Invariants\<close>

fun present :: "part \<Rightarrow> Supervisor \<Rightarrow> bool" where
  "present Bridge sv = sv_local sv"
| "present Forward sv = sv_forward sv"
| "present Wss sv = sv_wss sv"

text \<open>Every part that was launched has ended or is there.\<close>

definition balanced :: "Supervisor \<Rightarrow> bool" where
  "balanced sv \<longleftrightarrow> (\<forall>p. count_list (sv_events sv) (Launched p) = count_list (sv_events sv) (Ended p) + (if present p sv then 1 else 0))"

definition one_transport :: "HttpsMcpSettings \<Rightarrow> Supervisor \<Rightarrow> bool" where
  "one_transport settings sv \<longleftrightarrow> (if uses_wss settings then \<not> sv_forward sv else \<not> sv_wss sv)"

text \<open>When the public address was last found working, if nothing was found failing or started anew since; on the reversed events.\<close>

fun decided :: "sup_event list \<Rightarrow> u64 option" where
  "decided [] = None"
| "decided (Probed ok at # es) = (if ok then Some at else None)"
| "decided (Tried p # es) = None"
| "decided (e # es) = decided es"

definition verified_at :: "Supervisor \<Rightarrow> u64 option" where
  "verified_at sv = decided (rev (sv_events sv))"

definition probed_honestly :: "Supervisor \<Rightarrow> bool" where
  "probed_honestly sv \<longleftrightarrow> (sv_public_ready sv \<longrightarrow> verified_at sv = Some (sv_last_public_probe_at sv))"

lemma all_parts: "(\<forall>p. P p) \<longleftrightarrow> P Bridge \<and> P Forward \<and> P Wss"
  by (metis part.exhaust)

definition sound :: "HttpsMcpSettings \<Rightarrow> Supervisor \<Rightarrow> bool" where
  "sound settings sv \<longleftrightarrow> balanced sv \<and> one_transport settings sv \<and> probed_honestly sv"

lemmas sound_defs = sound_def balanced_def one_transport_def probed_honestly_def verified_at_def all_parts

lemmas step_defs = bridge_step_def ready_step_def forward_step_def needs_transport_def launch_transport_def connected_step_def probe_step_def show_status_def
  drop_local_def drop_forward_def drop_wss_def failed_def noted_def Let_def

lemma sound_dropped [simp]:
  assumes "sound settings sv"
  shows "sound settings (drop_local sv)" "sound settings (drop_forward sv)" "sound settings (drop_wss sv)"
  using assms by (auto simp: sound_defs step_defs)

lemma sound_fields [simp]:
  "sound settings (sv\<lparr>sv_nonce := x\<rparr>) = sound settings sv" "sound settings (sv\<lparr>sv_last_error := e\<rparr>) = sound settings sv"
  "sound settings (sv\<lparr>sv_retries := n\<rparr>) = sound settings sv" "sound settings (sv\<lparr>sv_bridge_attempted := b\<rparr>) = sound settings sv"
  "sound settings (sv\<lparr>sv_forward_attempted := b\<rparr>) = sound settings sv" "sound settings (sv\<lparr>sv_last_probe := t\<rparr>) = sound settings sv"
  "sound settings (sv\<lparr>sv_snapshot := h\<rparr>) = sound settings sv" "sound settings (failed e sv) = sound settings sv"
  "sound settings sv \<Longrightarrow> sound settings (sv\<lparr>sv_public_ready := False\<rparr>)"
  by (simp_all add: sound_defs failed_def)

lemma sound_tried: "sound settings sv \<Longrightarrow> \<not> sv_public_ready sv \<Longrightarrow> sound settings (noted (Tried p) sv)"
  by (simp add: sound_defs noted_def)

lemma sound_launched:
  "sound settings sv \<Longrightarrow> \<not> sv_local sv \<Longrightarrow> \<not> sv_public_ready sv \<Longrightarrow> sound settings (noted (Launched Bridge) (sv\<lparr>sv_nonce := x, sv_local := True, sv_last_error := e\<rparr>))"
  "sound settings sv \<Longrightarrow> \<not> sv_forward sv \<Longrightarrow> \<not> uses_wss settings \<Longrightarrow> \<not> sv_public_ready sv
    \<Longrightarrow> sound settings (noted (Launched Forward) (sv\<lparr>sv_forward := True, sv_last_error := e\<rparr>))"
  "sound settings sv \<Longrightarrow> \<not> sv_wss sv \<Longrightarrow> uses_wss settings \<Longrightarrow> \<not> sv_public_ready sv
    \<Longrightarrow> sound settings (noted (Launched Wss) (sv\<lparr>sv_wss := True, sv_last_error := e\<rparr>))"
  by (simp_all add: sound_defs noted_def)

lemma dropped_sel [simp]:
  "sv_public_ready (drop_local sv) = sv_public_ready sv" "sv_public_ready (drop_forward sv) = sv_public_ready sv"
  "sv_public_ready (drop_wss sv) = sv_public_ready sv" "sv_public_ready (noted e sv) = sv_public_ready sv"
  "\<not> sv_local (drop_local sv)" "sv_local (drop_forward sv) = sv_local sv" "sv_local (drop_wss sv) = sv_local sv" "sv_local (noted e sv) = sv_local sv"
  "sv_forward (drop_local sv) = sv_forward sv" "\<not> sv_forward (drop_forward sv)" "sv_forward (drop_wss sv) = sv_forward sv"
  "sv_forward (noted e sv) = sv_forward sv" "sv_wss (drop_local sv) = sv_wss sv" "sv_wss (drop_forward sv) = sv_wss sv" "\<not> sv_wss (drop_wss sv)"
  "sv_wss (noted e sv) = sv_wss sv"
  by (simp_all add: drop_local_def drop_forward_def drop_wss_def noted_def)

lemma sound_bridge:
  assumes "sound settings sv"
  shows "sound settings (bridge_step i sv)"
  using assms unfolding bridge_step_def Let_def
  by (auto intro!: sound_launched sound_tried sound_dropped simp: Let_def split: sum.split)

lemma sound_ready: "sound settings sv \<Longrightarrow> sound settings (snd (ready_step settings i sv))"
  by (auto simp: ready_step_def Let_def)

lemma needs_transport_sound:
  assumes "needs_transport settings i sv = (needs, sv1)" and "sound settings sv"
  shows "sound settings sv1" and "needs \<Longrightarrow> if uses_wss settings then \<not> sv_wss sv1 else \<not> sv_forward sv1"
  using assms by (auto simp: needs_transport_def Let_def split: if_splits)

lemma launch_sound:
  assumes "sound settings sv" and "if uses_wss settings then \<not> sv_wss sv else \<not> sv_forward sv"
  shows "sound settings (launch_transport settings credentials i sv)"
  using assms unfolding launch_transport_def Let_def
  by (auto intro!: sound_launched sound_tried split: sum.split)

lemma sound_forward: "sound settings sv \<Longrightarrow> sound settings (forward_step settings credentials i ready sv)"
  unfolding forward_step_def by (auto intro!: launch_sound dest: needs_transport_sound split: prod.split)

lemma sound_connected: "sound settings sv \<Longrightarrow> sound settings (snd (connected_step settings i ready sv))"
  unfolding connected_step_def Let_def by (auto split: option.split)

lemma sound_probed: "sound settings sv \<Longrightarrow> sound settings (noted (Probed ok at) (sv\<lparr>sv_last_probe := t, sv_last_public_probe_at := at,
    sv_public_ready := ok, sv_probe_error := e\<rparr>))"
  by (simp add: sound_defs noted_def)

lemma sound_probe: "sound settings sv \<Longrightarrow> sound settings (probe_step settings i up sv)"
  unfolding probe_step_def Let_def by (auto intro: sound_probed split: sum.split)

text \<open>The status after a pass.\<close>

definition status_sound :: "HttpsMcpSettings \<Rightarrow> Supervisor \<Rightarrow> bool" where
  "status_sound settings sv \<longleftrightarrow> (let s = sv_snapshot sv in
     (hs_remote_ready s \<longrightarrow> hs_transport_connected s \<and> verified_at sv = Some (hs_last_public_probe_at s))
   \<and> (hs_transport_connected s \<longrightarrow> hs_local_ready s \<and> (if uses_wss settings then sv_wss sv else sv_forward sv))
   \<and> (hs_ssh_connected s \<longrightarrow> hs_transport_connected s \<and> \<not> uses_wss settings)
   \<and> (if hs_local_ready s then sv_local sv else \<not> sv_forward sv \<and> \<not> sv_wss sv))"

lemma pass_sound:
  assumes "sound settings sv"
  shows "sound settings (pass settings credentials i sv) \<and> status_sound settings (pass settings credentials i sv)"
proof -
  obtain ready sv1 where r: "ready_step settings i (bridge_step i sv) = (ready, sv1)" by fastforce
  obtain up sv2 where u: "connected_step settings i ready (forward_step settings credentials i ready sv1) = (up, sv2)" by fastforce
  let ?sv3 = "probe_step settings i up sv2"
  have "sound settings sv1" using sound_ready [OF sound_bridge [OF assms], of i i] r by simp
  then have s2: "sound settings sv2" using sound_connected [OF sound_forward] u by (metis snd_conv)
  then have s3: "sound settings ?sv3" by (rule sound_probe)
  have "sound settings (pass settings credentials i sv)"
    using s3 by (auto simp: pass_def r u sound_defs show_status_def)
  moreover have ready: "ready \<longrightarrow> sv_local sv1" using r by (auto simp: ready_step_def Let_def split: if_splits)
  have local: "sv_local (forward_step settings credentials i ready sv1) = sv_local sv1"
    by (auto simp: step_defs split: sum.splits)
  have up: "up \<longrightarrow> ready \<and> (if uses_wss settings then sv_wss sv2 else sv_forward sv2)"
      "ready \<longrightarrow> sv_local sv2 = sv_local sv1" "\<not> ready \<longrightarrow> \<not> sv_forward sv2 \<and> \<not> sv_wss sv2"
    using u local by (auto simp: connected_step_def drop_forward_def drop_wss_def noted_def Let_def split: if_splits option.splits)
  have kept: "sv_local ?sv3 = sv_local sv2" "sv_forward ?sv3 = sv_forward sv2" "sv_wss ?sv3 = sv_wss sv2"
    by (auto simp: step_defs split: sum.splits)
  have "status_sound settings (show_status settings ready up ?sv3)"
    using s3 ready up kept
    by (auto simp: status_sound_def show_status_def Let_def sound_def probed_honestly_def verified_at_def uses_wss_def)
  ultimately show ?thesis by (simp add: pass_def r u)
qed

lemma passes_sound: "sound settings (passes settings credentials rounds (started now snapshot))"
proof (induction rounds rule: rev_induct)
  case (snoc j js)
  then show ?case by (simp add: passes_def pass_sound)
qed (simp add: passes_def started_def sound_defs)

section \<open>How often it tries\<close>

definition bridge_tries :: "Supervisor \<Rightarrow> nat" where
  "bridge_tries sv = count_list (sv_events sv) (Tried Bridge)"

definition transport_tries :: "Supervisor \<Rightarrow> nat" where
  "transport_tries sv = count_list (sv_events sv) (Tried Forward) + count_list (sv_events sv) (Tried Wss)"

text \<open>The first try that is still open, of each.\<close>

definition bridge_open :: "Supervisor \<Rightarrow> nat" where
  "bridge_open sv = (if sv_bridge_attempted sv then 0 else 1)"

definition transport_open :: "Supervisor \<Rightarrow> nat" where
  "transport_open sv = (if sv_bridge_attempted sv \<and> \<not> sv_forward_attempted sv then 1 else 0)"

definition tries_of :: "Supervisor \<Rightarrow> nat \<times> nat \<times> nat \<times> nat \<times> bool" where
  "tries_of sv = (bridge_tries sv, transport_tries sv, bridge_open sv, transport_open sv, sv_bridge_attempted sv)"

lemmas tries_defs = bridge_tries_def transport_tries_def bridge_open_def transport_open_def

lemma tries_of_fields [simp]:
  "tries_of (drop_local sv) = tries_of sv" "tries_of (drop_forward sv) = tries_of sv" "tries_of (drop_wss sv) = tries_of sv"
  "tries_of (show_status settings ready up sv) = tries_of sv" "tries_of (failed e sv) = tries_of sv"
  "tries_of (noted (Launched p) sv) = tries_of sv" "tries_of (noted (Probed ok at) sv) = tries_of sv"
  "tries_of (sv\<lparr>sv_nonce := x\<rparr>) = tries_of sv" "tries_of (sv\<lparr>sv_last_error := e\<rparr>) = tries_of sv"
  "tries_of (sv\<lparr>sv_local := b\<rparr>) = tries_of sv" "tries_of (sv\<lparr>sv_forward := b\<rparr>) = tries_of sv" "tries_of (sv\<lparr>sv_wss := b\<rparr>) = tries_of sv"
  "tries_of (sv\<lparr>sv_public_ready := b\<rparr>) = tries_of sv" "tries_of (sv\<lparr>sv_last_probe := t\<rparr>) = tries_of sv"
  "tries_of (sv\<lparr>sv_probe_error := e\<rparr>) = tries_of sv" "tries_of (sv\<lparr>sv_last_public_probe_at := at\<rparr>) = tries_of sv"
  by (simp_all add: tries_of_def tries_defs drop_local_def drop_forward_def drop_wss_def noted_def show_status_def failed_def)

lemma attempted_fields [simp]:
  "sv_bridge_attempted (drop_local sv) = sv_bridge_attempted sv" "sv_forward_attempted (drop_local sv) = sv_forward_attempted sv"
  "sv_bridge_attempted (drop_forward sv) = sv_bridge_attempted sv" "sv_forward_attempted (drop_forward sv) = sv_forward_attempted sv"
  "sv_bridge_attempted (drop_wss sv) = sv_bridge_attempted sv" "sv_forward_attempted (drop_wss sv) = sv_forward_attempted sv"
  by (simp_all add: drop_local_def drop_forward_def drop_wss_def noted_def)

lemma tries_of_tried:
  "tries_of (noted (Tried Bridge) (sv\<lparr>sv_bridge_attempted := True, sv_forward_attempted := False, sv_public_ready := b, sv_last_probe := t\<rparr>))
    = (bridge_tries sv + 1, transport_tries sv, 0, 1, True)"
  "p \<noteq> Bridge \<Longrightarrow> tries_of (noted (Tried p) (sv\<lparr>sv_forward_attempted := True, sv_public_ready := b, sv_last_probe := t\<rparr>))
    = (bridge_tries sv, transport_tries sv + 1, bridge_open sv, 0, sv_bridge_attempted sv)"
  by (cases p; simp add: tries_of_def tries_defs noted_def)+

lemma tries_of_bridge:
  "tries_of (bridge_step i sv) = (if \<not> (sv_local sv \<and> rd_local_first i) \<and> should_launch (sv_bridge_attempted sv) (rd_retry_bridge i)
     then (bridge_tries sv + 1, transport_tries sv, 0, 1, True) else tries_of sv)"
proof -
  have same: "bridge_tries (drop_local sv) = bridge_tries sv" "transport_tries (drop_local sv) = transport_tries sv"
    using tries_of_fields(1) [of sv] by (simp_all add: tries_of_def)
  show ?thesis
    unfolding bridge_step_def Let_def by (auto simp: tries_of_tried same split: sum.split)
qed

lemma tries_of_needs: "needs_transport settings i sv = (needs, sv1) \<Longrightarrow> tries_of sv1 = tries_of sv \<and> sv_forward_attempted sv1 = sv_forward_attempted sv"
  by (auto simp: needs_transport_def Let_def split: if_splits)

lemma tries_of_launch:
  "tries_of (launch_transport settings c i sv) = (bridge_tries sv, transport_tries sv + 1, bridge_open sv, 0, sv_bridge_attempted sv)"
  by (auto simp: launch_transport_def Let_def tries_of_tried split: sum.split)

lemma tries_of_forward:
  "tries_of (forward_step settings c i ready sv) = tries_of sv
   \<or> ready \<and> should_launch (sv_forward_attempted sv) (rd_retry_forward i)
     \<and> tries_of (forward_step settings c i ready sv) = (bridge_tries sv, transport_tries sv + 1, bridge_open sv, 0, sv_bridge_attempted sv)"
proof -
  obtain needs sv1 where n: "needs_transport settings i sv = (needs, sv1)" by fastforce
  from tries_of_needs [OF n] have "tries_of sv1 = tries_of sv" "sv_forward_attempted sv1 = sv_forward_attempted sv" by simp_all
  moreover from this have "bridge_tries sv1 = bridge_tries sv" "transport_tries sv1 = transport_tries sv" "bridge_open sv1 = bridge_open sv"
      "sv_bridge_attempted sv1 = sv_bridge_attempted sv" by (simp_all add: tries_of_def)
  ultimately show ?thesis by (simp add: forward_step_def n tries_of_launch)
qed

lemma tries_of_rest [simp]:
  "tries_of (probe_step settings i up sv) = tries_of sv" "tries_of (snd (ready_step settings i sv)) = tries_of sv"
  "tries_of (snd (connected_step settings i ready sv)) = tries_of sv"
  by (simp_all add: probe_step_def ready_step_def connected_step_def Let_def split: sum.split option.split)

lemma local_attempted:
  "sv_local (bridge_step i sv) \<longrightarrow> sv_local sv \<or> sv_bridge_attempted (bridge_step i sv)"
  by (auto simp: bridge_step_def Let_def failed_def noted_def split: sum.splits)

lemma local_kept:
  "sv_local (snd (ready_step settings i sv)) \<longrightarrow> sv_local sv" "fst (ready_step settings i sv) \<longrightarrow> sv_local sv"
  "sv_local (forward_step settings c i ready sv) = sv_local sv" "sv_local (snd (connected_step settings i ready sv)) = sv_local sv"
  "sv_local (probe_step settings i up sv) = sv_local sv" "sv_local (show_status settings ready up sv) = sv_local sv"
proof -
  show "sv_local (snd (ready_step settings i sv)) \<longrightarrow> sv_local sv" "fst (ready_step settings i sv) \<longrightarrow> sv_local sv"
    by (auto simp: ready_step_def Let_def)
  obtain needs sv1 where n: "needs_transport settings i sv = (needs, sv1)" by fastforce
  then have "sv_local sv1 = sv_local sv" by (auto simp: needs_transport_def Let_def split: if_splits)
  moreover have "sv_local (launch_transport settings c i sv1) = sv_local sv1"
    by (simp add: launch_transport_def failed_def Let_def split: sum.split)
  ultimately show "sv_local (forward_step settings c i ready sv) = sv_local sv" by (simp add: forward_step_def n)
  show "sv_local (snd (connected_step settings i ready sv)) = sv_local sv"
    by (simp add: connected_step_def Let_def split: option.split)
  show "sv_local (probe_step settings i up sv) = sv_local sv" "sv_local (show_status settings ready up sv) = sv_local sv"
    by (simp_all add: probe_step_def show_status_def Let_def split: sum.split)
qed

definition known :: "Supervisor \<Rightarrow> bool" where
  "known sv \<longleftrightarrow> (sv_local sv \<longrightarrow> sv_bridge_attempted sv)"

lemma tries_of_eq:
  "tries_of a = (b, t, bo, to, at) \<longleftrightarrow> bridge_tries a = b \<and> transport_tries a = t \<and> bridge_open a = bo \<and> transport_open a = to \<and> sv_bridge_attempted a = at"
  by (simp add: tries_of_def)

lemma bridge_counts:
  "bridge_tries (bridge_step i sv) + bridge_open (bridge_step i sv) \<le> bridge_tries sv + bridge_open sv + of_bool (rd_retry_bridge i)"
  "transport_tries (bridge_step i sv) + transport_open (bridge_step i sv) + bridge_tries sv
    \<le> transport_tries sv + transport_open sv + bridge_tries (bridge_step i sv)"
  "known sv \<Longrightarrow> known (bridge_step i sv)"
proof -
  consider "tries_of (bridge_step i sv) = tries_of sv"
    | "should_launch (sv_bridge_attempted sv) (rd_retry_bridge i)" "tries_of (bridge_step i sv) = (bridge_tries sv + 1, transport_tries sv, 0, 1, True)"
    using tries_of_bridge [of i sv] by (auto split: if_splits)
  then have "bridge_tries (bridge_step i sv) + bridge_open (bridge_step i sv) \<le> bridge_tries sv + bridge_open sv + of_bool (rd_retry_bridge i)
    \<and> transport_tries (bridge_step i sv) + transport_open (bridge_step i sv) + bridge_tries sv
      \<le> transport_tries sv + transport_open sv + bridge_tries (bridge_step i sv)
    \<and> (known sv \<longrightarrow> known (bridge_step i sv))"
  proof cases
    case 1
    then show ?thesis using local_attempted [of i sv] by (auto simp: tries_of_def known_def)
  next
    case 2
    then show ?thesis by (auto simp: tries_of_eq known_def bridge_open_def should_launch_def)
  qed
  then show "bridge_tries (bridge_step i sv) + bridge_open (bridge_step i sv) \<le> bridge_tries sv + bridge_open sv + of_bool (rd_retry_bridge i)"
    "transport_tries (bridge_step i sv) + transport_open (bridge_step i sv) + bridge_tries sv
      \<le> transport_tries sv + transport_open sv + bridge_tries (bridge_step i sv)"
    "known sv \<Longrightarrow> known (bridge_step i sv)" by blast+
qed

lemma forward_counts:
  assumes "ready \<longrightarrow> sv_bridge_attempted sv"
  shows "bridge_tries (forward_step settings c i ready sv) = bridge_tries sv \<and> bridge_open (forward_step settings c i ready sv) = bridge_open sv
    \<and> sv_bridge_attempted (forward_step settings c i ready sv) = sv_bridge_attempted sv
    \<and> transport_tries (forward_step settings c i ready sv) + transport_open (forward_step settings c i ready sv)
      \<le> transport_tries sv + transport_open sv + of_bool (rd_retry_forward i)"
proof -
  consider "tries_of (forward_step settings c i ready sv) = tries_of sv"
    | "ready" "should_launch (sv_forward_attempted sv) (rd_retry_forward i)"
      "tries_of (forward_step settings c i ready sv) = (bridge_tries sv, transport_tries sv + 1, bridge_open sv, 0, sv_bridge_attempted sv)"
    using tries_of_forward by blast
  then show ?thesis
  proof cases
    case 1
    then show ?thesis by (simp add: tries_of_def)
  next
    case 2
    then show ?thesis using assms by (auto simp: tries_of_eq transport_open_def should_launch_def split: if_splits)
  qed
qed

lemma pass_counts:
  assumes "known sv"
  shows "bridge_tries (pass settings c i sv) + bridge_open (pass settings c i sv) \<le> bridge_tries sv + bridge_open sv + of_bool (rd_retry_bridge i)
    \<and> transport_tries (pass settings c i sv) + transport_open (pass settings c i sv) + bridge_tries sv
      \<le> transport_tries sv + transport_open sv + of_bool (rd_retry_forward i) + bridge_tries (pass settings c i sv)
    \<and> known (pass settings c i sv)"
proof -
  let ?b = "bridge_step i sv"
  obtain ready sv1 where r: "ready_step settings i ?b = (ready, sv1)" by fastforce
  let ?f = "forward_step settings c i ready sv1"
  obtain up sv2 where u: "connected_step settings i ready ?f = (up, sv2)" by fastforce
  have end_: "tries_of (pass settings c i sv) = tries_of ?f"
    using tries_of_rest(3) [where settings = settings and i = i and ready = ready and sv = ?f] by (simp add: pass_def r u)
  have one: "tries_of sv1 = tries_of ?b"
    using tries_of_rest(2) [where settings = settings and i = i and sv = ?b] by (simp add: r)
  have there: "sv_local (pass settings c i sv) = sv_local sv1"
    using local_kept(4) [where settings = settings and i = i and ready = ready and sv = ?f] by (simp add: pass_def r u local_kept(3,5,6))
  have loc: "sv_local sv1 \<longrightarrow> sv_local ?b" "ready \<longrightarrow> sv_local ?b"
    using local_kept(1,2) [where settings = settings and i = i and sv = ?b] by (simp_all add: r)
  have b: "known ?b" by (rule bridge_counts(3) [OF assms])
  have eqs: "bridge_tries sv1 = bridge_tries ?b" "transport_tries sv1 = transport_tries ?b" "bridge_open sv1 = bridge_open ?b"
      "transport_open sv1 = transport_open ?b" "sv_bridge_attempted sv1 = sv_bridge_attempted ?b"
      "bridge_tries (pass settings c i sv) = bridge_tries ?f" "transport_tries (pass settings c i sv) = transport_tries ?f"
      "bridge_open (pass settings c i sv) = bridge_open ?f" "transport_open (pass settings c i sv) = transport_open ?f"
      "sv_bridge_attempted (pass settings c i sv) = sv_bridge_attempted ?f"
    using end_ one by (simp_all add: tries_of_def)
  have "ready \<longrightarrow> sv_bridge_attempted sv1" using loc b by (simp add: known_def eqs)
  note f = forward_counts [OF this, of settings c i]
  have "known (pass settings c i sv)" using there loc b f by (simp add: known_def eqs)
  with f bridge_counts(1,2) [of i sv] show ?thesis unfolding eqs by linarith
qed

lemma passes_counts:
  "known sv \<Longrightarrow> bridge_tries (passes settings c rounds sv) + bridge_open (passes settings c rounds sv)
      \<le> bridge_tries sv + bridge_open sv + length (filter rd_retry_bridge rounds)
    \<and> transport_tries (passes settings c rounds sv) + transport_open (passes settings c rounds sv) + bridge_tries sv
      \<le> transport_tries sv + transport_open sv + length (filter rd_retry_forward rounds) + bridge_tries (passes settings c rounds sv)"
proof (induction rounds arbitrary: sv)
  case (Cons i rounds)
  note one = pass_counts [OF Cons.prems, of settings c i]
  then have "known (pass settings c i sv)" by blast
  from Cons.IH [OF this] one show ?case by (auto simp: passes_def)
qed (simp add: passes_def)

lemma nonce_dropped [simp]: "sv_nonce (drop_local sv) = sv_nonce sv" "sv_nonce (drop_forward sv) = sv_nonce sv" "sv_nonce (drop_wss sv) = sv_nonce sv"
  "sv_nonce (noted e sv) = sv_nonce sv" "sv_nonce (failed x sv) = sv_nonce sv"
  by (simp_all add: drop_local_def drop_forward_def drop_wss_def noted_def failed_def)

lemma nonce_kept:
  "sv_nonce (snd (ready_step settings i sv)) = sv_nonce sv" "sv_nonce (forward_step settings c i ready sv) = sv_nonce sv"
  "sv_nonce (snd (connected_step settings i ready sv)) = sv_nonce sv" "sv_nonce (probe_step settings i up sv) = sv_nonce sv"
  "sv_nonce (show_status settings ready up sv) = sv_nonce sv"
proof -
  have "sv_nonce (snd (needs_transport settings i sv)) = sv_nonce sv" by (simp add: needs_transport_def Let_def)
  moreover have "sv_nonce (launch_transport settings c i sv1) = sv_nonce sv1" for sv1
    by (simp add: launch_transport_def Let_def split: sum.split)
  ultimately show "sv_nonce (forward_step settings c i ready sv) = sv_nonce sv"
    by (cases "needs_transport settings i sv") (simp add: forward_step_def)
qed (simp_all add: ready_step_def connected_step_def probe_step_def show_status_def Let_def split: sum.split option.split)

lemma ready_answered:
  assumes "hs_local_ready (sv_snapshot (pass settings c i sv))"
  shows "probe_local_bridge (rd_loopback i) (ht_local_port settings) (sv_nonce (pass settings c i sv))"
proof -
  obtain ready sv1 where r: "ready_step settings i (bridge_step i sv) = (ready, sv1)" by fastforce
  obtain up sv2 where u: "connected_step settings i ready (forward_step settings c i ready sv1) = (up, sv2)" by fastforce
  have "sv_nonce sv1 = sv_nonce (bridge_step i sv)" using nonce_kept(1) [where settings = settings and i = i and sv = "bridge_step i sv"] by (simp add: r)
  moreover have "sv_nonce sv2 = sv_nonce sv1"
    using nonce_kept(3) [where settings = settings and i = i and ready = ready and sv = "forward_step settings c i ready sv1"] by (simp add: u nonce_kept(2))
  moreover have "ready" using assms by (simp add: pass_def r u show_status_def)
  then have "probe_local_bridge (rd_loopback i) (ht_local_port settings) (sv_nonce (bridge_step i sv))" using r by (simp add: ready_step_def Let_def)
  ultimately show ?thesis by (simp add: pass_def r u nonce_kept(4,5))
qed

section \<open>Properties\<close>

text \<open>Without automatic reconnect the local bridge is started once and the way to it once, and each pass with the switch on
  allows one more; a failed start counts.\<close>

theorem supervisor_attempts:
  "bridge_tries (passes settings c rounds (started now snapshot)) \<le> 1 + length (filter rd_retry_bridge rounds)
   \<and> transport_tries (passes settings c rounds (started now snapshot))
      \<le> bridge_tries (passes settings c rounds (started now snapshot)) + length (filter rd_retry_forward rounds)"
proof -
  have "known (started now snapshot)" "bridge_tries (started now snapshot) = 0" "transport_tries (started now snapshot) = 0"
      "bridge_open (started now snapshot) = 1" "transport_open (started now snapshot) = 0"
    by (simp_all add: known_def started_def tries_defs)
  with passes_counts [of "started now snapshot" settings c rounds] show ?thesis by auto
qed


text \<open>C36: when the supervisor has stopped, all it ever launched has ended, and the status says so.\<close>

theorem supervisor_leaves_nothing:
  "(\<forall>p. count_list (sv_events (run_supervisor settings c now snapshot rounds)) (Launched p)
        = count_list (sv_events (run_supervisor settings c now snapshot rounds)) (Ended p))
   \<and> (let s = sv_snapshot (run_supervisor settings c now snapshot rounds) in
        \<not> hs_local_ready s \<and> \<not> hs_ssh_connected s \<and> \<not> hs_transport_connected s \<and> \<not> hs_remote_ready s)"
proof -
  note passes_sound [of settings c rounds now snapshot]
  then have "sound settings (drop_local (drop_wss (drop_forward (passes settings c rounds (started now snapshot)))))" by simp
  then show ?thesis by (simp add: run_supervisor_def wind_down_def Let_def sound_def balanced_def all_parts)
qed

section \<open>Witness\<close>

definition good_web :: WebClient where
  "good_web = \<lparr>wb_get = (\<lambda>_. Inr (200, Some (JObject [(''issuer'', JString ''https://a.example'')]))),
     wb_post = (\<lambda>_. Inr (401, Some ''Bearer resource_metadata=x''))\<rparr>"

definition good_round :: Round where
  "good_round = \<lparr>rd_local_first = True, rd_retry_bridge = False, rd_nonce = Inr ''n'', rd_bridge = Inr (), rd_bridge_at = 0,
     rd_local_again = True,
     rd_loopback = (\<lambda>_ x. Some (200, Some (JObject [(''status'', JString ''ready''), (''instance'', JString x)]))),
     rd_wss_alive = True, rd_forward_first = True, rd_retry_forward = False, rd_forward = Inr (), rd_forward_at = 0,
     rd_wss_connected = True, rd_forward_again = True, rd_wss_error = None, rd_now = 1, rd_stamp = 7, rd_client = Inr good_web\<rparr>"

definition web_settings :: HttpsMcpSettings where
  "web_settings = default_https\<lparr>ht_base_url := ''https://a.example''\<rparr>"

definition good_pass :: Supervisor where
  "good_pass = pass web_settings True good_round (passes web_settings True [] (started 0 default_https_snapshot))"

lemma good_ready: "hs_remote_ready (sv_snapshot good_pass)"
  by code_simp


end
