(* ===== verification/Call_History.thy ===== *)
theory Call_History
  imports Monitor_Activity Monitor_Http
begin

text \<open>
  The history of tool calls shown to the user (\<^verbatim>\<open>src-tauri/src/call_history.rs\<close>): the end of each server's file, its lines
  filtered and counted, and the newest ones with statistics.

  What a line of JSON is, is a parameter. The average is computed exactly, in tenths of a millisecond, where the program
  uses floating point numbers. A file that grows while it is read is not modelled.
\<close>

section \<open>The end of a file\<close>

definition HISTORY_MAX_BYTES_PER_TRANSPORT :: nat where
  "HISTORY_MAX_BYTES_PER_TRANSPORT = 2 * 1024 * 1024"

text \<open>Opening the file fails, finds none, or gives its bytes.\<close>

definition read_call_history_tail :: "string + string option \<Rightarrow> nat \<Rightarrow> string + string" where
  "read_call_history_tail file max_bytes =
     (case file of
        Inl e \<Rightarrow> Inl (''cannot open the call history: '' @ e)
      | Inr None \<Rightarrow> Inr []
      | Inr (Some content) \<Rightarrow>
         (let start = length content - max_bytes;
              text = lossy (take max_bytes (drop start content))
          in Inr (if 0 < start then (if LF \<in> set text then tl (dropWhile (\<lambda>c. c \<noteq> LF) text) else []) else text)))"

section \<open>Records\<close>

record History =
  hy_records :: "json list"
  hy_tool_names :: "string set"
  hy_total :: nat
  hy_invalid :: nat

definition record_success :: "json \<Rightarrow> bool" where
  "record_success r \<longleftrightarrow> Option.bind (Option.bind (json_get ''output'' r) (json_get ''isError'')) json_as_bool \<noteq> Some True"

fun tagged :: "string \<Rightarrow> bool \<Rightarrow> json \<Rightarrow> json" where
  "tagged source success (JObject kvs) = JObject (json_insert ''source'' (JString source) (json_insert ''success'' (JBool success) kvs))"
| "tagged source success r = r"

definition passes_filters :: "string option \<Rightarrow> string option \<Rightarrow> string \<Rightarrow> bool \<Rightarrow> bool" where
  "passes_filters tool status name success \<longleftrightarrow>
     \<not> (tool \<noteq> None \<and> tool \<noteq> Some name) \<and> \<not> (status = Some ''success'' \<and> \<not> success) \<and> \<not> (status = Some ''error'' \<and> success)"

definition take_line ::
  "(string \<Rightarrow> json option) \<Rightarrow> string option \<Rightarrow> string option \<Rightarrow> string \<Rightarrow> string \<Rightarrow> History \<Rightarrow> History" where
  "take_line parse tool status source line h =
     (case parse line of
        None \<Rightarrow> h\<lparr>hy_invalid := hy_invalid h + 1\<rparr>
      | Some r \<Rightarrow>
         (case json_str_at ''toolName'' r of
            None \<Rightarrow> h\<lparr>hy_invalid := hy_invalid h + 1\<rparr>
          | Some name \<Rightarrow>
             (let h1 = h\<lparr>hy_total := hy_total h + 1, hy_tool_names := insert name (hy_tool_names h)\<rparr>
              in if passes_filters tool status name (record_success r)
                 then h1\<lparr>hy_records := hy_records h1 @ [tagged source (record_success r) r]\<rparr> else h1)))"

definition history_lines :: "string \<Rightarrow> string list" where
  "history_lines t = filter (\<lambda>line. trim line \<noteq> []) (text_lines t)"

definition take_source ::
  "(string \<Rightarrow> json option) \<Rightarrow> string option \<Rightarrow> string option \<Rightarrow> string \<times> string \<Rightarrow> History \<Rightarrow> History" where
  "take_source parse tool status entry h = (case entry of (source, t) \<Rightarrow> fold (take_line parse tool status source) (history_lines t) h)"

definition take_sources :: "(string \<Rightarrow> json option) \<Rightarrow> string option \<Rightarrow> string option \<Rightarrow> (string \<times> string) list \<Rightarrow> History" where
  "take_sources parse tool status sources =
     fold (take_source parse tool status) sources \<lparr>hy_records = [], hy_tool_names = {}, hy_total = 0, hy_invalid = 0\<rparr>"

section \<open>Statistics and order\<close>

definition p95 :: "nat list \<Rightarrow> nat option" where
  "p95 ds = (let i = (length ds * 95 + 99) div 100 - 1 in if i < length ds then Some (ds ! i) else None)"

text \<open>Rounded half away from zero.\<close>

definition average_tenths :: "nat list \<Rightarrow> nat option" where
  "average_tenths ds = (if ds = [] then None else Some ((20 * sum_list ds + length ds) div (2 * length ds)))"

text \<open>The stable sort, newest timestamp first.\<close>

fun insert_record :: "json \<Rightarrow> json list \<Rightarrow> json list" where
  "insert_record a [] = [a]"
| "insert_record a (b # bs) = (if row_text b \<le> row_text a then a # b # bs else b # insert_record a bs)"

definition newest_first :: "json list \<Rightarrow> json list" where
  "newest_first rs = foldr insert_record rs []"

record HistoryPage =
  pg_items :: "json list"
  pg_total :: nat
  pg_filtered_total :: nat
  pg_tool_names :: "string list"
  pg_invalid :: nat
  pg_success_count :: nat
  pg_error_count :: nat
  pg_average_tenths :: "nat option"
  pg_p95 :: "nat option"

definition parse_call_histories ::
  "(string \<Rightarrow> json option) \<Rightarrow> (string \<times> string) list \<Rightarrow> nat \<Rightarrow> string option \<Rightarrow> string option \<Rightarrow> HistoryPage" where
  "parse_call_histories parse sources limit tool status =
     (let h = take_sources parse tool status sources; records = hy_records h;
          successes = length (filter (\<lambda>r. json_bool_at ''success'' r = Some True) records);
          durations = sort (List.map_filter (json_u64_at ''duration'') records)
      in \<lparr>pg_items = take limit (newest_first records), pg_total = hy_total h, pg_filtered_total = length records,
          pg_tool_names = sorted_list_of_set (hy_tool_names h), pg_invalid = hy_invalid h, pg_success_count = successes,
          pg_error_count = length records - successes, pg_average_tenths = average_tenths durations, pg_p95 = p95 durations\<rparr>)"

section \<open>Commands\<close>

definition clamp :: "nat \<Rightarrow> nat \<Rightarrow> nat \<Rightarrow> nat" where
  "clamp lo hi n = (if n < lo then lo else if hi < n then hi else n)"

definition filter_text :: "string option \<Rightarrow> string option" where
  "filter_text x = (case x of None \<Rightarrow> None | Some t \<Rightarrow> if trim t = [] then None else Some (trim t))"

fun read_tails :: "(string \<times> (string + string option)) list \<Rightarrow> string + (string \<times> string) list" where
  "read_tails [] = Inr []"
| "read_tails ((source, file) # rest) =
     (case read_call_history_tail file HISTORY_MAX_BYTES_PER_TRANSPORT of
        Inl e \<Rightarrow> Inl (''cannot read '' @ source @ '': '' @ e)
      | Inr t \<Rightarrow> map_sum id (\<lambda>ts. (source, t) # ts) (read_tails rest))"

definition get_call_history ::
  "(string \<Rightarrow> json option) \<Rightarrow> (string \<times> (string + string option)) list \<Rightarrow> nat option \<Rightarrow> string option \<Rightarrow> string option \<Rightarrow> string + HistoryPage" where
  "get_call_history parse files limit tool status =
     (let n = clamp 1 1000 (case limit of None \<Rightarrow> 100 | Some l \<Rightarrow> l) in
      if filter_text status \<notin> {None, Some ''success'', Some ''error''} then Inl ''the status must be success or error''
      else map_sum id (\<lambda>texts. parse_call_histories parse texts n (filter_text tool) (filter_text status)) (read_tails files))"

text \<open>Clearing stops at the first file that cannot be written; \<open>writable\<close> says which can.\<close>

fun clear_call_history :: "(string \<Rightarrow> bool) \<Rightarrow> (string \<times> string option) list \<Rightarrow> (string + unit) \<times> (string \<times> string option) list" where
  "clear_call_history writable [] = (Inr (), [])"
| "clear_call_history writable ((source, file) # rest) =
     (if file = None then map_prod id ((#) (source, file)) (clear_call_history writable rest)
      else if writable source then map_prod id ((#) (source, Some [])) (clear_call_history writable rest)
      else (Inl (''cannot clear '' @ source), (source, file) # rest))"

section \<open>Lemmas\<close>

lemma insert_record_mset [simp]: "mset (insert_record a rs) = add_mset a (mset rs)"
  by (induction rs) auto

lemma newest_first_mset [simp]: "mset (newest_first rs) = mset rs"
  by (induction rs) (simp_all add: newest_first_def)

lemma newest_first_length [simp]: "length (newest_first rs) = length rs"
  by (metis newest_first_mset size_mset)

abbreviation by_time :: "json list \<Rightarrow> bool" where
  "by_time \<equiv> sorted_wrt (\<lambda>a b. row_text b \<le> row_text a)"

lemma insert_record_sorted: "by_time rs \<Longrightarrow> by_time (insert_record a rs)"
proof (induction rs)
  case (Cons b rs)
  have "set (insert_record a rs) = insert a (set rs)" by (metis insert_record_mset set_mset_add_mset_insert set_mset_mset)
  with Cons show ?case by (auto intro: order_trans)
qed simp

lemma newest_first_sorted: "by_time (newest_first rs)"
  by (induction rs) (simp_all add: newest_first_def insert_record_sorted)

text \<open>At most five of a hundred durations are above the value, and fewer than ninety-five below it.\<close>

lemma p95_bounds:
  assumes "sorted ds" and "p95 ds = Some d"
  shows "d \<in> set ds" and "95 * length ds \<le> 100 * length (filter (\<lambda>x. x \<le> d) ds)" and "100 * length (filter (\<lambda>x. x < d) ds) < 95 * length ds"
proof -
  define i where "i = (length ds * 95 + 99) div 100 - 1"
  from assms(2) have i: "i < length ds" "d = ds ! i" by (auto simp: p95_def Let_def i_def split: if_splits)
  then show "d \<in> set ds" by simp
  have "length (filter (\<lambda>x. x \<le> d) ds) \<ge> Suc i"
  proof -
    have "filter (\<lambda>x. x \<le> d) (take (Suc i) ds) = take (Suc i) ds"
      using assms(1) i by (auto intro!: filter_True simp: in_set_conv_nth sorted_iff_nth_mono)
    then have "length (filter (\<lambda>x. x \<le> d) (take (Suc i) ds)) = Suc i" using i by simp
    moreover have "length (filter (\<lambda>x. x \<le> d) ds) = length (filter (\<lambda>x. x \<le> d) (take (Suc i) ds)) + length (filter (\<lambda>x. x \<le> d) (drop (Suc i) ds))"
      by (metis append_take_drop_id filter_append length_append)
    ultimately show ?thesis by simp
  qed
  moreover have "95 * length ds \<le> 100 * Suc i" using i(1) by (simp add: i_def)
  ultimately show "95 * length ds \<le> 100 * length (filter (\<lambda>x. x \<le> d) ds)" by (meson le_trans mult_le_mono2)
  have "filter (\<lambda>x. x < d) (drop i ds) = []"
    using assms(1) i by (auto simp: filter_empty_conv in_set_conv_nth sorted_iff_nth_mono not_less)
  then have "length (filter (\<lambda>x. x < d) ds) = length (filter (\<lambda>x. x < d) (take i ds))"
    by (metis append_Nil2 append_take_drop_id filter_append)
  also have "\<dots> \<le> i" using i by (metis length_filter_le length_take min.absorb4 less_imp_le)
  finally have "length (filter (\<lambda>x. x < d) ds) \<le> i" .
  moreover have "100 * i < 95 * length ds" using i(1) by (simp add: i_def)
  ultimately show "100 * length (filter (\<lambda>x. x < d) ds) < 95 * length ds" by (meson le_less_trans mult_le_mono2)
qed

text \<open>All lines, and the records among them with source and tool.\<close>

definition all_lines :: "(string \<times> string) list \<Rightarrow> (string \<times> string) list" where
  "all_lines sources = concat (map (\<lambda>(source, t). map (Pair source) (history_lines t)) sources)"

definition call_of_line :: "(string \<Rightarrow> json option) \<Rightarrow> string \<times> string \<Rightarrow> (string \<times> string \<times> json) option" where
  "call_of_line parse e = (case e of (source, line) \<Rightarrow>
     Option.bind (parse line) (\<lambda>r. map_option (\<lambda>name. (source, name, r)) (json_str_at ''toolName'' r)))"

definition all_calls :: "(string \<Rightarrow> json option) \<Rightarrow> (string \<times> string) list \<Rightarrow> (string \<times> string \<times> json) list" where
  "all_calls parse sources = List.map_filter (call_of_line parse) (all_lines sources)"

definition chosen :: "(string \<Rightarrow> json option) \<Rightarrow> string option \<Rightarrow> string option \<Rightarrow> (string \<times> string) list \<Rightarrow> (string \<times> string \<times> json) list" where
  "chosen parse tool status sources = filter (\<lambda>(source, name, r). passes_filters tool status name (record_success r)) (all_calls parse sources)"

definition row_of :: "string \<times> string \<times> json \<Rightarrow> json" where
  "row_of c = (case c of (source, name, r) \<Rightarrow> tagged source (record_success r) r)"

definition accounted ::
  "string option \<Rightarrow> string option \<Rightarrow> (string \<times> string) list \<Rightarrow> (string \<times> string \<times> json) list \<Rightarrow> History \<Rightarrow> bool" where
  "accounted tool status lines calls h \<longleftrightarrow> hy_total h = length calls \<and> hy_total h + hy_invalid h = length lines
     \<and> hy_tool_names h = (\<lambda>(source, name, r). name) ` set calls
     \<and> hy_records h = map row_of (filter (\<lambda>(source, name, r). passes_filters tool status name (record_success r)) calls)"

lemma take_line_accounted:
  assumes "accounted tool status lines (List.map_filter (call_of_line parse) lines) h"
  shows "accounted tool status (lines @ [(source, line)]) (List.map_filter (call_of_line parse) (lines @ [(source, line)])) (take_line parse tool status source line h)"
  using assms
  by (auto simp: accounted_def take_line_def call_of_line_def map_filter_def row_of_def Let_def split: option.splits)

lemma take_source_accounted:
  assumes "accounted tool status lines (List.map_filter (call_of_line parse) lines) h"
  shows "accounted tool status (lines @ map (Pair source) ls) (List.map_filter (call_of_line parse) (lines @ map (Pair source) ls))
    (fold (take_line parse tool status source) ls h)"
  using assms
proof (induction ls arbitrary: lines h)
  case (Cons l ls)
  from Cons.IH [OF take_line_accounted [OF Cons.prems, of source l]] show ?case by simp
qed simp

lemma take_sources_accounted: "accounted tool status (all_lines sources) (all_calls parse sources) (take_sources parse tool status sources)"
proof -
  have "accounted tool status (lines @ all_lines sources) (List.map_filter (call_of_line parse) (lines @ all_lines sources))
      (fold (take_source parse tool status) sources h)"
    if "accounted tool status lines (List.map_filter (call_of_line parse) lines) h" for lines h
    using that
  proof (induction sources arbitrary: lines h)
    case (Cons e sources)
    obtain source t where e: "e = (source, t)" by fastforce
    from Cons.IH [OF take_source_accounted [OF Cons.prems, of source "history_lines t"]] show ?case
      by (simp add: e all_lines_def take_source_def)
  qed (simp add: all_lines_def)
  moreover have "accounted tool status [] (List.map_filter (call_of_line parse) []) \<lparr>hy_records = [], hy_tool_names = {}, hy_total = 0, hy_invalid = 0\<rparr>"
    by (simp add: accounted_def map_filter_def)
  ultimately show ?thesis unfolding take_sources_def all_calls_def by (metis append_Nil)
qed

lemma row_success:
  assumes "call_of_line parse e = Some (source, name, r)"
  shows "json_bool_at ''success'' (row_of (source, name, r)) = Some (record_success r)"
proof -
  obtain kvs where "r = JObject kvs" using assms by (cases r) (auto simp: call_of_line_def json_str_at_def split: prod.splits bind_splits)
  then show ?thesis by (simp add: row_of_def json_bool_at_def)
qed

lemma chosen_rows:
  "filter (\<lambda>r. json_bool_at ''success'' r = Some True) (map row_of (chosen parse tool status sources))
    = map row_of (filter (\<lambda>(source, name, r). record_success r) (chosen parse tool status sources))"
proof -
  have "json_bool_at ''success'' (row_of c) = Some True \<longleftrightarrow> (case c of (source, name, r) \<Rightarrow> record_success r)"
    if "c \<in> set (chosen parse tool status sources)" for c
  proof -
    obtain source name r where c: "c = (source, name, r)" by (cases c)
    from that obtain e where "call_of_line parse e = Some (source, name, r)"
      by (auto simp: c chosen_def all_calls_def map_filter_def)
    with row_success [OF this] show ?thesis by (simp add: c)
  qed
  then show ?thesis by (simp add: filter_map o_def cong: filter_cong)
qed

text \<open>A line feed is never part of a longer code point, so lines can be decoded one by one.\<close>

lemma utf8_step_line:
  assumes "a \<noteq> []"
  shows "utf8_step (a @ 10 # b) = utf8_step a" and "snd (utf8_step a) \<le> length a"
proof -
  obtain x r where a: "a = x # r" using assms by (cases a) auto
  consider "r = []" | y where "r = [y]" | y z where "r = [y, z]" | y z u v where "r = y # z # u # v"
    by (metis remdups_adj.cases)
  then have "utf8_step (a @ 10 # b) = utf8_step a \<and> snd (utf8_step a) \<le> length a"
    by cases (auto simp: a utf8_step_def utf8_second_def Let_def)
  then show "utf8_step (a @ 10 # b) = utf8_step a" and "snd (utf8_step a) \<le> length a" by blast+
qed

lemma lossy_line: "lossy (a @ LF # b) = lossy a @ LF # lossy b"
proof (induction a rule: lossy.induct)
  case (1 a)
  show ?case
  proof (cases "a = []")
    case True
    have "utf8_step (10 # map code b) = (True, 1)" by (simp add: utf8_step_def utf8_lead_def)
    moreover have "code LF = 10" by (simp add: code_def)
    ultimately show ?thesis by (simp add: True lossy.simps [of "LF # b"] lossy.simps [of "[]"])
  next
    case False
    have "map code (a @ LF # b) = map code a @ 10 # map code b" by (simp add: code_def)
    with False utf8_step_line(1) [of "map code a" "map code b"] utf8_step_line(2) [of "map code a"]
    have step: "utf8_step (map code (a @ LF # b)) = utf8_step (map code a)" "snd (utf8_step (map code a)) \<le> length a" by simp_all
    show ?thesis
      by (subst lossy.simps, subst (2) lossy.simps) (use False step 1 in simp)
  qed
qed

lemma lossy_no_line: "LF \<notin> set a \<Longrightarrow> LF \<notin> set (lossy a)"
proof (induction a rule: lossy.induct)
  case (1 a)
  show ?case
  proof (cases "a = []")
    case False
    have "LF \<notin> set (drop n a)" "LF \<notin> set (take n a)" for n using 1(2) by (meson in_set_dropD in_set_takeD)+
    with 1(1) False show ?thesis by (subst lossy.simps) auto
  qed (simp add: lossy.simps)
qed

section \<open>Properties\<close>

text \<open>C38: the page accounts for every line. Each line that is not blank is a call or counted as invalid; the numbers are those of
  the calls that pass the filters; the page holds the newest of them, newest first, and none left out is newer; ninety-five of a
  hundred durations do not exceed the 95th percentile, and it is the smallest one with that property.\<close>

theorem history_page_complete:
  assumes "pg = parse_call_histories parse sources limit tool status"
  shows "pg_total pg + pg_invalid pg = length (all_lines sources) \<and> pg_total pg = length (all_calls parse sources)
     \<and> set (pg_tool_names pg) = (\<lambda>(source, name, r). name) ` set (all_calls parse sources)
     \<and> pg_success_count pg = length (filter (\<lambda>(source, name, r). record_success r) (chosen parse tool status sources))
     \<and> pg_success_count pg + pg_error_count pg = pg_filtered_total pg
     \<and> pg_filtered_total pg = length (chosen parse tool status sources)
     \<and> length (pg_items pg) = min limit (pg_filtered_total pg) \<and> by_time (pg_items pg)
     \<and> (\<exists>older. mset (pg_items pg) + mset older = mset (map row_of (chosen parse tool status sources))
          \<and> (\<forall>a \<in> set (pg_items pg). \<forall>b \<in> set older. row_text b \<le> row_text a))
     \<and> (\<forall>d. pg_p95 pg = Some d \<longrightarrow> (let ds = List.map_filter (json_u64_at ''duration'') (map row_of (chosen parse tool status sources)) in
          d \<in> set ds \<and> 95 * length ds \<le> 100 * length (filter (\<lambda>x. x \<le> d) ds) \<and> 100 * length (filter (\<lambda>x. x < d) ds) < 95 * length ds))"
proof -
  let ?h = "take_sources parse tool status sources" and ?rows = "map row_of (chosen parse tool status sources)"
  note acc = take_sources_accounted [of tool status sources parse, unfolded accounted_def]
  have rows: "hy_records ?h = ?rows" using acc by (simp add: chosen_def)
  let ?n = "newest_first ?rows"
  have "mset (take limit ?n) + mset (drop limit ?n) = mset ?rows" by (metis append_take_drop_id mset_append newest_first_mset)
  moreover have "\<forall>a \<in> set (take limit ?n). \<forall>b \<in> set (drop limit ?n). row_text b \<le> row_text a"
    using newest_first_sorted [of ?rows] by (metis append_take_drop_id sorted_wrt_append)
  ultimately have older: "\<exists>older. mset (take limit ?n) + mset older = mset ?rows \<and> (\<forall>a \<in> set (take limit ?n). \<forall>b \<in> set older. row_text b \<le> row_text a)"
    by blast
  have time: "by_time (take limit ?n)"
    using newest_first_sorted [of ?rows] by (metis append_take_drop_id sorted_wrt_append)
  let ?ds = "List.map_filter (json_u64_at ''duration'') ?rows"
  have len: "length (filter P (sort ?ds)) = length (filter P ?ds)" for P :: "nat \<Rightarrow> bool"
    by (metis filter_sort length_sort)
  have p: "d \<in> set ?ds \<and> 95 * length ?ds \<le> 100 * length (filter (\<lambda>x. x \<le> d) ?ds) \<and> 100 * length (filter (\<lambda>x. x < d) ?ds) < 95 * length ?ds"
    if "p95 (sort ?ds) = Some d" for d
    using p95_bounds [OF sorted_sort that] by (simp add: len)
  have fin: "finite (hy_tool_names ?h)" using acc by simp
  have s: "length (filter (\<lambda>r. json_bool_at ''success'' r = Some True) ?rows)
      = length (filter (\<lambda>(source, name, r). record_success r) (chosen parse tool status sources))"
    by (subst chosen_rows) simp
  have pg: "pg_items pg = take limit ?n" "pg_total pg = hy_total ?h" "pg_filtered_total pg = length (chosen parse tool status sources)"
      "set (pg_tool_names pg) = hy_tool_names ?h" "pg_invalid pg = hy_invalid ?h" "pg_p95 pg = p95 (sort ?ds)"
      "pg_success_count pg = length (filter (\<lambda>(source, name, r). record_success r) (chosen parse tool status sources))"
      "pg_error_count pg = length (chosen parse tool status sources) - length (filter (\<lambda>(source, name, r). record_success r) (chosen parse tool status sources))"
    unfolding assms parse_call_histories_def Let_def rows using fin s by simp_all
  have count: "pg_success_count pg + pg_error_count pg = pg_filtered_total pg"
    unfolding pg by (rule le_add_diff_inverse) (rule length_filter_le)
  have items: "length (take limit ?n) = min limit (length (chosen parse tool status sources))" by (simp add: min.commute)
  show ?thesis
    unfolding count unfolding pg Let_def items using acc older time p by blast
qed

text \<open>Of a file that is too long the lines at its end are shown whole: what is shown is the decoded text after some line feed, and
  at most the given number of bytes.\<close>

theorem history_tail_whole_lines:
  assumes "read_call_history_tail (Inr (Some content)) max_bytes = Inr t"
  shows "\<exists>before rest. content = before @ rest \<and> t = lossy rest \<and> length rest \<le> max_bytes
     \<and> (before = [] \<or> rest = [] \<or> last before = LF)"
proof -
  define start where "start = length content - max_bytes"
  define kept where "kept = drop start content"
  have content: "content = take start content @ kept" and len: "length kept \<le> max_bytes" by (simp_all add: kept_def start_def)
  then have all: "take max_bytes (drop start content) = kept" by (simp add: kept_def)
  have "read_call_history_tail (Inr (Some content)) max_bytes
      = Inr (if 0 < start then (if LF \<in> set (lossy kept) then tl (dropWhile (\<lambda>c. c \<noteq> LF) (lossy kept)) else []) else lossy kept)"
    unfolding read_call_history_tail_def sum.case option.case Let_def start_def [symmetric] all ..
  with assms have t: "t = (if 0 < start then (if LF \<in> set (lossy kept) then tl (dropWhile (\<lambda>c. c \<noteq> LF) (lossy kept)) else []) else lossy kept)"
    by simp
  show ?thesis
  proof (cases "start = 0")
    case True
    then show ?thesis using t content len by (intro exI [of _ "[]"] exI [of _ kept]) (simp add: kept_def)
  next
    case False
    show ?thesis
    proof (cases "LF \<in> set kept")
      case True
      then obtain a b where ab: "kept = a @ LF # b" "LF \<notin> set a" by (meson split_list_first)
      have "dropWhile (\<lambda>c. c \<noteq> LF) (lossy a @ LF # lossy b) = LF # lossy b"
        using lossy_no_line [OF ab(2)] by (subst dropWhile_append2) auto
      then have "t = lossy b" using t False by (simp add: ab(1) lossy_line)
      then show ?thesis using content ab len
        by (intro exI [of _ "take start content @ a @ [LF]"] exI [of _ b]) simp
    next
      case no: False
      then have "t = lossy []" using t False lossy_no_line by (simp add: lossy.simps)
      then show ?thesis by (intro exI [of _ content] exI [of _ "[]"]) simp
    qed
  qed
qed

text \<open>Clearing leaves no file untouched that it says to have cleared, and touches none that is not there.\<close>

lemma clear_call_history_all:
  "clear_call_history writable files = (Inr (), files1) \<Longrightarrow> files1 = map (\<lambda>(source, file). (source, map_option (\<lambda>_. []) file)) files"
  by (induction writable files arbitrary: files1 rule: clear_call_history.induct)
    (auto simp: map_prod_def split: if_splits prod.splits)

section \<open>Witnesses\<close>

theorem history_page_complete_witness:
  "\<exists>pg. pg = parse_call_histories (\<lambda>_. None) [(''a'', ''x'')] 5 None None \<and> pg_total pg + pg_invalid pg = 1"
proof -
  have "all_lines [(''a'', ''x'')] = [(''a'', ''x'')]" by code_simp
  with history_page_complete [OF refl, of "\<lambda>_. None" "[(''a'', ''x'')]" 5 None None] show ?thesis by auto
qed

theorem history_tail_whole_lines_witness:
  "\<exists>before rest. ''ab'' @ LF # ''cd'' = before @ rest \<and> ''cd'' = lossy rest \<and> length rest \<le> 4"
proof -
  have "read_call_history_tail (Inr (Some (''ab'' @ LF # ''cd''))) 4 = Inr ''cd''"
    by (simp add: read_call_history_tail_def lossy.simps utf8_step_def utf8_lead_def code_def)
  from history_tail_whole_lines [OF this] show ?thesis by blast
qed

end
