(* ===== verification/Monitor_Network.thy ===== *)
theory Monitor_Network
  imports Monitor_Activity Remote_Addresses "HOL-Library.Product_Lexorder"
begin

text \<open>
  The addresses under which phones in the same network find the desktop (\<^verbatim>\<open>src-tauri/src/monitor_network.rs\<close>).

  The interfaces of the host are a parameter, with the address and the two verdicts the \<^verbatim>\<open>if_addrs\<close> library gives of each; what
  the program uses of \<^verbatim>\<open>IpAddr\<close> is written out, the text of an IPv6 address included.
\<close>

section \<open>Addresses\<close>

datatype ip_addr = V4 u8 u8 u8 u8 | V6 u16 u16 u16 u16 u16 u16 u16 u16

fun is_private :: "ip_addr \<Rightarrow> bool" where
  "is_private (V4 a b c d) \<longleftrightarrow> a = 10 \<or> a = 172 \<and> 16 \<le> b \<and> b \<le> 31 \<or> a = 192 \<and> b = 168"
| "is_private (V6 a b c d e f g h) \<longleftrightarrow> False"

text \<open>Neither unspecified nor the loopback address nor multicast, and with no local prefix.\<close>

fun is_global_v6 :: "ip_addr \<Rightarrow> bool" where
  "is_global_v6 (V6 a b c d e f g h) \<longleftrightarrow>
     \<not> list_all (\<lambda>s. s = 0) [a, b, c, d, e, f, g, h]
   \<and> \<not> (list_all (\<lambda>s. s = 0) [a, b, c, d, e, f, g] \<and> h = 1)
   \<and> and a 0xff00 \<noteq> 0xff00
   \<and> and a 0xfe00 \<noteq> 0xfc00
   \<and> and a 0xffc0 \<noteq> 0xfe80"
| "is_global_v6 (V4 a b c d) \<longleftrightarrow> False"

definition classify_ip :: "ip_addr \<Rightarrow> string option" where
  "classify_ip ip =
     (case ip of
        V4 _ _ _ _ \<Rightarrow> if is_private ip then Some ''lan'' else None
      | V6 _ _ _ _ _ _ _ _ \<Rightarrow> if is_global_v6 ip then Some ''ipv6'' else None)"

section \<open>Their text\<close>

definition octets_text :: "u8 \<Rightarrow> u8 \<Rightarrow> u8 \<Rightarrow> u8 \<Rightarrow> string" where
  "octets_text a b c d = decimal (unat a) @ ''.'' @ decimal (unat b) @ ''.'' @ decimal (unat c) @ ''.'' @ decimal (unat d)"

fun hex_number :: "nat \<Rightarrow> string" where
  "hex_number n = (if n < 16 then [hex_char n] else hex_number (n div 16) @ [hex_char (n mod 16)])"

declare hex_number.simps [simp del]

fun colon_list :: "u16 list \<Rightarrow> string" where
  "colon_list [] = []"
| "colon_list [s] = hex_number (unat s)"
| "colon_list (s # ss) = hex_number (unat s) @ '':'' @ colon_list ss"

text \<open>The first longest run of zeros, as its start and its length.\<close>

fun zero_run :: "nat \<Rightarrow> u16 list \<Rightarrow> nat \<times> nat \<Rightarrow> nat \<times> nat \<Rightarrow> nat \<times> nat" where
  "zero_run i [] current longest = longest"
| "zero_run i (s # ss) current longest =
     (if s = 0 then
        let current = (if snd current = 0 then (i, 1) else (fst current, snd current + 1))
        in zero_run (i + 1) ss current (if snd longest < snd current then current else longest)
      else zero_run (i + 1) ss (0, 0) longest)"

definition segments_text :: "u16 list \<Rightarrow> string" where
  "segments_text ss =
     (case zero_run 0 ss (0, 0) (0, 0) of (start, len) \<Rightarrow>
        if 1 < len then colon_list (take start ss) @ ''::'' @ colon_list (drop (start + len) ss) else colon_list ss)"

text \<open>An address that maps an IPv4 address ends in that.\<close>

fun ip_text :: "ip_addr \<Rightarrow> string" where
  "ip_text (V4 a b c d) = octets_text a b c d"
| "ip_text (V6 a b c d e f g h) =
     (if list_all (\<lambda>s. s = 0) [a, b, c, d, e] \<and> f = 0xffff
      then ''::ffff:'' @ octets_text (ucast (drop_bit 8 g)) (ucast g) (ucast (drop_bit 8 h)) (ucast h)
      else segments_text [a, b, c, d, e, f, g, h])"

section \<open>Endpoints\<close>

record NetInterface =
  ni_name :: string
  ni_loopback :: bool
  ni_link_local :: bool
  ni_ip :: ip_addr

record MonitorEndpoint =
  en_kind :: string
  en_family :: string
  en_interface :: string
  en_host :: string
  en_url :: string

definition is_virtual_interface_name :: "string \<Rightarrow> bool" where
  "is_virtual_interface_name name \<longleftrightarrow>
     list_ex (\<lambda>marker. contains_text marker (to_ascii_lowercase name))
       [''vethernet'', ''wsl'', ''docker'', ''virtualbox host-only'', ''vmware network adapter'', ''hyper-v'']"

definition endpoint_rank :: "string \<Rightarrow> nat" where
  "endpoint_rank kind = (if kind = ''lan'' then 0 else if kind = ''ipv6'' then 1 else 2)"

definition endpoint_at :: "u16 \<Rightarrow> string \<Rightarrow> NetInterface \<Rightarrow> MonitorEndpoint" where
  "endpoint_at port kind i =
     (let host = ip_text (ni_ip i); tail = '':'' @ decimal (unat port) @ ''/v1/ws/monitor'' in
      \<lparr>en_kind = kind,
       en_family = (case ni_ip i of V4 _ _ _ _ \<Rightarrow> ''ipv4'' | V6 _ _ _ _ _ _ _ _ \<Rightarrow> ''ipv6''),
       en_interface = ni_name i,
       en_host = host,
       en_url = (case ni_ip i of V4 _ _ _ _ \<Rightarrow> ''wss://'' @ host @ tail | V6 _ _ _ _ _ _ _ _ \<Rightarrow> ''wss://['' @ host @ '']'' @ tail)\<rparr>)"

definition endpoint_of :: "u16 \<Rightarrow> NetInterface \<Rightarrow> MonitorEndpoint option" where
  "endpoint_of port i =
     (if ni_loopback i \<or> ni_link_local i \<or> is_virtual_interface_name (ni_name i) then None
      else map_option (\<lambda>kind. endpoint_at port kind i) (classify_ip (ni_ip i)))"

fun collect_endpoints :: "u16 \<Rightarrow> (string \<times> string) set \<Rightarrow> NetInterface list \<Rightarrow> MonitorEndpoint list" where
  "collect_endpoints port seen [] = []"
| "collect_endpoints port seen (i # rest) =
     (case endpoint_of port i of
        None \<Rightarrow> collect_endpoints port seen rest
      | Some e \<Rightarrow>
          if (en_kind e, en_host e) \<in> seen then collect_endpoints port seen rest
          else e # collect_endpoints port (insert (en_kind e, en_host e) seen) rest)"

definition endpoint_key :: "MonitorEndpoint \<Rightarrow> nat \<times> string" where
  "endpoint_key e = (endpoint_rank (en_kind e), en_host e)"

definition discover_monitor_endpoints :: "NetInterface list option \<Rightarrow> u16 \<Rightarrow> MonitorEndpoint list" where
  "discover_monitor_endpoints interfaces port =
     (case interfaces of None \<Rightarrow> [] | Some found \<Rightarrow> sort_key endpoint_key (collect_endpoints port {} found))"

section \<open>Lemmas\<close>

text \<open>What the masks say of the first segment.\<close>

lemma and_high_bits: "and (a :: u16) (not (mask n)) = push_bit n (drop_bit n a)"
  by (rule bit_eqI) (auto simp: bit_simps)

lemma u16_lt: "unat (a :: u16) < 65536"
  by (rule order_less_le_trans [OF unsigned_less]) simp

lemma mask_shape:
  assumes "m = (not (mask n) :: u16)" and "p = push_bit n q" and "unat q * 2 ^ n < 65536" and "n \<le> 15"
  shows "and a m = p \<longleftrightarrow> unat a div 2 ^ n = unat q"
proof -
  have u: "unat (drop_bit n a) = unat a div 2 ^ n"
    using unat_drop_bit_eq [of n a] by (simp add: drop_bit_eq_div [where ?'a = nat])
  then have d: "drop_bit n a = q \<longleftrightarrow> unat a div 2 ^ n = unat q" by (simp only: word_unat_eq_iff)
  have push: "unat (push_bit n (x :: u16)) = unat x * 2 ^ n mod 65536" for x
    by (subst unsigned_push_bit_eq) (simp add: take_bit_eq_mod push_bit_eq_mult)
  have "unat (drop_bit n a) * 2 ^ n \<le> unat a" by (simp only: u div_times_less_eq_dividend)
  then have "unat (drop_bit n a) * 2 ^ n < 65536" using u16_lt [of a] by linarith
  then have "push_bit n (drop_bit n a) = push_bit n q \<longleftrightarrow> drop_bit n a = q"
    using push [of "drop_bit n a"] push [of q] assms(3) by (auto simp: word_unat_eq_iff)
  with d show ?thesis by (simp add: assms(1,2) and_high_bits)
qed

lemma multicast_prefix: "and (a :: u16) 0xff00 = 0xff00 \<longleftrightarrow> 0xff00 \<le> a"
proof -
  have "and a 0xff00 = 0xff00 \<longleftrightarrow> unat a div 2 ^ 8 = unat (0xff :: u16)" by (rule mask_shape) (simp_all add: mask_eq_decr_exp)
  also have "\<dots> \<longleftrightarrow> 0xff00 \<le> a" using u16_lt [of a] by (auto simp: word_le_nat_alt)
  finally show ?thesis .
qed

lemma unique_local_prefix: "and (a :: u16) 0xfe00 = 0xfc00 \<longleftrightarrow> 0xfc00 \<le> a \<and> a < 0xfe00"
proof -
  have "and a 0xfe00 = 0xfc00 \<longleftrightarrow> unat a div 2 ^ 9 = unat (0x7e :: u16)" by (rule mask_shape) (simp_all add: mask_eq_decr_exp)
  also have "\<dots> \<longleftrightarrow> 0xfc00 \<le> a \<and> a < 0xfe00" by (auto simp: word_le_nat_alt word_less_nat_alt)
  finally show ?thesis .
qed

lemma link_local_prefix: "and (a :: u16) 0xffc0 = 0xfe80 \<longleftrightarrow> 0xfe80 \<le> a \<and> a < 0xfec0"
proof -
  have "and a 0xffc0 = 0xfe80 \<longleftrightarrow> unat a div 2 ^ 6 = unat (0x3fa :: u16)" by (rule mask_shape) (simp_all add: mask_eq_decr_exp)
  also have "\<dots> \<longleftrightarrow> 0xfe80 \<le> a \<and> a < 0xfec0" by (auto simp: word_le_nat_alt word_less_nat_alt)
  finally show ?thesis .
qed


text \<open>The addresses that are offered, in numbers: the private IPv4 ranges, and IPv6 addresses that are neither local nor
  multicast.\<close>

fun direct_address :: "ip_addr \<Rightarrow> bool" where
  "direct_address (V4 a b c d) \<longleftrightarrow> a = 10 \<or> a = 172 \<and> b \<in> {16..31} \<or> a = 192 \<and> b = 168"
| "direct_address (V6 a b c d e f g h) \<longleftrightarrow> a \<notin> {0xfc00..<0xfe00} \<and> a \<notin> {0xfe80..<0xfec0} \<and> a < 0xff00
     \<and> \<not> ([a, b, c, d, e, f, g] = replicate 7 0 \<and> h \<in> {0, 1})"

definition usable :: "NetInterface \<Rightarrow> bool" where
  "usable i \<longleftrightarrow> \<not> ni_loopback i \<and> \<not> ni_link_local i \<and> \<not> is_virtual_interface_name (ni_name i) \<and> direct_address (ni_ip i)"

lemma global_v6_iff: "is_global_v6 (V6 a b c d e f g h) \<longleftrightarrow> direct_address (V6 a b c d e f g h)"
  by (auto simp: multicast_prefix unique_local_prefix link_local_prefix numeral_eq_Suc not_le)

lemma classify_iff: "classify_ip ip = (if direct_address ip then Some (case ip of V4 _ _ _ _ \<Rightarrow> ''lan'' | V6 _ _ _ _ _ _ _ _ \<Rightarrow> ''ipv6'') else None)"
  by (cases ip) (auto simp: classify_ip_def global_v6_iff simp del: is_global_v6.simps)

definition kind_of :: "ip_addr \<Rightarrow> string" where
  "kind_of ip = (case ip of V4 _ _ _ _ \<Rightarrow> ''lan'' | V6 _ _ _ _ _ _ _ _ \<Rightarrow> ''ipv6'')"

lemma endpoint_of_iff: "endpoint_of port i = (if usable i then Some (endpoint_at port (kind_of (ni_ip i)) i) else None)"
  by (auto simp: endpoint_of_def usable_def classify_iff kind_of_def)

lemma endpoint_at_sel [simp]: "en_kind (endpoint_at port kind i) = kind" "en_host (endpoint_at port kind i) = ip_text (ni_ip i)"
  by (simp_all add: endpoint_at_def Let_def)

lemma collected_mem: "e \<in> set (collect_endpoints port seen is) \<Longrightarrow> \<exists>i \<in> set is. usable i \<and> e = endpoint_at port (kind_of (ni_ip i)) i"
  by (induction port seen "is" rule: collect_endpoints.induct) (auto simp: endpoint_of_iff split: if_splits)

lemma collected_all:
  "i \<in> set is \<Longrightarrow> usable i \<Longrightarrow> (kind_of (ni_ip i), ip_text (ni_ip i)) \<notin> seen
    \<Longrightarrow> \<exists>e \<in> set (collect_endpoints port seen is). en_kind e = kind_of (ni_ip i) \<and> en_host e = ip_text (ni_ip i)"
proof (induction port seen "is" rule: collect_endpoints.induct)
  case (2 port seen j rest)
  show ?case
  proof (cases "usable j \<and> kind_of (ni_ip i) = kind_of (ni_ip j) \<and> ip_text (ni_ip i) = ip_text (ni_ip j)")
    case True
    with 2 show ?thesis by (simp add: endpoint_of_iff)
  next
    case False
    with 2 show ?thesis by (cases "i = j") (auto simp: endpoint_of_iff)
  qed
qed simp

lemma collected_distinct:
  "distinct (map (\<lambda>e. (en_kind e, en_host e)) (collect_endpoints port seen is))
    \<and> set (map (\<lambda>e. (en_kind e, en_host e)) (collect_endpoints port seen is)) \<inter> seen = {}"
  by (induction port seen "is" rule: collect_endpoints.induct) (auto split: option.splits)

lemma discovered_set [simp]: "set (discover_monitor_endpoints (Some is) port) = set (collect_endpoints port {} is)"
  by (simp add: discover_monitor_endpoints_def)

section \<open>Properties\<close>

text \<open>Phones are offered exactly the addresses of the host at which they can reach it directly: those in a private IPv4 range
  or globally routed IPv6 addresses, of interfaces that are neither loopback nor link-local nor known as virtual; each once, IPv4
  before IPv6, in the order of their text.\<close>

theorem endpoints_direct:
  assumes "es = discover_monitor_endpoints (Some is) port"
  shows "(\<forall>e \<in> set es. \<exists>i \<in> set is. usable i \<and> e = endpoint_at port (kind_of (ni_ip i)) i)
    \<and> (\<forall>i \<in> set is. usable i \<longrightarrow> (\<exists>e \<in> set es. en_kind e = kind_of (ni_ip i) \<and> en_host e = ip_text (ni_ip i)))
    \<and> distinct (map (\<lambda>e. (en_kind e, en_host e)) es) \<and> sorted (map endpoint_key es)"
proof -
  have "distinct (map (\<lambda>e. (en_kind e, en_host e)) es)"
  proof -
    have "mset es = mset (collect_endpoints port {} is)" by (simp add: assms discover_monitor_endpoints_def)
    then have "mset (map (\<lambda>e. (en_kind e, en_host e)) es) = mset (map (\<lambda>e. (en_kind e, en_host e)) (collect_endpoints port {} is))"
      by (metis mset_map)
    then show ?thesis using collected_distinct mset_eq_imp_distinct_iff by blast
  qed
  moreover have "sorted (map endpoint_key es)" by (simp add: assms discover_monitor_endpoints_def)
  ultimately show ?thesis
    using collected_mem [of _ port "{}" "is"] collected_all [of _ "is" "{}" port] unfolding assms discovered_set by blast
qed

section \<open>Witness\<close>

definition home_interface :: NetInterface where
  "home_interface = \<lparr>ni_name = ''Wi-Fi'', ni_loopback = False, ni_link_local = False, ni_ip = V4 192 168 1 10\<rparr>"

lemma home_usable: "usable home_interface"
proof -
  have "\<not> is_virtual_interface_name ''Wi-Fi''" by code_simp
  then show ?thesis by (simp add: usable_def home_interface_def)
qed

theorem endpoints_direct_witness:
  "\<exists>e \<in> set (discover_monitor_endpoints (Some [home_interface]) 18432). en_host e = ''192.168.1.10''"
proof -
  have "ip_text (ni_ip home_interface) = ''192.168.1.10''" by code_simp
  with endpoints_direct [OF refl, of "[home_interface]" 18432] home_usable show ?thesis by auto
qed

text \<open>Some texts: a run of zeros in the middle, the longest of two, a mapped IPv4 address, and one zero that stays.\<close>

lemma ipv6_texts:
  "ip_text (V6 0x2406 0xda1c 0xabcd 0 0 0 0 1) = ''2406:da1c:abcd::1''" "ip_text (V6 1 0 0 2 0 0 0 3) = ''1:0:0:2::3''"
  "ip_text (V6 0 0 0 0 0 0xffff 0xc0a8 1) = ''::ffff:192.168.0.1''"
  "ip_text (V6 1 0 2 3 4 5 6 7) = ''1:0:2:3:4:5:6:7''"
  by (simp add: segments_text_def hex_number.simps hex_char_def octets_text_def decimal.simps, code_simp)+

end
