(* ===== verification/Monitor_Commands.thy ===== *)
theory Monitor_Commands
  imports Monitor_Network Monitor_Service Network_Safety
begin

text \<open>
  Turning the phone connection on and off, and offering a pairing (\<^verbatim>\<open>src-tauri/src/monitor_commands.rs\<close>,
  \<^verbatim>\<open>start_monitor_service\<close>, \<^verbatim>\<open>create_pairing\<close> and \<^verbatim>\<open>monitor_info_payload\<close> of \<^verbatim>\<open>monitor_manager.rs\<close>).

  The server's listeners are a list of what is known of them. The certificate, the master key, what came of binding the two
  addresses and the interfaces of the host are parameters; the code's QR image is left out, the text it shows is the result.
\<close>

section \<open>State\<close>

record ServerHandle =
  sr_ipv6 :: bool
  sr_port :: u16
  sr_fingerprint :: string

record DeskWorld =
  dk_net :: NetWorld
  dk_servers :: "ServerHandle list"

record DeskOutside =
  do_net :: NetOutside
  do_identity :: "string + string"       \<comment> \<open>the fingerprint of the certificate that was loaded or made\<close>
  do_master_key :: "string + bytes"
  do_bind :: "bool \<Rightarrow> u16 \<Rightarrow> bool"
  do_interfaces :: "NetInterface list option"

type_synonym 'a dop = "(DeskWorld, 'a) action"

definition at_net :: "'a nop \<Rightarrow> 'a dop" where
  "at_net m d = (case m (dk_net d) of (r, n) \<Rightarrow> (r, d\<lparr>dk_net := n\<rparr>))"

definition outside_of :: "DeskOutside \<Rightarrow> Outside" where
  "outside_of env = no_out (do_net env)"

definition phones_env :: "DeskOutside \<Rightarrow> MonitorEnv" where
  "phones_env env = no_env (do_net env)"

definition read_settings :: "DeskOutside \<Rightarrow> Settings dop" where
  "read_settings env = at_net (at_world (load_settings (outside_of env)))"

definition write_settings :: "DeskOutside \<Rightarrow> (Settings \<Rightarrow> Settings) \<Rightarrow> Settings dop" where
  "write_settings env f = at_net (at_world (update_settings (outside_of env) f))"

section \<open>The server\<close>

definition bound_servers :: "DeskOutside \<Rightarrow> u16 \<Rightarrow> string \<Rightarrow> ServerHandle list" where
  "bound_servers env port fingerprint =
     map (\<lambda>v6. \<lparr>sr_ipv6 = v6, sr_port = port, sr_fingerprint = fingerprint\<rparr>) (filter (\<lambda>v6. do_bind env v6 port) [False, True])"

definition listen_anew :: "DeskOutside \<Rightarrow> u16 \<Rightarrow> unit dop" where
  "listen_anew env port =
     chain (from_result (do_identity env)) (\<lambda>fingerprint.
     chain (at_net (ensure_monitor_desktop_id (do_net env))) (\<lambda>_.
     chain (from_result (do_master_key env)) (\<lambda>_.
     chain (modify (\<lambda>d. d\<lparr>dk_servers := bound_servers env port fingerprint\<rparr>)) (\<lambda>_.
     if bound_servers env port fingerprint = [] then raise ''the monitor server cannot listen'' else give ()))))"

definition start_monitor_service :: "DeskOutside \<Rightarrow> unit dop" where
  "start_monitor_service env =
     chain (read_settings env) (\<lambda>settings.
     if \<not> se_monitor_enabled settings then give ()
     else if se_monitor_port settings < 1024 then raise ''the monitor port must be 1024-65535''
     else
     chain (at_net (at_phones (monitor_devices_snapshot (phones_env env)))) (\<lambda>_ d.
       if dk_servers d \<noteq> [] then (Inr (), d) else listen_anew env (se_monitor_port settings) d))"

definition stop_monitor_service :: "unit dop" where
  "stop_monitor_service = modify (\<lambda>d. d\<lparr>dk_servers := []\<rparr>)"

text \<open>The endpoints of a family some listener has.\<close>

definition served_endpoints :: "DeskOutside \<Rightarrow> u16 \<Rightarrow> ServerHandle list \<Rightarrow> MonitorEndpoint list" where
  "served_endpoints env port servers =
     filter (\<lambda>e. en_family e = ''ipv4'' \<and> (\<exists>h \<in> set servers. \<not> sr_ipv6 h) \<or> en_family e = ''ipv6'' \<and> (\<exists>h \<in> set servers. sr_ipv6 h))
       (discover_monitor_endpoints (do_interfaces env) port)"

section \<open>What the user is shown\<close>

definition listen_address :: "ServerHandle \<Rightarrow> string" where
  "listen_address h = (if sr_ipv6 h then ''[::]:'' else ''0.0.0.0:'') @ decimal (unat (sr_port h))"

definition device_json :: "MonitorDeviceRecord \<Rightarrow> json" where
  "device_json d = JObject [(''id'', JString (md_id d)), (''name'', JString (md_name d)), (''createdAt'', json_u64 (md_created_at d)),
     (''lastSeenAt'', json_opt json_u64 (md_last_seen_at d))]"

definition endpoint_json :: "MonitorEndpoint \<Rightarrow> json" where
  "endpoint_json e = JObject [(''kind'', JString (en_kind e)), (''family'', JString (en_family e)), (''interface'', JString (en_interface e)),
     (''host'', JString (en_host e)), (''url'', JString (en_url e))]"

fun joined_by :: "string \<Rightarrow> string list \<Rightarrow> string" where
  "joined_by between [] = []"
| "joined_by between [x] = x"
| "joined_by between (x # xs) = x @ between @ joined_by between xs"

definition info_json ::
  "DeskOutside \<Rightarrow> Settings \<Rightarrow> ServerHandle list \<Rightarrow> MonitorDeviceRecord list \<Rightarrow> string + string \<Rightarrow> json" where
  "info_json env settings servers devices desktop_id =
     (let running = (servers \<noteq> []); bound = map listen_address servers;
          endpoints = (if running then served_endpoints env (se_monitor_port settings) servers else [])
      in JObject
        [(''enabled'', JBool (se_monitor_enabled settings)), (''port'', JInt (uint (se_monitor_port settings))),
         (''running'', JBool running),
         (''desktopId'', (case desktop_id of Inl _ \<Rightarrow> JNull | Inr i \<Rightarrow> JString i)),
         (''protocol'', JString ''chatx-monitor-wss-v1''), (''encryption'', JString ''AES-256-GCM''),
         (''bindAddress'', if bound = [] then JNull else JString (joined_by (map char_of [32, 194, 183, 32 :: nat]) bound)),
         (''bindAddresses'', JArray (map JString bound)),
         (''fingerprintSha256'', (case servers of [] \<Rightarrow> JNull | h # _ \<Rightarrow> JString (sr_fingerprint h))),
         (''devices'', JArray (map device_json devices)),
         (''endpoints'', JArray (map endpoint_json endpoints))])"

definition monitor_info_payload :: "DeskOutside \<Rightarrow> json dop" where
  "monitor_info_payload env =
     chain (read_settings env) (\<lambda>settings d.
       chain (at_net (at_phones (monitor_devices_snapshot (phones_env env)))) (\<lambda>devices.
       and_then_always (at_net (ensure_monitor_desktop_id (do_net env))) (\<lambda>desktop_id.
         give (info_json env settings (dk_servers d) devices desktop_id))) d)"

section \<open>Turning it on and off\<close>

definition monitor_change :: "bool \<Rightarrow> u16 option \<Rightarrow> Settings \<Rightarrow> Settings" where
  "monitor_change enabled port s =
     s\<lparr>se_monitor_port := (case port of None \<Rightarrow> se_monitor_port s | Some p \<Rightarrow> p), se_monitor_enabled := enabled,
       se_relay := (if enabled then se_relay s else (se_relay s)\<lparr>rl_enabled := False\<rparr>)\<rparr>"

definition take_monitor :: "Settings \<Rightarrow> Settings \<Rightarrow> Settings" where
  "take_monitor from_settings current =
     current\<lparr>se_monitor_enabled := se_monitor_enabled from_settings, se_monitor_port := se_monitor_port from_settings,
       se_relay := (se_relay current)\<lparr>rl_enabled := rl_enabled (se_relay from_settings)\<rparr>\<rparr>"

text \<open>Starting after the change; if that fails, the old settings and, with them, the old server are tried.\<close>

definition start_or_undo :: "DeskOutside \<Rightarrow> Settings \<Rightarrow> unit dop" where
  "start_or_undo env previous =
     and_then_always (start_monitor_service env) (\<lambda>started.
       case started of
         Inr _ \<Rightarrow> give ()
       | Inl e \<Rightarrow>
           and_then_always (write_settings env (take_monitor previous)) (\<lambda>_.
           and_then_always (if se_monitor_enabled previous then start_monitor_service env else give ()) (\<lambda>_. raise e)))"

definition set_monitor_enabled :: "DeskOutside \<Rightarrow> bool \<Rightarrow> u16 option \<Rightarrow> json dop" where
  "set_monitor_enabled env enabled port =
     chain (read_settings env) (\<lambda>previous.
     if (case port of None \<Rightarrow> False | Some p \<Rightarrow> p < 1024) then raise ''the monitor port must be 1024-65535''
     else
       let settings = monitor_change enabled port previous;
           restart = (se_monitor_enabled previous \<and> enabled \<and> se_monitor_port previous \<noteq> se_monitor_port settings)
       in
       chain (if restart \<or> \<not> enabled then stop_monitor_service else give ()) (\<lambda>_.
       chain (write_settings env (take_monitor settings)) (\<lambda>_.
       chain (if enabled then start_or_undo env previous else give ()) (\<lambda>_.
       chain (if \<not> enabled then modify (\<lambda>d. d\<lparr>dk_net := stop_relay_client (dk_net d)\<rparr>) else give ()) (\<lambda>_.
         monitor_info_payload env)))))"

section \<open>Offering a pairing\<close>

text \<open>\<^verbatim>\<open>str::replace\<close> for a pattern that is not empty; the third argument counts what is left of a match.\<close>

fun replace_all :: "string \<Rightarrow> string \<Rightarrow> nat \<Rightarrow> string \<Rightarrow> string" where
  "replace_all old new k [] = []"
| "replace_all old new (Suc k) (c # s) = replace_all old new k s"
| "replace_all old new 0 (c # s) =
     (if starts_with old (c # s) then new @ replace_all old new (length old - 1) s else c # replace_all old new 0 s)"

definition pair_candidate :: "MonitorEndpoint \<Rightarrow> json" where
  "pair_candidate e = JObject [(''kind'', JString (en_kind e)), (''family'', JString (en_family e)), (''interface'', JString (en_interface e)),
     (''host'', JString (en_host e)), (''url'', JString (replace_all ''/v1/ws/monitor'' ''/v1/ws/pair'' 0 (en_url e)))]"

text \<open>The environment of the calls to the relay: its address and what the key store has, as the settings say.\<close>

definition relay_env :: "DeskOutside \<Rightarrow> Settings \<Rightarrow> MonitorEnv" where
  "relay_env env settings = (phones_env env)\<lparr>me_relay_base_url := rl_base_url (se_relay settings)\<rparr>"

definition relay_offer_json :: "Settings \<Rightarrow> string \<Rightarrow> string \<Rightarrow> string \<Rightarrow> string \<Rightarrow> json" where
  "relay_offer_json settings url desktop_id pairing_id route_token =
     JObject [(''baseUrl'', JString (rl_base_url (se_relay settings))), (''url'', JString url), (''desktopId'', JString desktop_id),
       (''pairingId'', JString pairing_id), (''routeToken'', JString route_token)]"

definition offer_route :: "DeskOutside \<Rightarrow> Settings \<Rightarrow> string \<Rightarrow> string \<Rightarrow> (json option \<times> string option) dop" where
  "offer_route env settings desktop_id pairing_id =
     and_then_always (at_net (read_relay_credentials (do_net env))) (\<lambda>found.
       case found of
         Inl e \<Rightarrow> give (None, Some e)
       | Inr credentials \<Rightarrow>
           if rc_desktop_id credentials = desktop_id
             \<and> same_ok (normalized_base_url (rc_base_url credentials)) (normalized_base_url (rl_base_url (se_relay settings)))
           then chain (at_net (at_phones (generate_monitor_token (phones_env env)))) (\<lambda>route_token.
                and_then_always (at_net (at_phones (relay_call (relay_env env settings) ''open pairing route'' id))) (\<lambda>opened.
                  case opened of
                    Inl e \<Rightarrow> give (None, Some e)
                  | Inr _ \<Rightarrow> chain (from_result (pairing_ws_url (se_relay settings) credentials pairing_id)) (\<lambda>url.
                      give (Some (relay_offer_json settings url desktop_id pairing_id route_token), None))))
           else give (None, Some ''the relay credentials do not match''))"

definition offer_json ::
  "Settings \<Rightarrow> string \<Rightarrow> json list \<Rightarrow> json option \<times> string option \<Rightarrow> string \<Rightarrow> MonitorPairingGrant \<Rightarrow> json" where
  "offer_json settings desktop_id candidates relay fingerprint grant =
     JObject
       [(''schemaVersion'', JInt 3), (''protocol'', JString ''chatx-monitor-wss-v1''), (''scheme'', JString ''wss''),
        (''desktopId'', JString desktop_id), (''port'', JInt (uint (se_monitor_port settings))), (''directCandidates'', JArray candidates),
        (''relayPairing'', json_opt id (fst relay)), (''relayPairingError'', json_opt JString (snd relay)),
        (''fingerprintSha256'', JString fingerprint), (''pairingId'', JString (pg_pairing_id grant)),
        (''pairingCode'', JString (pg_pairing_code grant)), (''expiresAt'', json_u64 (pg_expires_at grant))]"

definition new_grant :: "DeskOutside \<Rightarrow> string \<Rightarrow> string \<Rightarrow> u64 \<Rightarrow> MonitorPairingGrant" where
  "new_grant env pairing_code pairing_random now =
     \<lparr>pg_pairing_id = ''p_'' @ take 24 pairing_random, pg_pairing_code = pairing_code,
      pg_code_hash = me_sha (phones_env env) pairing_code, pg_expires_at = sat_add64 now (5 * 60000)\<rparr>"

definition offer_grant ::
  "DeskOutside \<Rightarrow> Settings \<Rightarrow> string \<Rightarrow> json list \<Rightarrow> string \<Rightarrow> MonitorPairingGrant \<Rightarrow> json dop" where
  "offer_grant env settings desktop_id candidates fingerprint grant =
     chain (if rl_enabled (se_relay settings) then offer_route env settings desktop_id (pg_pairing_id grant) else give (None, None)) (\<lambda>relay.
     if candidates = [] \<and> fst relay = None then raise (case snd relay of None \<Rightarrow> ''no way to reach the desktop'' | Some e \<Rightarrow> e)
     else
     chain (at_net (at_phones (modify (\<lambda>w. w\<lparr>mw_pairing := Some grant\<rparr>)))) (\<lambda>_.
       give (offer_json settings desktop_id candidates relay fingerprint grant)))"

text \<open>\<open>open_pairing\<close> of \<open>Monitor_Devices\<close> is the part of this that concerns the grant; here it is the whole command with its offer.\<close>

definition create_pairing :: "DeskOutside \<Rightarrow> json dop" where
  "create_pairing env =
     chain (read_settings env) (\<lambda>settings.
     if \<not> se_monitor_enabled settings then raise ''turn the phone connection on first''
     else
     chain (start_monitor_service env) (\<lambda>_ d.
       case dk_servers d of
         [] \<Rightarrow> (Inl ''the monitor server does not run'', d)
       | h # _ \<Rightarrow>
          (let candidates = map pair_candidate (take 8 (served_endpoints env (se_monitor_port settings) (dk_servers d))) in
           chain (at_net (ensure_monitor_desktop_id (do_net env))) (\<lambda>desktop_id.
           chain (at_net (at_phones (generate_monitor_token (phones_env env)))) (\<lambda>pairing_code.
           chain (at_net (at_phones (generate_monitor_token (phones_env env)))) (\<lambda>pairing_random.
           chain (at_net (at_phones (Monitor_Devices.timestamp_ms (phones_env env)))) (\<lambda>now.
             offer_grant env settings desktop_id candidates (sr_fingerprint h) (new_grant env pairing_code pairing_random now))))) d)))"

definition revoke_monitor_device :: "DeskOutside \<Rightarrow> string \<Rightarrow> json dop" where
  "revoke_monitor_device env device_id =
     (if trim device_id = [] then raise ''the device id is empty''
      else
      chain (at_net (at_phones (revoke_monitor_device_everywhere (phones_env env) (trim device_id)))) (\<lambda>removed.
      if \<not> removed then raise ''no such device'' else monitor_info_payload env))"

section \<open>Rules\<close>

lemma wp_at_net [simp]: "wp (at_net m) Q d = wp m (\<lambda>r n. Q r (d\<lparr>dk_net := n\<rparr>)) (dk_net d)"
  by (simp add: wp_def at_net_def split: prod.splits)

definition on_disk :: "DeskOutside \<Rightarrow> DeskWorld \<Rightarrow> string + Settings" where
  "on_disk env d = stored (do_net env) (dk_net d)"

definition open_grant :: "DeskWorld \<Rightarrow> MonitorPairingGrant option" where
  "open_grant d = mw_pairing (nt_phones (dk_net d))"

definition calm :: "DeskOutside \<Rightarrow> bool" where
  "calm env \<longleftrightarrow> (\<forall>k. os_ok (outside_of env) k)"

text \<open>Settings, client and grant are as before.\<close>

definition desk_kept :: "DeskOutside \<Rightarrow> DeskWorld \<Rightarrow> DeskWorld \<Rightarrow> bool" where
  "desk_kept env d d1 \<longleftrightarrow> on_disk env d1 = on_disk env d \<and> nt_client (dk_net d1) = nt_client (dk_net d) \<and> open_grant d1 = open_grant d"

lemma desk_kept_refl [simp]: "desk_kept env d d" "desk_kept env d (d1\<lparr>dk_servers := hs\<rparr>) = desk_kept env d d1"
  by (simp_all add: desk_kept_def on_disk_def open_grant_def)

lemma desk_kept_trans: "desk_kept env a b \<Longrightarrow> desk_kept env b c \<Longrightarrow> desk_kept env a c"
  by (simp add: desk_kept_def)

lemma calm_attempts: "calm env \<Longrightarrow> fst (attempts (outside_of env) es w) = Inr ()"
  by (induction es arbitrary: w) (simp_all add: attempts.simps give_def chain_def attempt_def calm_def)

lemma wp_read_settings:
  assumes "\<And>s d1. desk_kept env d d1 \<Longrightarrow> dk_servers d1 = dk_servers d
      \<Longrightarrow> on_disk env d = Inr s \<or> s = default_settings \<and> (isl (on_disk env d) \<or> \<not> calm env) \<Longrightarrow> Q (Inr s) d1"
  shows "wp (read_settings env) Q d"
proof -
  let ?w = "nt_world (dk_net d)"
  obtain r w1 where run: "load_settings (outside_of env) ?w = (r, w1)" by fastforce
  have "\<exists>s c t. r = Inr s \<and> w1 = ticked c t ?w \<and> (s = default_settings \<or> file_settings (outside_of env) ?w = Inr s)"
    using wp_load_settings [of "outside_of env" ?w "\<lambda>r w1. \<exists>s c t. r = Inr s \<and> w1 = ticked c t ?w \<and> (s = default_settings \<or> file_settings (outside_of env) ?w = Inr s)"]
      run by (auto simp: wp_def)
  then obtain s c t where s: "r = Inr s" "w1 = ticked c t ?w" "s = default_settings \<or> file_settings (outside_of env) ?w = Inr s" by blast
  have "file_settings (outside_of env) ?w = Inr s" if fine: "calm env" "\<not> isl (file_settings (outside_of env) ?w)"
  proof -
    obtain u w2 where a: "attempts (outside_of env) [''state directory'', ''read settings''] ?w = (Inr u, w2)"
      using calm_attempts [OF fine(1), of "[''state directory'', ''read settings'']" ?w] by (metis prod.collapse)
    have "wp (attempts (outside_of env) [''state directory'', ''read settings'']) (\<lambda>r w2. w_file w2 = w_file ?w) ?w"
      by (rule wp_attempts) simp_all
    then have "w_file w2 = w_file ?w" using a by (simp add: wp_def)
    then show ?thesis using fine(2) run s(1) a
      by (auto simp: load_settings_def load_settings_checked_def chain_def file_settings_def split: sum.splits option.splits prod.splits)
  qed
  then have "on_disk env d = Inr s \<or> s = default_settings \<and> (isl (on_disk env d) \<or> \<not> calm env)"
    using s(3) by (auto simp: on_disk_def stored_def outside_of_def)
  then have "Q (Inr s) (d\<lparr>dk_net := (dk_net d)\<lparr>nt_world := ticked c t ?w\<rparr>\<rparr>)"
    by (intro assms) (simp_all add: desk_kept_def on_disk_def open_grant_def stored_def)
  then show ?thesis using run s by (simp add: read_settings_def wp_def at_net_def at_world_def)
qed

lemma wp_write_settings:
  assumes "faithful (outside_of env)" and "on_disk env d = Inr c"
    and "se_connection_intent (f c) = se_connection_intent c" and "se_tunnel_id (f c) = se_tunnel_id c"
    and "\<And>e d1. desk_kept env d d1 \<Longrightarrow> dk_servers d1 = dk_servers d \<Longrightarrow> Q (Inl e) d1"
    and "\<And>d1. on_disk env d1 = Inr (normalize_settings (outside_of env) (f c)) \<Longrightarrow> nt_client (dk_net d1) = nt_client (dk_net d)
      \<Longrightarrow> open_grant d1 = open_grant d \<Longrightarrow> dk_servers d1 = dk_servers d \<Longrightarrow> Q (Inr (f c)) d1"
  shows "wp (write_settings env f) Q d"
proof -
  have c: "file_settings (outside_of env) (nt_world (dk_net d)) = Inr c" using assms(2) by (simp add: on_disk_def stored_def outside_of_def)
  have "\<not> (se_connection_intent c \<and> trim (se_tunnel_id c) = [])"
    using file_as_read [OF c] by (simp add: as_read_def)
  then have new: "file_settings (outside_of env) (saved (outside_of env) (f c) w) = Inr (normalize_settings (outside_of env) (f c))" for w
    by (simp add: file_settings_saved [OF assms(1)] assms(3,4))
  show ?thesis
    unfolding write_settings_def wp_at_net wp_at_world
  proof (rule wp_update_settings)
    fix s k t assume "file_settings (outside_of env) (nt_world (dk_net d)) = Inr s"
    with c show "Q (Inr (f s)) (d\<lparr>dk_net := (dk_net d)\<lparr>nt_world := saved (outside_of env) (f s) (ticked k t (nt_world (dk_net d)))\<rparr>\<rparr>)"
      by (auto intro!: assms(6) simp: new on_disk_def open_grant_def stored_def outside_of_def [symmetric])
  qed (auto intro!: assms(5) simp: desk_kept_def on_disk_def open_grant_def stored_def)
qed

lemma wp_device_snapshot:
  assumes "\<And>r d1. desk_kept env d d1 \<Longrightarrow> dk_servers d1 = dk_servers d \<Longrightarrow> Q r d1"
  shows "wp (at_net (at_phones (monitor_devices_snapshot (phones_env env)))) Q d"
  using snapshot_keeps [of "phones_env env" "nt_phones (dk_net d)"]
  by (auto simp: wp_def at_net_def at_phones_def desk_kept_def on_disk_def open_grant_def stored_def split: prod.splits intro!: assms)

lemma wp_at_token:
  assumes "\<And>r v. mw_pairing v = mw_pairing (nt_phones n) \<Longrightarrow> Q r (n\<lparr>nt_phones := v\<rparr>)"
  shows "wp (at_phones (generate_monitor_token e)) Q n"
  by (auto simp: wp_def at_phones_def generate_monitor_token_def intro!: assms)

lemma wp_desktop_id:
  assumes "\<And>r d1. desk_kept env d d1 \<Longrightarrow> dk_servers d1 = dk_servers d \<Longrightarrow> Q r d1"
  shows "wp (at_net (ensure_monitor_desktop_id (do_net env))) Q d"
  unfolding ensure_monitor_desktop_id_def wp_at_net
  by (auto intro!: wp_attempts wp_attempt wp_at_token assms
     simp: wp_case_found Let_def desk_kept_def on_disk_def open_grant_def stored_def split: sum.splits option.splits)

text \<open>Starting the server.\<close>

definition start_outcome :: "DeskOutside \<Rightarrow> DeskWorld \<Rightarrow> string + unit \<Rightarrow> DeskWorld \<Rightarrow> bool" where
  "start_outcome env d r d1 \<longleftrightarrow> desk_kept env d d1
     \<and> (dk_servers d1 = dk_servers d \<or> dk_servers d = [] \<and> (\<exists>s fingerprint. on_disk env d = Inr s \<and> se_monitor_enabled s
          \<and> dk_servers d1 = bound_servers env (se_monitor_port s) fingerprint))
     \<and> (isl r \<longrightarrow> dk_servers d1 = dk_servers d)
     \<and> (r = Inr () \<and> calm env \<and> (\<exists>s. on_disk env d = Inr s \<and> se_monitor_enabled s) \<longrightarrow> dk_servers d1 \<noteq> [])"

lemma wp_listen:
  assumes "on_disk env d = Inr s" and "se_monitor_enabled s" and "dk_servers d = []" and "\<And>r d1. start_outcome env d r d1 \<Longrightarrow> Q r d1"
  shows "wp (listen_anew env (se_monitor_port s)) Q d"
proof -
  have finish: "Q r d1"
    if "desk_kept env d d1" "dk_servers d1 = dk_servers d \<and> isl r \<or> (\<exists>fp. dk_servers d1 = bound_servers env (se_monitor_port s) fp
      \<and> isl r = (dk_servers d1 = []))" for r d1
    by (rule assms(4)) (use that assms(1,2,3) in \<open>auto simp: start_outcome_def\<close>)
  show ?thesis
    unfolding listen_anew_def wp_chain wp_from_result
    by (auto simp del: wp_at_net intro!: wp_desktop_id finish split: sum.split) metis+
qed

lemma wp_start_service:
  assumes "\<And>r d1. start_outcome env d r d1 \<Longrightarrow> Q r d1"
  shows "wp (start_monitor_service env) Q d"
  unfolding start_monitor_service_def wp_chain
proof (rule wp_read_settings, unfold sum.case)
  fix s d1
  assume d1: "desk_kept env d d1" "dk_servers d1 = dk_servers d"
    and s: "on_disk env d = Inr s \<or> s = default_settings \<and> (isl (on_disk env d) \<or> \<not> calm env)"
  have off: "\<not> se_monitor_enabled default_settings" by (simp add: default_settings_def)
  have early: "Q r d2" if "desk_kept env d1 d2" "dk_servers d2 = dk_servers d" "isl r \<or> dk_servers d \<noteq> [] \<or> \<not> se_monitor_enabled s" for r d2
    by (rule assms) (use d1 s off that desk_kept_trans in \<open>auto simp: start_outcome_def\<close>)
  have new: "wp (listen_anew env (se_monitor_port s)) Q d2"
    if d2: "desk_kept env d1 d2" "dk_servers d2 = dk_servers d" "dk_servers d = []" and on: "se_monitor_enabled s" for d2
  proof (rule wp_listen)
    show "on_disk env d2 = Inr s" using s on off d1 d2 by (auto simp: desk_kept_def)
    show "se_monitor_enabled s" by (rule on)
    show "dk_servers d2 = []" using d2 by simp
    fix r d3 assume "start_outcome env d2 r d3"
    then have "start_outcome env d r d3" using d1 d2 desk_kept_trans by (auto simp: start_outcome_def desk_kept_def)
    then show "Q r d3" by (rule assms)
  qed
  show "wp (if \<not> se_monitor_enabled s then give () else if se_monitor_port s < 1024 then raise ''the monitor port must be 1024-65535''
      else chain (at_net (at_phones (monitor_devices_snapshot (phones_env env)))) (\<lambda>_ d.
       if dk_servers d \<noteq> [] then (Inr (), d) else listen_anew env (se_monitor_port s) d)) Q d1"
  proof (cases "\<not> se_monitor_enabled s \<or> se_monitor_port s < 1024")
    case True
    then show ?thesis using d1 by (auto simp: wp_if intro!: early)
  next
    case False
    have "wp (at_net (at_phones (monitor_devices_snapshot (phones_env env)))) (\<lambda>r d2. case r of Inl e \<Rightarrow> Q (Inl e) d2
        | Inr _ \<Rightarrow> wp (\<lambda>d. if dk_servers d \<noteq> [] then (Inr (), d) else listen_anew env (se_monitor_port s) d) Q d2) d1"
    proof (rule wp_device_snapshot)
      fix r d2 assume d2: "desk_kept env d1 d2" "dk_servers d2 = dk_servers d1"
      have "wp (\<lambda>d. if dk_servers d \<noteq> [] then (Inr (), d) else listen_anew env (se_monitor_port s) d) Q d2"
        using d1 d2 False new [of d2] early [of d2 "Inr ()"] by (cases "dk_servers d2 = []") (simp_all add: wp_def)
      then show "case r of Inl e \<Rightarrow> Q (Inl e) d2 | Inr _ \<Rightarrow>
          wp (\<lambda>d. if dk_servers d \<noteq> [] then (Inr (), d) else listen_anew env (se_monitor_port s) d) Q d2"
        using d1 d2 early by (auto split: sum.split)
    qed
    with False show ?thesis by (simp only: if_False de_Morgan_disj not_not wp_chain) simp
  qed
qed

section \<open>The switch\<close>

text \<open>A server runs only while the settings want it, on the port they name.\<close>

definition servers_fit :: "DeskOutside \<Rightarrow> DeskWorld \<Rightarrow> bool" where
  "servers_fit env d \<longleftrightarrow> (dk_servers d \<noteq> [] \<longrightarrow>
     (\<exists>s. on_disk env d = Inr s \<and> se_monitor_enabled s \<and> (\<forall>h \<in> set (dk_servers d). sr_port h = se_monitor_port s)))"

lemma bound_port: "h \<in> set (bound_servers env port fingerprint) \<Longrightarrow> sr_port h = port"
  by (auto simp: bound_servers_def)

lemma start_fits: "start_outcome env d r d1 \<Longrightarrow> servers_fit env d \<Longrightarrow> servers_fit env d1"
  unfolding start_outcome_def servers_fit_def desk_kept_def
  by (elim conjE disjE exE) (auto dest: bound_port)

lemma monitor_change_as_read:
  assumes "as_read out s"
  shows "normalize_settings out (monitor_change enabled port s) = monitor_change enabled port s"
proof -
  let ?t = "monitor_change enabled port s"
  have "normalize_settings out s = s" using assms by (simp add: as_read_def)
  then have parts: "se_proxy (normalize_settings out s) = se_proxy s" "rl_enabled (se_relay (normalize_settings out s)) = rl_enabled (se_relay s)" by simp_all
  have relay: "\<not> (rl_enabled (se_relay s) \<and> trim (rl_base_url (se_relay s)) = [])"
    using parts(2) by (auto simp: normalize_settings_def Let_def split: option.splits if_splits)
  have same: "se_proxy ?t = se_proxy s" "rl_base_url (se_relay ?t) = rl_base_url (se_relay s)" "rl_enabled (se_relay ?t) \<longrightarrow> rl_enabled (se_relay s)"
    by (simp_all add: monitor_change_def)
  have "se_proxy (normalize_settings out ?t) = se_proxy ?t"
    using parts(1) same(1) normalize_parts(2) [of ?t s out] assms by simp
  then show ?thesis
    using relay same by (auto simp: normalize_settings_def Let_def split: option.splits if_splits)
qed

lemma take_monitor_change [simp]:
  "take_monitor (monitor_change enabled port s) s = monitor_change enabled port s" "take_monitor s (monitor_change enabled port s) = s"
  by (simp_all add: take_monitor_def monitor_change_def)

lemma take_monitor_sel [simp]:
  "se_connection_intent (take_monitor a s) = se_connection_intent s" "se_tunnel_id (take_monitor a s) = se_tunnel_id s"
  "se_connection_intent (monitor_change enabled port s) = se_connection_intent s" "se_tunnel_id (monitor_change enabled port s) = se_tunnel_id s"
  "se_monitor_enabled (monitor_change enabled port s) = enabled"
  by (simp_all add: take_monitor_def monitor_change_def)

lemma wp_info:
  assumes "\<And>r d1. desk_kept env d d1 \<Longrightarrow> dk_servers d1 = dk_servers d \<Longrightarrow> Q r d1"
  shows "wp (monitor_info_payload env) Q d"
proof -
  have after: "wp (chain (at_net (at_phones (monitor_devices_snapshot (phones_env env)))) (\<lambda>devices.
          and_then_always (at_net (ensure_monitor_desktop_id (do_net env))) (\<lambda>i. give (p devices i)))) Q d1"
    if "desk_kept env d d1" "dk_servers d1 = dk_servers d" for d1 p
    using that unfolding wp_chain wp_and_then_always
    by (auto simp del: wp_at_net intro!: wp_device_snapshot wp_desktop_id assms split: sum.split) (metis desk_kept_trans)+
  have inner: "wp (\<lambda>d. chain (at_net (at_phones (monitor_devices_snapshot (phones_env env)))) (\<lambda>devices.
       and_then_always (at_net (ensure_monitor_desktop_id (do_net env))) (\<lambda>i. give (info_json env s (dk_servers d) devices i))) d) Q d1
     = wp (chain (at_net (at_phones (monitor_devices_snapshot (phones_env env)))) (\<lambda>devices.
       and_then_always (at_net (ensure_monitor_desktop_id (do_net env))) (\<lambda>i. give (info_json env s (dk_servers d1) devices i)))) Q d1"
    for s d1 by (simp add: wp_def)
  show ?thesis
    unfolding monitor_info_payload_def wp_chain [of "read_settings env"]
    by (rule wp_read_settings, unfold sum.case inner) (rule after)
qed

definition switch_outcome :: "DeskOutside \<Rightarrow> bool \<Rightarrow> u16 option \<Rightarrow> Settings \<Rightarrow> string + 'a \<Rightarrow> DeskWorld \<Rightarrow> bool" where
  "switch_outcome env enabled port s r d1 \<longleftrightarrow> servers_fit env d1
     \<and> on_disk env d1 \<in> {Inr s, Inr (monitor_change enabled port s)}
     \<and> (\<not> isl r \<longrightarrow> on_disk env d1 = Inr (monitor_change enabled port s)
          \<and> (if enabled then calm env \<longrightarrow> dk_servers d1 \<noteq> [] else dk_servers d1 = [] \<and> nt_client (dk_net d1) = None))"

lemma wp_start_or_undo:
  assumes "faithful (outside_of env)" and "as_read (outside_of env) s" and "on_disk env d = Inr (monitor_change True port s)" and "servers_fit env d"
    and prior: "dk_servers d \<noteq> [] \<longrightarrow> se_monitor_enabled s \<and> (\<forall>h \<in> set (dk_servers d). sr_port h = se_monitor_port s)"
    and "\<And>r d1. switch_outcome env True port s (r :: string + unit) d1 \<Longrightarrow> Q r d1"
  shows "wp (start_or_undo env s) Q d"
  unfolding start_or_undo_def wp_and_then_always
proof (rule wp_start_service)
  fix r d1 assume o: "start_outcome env d r d1"
  then have d1: "on_disk env d1 = Inr (monitor_change True port s)" "servers_fit env d1"
    using assms(3) start_fits [OF o assms(4)] by (simp_all add: start_outcome_def desk_kept_def)
  have undone: "Q (Inl e) d2" if "servers_fit env d2" "on_disk env d2 \<in> {Inr s, Inr (monitor_change True port s)}" for e d2
    by (rule assms(6)) (use that in \<open>simp add: switch_outcome_def\<close>)
  have retry: "wp (if se_monitor_enabled s then start_monitor_service env else give ()) (\<lambda>_ d3. wp (raise e) Q d3) d2"
    if "servers_fit env d2" "on_disk env d2 \<in> {Inr s, Inr (monitor_change True port s)}" for d2 e
  proof (cases "se_monitor_enabled s")
    case True
    have "wp (start_monitor_service env) (\<lambda>_ d3. wp (raise e) Q d3) d2"
    proof (rule wp_start_service, unfold wp_raise)
      fix r d3 assume o3: "start_outcome env d2 r d3"
      then have "on_disk env d3 = on_disk env d2" by (simp add: start_outcome_def desk_kept_def)
      with that start_fits [OF o3] show "Q (Inl e) d3" by (intro undone) auto
    qed
    with True show ?thesis by simp
  next
    case False
    with that show ?thesis by (auto intro: undone)
  qed
  show "wp (case r of Inr _ \<Rightarrow> give () | Inl e \<Rightarrow> and_then_always (write_settings env (take_monitor s)) (\<lambda>_.
      and_then_always (if se_monitor_enabled s then start_monitor_service env else give ()) (\<lambda>_. raise e))) Q d1"
  proof (cases r)
    case (Inr u)
    have "switch_outcome env True port s (Inr ()) d1"
      using o d1 Inr assms(3) by (auto simp: switch_outcome_def start_outcome_def)
    with Inr show ?thesis by (simp add: assms(6))
  next
    case (Inl e)
    show ?thesis
      unfolding Inl sum.case wp_and_then_always
    proof (rule wp_write_settings [OF assms(1) d1(1)])
      fix x d2 assume "desk_kept env d1 d2" "dk_servers d2 = dk_servers d1"
      with d1 show "wp (if se_monitor_enabled s then start_monitor_service env else give ()) (\<lambda>_ d3. wp (raise e) Q d3) d2"
        by (intro retry) (auto simp: servers_fit_def desk_kept_def)
    next
      fix d2
      assume d2: "on_disk env d2 = Inr (normalize_settings (outside_of env) (take_monitor s (monitor_change True port s)))" "dk_servers d2 = dk_servers d1"
      then have "on_disk env d2 = Inr s" using assms(2) by (simp add: as_read_def)
      moreover have "servers_fit env d2"
        using prior o d2(2) Inl \<open>on_disk env d2 = Inr s\<close> by (simp add: servers_fit_def start_outcome_def)
      ultimately show "wp (if se_monitor_enabled s then start_monitor_service env else give ()) (\<lambda>_ d3. wp (raise e) Q d3) d2"
        by (intro retry) simp_all
    qed simp_all
  qed
qed

lemma switch_kept:
  assumes "switch_outcome env enabled port s (Inr u) d" and "desk_kept env d d1" and "dk_servers d1 = dk_servers d"
  shows "switch_outcome env enabled port s r d1"
proof -
  have "on_disk env d1 = on_disk env d" "nt_client (dk_net d1) = nt_client (dk_net d)" using assms(2) by (simp_all add: desk_kept_def)
  then show ?thesis using assms(1,3) unfolding switch_outcome_def servers_fit_def by auto
qed

lemma wp_info_settled:
  assumes "switch_outcome env enabled port s (Inr ()) d"
  shows "wp (monitor_info_payload env) (switch_outcome env enabled port s) d"
  by (rule wp_info) (rule switch_kept [OF assms])

lemma switch_error: "switch_outcome env enabled port s (Inl e) d \<longleftrightarrow> servers_fit env d \<and> on_disk env d \<in> {Inr s, Inr (monitor_change enabled port s)}"
  by (simp add: switch_outcome_def)

lemma chain_give: "chain (give a) f = f a"
  by (rule ext) (simp add: chain_def give_def)

lemma wp_switch_tail:
  assumes "faithful (outside_of env)" and "as_read (outside_of env) s" and "on_disk env d = Inr (monitor_change enabled port s)" and "servers_fit env d"
    and "if enabled then dk_servers d \<noteq> [] \<longrightarrow> se_monitor_enabled s \<and> (\<forall>h \<in> set (dk_servers d). sr_port h = se_monitor_port s) else dk_servers d = []"
  shows "wp (chain (if enabled then start_or_undo env s else give ()) (\<lambda>_.
       chain (if \<not> enabled then modify (\<lambda>d. d\<lparr>dk_net := stop_relay_client (dk_net d)\<rparr>) else give ()) (\<lambda>_.
         monitor_info_payload env))) (switch_outcome env enabled port s) d"
proof (cases enabled)
  case True
  have "wp (start_or_undo env s) (\<lambda>r d1. case r of Inl e \<Rightarrow> switch_outcome env True port s (Inl e) d1
      | Inr _ \<Rightarrow> wp (monitor_info_payload env) (switch_outcome env True port s) d1) d"
  proof (rule wp_start_or_undo [OF assms(1,2)])
    fix r :: "string + unit" and d1 assume o: "switch_outcome env True port s r d1"
    show "case r of Inl e \<Rightarrow> switch_outcome env True port s (Inl e) d1 | Inr _ \<Rightarrow> wp (monitor_info_payload env) (switch_outcome env True port s) d1"
    proof (cases r)
      case (Inl e)
      with o show ?thesis by (simp add: switch_error)
    next
      case (Inr u)
      with o show ?thesis by (simp add: wp_info_settled)
    qed
  qed (use assms(3-5) True in simp_all)
  with True show ?thesis by (simp add: chain_give)
next
  case False
  let ?d = "d\<lparr>dk_net := stop_relay_client (dk_net d)\<rparr>"
  have "on_disk env ?d = on_disk env d" by (simp add: on_disk_def stored_def stop_relay_client_def)
  then have "switch_outcome env False port s (Inr ()) ?d"
    using assms False by (simp add: switch_outcome_def servers_fit_def) (simp add: stop_relay_client_def)
  with False show ?thesis by (simp add: wp_info_settled)
qed

lemma read_first:
  assumes "fst (read_settings env d) = Inr s"
  obtains d0 where "read_settings env d = (Inr s, d0)" "desk_kept env d d0" "dk_servers d0 = dk_servers d"
proof -
  obtain r d0 where run: "read_settings env d = (r, d0)" by fastforce
  have "wp (read_settings env) (\<lambda>_ d0. desk_kept env d d0 \<and> dk_servers d0 = dk_servers d) d"
    by (rule wp_read_settings) simp
  with run assms that show thesis by (simp add: wp_def)
qed

section \<open>The offer\<close>

lemma wp_phones_call:
  assumes "keeps mw_pairing m" and "\<And>r d1. desk_kept env d d1 \<Longrightarrow> dk_servers d1 = dk_servers d \<Longrightarrow> Q r d1"
  shows "wp (at_net (at_phones m)) Q d"
proof -
  obtain r v where run: "m (nt_phones (dk_net d)) = (r, v)" by fastforce
  have "Q r (d\<lparr>dk_net := (dk_net d)\<lparr>nt_phones := v\<rparr>\<rparr>)"
    by (rule assms(2)) (use keepsD [OF assms(1) run] in \<open>simp_all add: desk_kept_def on_disk_def open_grant_def stored_def\<close>)
  with run show ?thesis by (simp add: wp_def at_net_def at_phones_def)
qed

lemma wp_read_credentials:
  assumes "\<And>r d1. desk_kept env d d1 \<Longrightarrow> dk_servers d1 = dk_servers d \<Longrightarrow> Q r d1"
  shows "wp (at_net (read_relay_credentials (do_net env))) Q d"
  unfolding read_relay_credentials_def wp_at_net
  by (auto intro!: wp_attempt assms simp: desk_kept_def on_disk_def open_grant_def stored_def split: sum.splits)

definition offers_object :: "string + json option \<times> string option \<Rightarrow> bool" where
  "offers_object r \<longleftrightarrow> (\<forall>j e. r = Inr (Some j, e) \<longrightarrow> j \<noteq> JNull)"

lemma offers_object_simps [simp]:
  "offers_object (Inl x)" "offers_object (Inr (None, e))" "offers_object (Inr (Some (relay_offer_json settings url i p t), e))"
  by (simp_all add: offers_object_def relay_offer_json_def)

lemma wp_offer_route:
  assumes "\<And>r d1. offers_object r \<Longrightarrow> desk_kept env d d1 \<Longrightarrow> dk_servers d1 = dk_servers d \<Longrightarrow> Q r d1"
  shows "wp (offer_route env settings desktop_id pairing_id) Q d"
proof -
  have called: "wp (chain (at_net (at_phones (generate_monitor_token (phones_env env)))) (\<lambda>route_token.
      and_then_always (at_net (at_phones (relay_call (relay_env env settings) e id))) (\<lambda>opened.
        case opened of Inl e \<Rightarrow> give (None, Some e)
        | Inr _ \<Rightarrow> chain (from_result (pairing_ws_url (se_relay settings) c pairing_id)) (\<lambda>url.
            give (Some (relay_offer_json settings url desktop_id pairing_id route_token), None))))) Q d1"
    if "desk_kept env d d1" "dk_servers d1 = dk_servers d" for d1 e c
    unfolding wp_chain wp_and_then_always
    by (rule wp_phones_call [where env = env]; (rule kept | simp)?)
      ((use that in \<open>auto simp del: wp_at_net intro!: wp_phones_call [where env = env] kept assms split: sum.split\<close>),
       (metis desk_kept_trans)+)
  show ?thesis
    unfolding offer_route_def wp_and_then_always [of "at_net x" for x]
    by (rule wp_read_credentials) (use called assms in \<open>auto simp del: wp_chain split: sum.split\<close>)
qed

text \<open>Addresses contain neither a slash nor the letter that follows it in the path.\<close>

definition plain_char :: "char \<Rightarrow> bool" where
  "plain_char c \<longleftrightarrow> code c \<noteq> 47 \<and> code c \<noteq> 118"

lemma decimal_plain: "list_all plain_char (decimal n)"
  using decimal_digits [of _ n] by (fastforce simp: list_all_iff plain_char_def)

lemma hex_char_plain: "n < 16 \<Longrightarrow> plain_char (hex_char n)"
  by (auto simp: plain_char_def hex_char_def code_def)

lemma hex_number_plain: "list_all plain_char (hex_number n)"
proof (induction n rule: hex_number.induct)
  case (1 n)
  then show ?case by (subst hex_number.simps) (auto intro: hex_char_plain)
qed

lemma marks_plain [simp]: "plain_char CHR ''.''" "plain_char CHR '':''" "plain_char CHR ''['' " "plain_char CHR '']''" "plain_char CHR ''f''"
  by (simp_all add: plain_char_def code_def)

lemma colon_list_plain: "list_all plain_char (colon_list ss)"
  by (induction ss rule: colon_list.induct) (simp_all add: hex_number_plain)

lemma octets_plain: "list_all plain_char (octets_text a b c d)"
  by (simp add: octets_text_def decimal_plain)

lemma segments_plain: "list_all plain_char (segments_text ss)"
  by (simp add: segments_text_def colon_list_plain split: prod.split)

lemma ip_text_plain: "list_all plain_char (ip_text ip)"
  by (cases ip) (simp_all only: ip_text.simps octets_plain segments_plain list_all_append split: if_split, simp)

lemma replace_skip: "replace_all old new k s = replace_all old new 0 (drop k s)"
proof (induction s arbitrary: k)
  case (Cons c s)
  then show ?case by (cases k) simp_all
qed simp

lemma replace_whole: "old \<noteq> [] \<Longrightarrow> replace_all old new 0 old = new"
proof -
  assume "old \<noteq> []"
  then obtain c t where old: "old = c # t" by (cases old) auto
  have "starts_with old (c # t)" using old by (simp add: starts_with_def)
  then have "replace_all old new 0 (c # t) = new @ replace_all old new (length old - 1) t" by simp
  also have "replace_all old new (length old - 1) t = []" by (subst replace_skip) (simp add: old)
  finally show ?thesis by (simp add: old)
qed

lemma replace_plain:
  assumes "list_all plain_char x" and "old = CHR ''/'' # t"
  shows "replace_all old new 0 (x @ old) = x @ new"
  using assms(1)
proof (induction x)
  case Nil
  have "old \<noteq> []" using assms(2) by simp
  then show ?case unfolding append_Nil by (rule replace_whole)
next
  case (Cons c x)
  then have "c \<noteq> CHR ''/''" by (auto simp: plain_char_def code_def)
  then have "\<not> starts_with old (c # x @ old)" by (simp add: starts_with_def assms(2))
  then show ?case using Cons by simp
qed

definition direct_url :: "u16 \<Rightarrow> ip_addr \<Rightarrow> string \<Rightarrow> string" where
  "direct_url port ip path =
     ''wss://'' @ (case ip of V4 _ _ _ _ \<Rightarrow> ip_text ip | V6 _ _ _ _ _ _ _ _ \<Rightarrow> ''['' @ ip_text ip @ '']'') @ '':'' @ decimal (unat port) @ path"

lemma replace_in_url:
  assumes "list_all plain_char x" and "x \<noteq> []"
  shows "replace_all ''/v1/ws/monitor'' ''/v1/ws/pair'' 0 (''wss://'' @ x @ ''/v1/ws/monitor'') = ''wss://'' @ x @ ''/v1/ws/pair''"
proof -
  obtain c y where x: "x = c # y" using assms(2) by (meson neq_Nil_conv)
  then have "c \<noteq> CHR ''v''" using assms(1) by (auto simp: plain_char_def code_def)
  then have "replace_all ''/v1/ws/monitor'' ''/v1/ws/pair'' 0 (''wss://'' @ x @ ''/v1/ws/monitor'')
      = ''wss://'' @ replace_all ''/v1/ws/monitor'' ''/v1/ws/pair'' 0 (x @ ''/v1/ws/monitor'')"
    unfolding x by (simp add: starts_with_def)
  also have "\<dots> = ''wss://'' @ x @ ''/v1/ws/pair''" by (subst replace_plain [OF assms(1)]) simp_all
  finally show ?thesis .
qed

lemma pair_url: "replace_all ''/v1/ws/monitor'' ''/v1/ws/pair'' 0 (direct_url port ip ''/v1/ws/monitor'') = direct_url port ip ''/v1/ws/pair''"
proof -
  let ?host = "case ip of V4 _ _ _ _ \<Rightarrow> ip_text ip | V6 _ _ _ _ _ _ _ _ \<Rightarrow> ''['' @ ip_text ip @ '']''"
  have plain: "list_all plain_char (?host @ '':'' @ decimal (unat port))"
    by (cases ip) (use ip_text_plain [of ip] decimal_plain in \<open>simp_all del: ip_text.simps\<close>)
  from replace_in_url [OF plain] show ?thesis by (simp add: direct_url_def)
qed

lemma endpoint_url: "en_url (endpoint_at port kind i) = direct_url port (ni_ip i) ''/v1/ws/monitor''"
  by (simp add: endpoint_at_def direct_url_def Let_def split: ip_addr.split)

text \<open>What an offer says of the desktop it leaves.\<close>

definition offer_stands :: "DeskOutside \<Rightarrow> Settings \<Rightarrow> json \<Rightarrow> DeskWorld \<Rightarrow> bool" where
  "offer_stands env s offer d \<longleftrightarrow>
     (\<exists>g h hs cs. open_grant d = Some g \<and> dk_servers d = h # hs
       \<and> pg_code_hash g = me_sha (phones_env env) (pg_pairing_code g)
       \<and> json_str_at ''pairingId'' offer = Some (pg_pairing_id g) \<and> json_str_at ''pairingCode'' offer = Some (pg_pairing_code g)
       \<and> json_str_at ''fingerprintSha256'' offer = Some (sr_fingerprint h)
       \<and> json_get ''directCandidates'' offer = Some (JArray cs) \<and> length cs \<le> 8
       \<and> (cs = [] \<longrightarrow> json_get ''relayPairing'' offer \<noteq> Some JNull)
       \<and> (\<forall>c \<in> set cs. \<exists>i \<in> set (case do_interfaces env of None \<Rightarrow> [] | Some is \<Rightarrow> is). usable i
            \<and> (\<exists>h \<in> set (dk_servers d). sr_ipv6 h = (case ni_ip i of V4 _ _ _ _ \<Rightarrow> False | V6 _ _ _ _ _ _ _ _ \<Rightarrow> True))
            \<and> json_str_at ''url'' c = Some (direct_url (se_monitor_port s) (ni_ip i) ''/v1/ws/pair'')))"

lemma candidate_url: "json_str_at ''url'' (pair_candidate e) = Some (replace_all ''/v1/ws/monitor'' ''/v1/ws/pair'' 0 (en_url e))"
  by (simp add: json_str_at_def pair_candidate_def)

lemma served_endpoint:
  assumes "e \<in> set (served_endpoints env port servers)"
  shows "\<exists>i \<in> set (case do_interfaces env of None \<Rightarrow> [] | Some is \<Rightarrow> is). usable i
    \<and> (\<exists>h \<in> set servers. sr_ipv6 h = (case ni_ip i of V4 _ _ _ _ \<Rightarrow> False | V6 _ _ _ _ _ _ _ _ \<Rightarrow> True))
    \<and> json_str_at ''url'' (pair_candidate e) = Some (direct_url port (ni_ip i) ''/v1/ws/pair'')"
proof -
  obtain "is" where "is": "do_interfaces env = Some is"
    using assms by (cases "do_interfaces env") (auto simp: served_endpoints_def discover_monitor_endpoints_def)
  then have "e \<in> set (collect_endpoints port {} is)" using assms by (simp add: served_endpoints_def)
  from collected_mem [OF this] obtain i where i: "i \<in> set is" "usable i" "e = endpoint_at port (kind_of (ni_ip i)) i" by blast
  have fam: "en_family e = (case ni_ip i of V4 _ _ _ _ \<Rightarrow> ''ipv4'' | V6 _ _ _ _ _ _ _ _ \<Rightarrow> ''ipv6'')"
    by (simp add: i(3) endpoint_at_def Let_def)
  have "en_family e = ''ipv4'' \<and> (\<exists>h \<in> set servers. \<not> sr_ipv6 h) \<or> en_family e = ''ipv6'' \<and> (\<exists>h \<in> set servers. sr_ipv6 h)"
    using assms by (simp add: served_endpoints_def)
  then have "\<exists>h \<in> set servers. sr_ipv6 h = (case ni_ip i of V4 _ _ _ _ \<Rightarrow> False | V6 _ _ _ _ _ _ _ _ \<Rightarrow> True)"
    unfolding fam by (cases "ni_ip i") simp_all
  with i "is" show ?thesis
    by (intro bexI [of _ i]) (simp_all add: candidate_url endpoint_url pair_url)
qed

lemma offer_json_stands:
  assumes "open_grant d = Some (new_grant env c x now)" and "dk_servers d = h # hs" and "offers_object (Inr relay)"
    and "\<not> (es = [] \<and> fst relay = None)" and "es = take 8 (served_endpoints env (se_monitor_port s) (dk_servers d))"
  shows "offer_stands env s (offer_json s i (map pair_candidate es) relay (sr_fingerprint h) (new_grant env c x now)) d"
proof -
  have urls: "\<exists>i \<in> set (case do_interfaces env of None \<Rightarrow> [] | Some is \<Rightarrow> is). usable i
    \<and> (\<exists>h \<in> set (dk_servers d). sr_ipv6 h = (case ni_ip i of V4 _ _ _ _ \<Rightarrow> False | V6 _ _ _ _ _ _ _ _ \<Rightarrow> True))
    \<and> json_str_at ''url'' c = Some (direct_url (se_monitor_port s) (ni_ip i) ''/v1/ws/pair'')" if "c \<in> set (map pair_candidate es)" for c
  proof -
    from that obtain e where "c = pair_candidate e" "e \<in> set es" by auto
    then show ?thesis using served_endpoint [of e env "se_monitor_port s" "dk_servers d"] assms(5) by (metis in_set_takeD)
  qed
  show ?thesis
    unfolding offer_stands_def
  proof (intro exI conjI)
    show "open_grant d = Some (new_grant env c x now)" "dk_servers d = h # hs" by (fact assms)+
    show "\<forall>c \<in> set (map pair_candidate es). \<exists>i \<in> set (case do_interfaces env of None \<Rightarrow> [] | Some is \<Rightarrow> is). usable i
      \<and> (\<exists>h \<in> set (dk_servers d). sr_ipv6 h = (case ni_ip i of V4 _ _ _ _ \<Rightarrow> False | V6 _ _ _ _ _ _ _ _ \<Rightarrow> True))
      \<and> json_str_at ''url'' c = Some (direct_url (se_monitor_port s) (ni_ip i) ''/v1/ws/pair'')" using urls by blast
    show "map pair_candidate es = [] \<longrightarrow> json_get ''relayPairing'' (offer_json s i (map pair_candidate es) relay (sr_fingerprint h) (new_grant env c x now)) \<noteq> Some JNull"
      using assms(3,4) by (cases relay) (auto simp: offer_json_def offers_object_def json_opt_def split: option.splits)
    show "length (map pair_candidate es) \<le> 8" by (simp add: assms(5))
  qed (simp_all add: new_grant_def offer_json_def json_str_at_def)
qed

definition offer_outcome :: "DeskOutside \<Rightarrow> DeskWorld \<Rightarrow> string + json \<Rightarrow> DeskWorld \<Rightarrow> bool" where
  "offer_outcome env d r d1 \<longleftrightarrow> on_disk env d1 = on_disk env d \<and> (servers_fit env d \<longrightarrow> servers_fit env d1)
     \<and> (case r of Inl _ \<Rightarrow> open_grant d1 = open_grant d
        | Inr offer \<Rightarrow> \<exists>s. on_disk env d = Inr s \<and> se_monitor_enabled s \<and> offer_stands env s offer d1)"

lemma offer_outcome_error: "start_outcome env d r d1 \<Longrightarrow> desk_kept env d1 d2 \<Longrightarrow> dk_servers d2 = dk_servers d1 \<Longrightarrow> offer_outcome env d (Inl e) d2"
  using start_fits [of env d r d1] by (auto simp: offer_outcome_def start_outcome_def desk_kept_def servers_fit_def)

lemma wp_offer_grant:
  assumes d1: "start_outcome env d r d1" "desk_kept env d1 d2" "dk_servers d2 = dk_servers d1" "dk_servers d1 = h # hs"
    and s: "on_disk env d = Inr s" "se_monitor_enabled s"
  shows "wp (offer_grant env s i (map pair_candidate (take 8 (served_endpoints env (se_monitor_port s) (dk_servers d1)))) (sr_fingerprint h)
      (new_grant env c x now)) (offer_outcome env d) d2"
proof -
  let ?es = "take 8 (served_endpoints env (se_monitor_port s) (dk_servers d1))" and ?g = "new_grant env c x now"
  have finish: "wp (if map pair_candidate ?es = [] \<and> fst relay = None then raise e
      else chain (at_net (at_phones (modify (\<lambda>w. w\<lparr>mw_pairing := Some ?g\<rparr>)))) (\<lambda>_.
        give (offer_json s i (map pair_candidate ?es) relay (sr_fingerprint h) ?g))) (offer_outcome env d) d3"
    if o: "offers_object (Inr relay)" and d3: "desk_kept env d2 d3" "dk_servers d3 = dk_servers d2" for relay e d3
  proof (cases "map pair_candidate ?es = [] \<and> fst relay = None")
    case True
    have "offer_outcome env d (Inl e) d3"
      by (rule offer_outcome_error [OF d1(1) desk_kept_trans [OF d1(2) d3(1)]]) (simp add: d1 d3)
    with True show ?thesis by simp
  next
    case False
    let ?d = "d3\<lparr>dk_net := (dk_net d3)\<lparr>nt_phones := (nt_phones (dk_net d3))\<lparr>mw_pairing := Some ?g\<rparr>\<rparr>\<rparr>"
    have e3: "offer_outcome env d (Inl e) d3"
      by (rule offer_outcome_error [OF d1(1) desk_kept_trans [OF d1(2) d3(1)]]) (simp add: d1 d3)
    have "offer_stands env s (offer_json s i (map pair_candidate ?es) relay (sr_fingerprint h) ?g) ?d"
      by (rule offer_json_stands [where hs = hs]) (use False o d1 d3 in \<open>auto simp: open_grant_def\<close>)
    moreover have "on_disk env ?d = on_disk env d3" by (simp add: on_disk_def stored_def)
    ultimately have "offer_outcome env d (Inr (offer_json s i (map pair_candidate ?es) relay (sr_fingerprint h) ?g)) ?d"
      using e3 s by (auto simp: offer_outcome_def servers_fit_def)
    with False show ?thesis by (auto simp: wp_def chain_def at_net_def at_phones_def modify_def give_def)
  qed
  have err: "offer_outcome env d (Inl e) d3" if "desk_kept env d2 d3" "dk_servers d3 = dk_servers d2" for e d3
    by (rule offer_outcome_error [OF d1(1) desk_kept_trans [OF d1(2) that(1)]]) (simp add: d1 that)
  show ?thesis
    unfolding offer_grant_def wp_chain [of "if b then y else z" for b y z]
  proof (rule wp_either)
    assume "rl_enabled (se_relay s)"
    show "wp (offer_route env s i (pg_pairing_id ?g)) (\<lambda>r d3. case r of Inl e \<Rightarrow> offer_outcome env d (Inl e) d3 | Inr relay \<Rightarrow>
        wp (if map pair_candidate ?es = [] \<and> fst relay = None then raise (case snd relay of None \<Rightarrow> ''no way to reach the desktop'' | Some e \<Rightarrow> e)
          else chain (at_net (at_phones (modify (\<lambda>w. w\<lparr>mw_pairing := Some ?g\<rparr>)))) (\<lambda>_.
            give (offer_json s i (map pair_candidate ?es) relay (sr_fingerprint h) ?g))) (offer_outcome env d) d3) d2"
    proof (rule wp_offer_route)
      fix r :: "string + json option \<times> string option" and d3
      assume "offers_object r" "desk_kept env d2 d3" "dk_servers d3 = dk_servers d2"
      then show "case r of Inl e \<Rightarrow> offer_outcome env d (Inl e) d3 | Inr relay \<Rightarrow>
        wp (if map pair_candidate ?es = [] \<and> fst relay = None then raise (case snd relay of None \<Rightarrow> ''no way to reach the desktop'' | Some e \<Rightarrow> e)
          else chain (at_net (at_phones (modify (\<lambda>w. w\<lparr>mw_pairing := Some ?g\<rparr>)))) (\<lambda>_.
            give (offer_json s i (map pair_candidate ?es) relay (sr_fingerprint h) ?g))) (offer_outcome env d) d3"
        using finish err by (cases r) (simp_all only: sum.case)
    qed
  next
    assume "\<not> rl_enabled (se_relay s)"
    show "wp (give (None, None)) (\<lambda>r d3. case r of Inl e \<Rightarrow> offer_outcome env d (Inl e) d3 | Inr relay \<Rightarrow>
        wp (if map pair_candidate ?es = [] \<and> fst relay = None then raise (case snd relay of None \<Rightarrow> ''no way to reach the desktop'' | Some e \<Rightarrow> e)
          else chain (at_net (at_phones (modify (\<lambda>w. w\<lparr>mw_pairing := Some ?g\<rparr>)))) (\<lambda>_.
            give (offer_json s i (map pair_candidate ?es) relay (sr_fingerprint h) ?g))) (offer_outcome env d) d3) d2"
      unfolding wp_give sum.case by (rule finish) simp_all
  qed
qed

lemma wp_offer_tail:
  assumes "start_outcome env d r d1" and "dk_servers d1 = h # hs" and "on_disk env d = Inr s" "se_monitor_enabled s"
  shows "wp (chain (at_net (ensure_monitor_desktop_id (do_net env))) (\<lambda>desktop_id.
           chain (at_net (at_phones (generate_monitor_token (phones_env env)))) (\<lambda>pairing_code.
           chain (at_net (at_phones (generate_monitor_token (phones_env env)))) (\<lambda>pairing_random.
           chain (at_net (at_phones (Monitor_Devices.timestamp_ms (phones_env env)))) (\<lambda>now.
             offer_grant env s desktop_id (map pair_candidate (take 8 (served_endpoints env (se_monitor_port s) (dk_servers d1)))) (sr_fingerprint h)
               (new_grant env pairing_code pairing_random now)))))) (offer_outcome env d) d1"
proof -
  have err: "offer_outcome env d (Inl e) d2" if "desk_kept env d1 d2" "dk_servers d2 = dk_servers d1" for e d2
    by (rule offer_outcome_error [OF assms(1) that])
  have token: "keeps mw_pairing (generate_monitor_token (phones_env env))" "keeps mw_pairing (Monitor_Devices.timestamp_ms (phones_env env))"
    by (rule kept, simp)+
  note call = wp_phones_call [OF token(1), where env = env] wp_phones_call [OF token(2), where env = env] wp_desktop_id
  note grant = wp_offer_grant [OF assms(1) _ _ assms(2-4)]
  show ?thesis
    unfolding wp_chain
    by ((auto simp del: wp_at_net intro!: call err grant split: sum.split), (metis desk_kept_trans)+)
qed

lemma wp_create_pairing: "wp (create_pairing env) (offer_outcome env d) d"
  unfolding create_pairing_def wp_chain [of "read_settings env"]
proof (rule wp_read_settings, unfold sum.case)
  fix s d0
  assume d0: "desk_kept env d d0" "dk_servers d0 = dk_servers d"
    and s: "on_disk env d = Inr s \<or> s = default_settings \<and> (isl (on_disk env d) \<or> \<not> calm env)"
  have stop: "offer_outcome env d (Inl e) d0" for e
    using d0 by (simp add: offer_outcome_def desk_kept_def servers_fit_def)
  let ?rest = "\<lambda>_ d. case dk_servers d of [] \<Rightarrow> (Inl ''the monitor server does not run'', d)
       | h # _ \<Rightarrow> (let candidates = map pair_candidate (take 8 (served_endpoints env (se_monitor_port s) (dk_servers d))) in
           chain (at_net (ensure_monitor_desktop_id (do_net env))) (\<lambda>desktop_id.
           chain (at_net (at_phones (generate_monitor_token (phones_env env)))) (\<lambda>pairing_code.
           chain (at_net (at_phones (generate_monitor_token (phones_env env)))) (\<lambda>pairing_random.
           chain (at_net (at_phones (Monitor_Devices.timestamp_ms (phones_env env)))) (\<lambda>now.
             offer_grant env s desktop_id candidates (sr_fingerprint h) (new_grant env pairing_code pairing_random now))))) d)"
  show "wp (if \<not> se_monitor_enabled s then raise ''turn the phone connection on first'' else chain (start_monitor_service env) ?rest)
      (offer_outcome env d) d0"
  proof (rule wp_either)
    show "wp (raise ''turn the phone connection on first'') (offer_outcome env d) d0" using stop by simp
  next
    assume "\<not> \<not> se_monitor_enabled s"
    then have on: "on_disk env d = Inr s" "se_monitor_enabled s" using s by (auto simp: default_settings_def)
    show "wp (chain (start_monitor_service env) ?rest) (offer_outcome env d) d0"
      unfolding wp_chain
    proof (rule wp_start_service)
      fix r d1 assume "start_outcome env d0 r d1"
      then have o: "start_outcome env d r d1" using d0 by (auto simp: start_outcome_def desk_kept_def)
      show "case r of Inl e \<Rightarrow> offer_outcome env d (Inl e) d1 | Inr a \<Rightarrow> wp (?rest a) (offer_outcome env d) d1"
      proof (cases "isl r \<or> dk_servers d1 = []")
        case True
        then show ?thesis
          using offer_outcome_error [OF o] by (cases r) (auto simp: wp_def)
      next
        case False
        then obtain u h hs where r: "r = Inr u" "dk_servers d1 = h # hs" by (cases r; cases "dk_servers d1") auto
        have "wp (?rest u) (offer_outcome env d) d1 \<longleftrightarrow> wp (chain (at_net (ensure_monitor_desktop_id (do_net env))) (\<lambda>desktop_id.
           chain (at_net (at_phones (generate_monitor_token (phones_env env)))) (\<lambda>pairing_code.
           chain (at_net (at_phones (generate_monitor_token (phones_env env)))) (\<lambda>pairing_random.
           chain (at_net (at_phones (Monitor_Devices.timestamp_ms (phones_env env)))) (\<lambda>now.
             offer_grant env s desktop_id (map pair_candidate (take 8 (served_endpoints env (se_monitor_port s) (dk_servers d1)))) (sr_fingerprint h)
               (new_grant env pairing_code pairing_random now)))))) (offer_outcome env d) d1"
          by (simp only: wp_def r(2) list.case Let_def)
        with wp_offer_tail [OF o r(2) on] r(1) show ?thesis by (simp only: sum.case)
      qed
    qed
  qed
qed

text \<open>A first read that fails makes the program believe in defaults: the server is not restarted on the new port, and an enabled
  relay is turned off.\<close>

lemma stale_read_keeps_old_port:
  assumes "faithful (outside_of env)" and "fst (read_settings env d) = Inr default_settings" and "on_disk env d = Inr s"
    and "dk_servers d \<noteq> []" and "set_monitor_enabled env True (Some p) d = (Inr j, d1)"
  shows "dk_servers d1 = dk_servers d \<and> (\<exists>s1. on_disk env d1 = Inr s1 \<and> se_monitor_port s1 = p \<and> \<not> rl_enabled (se_relay s1))"
proof -
  let ?new = "monitor_change True (Some p) default_settings"
  define Q :: "string + json \<Rightarrow> DeskWorld \<Rightarrow> bool" where "Q r d1 \<longleftrightarrow> (\<not> isl r \<longrightarrow> dk_servers d1 = dk_servers d
      \<and> (\<exists>s1. on_disk env d1 = Inr s1 \<and> se_monitor_port s1 = p \<and> \<not> rl_enabled (se_relay s1)))" for r d1
  obtain d0 where d0: "read_settings env d = (Inr default_settings, d0)" "desk_kept env d d0" "dk_servers d0 = dk_servers d"
    using read_first [OF assms(2)] .
  have off: "\<not> se_monitor_enabled default_settings" "\<not> rl_enabled (se_relay default_settings)" by (simp_all add: default_settings_def)
  have tail: "wp (chain (start_or_undo env default_settings) (\<lambda>_. monitor_info_payload env)) Q d2"
    if "dk_servers d2 = dk_servers d" "on_disk env d2 = Inr s1" "se_monitor_port s1 = p" "\<not> rl_enabled (se_relay s1)" for d2 s1
  proof -
    have "wp (start_or_undo env default_settings) (\<lambda>r d3. \<not> isl r \<longrightarrow> dk_servers d3 = dk_servers d \<and> on_disk env d3 = Inr s1) d2"
      unfolding start_or_undo_def wp_and_then_always
    proof (rule wp_start_service)
      fix r d3 assume "start_outcome env d2 r d3"
      then have "dk_servers d3 = dk_servers d" "on_disk env d3 = Inr s1" using that assms(4) by (auto simp: start_outcome_def desk_kept_def)
      then show "wp (case r of Inr _ \<Rightarrow> give () | Inl e \<Rightarrow> and_then_always (write_settings env (take_monitor default_settings)) (\<lambda>_.
          and_then_always (if se_monitor_enabled default_settings then start_monitor_service env else give ()) (\<lambda>_. raise e)))
          (\<lambda>r d3. \<not> isl r \<longrightarrow> dk_servers d3 = dk_servers d \<and> on_disk env d3 = Inr s1) d3"
        by (cases r) (auto simp: off wp_def and_then_always_def raise_def give_def split: prod.split)
    qed
    then obtain r d3 where run: "start_or_undo env default_settings d2 = (r, d3)"
        and d3: "\<not> isl r \<longrightarrow> dk_servers d3 = dk_servers d \<and> on_disk env d3 = Inr s1"
      by (auto simp: wp_def split: prod.splits)
    show ?thesis
    proof (cases r)
      case (Inl e)
      with run show ?thesis by (simp add: wp_def chain_def Q_def)
    next
      case (Inr u)
      have "wp (monitor_info_payload env) Q d3"
        by (rule wp_info) (use d3 Inr that in \<open>auto simp: Q_def desk_kept_def\<close>)
      with run Inr show ?thesis by (simp add: wp_def chain_def)
    qed
  qed
  have "wp (chain (write_settings env (take_monitor ?new)) (\<lambda>_. chain (start_or_undo env default_settings) (\<lambda>_. monitor_info_payload env))) Q d0"
    unfolding wp_chain [of "write_settings env f" for f]
  proof (rule wp_write_settings [OF assms(1)])
    show "on_disk env d0 = Inr s" using d0(2) assms(3) by (simp add: desk_kept_def)
    fix d2
    assume d2: "on_disk env d2 = Inr (normalize_settings (outside_of env) (take_monitor ?new s))" "dk_servers d2 = dk_servers d0"
    have "se_monitor_port (normalize_settings (outside_of env) (take_monitor ?new s)) = p"
      "\<not> rl_enabled (se_relay (normalize_settings (outside_of env) (take_monitor ?new s)))"
      by (simp_all add: normalize_settings_def take_monitor_def monitor_change_def Let_def off split: option.split)
    then show "case Inr (take_monitor ?new s) of Inl e \<Rightarrow> Q (Inl e) d2
        | Inr _ \<Rightarrow> wp (chain (start_or_undo env default_settings) (\<lambda>_. monitor_info_payload env)) Q d2"
      unfolding sum.case using d2 d0(3) by (intro tail) simp_all
  qed (simp_all add: Q_def)
  moreover have "set_monitor_enabled env True (Some p) d = (if p < 1024 then raise ''the monitor port must be 1024-65535''
     else chain (write_settings env (take_monitor ?new)) (\<lambda>_. chain (start_or_undo env default_settings) (\<lambda>_. monitor_info_payload env))) d0"
    unfolding set_monitor_enabled_def chain_def [of "read_settings env"] d0(1) prod.case sum.case Let_def by (simp add: off chain_give)
  ultimately have "Q (Inr j) d1"
    using assms(5) by (auto simp: wp_def raise_def split: if_splits)
  then show ?thesis by (simp add: Q_def)
qed

section \<open>Properties\<close>



section \<open>Witnesses\<close>

definition calm_desk :: DeskOutside where
  "calm_desk = \<lparr>do_net = calm_net, do_identity = Inr ''print'', do_master_key = Inr [1], do_bind = (\<lambda>_ _. True),
     do_interfaces = Some [home_interface]\<rparr>"

definition fresh_desk :: DeskWorld where
  "fresh_desk = \<lparr>dk_net = fresh_net, dk_servers = []\<rparr>"

lemma calm_desk_out: "outside_of calm_desk = calm_outside" "servers_fit calm_desk fresh_desk" "on_disk calm_desk fresh_desk = Inr default_settings"
  by (simp_all add: calm_desk_def outside_of_def calm_net_out servers_fit_def fresh_desk_def on_disk_def stored_def fresh_net_def file_settings_def
      Settings_Text.fresh_world_def)

lemma fresh_desk_read: "fst (read_settings calm_desk fresh_desk) = Inr default_settings"
proof -
  obtain w where "load_settings_checked (no_out calm_net) (nt_world fresh_net) = (Inr default_settings, w)"
    using fresh_net_read by (metis prod.collapse)
  then show ?thesis
    by (simp add: read_settings_def at_net_def at_world_def calm_desk_def outside_of_def fresh_desk_def load_settings_def)
qed

lemma calm_desk_calm: "calm calm_desk"
  by (simp add: calm_def calm_desk_out calm_outside_def)


definition phone_settings :: Settings where
  "phone_settings = default_settings\<lparr>se_monitor_enabled := True\<rparr>"

definition phone_desk :: DeskWorld where
  "phone_desk = \<lparr>dk_net = fresh_net\<lparr>nt_world := Settings_Text.fresh_world\<lparr>w_file := Some (os_print_settings calm_outside phone_settings @ [CHR 0x0A])\<rparr>\<rparr>,
     dk_servers = [\<lparr>sr_ipv6 = False, sr_port = 18432, sr_fingerprint = ''print''\<rparr>]\<rparr>"

lemma phone_desk_disk: "on_disk calm_desk phone_desk = Inr phone_settings" "servers_fit calm_desk phone_desk"
proof -
  show "on_disk calm_desk phone_desk = Inr phone_settings"
    using calm_faithful by (simp add: on_disk_def stored_def file_settings_def phone_desk_def calm_desk_def calm_net_out settings_of_text_def
      faithful_def phone_settings_def default_settings_def normalize_settings_def default_proxy_def)
  then show "servers_fit calm_desk phone_desk" by (simp add: servers_fit_def) (simp add: phone_desk_def phone_settings_def default_settings_def)
qed

lemma phone_calls: "attempt calm_outside e w = (Inr (), passed calm_outside w)" "w_file (passed calm_outside w) = w_file w"
  by (simp_all add: attempt_def calm_outside_def passed_def)

lemma phone_read:
  assumes "w_file (nt_world (dk_net d)) = Some (os_print_settings calm_outside phone_settings @ [CHR 0x0A])"
  shows "\<exists>w. read_settings calm_desk d = (Inr phone_settings, d\<lparr>dk_net := (dk_net d)\<lparr>nt_world := w\<rparr>\<rparr>)
     \<and> w_file w = Some (os_print_settings calm_outside phone_settings @ [CHR 0x0A])"
proof -
  have "settings_of_text calm_outside (os_print_settings calm_outside phone_settings @ [CHR 0x0A]) = Inr phone_settings"
    using calm_faithful by (simp add: settings_of_text_def faithful_def phone_settings_def default_settings_def normalize_settings_def default_proxy_def)
  with assms show ?thesis
    by (intro exI [of _ "passed calm_outside (passed calm_outside (nt_world (dk_net d)))"])
      (simp add: read_settings_def at_net_def at_world_def calm_desk_out load_settings_def load_settings_checked_def attempts.simps chain_def
        phone_calls give_def)
qed

lemma phone_offer: "\<not> isl (fst (create_pairing calm_desk phone_desk))"
proof -
  have "w_file (nt_world (dk_net phone_desk)) = Some (os_print_settings calm_outside phone_settings @ [CHR 0x0A])" by (simp add: phone_desk_def)
  from phone_read [OF this] obtain w where w: "read_settings calm_desk phone_desk = (Inr phone_settings, phone_desk\<lparr>dk_net := (dk_net phone_desk)\<lparr>nt_world := w\<rparr>\<rparr>)"
      "w_file w = Some (os_print_settings calm_outside phone_settings @ [CHR 0x0A])" by blast
  let ?d = "phone_desk\<lparr>dk_net := (dk_net phone_desk)\<lparr>nt_world := w\<rparr>\<rparr>"
  from phone_read [of ?d] w(2) obtain v where v: "read_settings calm_desk ?d = (Inr phone_settings, phone_desk\<lparr>dk_net := (dk_net phone_desk)\<lparr>nt_world := v\<rparr>\<rparr>)"
    by auto
  have on: "se_monitor_enabled phone_settings" "\<not> se_monitor_port phone_settings < 1024" "\<not> rl_enabled (se_relay phone_settings)"
      "se_monitor_port phone_settings = 18432"
    by (simp_all add: phone_settings_def default_settings_def)
  let ?e = "endpoint_at 18432 ''lan'' home_interface"
  have "kind_of (ni_ip home_interface) = ''lan''" by (simp add: kind_of_def home_interface_def)
  then have found: "discover_monitor_endpoints (do_interfaces calm_desk) 18432 = [?e]"
    using home_usable by (simp add: discover_monitor_endpoints_def calm_desk_def endpoint_of_iff)
  have family: "en_family ?e = ''ipv4''" by (simp add: endpoint_at_def home_interface_def Let_def)
  have servers: "dk_servers phone_desk = [\<lparr>sr_ipv6 = False, sr_port = 18432, sr_fingerprint = ''print''\<rparr>]" by (simp add: phone_desk_def)
  have phones: "phones_env calm_desk = demo_env" "no_env (do_net calm_desk) = demo_env" "no_out (do_net calm_desk) = calm_outside"
      "nt_phones (dk_net phone_desk) = Monitor_Device_Safety.fresh_world" "nt_identity (dk_net phone_desk) = None"
    by (simp_all add: phones_env_def calm_desk_def calm_net_def phone_desk_def fresh_net_def)
  have calls: "me_ok demo_env k" for k by (simp add: demo_env_def)
  show ?thesis
    by (simp add: create_pairing_def start_monitor_service_def chain_def w(1) v on servers served_endpoints_def found family phones
       at_net_def at_phones_def at_world_def monitor_devices_snapshot_def ensure_monitor_devices_loaded_def load_monitor_devices_def os_call_def
       devices_of_file_def Monitor_Device_Safety.fresh_world_def calls give_def passed_by_def and_then_always_def raise_def modify_def from_result_def
       ensure_monitor_desktop_id_def phone_calls stored_desktop_id_def generate_monitor_token_def Let_def attempts.simps
       Monitor_Devices.timestamp_ms_def offer_grant_def)
qed


end
