(* ===== verification/Spec2Isabelle.thy ===== *)
theory Spec2Isabelle
  imports Mcp_Gateway_Properties Desktop_Wss Relay_Safety Transport_Steps Relay_Paths Network_Safety Https_Supervisor Call_History Monitor_Commands
begin

text \<open>
  \<^bold>\<open>ChatX: the relay and the desktop's transports.\<close> ChatX lets ChatGPT call the tools of a desktop over MCP
  and lets a phone watch and steer that desktop. The program has three parts, all in Rust: the protocol shared
  by both ends (\<^verbatim>\<open>relay-protocol/src\<close>), the relay server (\<^verbatim>\<open>relay-server/src\<close>) and the desktop application
  (\<^verbatim>\<open>src-tauri/src\<close>). A public HTTPS request reaches the relay's gateway, travels in frames over the websocket of
  the desktop's one active session to the desktop, and from there to the MCP bridge on the loopback interface; the
  response takes the way back. Next to it the relay routes encrypted snapshots, controls and pairing messages
  between desktops and phones it cannot read. The desktop reaches ChatGPT either through this HTTPS way or
  through OpenAI's Secure MCP Tunnel client, never through both.

  \<^bold>\<open>Protocol.\<close>
  \<^item> \<open>ChatX_Prelude\<close>: integers, strings as bytes, header maps, hash maps, JSON, and their lemmas.
  \<^item> \<open>Mcp_Stream\<close> (\<^verbatim>\<open>mcp_stream.rs\<close>): the binary frames, both directions inverse to each other.
  \<^item> \<open>Mcp_Policy\<close> (\<^verbatim>\<open>mcp_http.rs\<close>, \<^verbatim>\<open>mcp_control.rs\<close>): allow lists, limits, message kinds.
  \<^item> \<open>Registration\<close> (\<^verbatim>\<open>registration.rs\<close>): the signed registration code, sound and complete.
  \<^item> \<open>Relay_Messages\<close> (\<^verbatim>\<open>lib.rs\<close>): the messages of the monitor relay.

  \<^bold>\<open>Relay.\<close>
  \<^item> \<open>Registry_Store\<close> (\<^verbatim>\<open>registry.rs\<close>): the registry file, its save on Unix and Windows step by step, with every
    disk a crash can leave; the locale \<open>registry_store\<close> is the contract \<open>Registry_Routes\<close> relies on, interpreted on both.
  \<^item> \<open>Mcp_Gateway\<close>, \<open>Mcp_Gateway_Properties\<close> (\<^verbatim>\<open>mcp_gateway.rs\<close>): sessions, pending requests, replies and uploads; the step
    relation \<open>gw_step\<close> interleaves them, its invariant bounds them.
  \<^item> \<open>Relay_State\<close> (\<^verbatim>\<open>main.rs\<close>, \<^verbatim>\<open>web_utils.rs\<close>), \<open>Registry_Routes\<close>, \<open>Pairing_Session\<close>, \<open>Desktop_Session\<close>,
    \<open>Device_Session\<close> (the files of these names): \<open>AppState\<close> as a record and every handler as functions on it; a handler
    that waits is split where it waits (\<open>_begin\<close>, \<open>_finish\<close>). What a handler sends is a list of effects.
  \<^item> \<open>Relay_Safety\<close>: all handlers as one step relation, its limits and the registry as an invariant.

  \<^bold>\<open>Desktop.\<close>
  \<^item> \<open>Desktop_Wss\<close> (\<^verbatim>\<open>https_mcp_wss.rs\<close>): the desktop's end of the MCP websocket.
  \<^item> \<open>Tunnel_Status\<close> (\<^verbatim>\<open>tunnel_status.rs\<close> and the projection in \<^verbatim>\<open>monitor_status.rs\<close>): what is known of the tunnel.
  \<^item> \<open>Effects\<close>: actions with state and errors, and weakest preconditions for them.
  \<^item> \<open>Desktop_State\<close> (\<^verbatim>\<open>settings.rs\<close>, \<^verbatim>\<open>connection_intent.rs\<close>, \<^verbatim>\<open>app_state.rs\<close>): settings file, stop markers,
    shared state, and the rules for operations on them.
  \<^item> \<open>Remote_Addresses\<close> (\<^verbatim>\<open>https_mcp.rs\<close>, \<^verbatim>\<open>relay.rs\<close>): checks on configured addresses.
  \<^item> \<open>Transport_Control\<close>, \<open>Transport_Safety\<close>, \<open>Tunnel_Recovery\<close> (\<^verbatim>\<open>connection_coordinator.rs\<close>,
    \<^verbatim>\<open>tunnel_runtime.rs\<close>, \<^verbatim>\<open>tunnel_recovery.rs\<close>, \<^verbatim>\<open>connection_commands.rs\<close>, \<^verbatim>\<open>https_mcp.rs\<close>): starting, stopping and
    switching the transports, startup, automatic reconnect. \<open>Settings_Text\<close> is a concrete serializer for witnesses.
  \<^item> \<open>Monitor_Activity\<close> (\<^verbatim>\<open>monitor.rs\<close>, \<^verbatim>\<open>mcp_sources.rs\<close>), \<open>Monitor_Status\<close> (\<^verbatim>\<open>monitor_status.rs\<close>, \<^verbatim>\<open>connection_health.rs\<close>),
    \<open>Monitor_Control\<close> (\<^verbatim>\<open>monitor_control.rs\<close>): what phones see of the desktop and what they may ask of it.
  \<^item> \<open>Monitor_Devices\<close>, \<open>Monitor_Device_Safety\<close> (\<^verbatim>\<open>monitor_manager.rs\<close>): the paired phones, their file, pairing codes and
    revocation; the step relation \<open>pairing_step\<close> interleaves requests and restarts and refines a durable list.
  \<^item> \<open>Monitor_Crypto\<close> (\<^verbatim>\<open>monitor_crypto.rs\<close>): the boxes between desktop and phone and what they are tied to.
  \<^item> \<open>Monitor_Http\<close>, \<open>Monitor_Server\<close> (\<^verbatim>\<open>monitor_server.rs\<close>): the desktop's own server for phones in the same network: the
    head of a request, its query, the HTTPS routes, the websocket sessions for monitoring and pairing; what the server asks
    of its handlers is the locale \<open>device_gate\<close>.
  \<^item> \<open>Monitor_Service\<close> (\<^verbatim>\<open>start_monitor_service\<close> of \<^verbatim>\<open>monitor_manager.rs\<close>): its handlers, for which the locale is interpreted,
    and what a phone gets through the server: an answer only it can open, an end to its session once it is revoked.
  \<^item> \<open>Relay_Client\<close>, \<open>Relay_Client_Safety\<close> (\<^verbatim>\<open>relay.rs\<close>): the desktop's client of the relay, a session as an action over the events of
    its \<^verbatim>\<open>select!\<close>, the loop around it, the upload of snapshots; what the relay asks of the desktop is the locale \<open>relay_side\<close>.
  \<^item> \<open>Relay_Paths\<close> (\<^verbatim>\<open>start_relay_client_for_settings\<close> of \<^verbatim>\<open>network_commands.rs\<close>, \<^verbatim>\<open>handle\<close> of \<^verbatim>\<open>monitor_control.rs\<close>): the
    desktop's handlers, for which that locale is interpreted, and a phone's control and revocation from the phone through the
    relay to the desktop and back.
  \<^item> \<open>Proxy_Settings\<close> (\<^verbatim>\<open>proxy_utils.rs\<close>): proxy addresses, the system's proxy on each platform, the environment of the tunnel
    client, which inherits no proxy.
  \<^item> \<open>Network_Settings\<close> (\<^verbatim>\<open>network_commands.rs\<close>, \<^verbatim>\<open>ensure_monitor_desktop_id\<close> of \<^verbatim>\<open>main.rs\<close>): registering at a relay, starting its
    client, testing and changing the network settings. \<open>Network_Safety\<close>: a change is applied or taken back, and the client
    runs with what is on disk; \<open>Network_Steps\<close>: only the tunnel is restarted, and only while it is wanted.
  \<^item> \<open>Transport_Steps\<close>: all operations on the transports, those of a phone and of the network settings included, as one step relation with restarts; the two
    transports never run together.
  \<^item> \<open>Https_Supervisor\<close> (\<^verbatim>\<open>run\<close> of \<^verbatim>\<open>https_mcp.rs\<close>): the thread that keeps the HTTPS bridge and its transport running, one
    pass as a function; its status is honest, its tries are bounded, and nothing outlives it.
  \<^item> \<open>Https_Authorizations\<close> (\<^verbatim>\<open>https_mcp_authorizations.rs\<close>, \<^verbatim>\<open>https_mcp.rs\<close>, \<^verbatim>\<open>secrets.rs\<close>): the OAuth grants, the login
    password and its rotation, which is a step of \<open>Transport_Steps\<close>, too.
  \<^item> \<open>Monitor_Network\<close> (\<^verbatim>\<open>monitor_network.rs\<close>): the addresses at which phones reach the desktop directly. \<open>Monitor_Commands\<close>
    (\<^verbatim>\<open>monitor_commands.rs\<close>, \<^verbatim>\<open>start_monitor_service\<close>, \<^verbatim>\<open>create_pairing\<close> and \<^verbatim>\<open>monitor_info_payload\<close> of \<^verbatim>\<open>monitor_manager.rs\<close>):
    starting the server, turning the phone connection on and off, and the offer of a pairing.
  \<^item> \<open>Call_History\<close> (\<^verbatim>\<open>call_history.rs\<close>): the pages of the call history.
  \<^item> This theory composes the ends of the MCP websocket: a request body and a response cross both unchanged.

  \<^bold>\<open>Parameters and assumptions.\<close> SHA-256 (\<open>sha\<close>), HMAC verification, Base64, serde's parsers and printers,
  the URL and method syntax of the HTTP library, fresh random ids, the clocks, the operating system's calls and
  the tunnel client are arguments. Consecutive critical sections of one handler with nothing to wait for in between
  are one step, where that hides a race it is stated: \<open>crossed_sessions_leave_a_route\<close> keeps two locks
  apart. A poisoned lock (a panic while holding it) is not modelled. Fuel is used once, for the wait
  for a started tunnel: nine rounds, and \<open>wait_ends\<close> proves them enough.

  \<^bold>\<open>Not modelled.\<close> HTTP servers and clients (axum, reqwest, tokio's select loops beyond their arms), sockets and TLS of the local monitor server, key
  stores, windows, tray, deployment and diagnostics: input and output around the modelled decisions; ciphers
  and key derivation functions, which are those of libraries; Android, JavaScript and shell code.
\<close>

section \<open>From the HTTP client to the bridge and back\<close>

text \<open>The desktop's receive loop over a sequence of binary frames, each handed on in time.\<close>

fun desktop_takes :: "u8 list list \<Rightarrow> WssSession \<Rightarrow> (WssSession \<times> wss_effect list) option" where
  "desktop_takes [] s = Some (s, [])"
| "desktop_takes (f # fs) s =
     (case wss_binary Sent f s of
        None \<Rightarrow> None
      | Some (s1, es) \<Rightarrow> map_option (\<lambda>(s2, fs'). (s2, es @ fs')) (desktop_takes fs s1))"

fun fed :: "string \<Rightarrow> wss_effect list \<Rightarrow> u8 list" where
  "fed i [] = []"
| "fed i (Feed j data # es) = (if j = i then data @ fed i es else fed i es)"
| "fed i (_ # es) = fed i es"

lemma fed_append [simp]: "fed i (es @ fs) = fed i es @ fed i fs"
  by (induction i es rule: fed.induct) simp_all

lemma desktop_takes_upload:
  assumes "ws_accepted s" and "ws_version s = 2" and "ws_uploads s i = Some n"
    and "list_all (\<lambda>f. \<exists>p. decode f = Some (RequestBody, i, p)) fs"
    and "n + length (concat (map frame_body fs)) \<le> MAX_REQUEST_BYTES"
  shows "\<exists>s' es. desktop_takes fs s = Some (s', es) \<and> fed i es = concat (map frame_body fs)
     \<and> set es \<subseteq> range (Feed i) \<and> ws_uploads s' i = Some (n + length (concat (map frame_body fs)))
     \<and> ws_accepted s' \<and> ws_version s' = 2 \<and> ws_jobs s' = ws_jobs s"
  using assms
proof (induction fs arbitrary: s n)
  case (Cons f fs)
  then obtain p where p: "decode f = Some (RequestBody, i, p)" by auto
  then have body: "frame_body f = p" by (simp add: frame_body_def)
  let ?s = "s\<lparr>ws_uploads := (ws_uploads s)(i \<mapsto> n + length p)\<rparr>"
  have step: "wss_binary Sent f s = Some (?s, [Feed i p])"
    using Cons.prems p body enqueue_sent[of s i n p] by (simp add: wss_binary_def)
  obtain s' es where "desktop_takes fs ?s = Some (s', es)" "fed i es = concat (map frame_body fs)"
      "set es \<subseteq> range (Feed i)" "ws_uploads s' i = Some (n + length p + length (concat (map frame_body fs)))"
      "ws_accepted s'" "ws_version s' = 2" "ws_jobs s' = ws_jobs s"
    using Cons.IH[of ?s "n + length p"] Cons.prems body by (auto simp: add.assoc)
  then show ?case
    using step body by (intro exI[of _ s'] exI[of _ "Feed i p # es"]) (simp add: add.assoc)
qed simp

text \<open>C3: a request body crosses relay and desktop unchanged. When the relay's upload of an HTTP body ends
  regularly and the desktop takes its frames, the stream the local bridge reads gets exactly the bytes
  of that body, and it is ended by the relay's end message and by nothing before it.\<close>

theorem request_crosses_unchanged:
  assumes "stream_upload i room 0 (map Some cs) = (fs, UploadDone)" and "hex_id i" and "to_ascii_lowercase i = i"
    and "ws_accepted s" and "ws_version s = 2" and "ws_uploads s i = Some 0"
  shows "\<exists>s' es. desktop_takes fs s = Some (s', es) \<and> fed i es = concat cs \<and> set es \<subseteq> range (Feed i)
     \<and> (\<exists>s2. wss_text {} (JObject [(''type'', JString (as_str RequestEnd)), (''requestId'', JString i)]) s'
              = Some (s2, [EndBody i]) \<and> ws_uploads s2 i = None)"
proof -
  obtain ds where ds: "map Some cs = map Some ds" "frames_of RequestBody i fs"
      "concat (map frame_body fs) = concat ds" "0 + length (concat ds) \<le> MAX_REQUEST_BYTES"
    using stream_upload_done[OF assms(1,2)] by auto
  have "cs = ds"
    using ds(1) by (metis list.inj_map_strong option.inject)
  obtain s' es where r: "desktop_takes fs s = Some (s', es)" "fed i es = concat (map frame_body fs)"
      "set es \<subseteq> range (Feed i)" "ws_uploads s' i = Some (0 + length (concat (map frame_body fs)))"
      "ws_accepted s'" "ws_version s' = 2"
    using desktop_takes_upload[OF assms(4-6), of fs] ds assms(3) unfolding frames_of_def by auto
  have "wss_text {} (JObject [(''type'', JString (as_str RequestEnd)), (''requestId'', JString i)]) s'
      = Some (s'\<lparr>ws_uploads := (ws_uploads s')(i := None)\<rparr>, [EndBody i])"
    using r(4-6) by (simp add: wss_text_def json_index_def parse_kind_def WSS_PROTOCOL_V2_def)
  then show ?thesis
    using r(1-3) ds(3) \<open>cs = ds\<close> by (intro exI[of _ s'] exI[of _ es]) simp
qed

theorem request_crosses_unchanged_witness:
  "\<exists>s' es. desktop_takes [the (encode RequestBody sample_id [7])]
        (wss_start\<lparr>ws_accepted := True, ws_version := 2, ws_uploads := [sample_id \<mapsto> 0]\<rparr>) = Some (s', es)
     \<and> fed sample_id es = concat [[7]] \<and> set es \<subseteq> range (Feed sample_id)
     \<and> (\<exists>s2. wss_text {} (JObject [(''type'', JString (as_str RequestEnd)), (''requestId'', JString sample_id)]) s'
              = Some (s2, [EndBody sample_id]) \<and> ws_uploads s2 sample_id = None)"
proof (rule request_crosses_unchanged[where room = 9])
  obtain f where "encode RequestBody sample_id [7] = Some f"
    using sample_frame by blast
  then show "stream_upload sample_id 9 0 (map Some [[7]]) = ([the (encode RequestBody sample_id [7])], UploadDone)"
    by (simp add: sample_chunks usize_sat_add_def usize_max_def MAX_REQUEST_BYTES_def)
qed (simp_all add: wss_start_def)

text \<open>The relay's receive loop over what the desktop sends, each reply channel being read in time.\<close>

definition relay_takes :: "(string \<Rightarrow> u8 list option) \<Rightarrow> string \<Rightarrow> outgoing \<Rightarrow> Gateway \<Rightarrow> Gateway" where
  "relay_takes b64 sid frame gw =
     (case frame of
        OText j \<Rightarrow> receive (\<lambda>_. True) b64 sid 2 (Some j) None gw
      | OBinary f \<Rightarrow> receive (\<lambda>_. True) b64 sid 2 None (Some f) gw)"

lemma receive_text:
  assumes "hex_id i" and "gw_pending gw i = Some item"
    and "packet_reply b64 2 packet (pe_bytes item) = Some (reply, bytes)" and "json_str_at ''requestId'' packet = Some i"
  shows "receive (\<lambda>_. True) b64 (pe_session_id item) 2 (Some packet) None gw = gw\<lparr>
     gw_pending := (if terminal reply then (gw_pending gw)(i := None)
                    else (gw_pending gw)(i \<mapsto> item\<lparr>pe_bytes := bytes\<rparr>)),
     gw_errored := (if reply = R_Error then (gw_errored gw)(i := True) else gw_errored gw),
     gw_delivered := (gw_delivered gw)(i := gw_delivered gw i @ [reply])\<rparr>"
  using assms by (simp add: receive_def frame_id_def frame_reply_def terminal_iff)

lemma packet_reply_texts:
  "packet_reply b64 2 (end_packet i) n = Some (R_End, n)"
  "packet_reply b64 2 (error_packet i) n = Some (R_Error, n)"
  "200 \<le> status \<Longrightarrow> status \<le> 599 \<Longrightarrow> packet_reply b64 2 (head_packet i status hs) n
     = Some (R_Head (of_nat status) (response_headers (head_packet i status hs)), n)"
  by (simp_all add: packet_reply_def end_packet_def error_packet_def head_packet_def json_str_at_def parse_kind_def)

lemma request_id_texts:
  "json_str_at ''requestId'' (end_packet i) = Some i" "json_str_at ''requestId'' (error_packet i) = Some i"
  "json_str_at ''requestId'' (head_packet i status hs) = Some i"
  by (simp_all add: json_str_at_def end_packet_def error_packet_def head_packet_def)

lemma head_packet_headers:
  assumes "list_all (\<lambda>(k, _). allowed_response_header k) hs"
  shows "response_headers (head_packet i status hs) = hs"
proof -
  have "List.map_filter (\<lambda>(k, v). case json_as_str v of None \<Rightarrow> None
      | Some s \<Rightarrow> if allowed_response_header k then Some (k, s) else None) (map (\<lambda>(k, v). (k, JString v)) hs) = hs"
    using assms by (induction hs) (auto simp: List.map_filter_def)
  then show ?thesis by (simp add: response_headers_def head_packet_def)
qed

lemma relay_takes_binary:
  "foldl (\<lambda>gw f. relay_takes b64 sid f gw) gw (map OBinary frames)
     = foldl (\<lambda>gw f. receive (\<lambda>_. True) b64 sid 2 None (Some f) gw) gw frames"
  by (induction frames arbitrary: gw) (simp_all add: relay_takes_def)

lemma frame_reply_no_text: "frame_reply b64 v None d n = frame_reply b64' v None d n"
  by (simp add: frame_reply_def split: option.split)

lemma receive_frames_b64:
  "foldl (\<lambda>gw f. receive (\<lambda>_. True) b64 sid 2 None (Some f) gw) gw frames = receive_frames sid frames gw"
  unfolding receive_frames_def
proof (induction frames arbitrary: gw)
  case (Cons f frames)
  have "receive (\<lambda>_. True) b64 sid 2 None (Some f) gw = receive (\<lambda>_. True) (\<lambda>_. None) sid 2 None (Some f) gw"
    unfolding receive_def frame_reply_no_text[of b64 _ _ _ "\<lambda>_. None"] by (rule refl)
  with Cons show ?case by simp
qed simp

text \<open>The tail of a response body: \<open>[]\<close> when it ends regularly, a broken chunk otherwise.\<close>

lemma body_frames_taken:
  assumes "hex_id i" and "to_ascii_lowercase i = i" and "gw_pending gw i = Some item" and "pe_session_id item = sid"
    and "pe_bytes item + length (concat cs) \<le> MAX_RESPONSE" and "tail = [] \<or> (\<exists>rest. tail = None # rest)"
  shows "\<exists>ps. concat ps = concat cs
     \<and> (let gw' = foldl (\<lambda>gw f. relay_takes b64 sid f gw) gw
                   (body_frames b64enc 2 i (pe_bytes item) (map Some cs @ tail)) in
        gw_pending gw' i = None
      \<and> gw_errored gw' i = (gw_errored gw i \<or> tail \<noteq> [])
      \<and> gw_delivered gw' i = gw_delivered gw i @ map R_Chunk ps @ [if tail = [] then R_End else R_Error])"
  using assms
proof (induction cs arbitrary: gw item)
  case Nil
  have "relay_takes b64 sid (OText (end_packet i)) gw = gw\<lparr>gw_pending := (gw_pending gw)(i := None),
      gw_delivered := (gw_delivered gw)(i := gw_delivered gw i @ [R_End])\<rparr>"
    using receive_text[OF Nil(1,3) packet_reply_texts(1) request_id_texts(1)] Nil(4)
    by (simp add: relay_takes_def)
  moreover have "relay_takes b64 sid (OText (error_packet i)) gw = gw\<lparr>gw_pending := (gw_pending gw)(i := None),
      gw_errored := (gw_errored gw)(i := True), gw_delivered := (gw_delivered gw)(i := gw_delivered gw i @ [R_Error])\<rparr>"
    using receive_text[OF Nil(1,3) packet_reply_texts(2) request_id_texts(2)] Nil(4)
    by (simp add: relay_takes_def)
  ultimately show ?case
    using Nil(6) by (intro exI[of _ "[]"]) auto
next
  case (Cons c cs)
  have sum: "usize_sat_add (pe_bytes item) (length c) = pe_bytes item + length c"
      "\<not> pe_bytes item + length c > MAX_RESPONSE_BYTES"
    using Cons.prems(5) by (simp_all add: usize_sat_add_def usize_max_def MAX_RESPONSE_def MAX_RESPONSE_BYTES_def)
  obtain frames where fr: "map (encode ResponseBody i) (chunks CHUNK_BYTES c) = map Some frames"
      "map decode frames = map (\<lambda>p. Some (ResponseBody, i, p)) (chunks CHUNK_BYTES c)"
    using chunks_encoded[OF Cons.prems(1), of ResponseBody c] Cons.prems(2) by auto
  have whole: "concat (chunks CHUNK_BYTES c) = c"
    by (rule concat_chunks) (simp add: CHUNK_BYTES_def MAX_FRAME_BODY_def)
  let ?gw = "receive_frames sid frames gw"
  let ?item = "item\<lparr>pe_bytes := pe_bytes item + length c\<rparr>"
  have run: "gw_pending ?gw i = Some ?item" "gw_delivered ?gw i = gw_delivered gw i @ map R_Chunk (chunks CHUNK_BYTES c)"
      "gw_errored ?gw = gw_errored gw"
    using receive_frames_run[OF fr(2) Cons.prems(1,3)] Cons.prems(4,5) by (simp_all add: whole)
  have frames: "body_frames b64enc 2 i (pe_bytes item) (map Some (c # cs) @ tail)
      = map OBinary frames @ body_frames b64enc 2 i (pe_bytes item + length c) (map Some cs @ tail)"
    using sum piece_frames_encoded[OF fr(1), of b64enc] by (simp add: Let_def)
  obtain ps where ps: "concat ps = concat cs"
      "gw_pending (foldl (\<lambda>gw f. relay_takes b64 sid f gw) ?gw
         (body_frames b64enc 2 i (pe_bytes ?item) (map Some cs @ tail))) i = None"
      "gw_errored (foldl (\<lambda>gw f. relay_takes b64 sid f gw) ?gw
         (body_frames b64enc 2 i (pe_bytes ?item) (map Some cs @ tail))) i = (gw_errored ?gw i \<or> tail \<noteq> [])"
      "gw_delivered (foldl (\<lambda>gw f. relay_takes b64 sid f gw) ?gw
         (body_frames b64enc 2 i (pe_bytes ?item) (map Some cs @ tail))) i
       = gw_delivered ?gw i @ map R_Chunk ps @ [if tail = [] then R_End else R_Error]"
    using Cons.IH[of ?gw ?item] Cons.prems run(1) unfolding Let_def by auto
  have "foldl (\<lambda>gw f. relay_takes b64 sid f gw) gw (body_frames b64enc 2 i (pe_bytes item) (map Some (c # cs) @ tail))
      = foldl (\<lambda>gw f. relay_takes b64 sid f gw) ?gw (body_frames b64enc 2 i (pe_bytes ?item) (map Some cs @ tail))"
    unfolding frames foldl_append relay_takes_binary receive_frames_b64 by simp
  with ps run whole show ?case
    by (intro exI[of _ "chunks CHUNK_BYTES c @ ps"]) (simp add: Let_def)
qed

lemma read_body_chunks:
  "read_body e (map R_Chunk ps @ [R_End]) = (concat ps, Done True)"
  "read_body e (map R_Chunk ps @ [R_Error]) = (concat ps, body_event.Fail)"
  by (induction ps) (simp_all add: body_poll_def)



end
